(* ===== verification/Prelude.thy ===== *)
theory Prelude
  imports Complex_Main "HOL-Library.Word"
begin

text \<open>
  Shared vocabulary of the AudioRouter development: names for the fixed-width integers of the
  C++ sources, the outcome type of \<^verbatim>\<open>audiorouter::expected\<close>, little-endian byte encodings of
  packed struct members, \<^verbatim>\<open>memcpy\<close> and \<^verbatim>\<open>strncpy\<close> on lists, and the generic list and
  word lemmas the component theories rely on. The collection \<open>wire_simps\<close> gathers the length and
  round-trip facts of the encoders; \<open>size_t_simps\<close> gathers the constants of the platform.
\<close>

unbundle bit_operations_syntax

named_theorems wire_simps \<open>lengths and round trips of the byte encoders\<close>
named_theorems size_t_simps \<open>platform constants\<close>

section \<open>Machine types\<close>

type_synonym byte = "8 word"
type_synonym u8 = "8 word"
type_synonym u16 = "16 word"
type_synonym u32 = "32 word"
type_synonym u64 = "64 word"

text \<open>A PCM sample is an \<^verbatim>\<open>int16_t\<close>, kept as its 16 bits (\<open>sint\<close> reads it).\<close>

type_synonym i16 = "16 word"

text \<open>
  \<^verbatim>\<open>expected<T, std::string>\<close> is a sum: \<open>Inl\<close> is \<^verbatim>\<open>unexpected\<close> with its message.
\<close>

type_synonym 'a expected = "string + 'a"

text \<open>
  \<^verbatim>\<open>size_t\<close> has 64 bits on the platforms the sources are built for. Sizes are \<open>nat\<close>; where the
  sources guard against overflow the guard is written with this bound.
\<close>

definition SIZE_MAX :: nat where
  "SIZE_MAX = 2 ^ 64 - 1"

lemma SIZE_MAX_value [size_t_simps]: "SIZE_MAX = 18446744073709551615"
  by (simp add: SIZE_MAX_def)

section \<open>Lists as memory\<close>

text \<open>
  \<open>blit xs off src\<close> is \<^verbatim>\<open>memcpy(&xs[off], src, ...)\<close> for a destination that has room.
\<close>

definition blit :: "'a list \<Rightarrow> nat \<Rightarrow> 'a list \<Rightarrow> 'a list" where
  "blit xs off src = take off xs @ src @ drop (off + length src) xs"

lemma length_blit [simp]: "off + length src \<le> length xs \<Longrightarrow> length (blit xs off src) = length xs"
  by (simp add: blit_def)

lemma nth_blit:
  assumes "off + length src \<le> length xs" and "i < length xs"
  shows "blit xs off src ! i =
           (if off \<le> i \<and> i < off + length src then src ! (i - off) else xs ! i)"
  using assms by (auto simp: blit_def nth_append min_def)

lemma blit_Nil [simp]: "blit xs off [] = xs"
  by (simp add: blit_def)

text \<open>\<open>slice off n xs\<close> is the range \<^verbatim>\<open>[off, off + n)\<close> of a buffer.\<close>

definition slice :: "nat \<Rightarrow> nat \<Rightarrow> 'a list \<Rightarrow> 'a list" where
  "slice off n xs = take n (drop off xs)"

lemma length_slice: "off + n \<le> length xs \<Longrightarrow> length (slice off n xs) = n"
  by (simp add: slice_def)

lemma nth_slice: "off + n \<le> length xs \<Longrightarrow> i < n \<Longrightarrow> slice off n xs ! i = xs ! (off + i)"
  by (simp add: slice_def)

lemma slice_append_left: "length xs = n \<Longrightarrow> slice 0 n (xs @ ys) = xs"
  by (simp add: slice_def)

lemma slice_append_skip: "length xs \<le> off \<Longrightarrow> slice off n (xs @ ys) = slice (off - length xs) n ys"
  by (simp add: slice_def)

lemma take_replicate_append: "take n (replicate n x @ ys) = replicate n x"
  by simp

lemma drop_drop_mult: "drop (a * c) (drop (b * c) xs) = drop ((a + b) * (c::nat)) xs"
  by (simp add: algebra_simps)

lemma drop_frames_append:
  "length xs = r * c \<Longrightarrow> r \<le> n \<Longrightarrow> drop (n * c) (xs @ ys) = drop ((n - r) * c) ys"
  by (simp add: diff_mult_distrib)

lemma take_frames_append:
  "length xs = r * c \<Longrightarrow> r \<le> n \<Longrightarrow> take (n * c) (xs @ ys) = xs @ take ((n - r) * c) ys"
  by (simp add: diff_mult_distrib)

lemma mod_add_cancel_left: "(k + a) mod m = (k + b) mod m \<Longrightarrow> a mod m = b mod (m :: nat)"
proof -
  assume "(k + a) mod m = (k + b) mod m"
  then have "(int k + int a) mod int m = (int k + int b) mod int m" by (simp flip: of_nat_add zmod_int)
  then have "int a mod int m = int b mod int m" by (simp add: mod_eq_dvd_iff)
  then show ?thesis by (simp flip: zmod_int)
qed

section \<open>Little-endian encodings\<close>

fun le_encode :: "nat \<Rightarrow> nat \<Rightarrow> byte list" where
  "le_encode 0 x = []"
| "le_encode (Suc n) x = word_of_nat x # le_encode n (x div 256)"

fun le_decode :: "byte list \<Rightarrow> nat" where
  "le_decode [] = 0"
| "le_decode (b # bs) = unat b + 256 * le_decode bs"

lemma length_le_encode [simp, wire_simps]: "length (le_encode n x) = n"
  by (induction n arbitrary: x) auto

lemma unat_byte_of_nat: "unat (word_of_nat x :: byte) = x mod 256"
  by (simp add: unat_of_nat)

lemma unat_byte_less: "unat (b :: byte) < 256"
  using unsigned_less [of b, where ?'a = nat] by simp

lemma le_decode_encode: "le_decode (le_encode n x) = x mod 256 ^ n"
proof (induction n arbitrary: x)
  case 0
  then show ?case by simp
next
  case (Suc n)
  have "le_decode (le_encode (Suc n) x) = x mod 256 + 256 * (x div 256 mod 256 ^ n)"
    using Suc.IH by (simp add: unat_byte_of_nat)
  also have "\<dots> = x mod (256 * 256 ^ n)"
    by (simp add: mod_mult2_eq)
  finally show ?case by simp
qed

lemma le_decode_bound: "le_decode bs < 256 ^ length bs"
proof (induction bs)
  case Nil
  then show ?case by simp
next
  case (Cons b bs)
  have "unat b < 256" by (rule unat_byte_less)
  with Cons.IH show ?case by simp
qed

lemma le_encode_decode: "le_encode (length bs) (le_decode bs) = bs"
proof (induction bs)
  case Nil
  then show ?case by simp
next
  case (Cons b bs)
  have "unat b < 256" by (rule unat_byte_less)
  then have "(unat b + 256 * le_decode bs) div 256 = le_decode bs" by simp
  moreover have "(word_of_nat (unat b + 256 * le_decode bs) :: byte) = b"
    by (metis mod_less unat_byte_of_nat mod_mult_self2 \<open>unat b < 256\<close> word_unat_eq_iff)
  ultimately show ?case using Cons.IH by simp
qed

lemma le_decode_encode_u16 [wire_simps]:
  "(word_of_nat (le_decode (le_encode 2 (unat w))) :: u16) = w"
  using unsigned_less [of w, where ?'a = nat] by (simp add: le_decode_encode del: le_encode.simps le_decode.simps)

lemma le_decode_encode_u32 [wire_simps]:
  "(word_of_nat (le_decode (le_encode 4 (unat w))) :: u32) = w"
  using unsigned_less [of w, where ?'a = nat] by (simp add: le_decode_encode del: le_encode.simps le_decode.simps)

lemma le_decode_encode_u64 [wire_simps]:
  "(word_of_nat (le_decode (le_encode 8 (unat w))) :: u64) = w"
  using unsigned_less [of w, where ?'a = nat] by (simp add: le_decode_encode del: le_encode.simps le_decode.simps)

section \<open>Fixed-size character fields\<close>

text \<open>
  \<^verbatim>\<open>std::strncpy(field, s, sizeof(field) - 1)\<close> into a zero-initialised \<^verbatim>\<open>char field[n]\<close>: at most
  \<open>n - 1\<close> characters, up to the first NUL, then zero bytes.
\<close>

definition string_bytes :: "string \<Rightarrow> byte list" where
  "string_bytes s = map of_char s"

definition strncpy_field :: "nat \<Rightarrow> string \<Rightarrow> byte list" where
  "strncpy_field n s =
     (let cs = take (n - 1) (takeWhile (\<lambda>b. b \<noteq> 0) (string_bytes s))
      in cs @ replicate (n - length cs) 0)"

lemma length_strncpy_field [simp, wire_simps]: "0 < n \<Longrightarrow> length (strncpy_field n s) = n"
  by (auto simp: strncpy_field_def Let_def)

lemma strncpy_field_terminated: "0 < n \<Longrightarrow> last (strncpy_field n s) = 0"
  by (simp add: strncpy_field_def Let_def last_append) linarith

section \<open>Widening and narrowing\<close>

lemma unat_ucast_u32_u64 [simp]: "unat (ucast (w :: u32) :: u64) = unat w"
  using unsigned_less [of w, where ?'a = nat] by (simp add: unsigned_ucast_eq take_bit_nat_eq_self)

lemma unat_ucast_u16_u32 [simp]: "unat (ucast (w :: u16) :: u32) = unat w"
  using unsigned_less [of w, where ?'a = nat] by (simp add: unsigned_ucast_eq take_bit_nat_eq_self)

lemma unat_ucast_narrow: "unat (w :: u64) < 2 ^ 32 \<Longrightarrow> unat (ucast w :: u32) = unat w"
  by (simp add: unsigned_ucast_eq take_bit_nat_eq_self)

lemma unat_u32_less: "unat (w :: u32) < 2 ^ 32"
  using unsigned_less [of w, where ?'a = nat] by simp

section \<open>Arithmetic without wrap-around\<close>

lemma unat_mult_small:
  fixes a b :: "'a::len word"
  assumes "unat a * unat b < 2 ^ LENGTH('a)"
  shows "unat (a * b) = unat a * unat b"
  using assms unat_mult_lem by blast

lemma unat_add_small:
  fixes a b :: "'a::len word"
  assumes "unat a + unat b < 2 ^ LENGTH('a)"
  shows "unat (a + b) = unat a + unat b"
  using assms unat_add_lem by blast

lemma unat_sub_small:
  fixes a b :: "'a::len word"
  assumes "unat b \<le> unat a"
  shows "unat (a - b) = unat a - unat b"
  using assms unat_sub word_le_nat_alt by blast

lemma unat_max: "unat (max a (b :: 'a::len word)) = max (unat a) (unat b)"
  by (simp add: max_def word_le_nat_alt)

lemma unat_min: "unat (min a (b :: 'a::len word)) = min (unat a) (unat b)"
  by (simp add: min_def word_le_nat_alt)

end
