(* ===== verification/Text_Util.thy ===== *)
theory Text_Util
  imports Prelude
begin

text \<open>
  What the sources use of \<^verbatim>\<open>std::string\<close> and of the character and number functions of the standard
  library: prefix tests written \<^verbatim>\<open>s.rfind(p, 0) == 0\<close>, searching for a character, trimming,
  \<^verbatim>\<open>std::to_string\<close>, and reading a decimal number with a range check. The lemmas give the round trip
  of decimal numbers and the effect of trimming and searching on concatenations.
\<close>

definition starts_with :: "string \<Rightarrow> string \<Rightarrow> bool" where
  "starts_with n p \<longleftrightarrow> take (length p) n = p"

definition ends_with :: "string \<Rightarrow> string \<Rightarrow> bool" where
  "ends_with n p \<longleftrightarrow> length p \<le> length n \<and> drop (length n - length p) n = p"

lemma starts_with_append [simp]: "starts_with (p @ s) p"
  by (simp add: starts_with_def)

lemma starts_with_iff: "starts_with s p \<longleftrightarrow> (\<exists>r. s = p @ r)"
  by (metis append_take_drop_id append_eq_conv_conj starts_with_def)

section \<open>Characters\<close>

text \<open>\<^verbatim>\<open>std::isspace\<close> and \<^verbatim>\<open>std::isdigit\<close> in the C locale.\<close>

definition isspace :: "char \<Rightarrow> bool" where
  "isspace c \<longleftrightarrow> of_char c \<in> {32, 9, 10, 11, 12, 13 :: nat}"

definition isdigit :: "char \<Rightarrow> bool" where
  "isdigit c \<longleftrightarrow> 48 \<le> (of_char c :: nat) \<and> (of_char c :: nat) \<le> 57"

definition trim_by :: "(char \<Rightarrow> bool) \<Rightarrow> string \<Rightarrow> string" where
  "trim_by sp s = rev (dropWhile sp (rev (dropWhile sp s)))"

lemma trim_by_id:
  assumes "s = [] \<or> \<not> sp (hd s) \<and> \<not> sp (last s)"
  shows "trim_by sp s = s"
proof -
  have d: "dropWhile sp xs = xs" if "xs = [] \<or> \<not> sp (hd xs)" for xs
    using that by (cases xs) auto
  have "dropWhile sp (rev s) = rev s" by (rule d) (use assms in \<open>auto simp: hd_rev\<close>)
  then show ?thesis using d [of s] assms by (auto simp: trim_by_def)
qed

text \<open>Positions of a character: \<^verbatim>\<open>find\<close> and \<^verbatim>\<open>rfind\<close>.\<close>

fun find_char :: "char \<Rightarrow> string \<Rightarrow> nat option" where
  "find_char c [] = None"
| "find_char c (x # xs) = (if x = c then Some 0 else map_option Suc (find_char c xs))"

fun rfind_char :: "char \<Rightarrow> string \<Rightarrow> nat option" where
  "rfind_char c [] = None"
| "rfind_char c (x # xs) =
     (case rfind_char c xs of Some i \<Rightarrow> Some (Suc i) | None \<Rightarrow> if x = c then Some 0 else None)"

lemma rfind_char_None: "c \<notin> set s \<Longrightarrow> rfind_char c s = None"
  by (induction s) auto

lemma rfind_char_last: "c \<notin> set t \<Longrightarrow> rfind_char c (s @ c # t) = Some (length s)"
  by (induction s) (auto simp: rfind_char_None)

section \<open>Decimal numbers\<close>

definition digit_char :: "nat \<Rightarrow> char" where
  "digit_char d = char_of (48 + d)"

definition digit_value :: "char \<Rightarrow> nat" where
  "digit_value c = of_char c - 48"

fun to_string :: "nat \<Rightarrow> string" where
  "to_string n = (if n < 10 then [digit_char n] else to_string (n div 10) @ [digit_char (n mod 10)])"

declare to_string.simps [simp del]

definition decimal_value :: "string \<Rightarrow> nat" where
  "decimal_value s = foldl (\<lambda>a c. 10 * a + digit_value c) 0 s"

lemma of_char_digit: "d < 10 \<Longrightarrow> (of_char (digit_char d) :: nat) = 48 + d"
  by (simp add: digit_char_def)

lemma digit_value_char [simp]: "d < 10 \<Longrightarrow> digit_value (digit_char d) = d"
  by (simp add: digit_value_def of_char_digit)

lemma isdigit_digit_char: "d < 10 \<Longrightarrow> isdigit (digit_char d)"
  by (simp add: isdigit_def of_char_digit)

lemma to_string_digits: "\<forall>c \<in> set (to_string n). isdigit c"
proof (induction n rule: to_string.induct)
  case (1 n)
  then show ?case by (subst to_string.simps) (auto simp: isdigit_digit_char)
qed

lemma to_string_not_Nil [simp]: "to_string n \<noteq> []"
  by (subst to_string.simps) auto

lemma decimal_value_to_string [simp]: "decimal_value (to_string n) = n"
proof (induction n rule: to_string.induct)
  case (1 n)
  show ?case
  proof (cases "n < 10")
    case True
    then show ?thesis by (subst to_string.simps) (simp add: decimal_value_def)
  next
    case False
    then have "decimal_value (to_string n) = 10 * decimal_value (to_string (n div 10)) + digit_value (digit_char (n mod 10))"
      by (subst to_string.simps) (simp add: decimal_value_def)
    then show ?thesis using 1 [OF False] by simp
  qed
qed

text \<open>
  \<^verbatim>\<open>std::stoul\<close> on a non-empty string of digits: \<open>None\<close> is the exception \<^verbatim>\<open>out_of_range\<close> of a value
  above \<^verbatim>\<open>ULONG_MAX\<close>.
\<close>

definition stoul_digits :: "string \<Rightarrow> nat option" where
  "stoul_digits s = (if decimal_value s > SIZE_MAX then None else Some (decimal_value s))"

lemma digit_not_space: "isdigit c \<Longrightarrow> \<not> isspace c"
  by (auto simp: isdigit_def isspace_def)

lemma to_string_ends:
  "\<not> isspace (hd (to_string n)) \<and> \<not> isspace (last (to_string n))"
  using to_string_digits [of n] digit_not_space
  by (metis hd_in_set last_in_set to_string_not_Nil)

lemma trim_to_string [simp]: "trim_by isspace (to_string n) = to_string n"
  by (rule trim_by_id) (simp add: to_string_ends)

section \<open>Number parsers\<close>

text \<open>
  What \<^verbatim>\<open>strtol\<close> and \<^verbatim>\<open>strtoul\<close> read in base ten: white space, an optional sign, and the longest run
  of digits; what follows is ignored. \<open>None\<close> when there is no digit.
\<close>

definition scan_sign :: "string \<Rightarrow> bool \<times> string" where
  "scan_sign s =
     (if s \<noteq> [] \<and> hd s = CHR ''-'' then (True, tl s)
      else if s \<noteq> [] \<and> hd s = CHR ''+'' then (False, tl s) else (False, s))"

definition scan_integer :: "string \<Rightarrow> (bool \<times> nat) option" where
  "scan_integer s =
     (let (neg, s) = scan_sign (dropWhile isspace s); ds = takeWhile isdigit s
      in if ds = [] then None else Some (neg, decimal_value ds))"

text \<open>\<^verbatim>\<open>std::stoi\<close>, \<^verbatim>\<open>std::stol\<close> and \<^verbatim>\<open>std::stoul\<close>; \<open>None\<close> is an exception.\<close>

definition sto_signed :: "nat \<Rightarrow> string \<Rightarrow> int option" where
  "sto_signed bits s =
     (case scan_integer s of
        None \<Rightarrow> None
      | Some (neg, m) \<Rightarrow>
          (let v = (if neg then - int m else int m)
           in if - (2 ^ (bits - 1)) \<le> v \<and> v < 2 ^ (bits - 1) then Some v else None))"

definition stoi :: "string \<Rightarrow> int option" where "stoi = sto_signed 32"
definition stol :: "string \<Rightarrow> int option" where "stol = sto_signed 64"

definition stoul :: "string \<Rightarrow> u64 option" where
  "stoul s =
     (case scan_integer s of
        None \<Rightarrow> None
      | Some (neg, m) \<Rightarrow> if m > SIZE_MAX then None else Some (if neg then - word_of_nat m else word_of_nat m))"

lemma scan_to_string [simp]: "scan_integer (to_string n) = Some (False, n)"
proof -
  have d: "\<forall>c \<in> set (to_string n). isdigit c" by (rule to_string_digits)
  have "isdigit (hd (to_string n))" using d by simp
  then have h: "\<not> isspace (hd (to_string n))" "hd (to_string n) \<noteq> CHR ''-''" "hd (to_string n) \<noteq> CHR ''+''"
    using digit_not_space by (auto simp: isdigit_def)
  then have "dropWhile isspace (to_string n) = to_string n" by (cases "to_string n") simp_all
  moreover have "takeWhile isdigit (to_string n) = to_string n" using d by (simp add: takeWhile_eq_all_conv)
  ultimately show ?thesis using h by (simp add: scan_integer_def scan_sign_def Let_def del: takeWhile_eq_all_conv)
qed

lemma stoi_to_string: "n < 2 ^ 31 \<Longrightarrow> stoi (to_string n) = Some (int n)"
  by (simp add: stoi_def sto_signed_def)

lemma stol_to_string: "n < 2 ^ 63 \<Longrightarrow> stol (to_string n) = Some (int n)"
  by (simp add: stol_def sto_signed_def)

lemma stoul_to_string: "n < 2 ^ 64 \<Longrightarrow> stoul (to_string n) = Some (word_of_nat n)"
  by (simp add: stoul_def SIZE_MAX_def)

end
