(* ===== verification/Common_Compat.thy ===== *)
theory Common_Compat
  imports Text_Util
begin

text \<open>
  The small shared headers of \<^verbatim>\<open>src/common\<close>: the logger (\<^verbatim>\<open>logger.hpp\<close>), the clock (\<^verbatim>\<open>time_util.hpp\<close>) and the
  stand-ins for \<^verbatim>\<open>std::expected\<close> and \<^verbatim>\<open>std::span\<close>. What the C library prints for a point in time is an
  argument. The lemmas show that a span never leaves the memory it was made of and is a slice of it, that
  the log holds exactly the lines of the chosen levels in the order the threads got the lock, and how the
  clocks of different units are related.
\<close>

section \<open>Levels\<close>

datatype log_level = Trace | Debug | Info | Warn | Error | Fatal

fun level_number :: "log_level \<Rightarrow> nat" where
  "level_number Trace = 0"
| "level_number Debug = 1"
| "level_number Info = 2"
| "level_number Warn = 3"
| "level_number Error = 4"
| "level_number Fatal = 5"

lemma level_number_inject: "level_number a = level_number b \<longleftrightarrow> a = b"
  by (cases a; cases b) simp_all

instantiation log_level :: linorder
begin

definition less_eq_log_level :: "log_level \<Rightarrow> log_level \<Rightarrow> bool" where
  "less_eq_log_level a b \<longleftrightarrow> level_number a \<le> level_number b"

definition less_log_level :: "log_level \<Rightarrow> log_level \<Rightarrow> bool" where
  "less_log_level a b \<longleftrightarrow> level_number a < level_number b"

instance
  by standard (auto simp: less_eq_log_level_def less_log_level_def level_number_inject)

end

fun to_string_view :: "log_level \<Rightarrow> string" where
  "to_string_view Trace = ''TRACE''"
| "to_string_view Debug = ''DEBUG''"
| "to_string_view Info = ''INFO ''"
| "to_string_view Warn = ''WARN ''"
| "to_string_view Error = ''ERROR''"
| "to_string_view Fatal = ''FATAL''"

section \<open>The logger\<close>

record logger =
  lg_current_level :: log_level
  lg_colored :: bool
  lg_out :: string

definition Logger :: logger where
  "Logger = \<lparr>lg_current_level = Info, lg_colored = True, lg_out = []\<rparr>"

definition set_level :: "log_level \<Rightarrow> logger \<Rightarrow> logger" where
  "set_level l g = g\<lparr>lg_current_level := l\<rparr>"

definition set_colored_output :: "bool \<Rightarrow> logger \<Rightarrow> logger" where
  "set_colored_output enable g = g\<lparr>lg_colored := enable\<rparr>"

definition escape :: "string \<Rightarrow> string" where "escape code = [CHR 0x1B] @ ''['' @ code @ ''m''"

fun level_str :: "log_level \<Rightarrow> string" where
  "level_str Trace = ''[TRACE]''"
| "level_str Debug = ''[DEBUG]''"
| "level_str Info = ''[INFO ]''"
| "level_str Warn = ''[WARN ]''"
| "level_str Error = ''[ERROR]''"
| "level_str Fatal = ''[FATAL]''"

fun color_code :: "log_level \<Rightarrow> string" where
  "color_code Trace = escape ''90''"
| "color_code Debug = escape ''36''"
| "color_code Info = escape ''32''"
| "color_code Warn = escape ''33''"
| "color_code Error = escape ''31''"
| "color_code Fatal = escape ''35''"

text \<open>The milliseconds with leading zeros.\<close>

definition setw3 :: "nat \<Rightarrow> string" where
  "setw3 n = (let s = to_string n in replicate (3 - length s) (CHR ''0'') @ s)"

text \<open>One call: the level, the message, the date and time to the second, the milliseconds, and the place in the source.\<close>

record log_call =
  lc_level :: log_level
  lc_message :: string
  lc_stamp :: string
  lc_ms :: nat
  lc_file :: string
  lc_line :: nat

definition loc_suffix :: "log_call \<Rightarrow> string" where
  "loc_suffix c =
     (if lc_level c = Trace \<or> lc_level c = Debug then '' ('' @ lc_file c @ '':'' @ to_string (lc_line c) @ '')'' else [])"

definition log_line :: "bool \<Rightarrow> log_call \<Rightarrow> string" where
  "log_line colored c =
     (let prefix = lc_stamp c @ ''.'' @ setw3 (lc_ms c mod 1000) @ '' '';
          text = prefix @ level_str (lc_level c) @ '' '' @ lc_message c @ loc_suffix c
      in if colored then color_code (lc_level c) @ text @ escape ''0'' @ [CHR 0x0A] else text @ [CHR 0x0A])"

definition log_message :: "log_call \<Rightarrow> logger \<Rightarrow> logger" where
  "log_message c g =
     (if lc_level c < lg_current_level g then g else g\<lparr>lg_out := lg_out g @ log_line (lg_colored g) c\<rparr>)"

lemma log_call_frame [simp]:
  "lg_current_level (log_message c g) = lg_current_level g" "lg_colored (log_message c g) = lg_colored g"
  by (simp_all add: log_message_def)

text \<open>
  Whatever the order in which the threads get the lock, the output is the lines of the calls at or above the
  level, whole and in that order.
\<close>

lemma log_output:
  "lg_out (fold log_message cs g) =
     lg_out g @ concat (map (log_line (lg_colored g)) (filter (\<lambda>c. lg_current_level g \<le> lc_level c) cs))"
  by (induction cs arbitrary: g) (auto simp: log_message_def)

text \<open>With \<^verbatim>\<open>-v\<close> everything but the traces is printed; without it neither these nor the debug messages are.\<close>

lemma verbose_levels:
  "lc_level c < lg_current_level Logger \<longleftrightarrow> lc_level c = Trace \<or> lc_level c = Debug"
  "lc_level c < lg_current_level (set_level Debug Logger) \<longleftrightarrow> lc_level c = Trace"
  by (cases "lc_level c"; simp add: Logger_def set_level_def less_log_level_def)+

lemma setw3_length:
  assumes "n < 1000"
  shows "length (setw3 n) = 3"
proof -
  have "length (to_string n) \<le> 3"
    using assms by (simp add: to_string.simps [of n] to_string.simps [of "n div 10"] to_string.simps [of "n div 100"] div_mult2_eq [symmetric])
  then show ?thesis by (simp add: setw3_def Let_def)
qed

section \<open>Time\<close>

text \<open>The steady clock counts nanoseconds; the conversions cut off.\<close>

definition get_time_ns :: "nat \<Rightarrow> u64" where "get_time_ns ticks = word_of_nat ticks"
definition get_time_us :: "nat \<Rightarrow> u64" where "get_time_us ticks = word_of_nat (ticks div 1000)"
definition get_time_ms :: "nat \<Rightarrow> u64" where "get_time_ms ticks = word_of_nat (ticks div 1000000)"

text \<open>The ticks are a signed 64-bit count, so no conversion wraps and the clocks never go back.\<close>

lemma clocks_exact:
  assumes "ticks < 2 ^ 63"
  shows "unat (get_time_ns ticks) = ticks" "unat (get_time_us ticks) = ticks div 1000" "unat (get_time_ms ticks) = ticks div 1000000"
    "get_time_ms ticks = get_time_us ticks div 1000"
proof -
  have small: "unat (word_of_nat n :: u64) = n" if "n \<le> ticks" for n
    using that assms by (simp add: unat_of_nat take_bit_nat_eq_self)
  have us: "unat (get_time_us ticks) = ticks div 1000" and ms: "unat (get_time_ms ticks) = ticks div 1000000"
    by (simp_all add: get_time_us_def get_time_ms_def small)
  show "unat (get_time_ns ticks) = ticks" by (simp add: get_time_ns_def small)
  show "get_time_ms ticks = get_time_us ticks div 1000"
    by (simp add: word_unat_eq_iff ms us unat_div div_mult2_eq [symmetric])
  show "unat (get_time_us ticks) = ticks div 1000" "unat (get_time_ms ticks) = ticks div 1000000" by (rule us, rule ms)
qed

lemma clocks_monotone:
  assumes "a \<le> b" and "b < 2 ^ 63"
  shows "get_time_us a \<le> get_time_us b" "get_time_ms a \<le> get_time_ms b"
  using assms clocks_exact [of a] clocks_exact [of b] by (simp_all add: word_le_nat_alt div_le_mono)

section \<open>Results\<close>

text \<open>
  \<open>expected\<close> holds a value or an error; reading the other one throws, which is \<open>None\<close>.
\<close>

datatype ('t, 'e) expected = HasValue 't | Unexpected 'e

fun has_value :: "('t, 'e) expected \<Rightarrow> bool" where
  "has_value (HasValue _) = True"
| "has_value (Unexpected _) = False"

fun expected_value :: "('t, 'e) expected \<Rightarrow> 't option" where
  "expected_value (HasValue v) = Some v"
| "expected_value (Unexpected _) = None"

fun expected_error :: "('t, 'e) expected \<Rightarrow> 'e option" where
  "expected_error (HasValue _) = None"
| "expected_error (Unexpected e) = Some e"

text \<open>A caller that tests \<open>has_value\<close> never reads the wrong one.\<close>

lemma expected_safe:
  "has_value x \<longleftrightarrow> expected_value x \<noteq> None" "\<not> has_value x \<longleftrightarrow> expected_error x \<noteq> None"
  by (cases x; simp)+

section \<open>Spans\<close>

definition dynamic_extent :: nat where "dynamic_extent = 2 ^ 64 - 1"

text \<open>A span is a position in the memory and a number of elements.\<close>

record span =
  sp_data :: nat
  sp_size :: nat

definition span_first :: "nat \<Rightarrow> span \<Rightarrow> span" where
  "span_first n s = \<lparr>sp_data = sp_data s, sp_size = (if n < sp_size s then n else sp_size s)\<rparr>"

definition span_last :: "nat \<Rightarrow> span \<Rightarrow> span" where
  "span_last n s =
     \<lparr>sp_data = sp_data s + (if sp_size s > n then sp_size s - n else 0), sp_size = (if n < sp_size s then n else sp_size s)\<rparr>"

definition subspan :: "nat \<Rightarrow> nat \<Rightarrow> span \<Rightarrow> span" where
  "subspan offset count s =
     (let offset = (if offset > sp_size s then sp_size s else offset);
          remaining = sp_size s - offset;
          count = (if count = dynamic_extent \<or> count > remaining then remaining else count)
      in \<lparr>sp_data = sp_data s + offset, sp_size = count\<rparr>)"

definition span_view :: "'a list \<Rightarrow> span \<Rightarrow> 'a list" where
  "span_view mem s = take (sp_size s) (drop (sp_data s) mem)"

definition span_inside :: "'a list \<Rightarrow> span \<Rightarrow> bool" where
  "span_inside mem s \<longleftrightarrow> sp_data s + sp_size s \<le> length mem"

text \<open>
  Any part of a span that lies in its memory lies there too, and is the slice of the elements that the
  operation names, for every argument, also one beyond the end.
\<close>

theorem span_parts:
  assumes "span_inside mem s" and "sp_size s < dynamic_extent"
  shows "span_inside mem (span_first n s) \<and> span_view mem (span_first n s) = take n (span_view mem s) \<and>
         span_inside mem (span_last n s) \<and> span_view mem (span_last n s) = drop (sp_size s - n) (span_view mem s) \<and>
         span_inside mem (subspan k m s) \<and> span_view mem (subspan k m s) = take m (drop k (span_view mem s))"
proof -
  have d: "length (span_view mem s) = sp_size s" using assms(1) by (simp add: span_view_def span_inside_def)
  have "span_inside mem (span_first n s) \<and> span_view mem (span_first n s) = take n (span_view mem s)"
    using assms(1) by (simp add: span_first_def span_view_def span_inside_def min_def)
  moreover have "span_inside mem (span_last n s) \<and> span_view mem (span_last n s) = drop (sp_size s - n) (span_view mem s)"
    using assms(1) by (auto simp: span_last_def span_view_def span_inside_def drop_take add.commute)
  moreover have "span_inside mem (subspan k m s) \<and> span_view mem (subspan k m s) = take m (drop k (span_view mem s))"
    using assms by (auto simp: subspan_def span_view_def span_inside_def drop_take add.commute Let_def)
  ultimately show ?thesis by blast
qed

theorem span_parts_witness:
  "span_view [1 :: nat, 2, 3, 4] (subspan 1 9 \<lparr>sp_data = 1, sp_size = 3\<rparr>) = [3, 4]"
  using span_parts [of "[1 :: nat, 2, 3, 4]" "\<lparr>sp_data = 1, sp_size = 3\<rparr>" 0 1 9]
  by (simp add: span_inside_def dynamic_extent_def span_view_def)

end
