(* ===== verification/Ring_Buffer.thy ===== *)
theory Ring_Buffer
  imports Prelude
begin

text \<open>
  \<^verbatim>\<open>src/common/ring_buffer.hpp\<close>: the class template \<^verbatim>\<open>RingBuffer<T>\<close> with every public
  operation. Each call holds the buffer's mutex from its first access to its return, so a call is
  one atomic step and is modelled as one function on the members. The abstraction \<open>rb_list\<close> reads
  the buffered items, oldest first; under the class invariant \<open>rb_inv\<close> every operation refines the
  obvious list operation. The locale \<open>bounded_fifo\<close> states that contract and derives the
  first-in-first-out law from it; the class is an interpretation.
\<close>

section \<open>State and operations\<close>

record 'a ring_buffer =
  rb_capacity :: nat
  rb_buffer :: "'a list"
  rb_head :: nat
  rb_tail :: nat
  rb_count :: nat

datatype rb_exception = InvalidArgument string

text \<open>The constructor; \<open>t0\<close> is the value-initialised \<^verbatim>\<open>T{}\<close>.\<close>

definition RingBuffer :: "'a \<Rightarrow> nat \<Rightarrow> rb_exception + 'a ring_buffer" where
  "RingBuffer t0 capacity_items =
     (if capacity_items = 0 then Inl (InvalidArgument ''RingBuffer capacity must be >0'')
      else if capacity_items > 2 ^ 28
      then Inl (InvalidArgument ''RingBuffer capacity unreasonably large'')
      else Inr \<lparr>rb_capacity = capacity_items, rb_buffer = replicate capacity_items t0,
                rb_head = 0, rb_tail = 0, rb_count = 0\<rparr>)"

text \<open>Move construction: the new object and the moved-from one.\<close>

definition rb_move :: "'a ring_buffer \<Rightarrow> 'a ring_buffer \<times> 'a ring_buffer" where
  "rb_move other =
     (\<lparr>rb_capacity = rb_capacity other, rb_buffer = rb_buffer other, rb_head = rb_head other,
       rb_tail = rb_tail other, rb_count = rb_count other\<rparr>,
      other\<lparr>rb_capacity := 0, rb_buffer := [], rb_head := 0, rb_tail := 0, rb_count := 0\<rparr>)"

definition rb_resize :: "'a \<Rightarrow> nat \<Rightarrow> 'a ring_buffer \<Rightarrow> rb_exception + 'a ring_buffer" where
  "rb_resize t0 new_capacity rb =
     (if new_capacity = 0 then Inl (InvalidArgument ''resize capacity must be >0'')
      else Inr (rb\<lparr>rb_capacity := new_capacity, rb_buffer := replicate new_capacity t0,
                   rb_head := 0, rb_tail := 0, rb_count := 0\<rparr>))"

definition rb_clear :: "'a ring_buffer \<Rightarrow> 'a ring_buffer" where
  "rb_clear rb = rb\<lparr>rb_head := 0, rb_tail := 0, rb_count := 0\<rparr>"

definition rb_size :: "'a ring_buffer \<Rightarrow> nat" where
  "rb_size rb = rb_count rb"

definition rb_free_space :: "'a ring_buffer \<Rightarrow> nat" where
  "rb_free_space rb = rb_capacity rb - rb_count rb"

definition rb_empty :: "'a ring_buffer \<Rightarrow> bool" where
  "rb_empty rb = (rb_count rb = 0)"

definition rb_full :: "'a ring_buffer \<Rightarrow> bool" where
  "rb_full rb = (rb_count rb = rb_capacity rb)"

text \<open>The copy helpers, in the \<^verbatim>\<open>memcpy\<close> branch both instantiations of the template take.\<close>

definition copy_to_buffer :: "nat \<Rightarrow> 'a list \<Rightarrow> 'a ring_buffer \<Rightarrow> 'a ring_buffer" where
  "copy_to_buffer offset src rb =
     (if length src = 0 then rb
      else if length src > rb_capacity rb then rb
      else rb\<lparr>rb_buffer := blit (rb_buffer rb) offset src\<rparr>)"

definition copy_from_buffer :: "nat \<Rightarrow> nat \<Rightarrow> 'a ring_buffer \<Rightarrow> 'a list" where
  "copy_from_buffer offset n rb = (if n = 0 then [] else slice offset n (rb_buffer rb))"

text \<open>
  The block that \<^verbatim>\<open>write\<close>, \<^verbatim>\<open>write_overwrite\<close> and \<^verbatim>\<open>try_write\<close> share: up to two copies, the
  new head and the new count.
\<close>

definition store_wrapped :: "'a list \<Rightarrow> 'a ring_buffer \<Rightarrow> 'a ring_buffer" where
  "store_wrapped data rb =
     (let first_chunk = min (length data) (rb_capacity rb - rb_head rb);
          rb1 = copy_to_buffer (rb_head rb) (take first_chunk data) rb;
          second_chunk = length data - first_chunk;
          rb2 = (if second_chunk > 0
                 then (copy_to_buffer 0 (drop first_chunk data) rb1)\<lparr>rb_head := second_chunk\<rparr>
                 else rb1\<lparr>rb_head := (rb_head rb + first_chunk) mod rb_capacity rb\<rparr>)
      in rb2\<lparr>rb_count := rb_count rb + length data\<rparr>)"

text \<open>A raw-pointer argument is \<open>None\<close> when null; its item count is the list's length.\<close>

definition rb_write :: "'a list option \<Rightarrow> 'a ring_buffer \<Rightarrow> nat \<times> 'a ring_buffer" where
  "rb_write src rb =
     (case src of
        None \<Rightarrow> (0, rb)
      | Some data \<Rightarrow>
          if length data = 0 then (0, rb)
          else if rb_capacity rb = 0 then (0, rb)
          else (let free = (if rb_count rb < rb_capacity rb then rb_capacity rb - rb_count rb else 0);
                    to_write = min (length data) free
                in if to_write = 0 then (0, rb)
                   else (to_write, store_wrapped (take to_write data) rb)))"

definition rb_write_overwrite :: "'a list option \<Rightarrow> 'a ring_buffer \<Rightarrow> nat \<times> 'a ring_buffer" where
  "rb_write_overwrite src rb =
     (case src of
        None \<Rightarrow> (0, rb)
      | Some data \<Rightarrow>
          if length data = 0 then (0, rb)
          else if rb_capacity rb = 0 then (0, rb)
          else if length data \<ge> rb_capacity rb
          then (rb_capacity rb,
                (copy_to_buffer 0 (drop (length data - rb_capacity rb) data) rb)
                  \<lparr>rb_head := 0, rb_tail := 0, rb_count := rb_capacity rb\<rparr>)
          else (let free_slots =
                      (if rb_count rb < rb_capacity rb then rb_capacity rb - rb_count rb else 0);
                    rb1 = (if length data > free_slots
                           then (let n = length data - free_slots in
                                 rb\<lparr>rb_tail := (rb_tail rb + n) mod rb_capacity rb,
                                    rb_count := rb_count rb - n\<rparr>)
                           else rb)
                in (length data, store_wrapped data rb1)))"

text \<open>Reading \<open>n\<close> items from the tail: the items copied to the destination.\<close>

definition load_wrapped :: "nat \<Rightarrow> 'a ring_buffer \<Rightarrow> 'a list" where
  "load_wrapped to_read rb =
     (let first_chunk = min to_read (rb_capacity rb - rb_tail rb);
          second_chunk = to_read - first_chunk
      in copy_from_buffer (rb_tail rb) first_chunk rb @
         (if second_chunk > 0 then copy_from_buffer 0 second_chunk rb else []))"

text \<open>\<open>dest\<close> says whether the destination pointer is non-null; the items read come first.\<close>

definition rb_read :: "bool \<Rightarrow> nat \<Rightarrow> 'a ring_buffer \<Rightarrow> 'a list \<times> 'a ring_buffer" where
  "rb_read dest count rb =
     (if \<not> dest \<or> count = 0 then ([], rb)
      else if rb_count rb = 0 then ([], rb)
      else (let to_read = min count (rb_count rb);
                first_chunk = min to_read (rb_capacity rb - rb_tail rb);
                second_chunk = to_read - first_chunk;
                new_tail = (if second_chunk > 0 then second_chunk
                            else (rb_tail rb + first_chunk) mod rb_capacity rb)
            in (load_wrapped to_read rb,
                rb\<lparr>rb_tail := new_tail, rb_count := rb_count rb - to_read\<rparr>)))"

text \<open>The destination's contents after the call, and the number of items really read.\<close>

definition rb_read_pad_silence ::
  "nat \<Rightarrow> 'a \<Rightarrow> 'a ring_buffer \<Rightarrow> nat \<times> 'a list \<times> 'a ring_buffer" where
  "rb_read_pad_silence count silence_val rb =
     (if count = 0 then (0, [], rb)
      else (let (items, rb') = rb_read True count rb; n = length items
            in (n, items @ replicate (count - n) silence_val, rb')))"

definition rb_peek :: "bool \<Rightarrow> nat \<Rightarrow> 'a ring_buffer \<Rightarrow> 'a list" where
  "rb_peek dest count rb =
     (if \<not> dest \<or> count = 0 then []
      else if rb_count rb = 0 then []
      else load_wrapped (min count (rb_count rb)) rb)"

definition rb_skip :: "nat \<Rightarrow> 'a ring_buffer \<Rightarrow> nat \<times> 'a ring_buffer" where
  "rb_skip count rb =
     (let to_skip = min count (rb_count rb) in
      (to_skip,
       rb\<lparr>rb_tail := (rb_tail rb + to_skip) mod (if rb_capacity rb \<noteq> 0 then rb_capacity rb else 1),
          rb_count := rb_count rb - to_skip\<rparr>))"

definition rb_try_write :: "'a list \<Rightarrow> 'a ring_buffer \<Rightarrow> nat expected \<times> 'a ring_buffer" where
  "rb_try_write src rb =
     (if src = [] then (Inr 0, rb)
      else (let free = (if rb_count rb < rb_capacity rb then rb_capacity rb - rb_count rb else 0) in
            if length src > free then (Inl ''RingBuffer full - not enough free space'', rb)
            else (Inr (length src), store_wrapped src rb)))"

section \<open>Abstraction and invariant\<close>

definition rb_list :: "'a ring_buffer \<Rightarrow> 'a list" where
  "rb_list rb =
     map (\<lambda>i. rb_buffer rb ! ((rb_tail rb + i) mod rb_capacity rb)) [0..<rb_count rb]"

definition rb_inv :: "'a ring_buffer \<Rightarrow> bool" where
  "rb_inv rb \<longleftrightarrow>
     0 < rb_capacity rb \<and> length (rb_buffer rb) = rb_capacity rb \<and>
     rb_tail rb < rb_capacity rb \<and> rb_count rb \<le> rb_capacity rb \<and>
     rb_head rb = (rb_tail rb + rb_count rb) mod rb_capacity rb"

lemma length_rb_list [simp]: "length (rb_list rb) = rb_count rb"
  by (simp add: rb_list_def)

lemma take_min_count [simp]: "take (min n (rb_count rb)) (rb_list rb) = take n (rb_list rb)"
  by (cases "n \<le> rb_count rb") auto

lemma rb_list_count_0: "rb_count rb = 0 \<Longrightarrow> rb_list rb = []"
  by (simp add: rb_list_def)

lemma mod_below_twice: "x < 2 * c \<Longrightarrow> x mod c = (if x < c then x else x - c)" for x c :: nat
  by (simp add: mod_if)

lemma rb_inv_head: "rb_inv rb \<Longrightarrow> rb_head rb < rb_capacity rb"
  by (simp add: rb_inv_def)

text \<open>After the two copies, the slot \<open>k\<close> places past the old head holds item \<open>k\<close>.\<close>

lemma nth_store_wrapped:
  assumes inv: "rb_inv rb" and len: "length data \<le> rb_capacity rb" and j: "j < rb_capacity rb"
  shows "rb_buffer (store_wrapped data rb) ! j =
           (let k = (j + rb_capacity rb - rb_head rb) mod rb_capacity rb in
            if k < length data then data ! k else rb_buffer rb ! j)"
proof -
  let ?c = "rb_capacity rb" and ?h = "rb_head rb"
  let ?f = "min (length data) (?c - ?h)"
  have h: "?h < ?c" using inv by (rule rb_inv_head)
  have buf: "rb_buffer (store_wrapped data rb) =
          blit (blit (rb_buffer rb) ?h (take ?f data)) 0 (drop ?f data)"
    using len by (auto simp: store_wrapped_def Let_def copy_to_buffer_def)
  have l: "length (rb_buffer rb) = ?c" using inv by (simp add: rb_inv_def)
  have k: "(j + ?c - ?h) mod ?c = (if ?h \<le> j then j - ?h else j + ?c - ?h)"
    using j h by (auto simp: mod_below_twice)
  show ?thesis
    unfolding buf Let_def k using l h j len
    by (subst nth_blit; (subst nth_blit)?) (auto simp: min_def nth_append add.commute)
qed

lemma store_wrapped_sel [simp]:
  "rb_capacity (store_wrapped data rb) = rb_capacity rb"
  "rb_tail (store_wrapped data rb) = rb_tail rb"
  "rb_count (store_wrapped data rb) = rb_count rb + length data"
  by (simp_all add: store_wrapped_def Let_def copy_to_buffer_def)

lemma store_wrapped_head:
  assumes "rb_inv rb" and "rb_count rb + length data \<le> rb_capacity rb"
  shows "rb_head (store_wrapped data rb) = (rb_head rb + length data) mod rb_capacity rb"
proof -
  have h: "rb_head rb < rb_capacity rb" using assms(1) by (rule rb_inv_head)
  then have "rb_head rb + length data < 2 * rb_capacity rb" using assms(2) by linarith
  with h show ?thesis
    using assms(2) by (auto simp: store_wrapped_def Let_def copy_to_buffer_def min_def mod_below_twice)
qed

lemma length_store_wrapped [simp]:
  assumes "rb_inv rb" and "length data \<le> rb_capacity rb"
  shows "length (rb_buffer (store_wrapped data rb)) = rb_capacity rb"
  using assms rb_inv_head [OF assms(1)]
  by (auto simp: store_wrapped_def Let_def copy_to_buffer_def rb_inv_def min_def)

lemma rb_inv_store_wrapped:
  assumes inv: "rb_inv rb" and len: "rb_count rb + length data \<le> rb_capacity rb"
  shows "rb_inv (store_wrapped data rb)"
  using inv len store_wrapped_head [OF inv len] length_store_wrapped [OF inv, of data]
  by (simp add: rb_inv_def add.assoc mod_add_left_eq)

text \<open>The central step: the shared store block appends to the abstract queue.\<close>

lemma rb_list_store_wrapped:
  assumes inv: "rb_inv rb" and len: "rb_count rb + length data \<le> rb_capacity rb"
  shows "rb_list (store_wrapped data rb) = rb_list rb @ data"
proof (rule nth_equalityI)
  show "length (rb_list (store_wrapped data rb)) = length (rb_list rb @ data)" by simp
next
  fix i assume "i < length (rb_list (store_wrapped data rb))"
  then have i: "i < rb_count rb + length data" by simp
  let ?c = "rb_capacity rb" and ?t = "rb_tail rb" and ?n = "rb_count rb"
  let ?j = "(?t + i) mod ?c"
  have t: "?t < ?c" and c: "0 < ?c" and h: "rb_head rb = (?t + ?n) mod ?c"
    using inv by (auto simp: rb_inv_def)
  have j: "?j < ?c" using c by simp
  have k: "(?j + ?c - rb_head rb) mod ?c = (if ?n \<le> i then i - ?n else ?c + i - ?n)"
    unfolding h using t i len by (auto simp: mod_below_twice)
  have "rb_list (store_wrapped data rb) ! i = rb_buffer (store_wrapped data rb) ! ?j"
    using i by (simp add: rb_list_def)
  also have "\<dots> = (if ?n \<le> i then data ! (i - ?n) else rb_buffer rb ! ?j)"
    using nth_store_wrapped [OF inv _ j, of data] len i unfolding k by (auto simp: Let_def)
  also have "\<dots> = (rb_list rb @ data) ! i"
    using i by (auto simp: nth_append rb_list_def)
  finally show "rb_list (store_wrapped data rb) ! i = (rb_list rb @ data) ! i" .
qed

text \<open>The two reads return a prefix of the abstract queue.\<close>

lemma load_wrapped_eq:
  assumes inv: "rb_inv rb" and n: "n \<le> rb_count rb"
  shows "load_wrapped n rb = take n (rb_list rb)"
proof (rule nth_equalityI)
  have b: "length (rb_buffer rb) = rb_capacity rb" "rb_tail rb < rb_capacity rb"
    "rb_count rb \<le> rb_capacity rb"
    using inv by (auto simp: rb_inv_def)
  show len: "length (load_wrapped n rb) = length (take n (rb_list rb))"
    using b n by (auto simp: load_wrapped_def copy_from_buffer_def Let_def length_slice slice_def)
  fix i assume "i < length (load_wrapped n rb)"
  then have i: "i < n" using len n by simp
  have "(rb_tail rb + i) mod rb_capacity rb =
        (if rb_tail rb + i < rb_capacity rb then rb_tail rb + i else rb_tail rb + i - rb_capacity rb)"
    using b i n by (intro mod_below_twice) linarith
  then show "load_wrapped n rb ! i = take n (rb_list rb) ! i"
    using b i n
    by (auto simp: load_wrapped_def copy_from_buffer_def Let_def rb_list_def nth_append slice_def
        min_def add.commute)
qed

text \<open>Moving the tail drops a prefix; the head stays where the invariant puts it.\<close>

lemma tail_advance:
  assumes inv: "rb_inv rb" and n: "n \<le> rb_count rb"
  shows "rb_inv (rb\<lparr>rb_tail := (rb_tail rb + n) mod rb_capacity rb, rb_count := rb_count rb - n\<rparr>)"
    and "rb_list (rb\<lparr>rb_tail := (rb_tail rb + n) mod rb_capacity rb, rb_count := rb_count rb - n\<rparr>) =
         drop n (rb_list rb)"
proof -
  have "((rb_tail rb + n) mod rb_capacity rb + (rb_count rb - n)) mod rb_capacity rb =
        (rb_tail rb + rb_count rb) mod rb_capacity rb"
    using n by (metis add.assoc le_add_diff_inverse mod_add_left_eq)
  then show "rb_inv (rb\<lparr>rb_tail := (rb_tail rb + n) mod rb_capacity rb,
                        rb_count := rb_count rb - n\<rparr>)"
    using inv n by (auto simp: rb_inv_def)
  show "rb_list (rb\<lparr>rb_tail := (rb_tail rb + n) mod rb_capacity rb, rb_count := rb_count rb - n\<rparr>) =
        drop n (rb_list rb)"
    using n by (intro nth_equalityI) (auto simp: rb_list_def mod_add_left_eq add.assoc)
qed

lemma read_tail_eq:
  assumes "rb_inv rb" and "n \<le> rb_count rb"
  shows "(if n - min n (rb_capacity rb - rb_tail rb) > 0
          then n - min n (rb_capacity rb - rb_tail rb)
          else (rb_tail rb + min n (rb_capacity rb - rb_tail rb)) mod rb_capacity rb) =
         (rb_tail rb + n) mod rb_capacity rb"
proof -
  have "rb_tail rb < rb_capacity rb" "rb_tail rb + n < 2 * rb_capacity rb"
    using assms by (auto simp: rb_inv_def)
  then show ?thesis by (auto simp: min_def mod_below_twice)
qed

section \<open>What each operation does to the queue\<close>

lemma rb_write_refines:
  assumes inv: "rb_inv rb" and w: "rb_write (Some data) rb = (n, rb')"
  shows "n = min (length data) (rb_capacity rb - rb_count rb)"
    and "rb_list rb' = rb_list rb @ take n data" and "rb_inv rb'"
    and "rb_capacity rb' = rb_capacity rb"
proof -
  have c: "0 < rb_capacity rb" "rb_count rb \<le> rb_capacity rb" using inv by (auto simp: rb_inv_def)
  have n: "n = min (length data) (rb_capacity rb - rb_count rb)"
    using w c by (auto simp: rb_write_def Let_def split: if_splits)
  then show "n = min (length data) (rb_capacity rb - rb_count rb)" .
  have rb': "rb' = (if n = 0 then rb else store_wrapped (take n data) rb)"
    using w c by (auto simp: rb_write_def Let_def min_def split: if_splits)
  have fit: "rb_count rb + length (take n data) \<le> rb_capacity rb" using n c by auto
  show "rb_list rb' = rb_list rb @ take n data" "rb_inv rb'" "rb_capacity rb' = rb_capacity rb"
    using rb_list_store_wrapped [OF inv fit] rb_inv_store_wrapped [OF inv fit] inv
    by (simp_all add: rb')
qed

lemma rb_read_refines:
  assumes inv: "rb_inv rb" and r: "rb_read True count rb = (items, rb')"
  shows "items = take count (rb_list rb)" and "rb_list rb' = drop count (rb_list rb)"
    and "rb_inv rb'" and "rb_capacity rb' = rb_capacity rb"
proof -
  let ?n = "min count (rb_count rb)"
  have n: "?n \<le> rb_count rb" by simp
  have *: "items = load_wrapped ?n rb \<and>
     rb' = rb\<lparr>rb_tail := (rb_tail rb + ?n) mod rb_capacity rb, rb_count := rb_count rb - ?n\<rparr>"
  proof (cases "count = 0 \<or> rb_count rb = 0")
    case True
    then have "rb_read True count rb = ([], rb)"
      by (cases "count = 0") (simp_all add: rb_read_def)
    then have "items = []" "rb' = rb" using r by simp_all
    moreover have "rb = rb\<lparr>rb_tail := (rb_tail rb + ?n) mod rb_capacity rb,
                           rb_count := rb_count rb - ?n\<rparr>"
      using True inv by (intro ring_buffer.equality) (auto simp: rb_inv_def)
    ultimately show ?thesis
      using True by (auto simp: load_wrapped_def copy_from_buffer_def)
  next
    case False
    then have "rb_read True count rb =
      (load_wrapped ?n rb,
       rb\<lparr>rb_tail := (rb_tail rb + ?n) mod rb_capacity rb, rb_count := rb_count rb - ?n\<rparr>)"
      unfolding rb_read_def Let_def read_tail_eq [OF inv n] by simp
    with r show ?thesis by simp
  qed
  then show "items = take count (rb_list rb)"
    using load_wrapped_eq [OF inv n] by simp
  have d: "drop ?n (rb_list rb) = drop count (rb_list rb)" by (simp add: min_def)
  show "rb_list rb' = drop count (rb_list rb)" "rb_inv rb'" "rb_capacity rb' = rb_capacity rb"
    using * tail_advance [OF inv n] d by simp_all
qed

lemma rb_write_overwrite_refines:
  assumes inv: "rb_inv rb" and w: "rb_write_overwrite (Some data) rb = (n, rb')"
  shows "n = min (length data) (rb_capacity rb)"
    and "rb_list rb' =
           drop (rb_count rb + length data - rb_capacity rb) (rb_list rb @ data)"
    and "rb_inv rb'" and "rb_capacity rb' = rb_capacity rb"
proof -
  let ?c = "rb_capacity rb"
  have c: "0 < ?c" "rb_count rb \<le> ?c" "length (rb_buffer rb) = ?c" using inv by (auto simp: rb_inv_def)
  have "n = min (length data) ?c \<and>
        rb_list rb' = drop (rb_count rb + length data - ?c) (rb_list rb @ data) \<and>
        rb_inv rb' \<and> rb_capacity rb' = ?c"
  proof (cases "data = []")
    case True
    with w c inv show ?thesis by (auto simp: rb_write_overwrite_def)
  next
    case False
    show ?thesis
    proof (cases "?c \<le> length data")
      case True
      let ?d = "drop (length data - ?c) data"
      have rb': "rb' = rb\<lparr>rb_buffer := ?d, rb_head := 0, rb_tail := 0, rb_count := ?c\<rparr>"
        and n: "n = ?c"
        using w False True c
        by (auto simp: rb_write_overwrite_def copy_to_buffer_def blit_def split: if_splits)
      have "rb_list rb' = ?d"
        using True c by (intro nth_equalityI) (auto simp: rb' rb_list_def)
      moreover have "rb_inv rb'" using True c by (simp add: rb' rb_inv_def)
      ultimately show ?thesis using True n c by (simp add: rb' Nat.diff_diff_eq)
    next
      case small: False
      let ?k = "rb_count rb + length data - ?c"
      let ?rb1 = "rb\<lparr>rb_tail := (rb_tail rb + ?k) mod ?c, rb_count := rb_count rb - ?k\<rparr>"
      have k: "?k \<le> rb_count rb" using small c by simp
      have rb1: "(if length data > ?c - rb_count rb then ?rb1 else rb) = ?rb1"
        using inv by (auto simp: rb_inv_def intro: ring_buffer.equality)
      have "rb' = store_wrapped data ?rb1 \<and> n = length data"
      proof -
        have "(if rb_count rb < ?c then ?c - rb_count rb else 0) = ?c - rb_count rb" by simp
        moreover have "length data - (?c - rb_count rb) = ?k" if "length data > ?c - rb_count rb"
          using that c by linarith
        ultimately show ?thesis
          using w False small c rb1
          unfolding rb_write_overwrite_def option.case Let_def by (auto split: if_splits)
      qed
      moreover have fit: "rb_count ?rb1 + length data \<le> rb_capacity ?rb1" using small c by simp
      moreover note rb_list_store_wrapped [OF tail_advance(1) [OF inv k] fit]
        rb_inv_store_wrapped [OF tail_advance(1) [OF inv k] fit]
      ultimately show ?thesis
        using small tail_advance(2) [OF inv k] k by simp
    qed
  qed
  then show "n = min (length data) ?c"
    "rb_list rb' = drop (rb_count rb + length data - ?c) (rb_list rb @ data)"
    "rb_inv rb'" "rb_capacity rb' = ?c" by auto
qed

lemma rb_peek_refines: "rb_inv rb \<Longrightarrow> rb_peek True count rb = take count (rb_list rb)"
  by (auto simp: rb_peek_def load_wrapped_eq rb_list_count_0)

lemma rb_skip_refines:
  assumes inv: "rb_inv rb" and s: "rb_skip count rb = (n, rb')"
  shows "n = min count (rb_count rb)" and "rb_list rb' = drop count (rb_list rb)"
    and "rb_inv rb'" and "rb_capacity rb' = rb_capacity rb"
proof -
  let ?n = "min count (rb_count rb)"
  have c: "rb_capacity rb \<noteq> 0" using inv by (simp add: rb_inv_def)
  then have *: "n = ?n"
    "rb' = rb\<lparr>rb_tail := (rb_tail rb + ?n) mod rb_capacity rb, rb_count := rb_count rb - ?n\<rparr>"
    using s by (auto simp: rb_skip_def Let_def)
  have d: "drop ?n (rb_list rb) = drop count (rb_list rb)" by (simp add: min_def)
  show "n = ?n" "rb_list rb' = drop count (rb_list rb)" "rb_inv rb'"
    "rb_capacity rb' = rb_capacity rb"
    using * tail_advance [OF inv, of ?n] d by simp_all
qed

lemma rb_try_write_refines:
  assumes inv: "rb_inv rb"
  shows "rb_try_write src rb =
           (if rb_count rb + length src \<le> rb_capacity rb
            then (Inr (length src), if src = [] then rb else store_wrapped src rb)
            else (Inl ''RingBuffer full - not enough free space'', rb))"
  using inv by (cases src) (auto simp: rb_try_write_def Let_def rb_inv_def)

lemma rb_clear_refines: "rb_inv rb \<Longrightarrow> rb_inv (rb_clear rb) \<and> rb_list (rb_clear rb) = []"
  by (auto simp: rb_inv_def rb_clear_def rb_list_def)

lemma RingBuffer_refines: "RingBuffer t0 n = Inr rb \<Longrightarrow> rb_inv rb \<and> rb_list rb = [] \<and> rb_capacity rb = n"
  by (auto simp: RingBuffer_def rb_inv_def rb_list_def split: if_splits)

section \<open>The bounded FIFO contract\<close>

text \<open>
  A client of a bounded FIFO only needs the laws below. \<open>put\<close> returns how many items it took,
  \<open>get\<close> the items it delivered. \<open>fifo_run\<close> is a client that issues any sequence of calls and
  records what was accepted and what was delivered.
\<close>

datatype 'a fifo_op = Put "'a list" | Get nat

fun fifo_run ::
  "('a list \<Rightarrow> 'q \<Rightarrow> nat \<times> 'q) \<Rightarrow> (nat \<Rightarrow> 'q \<Rightarrow> 'a list \<times> 'q) \<Rightarrow>
   'a fifo_op list \<Rightarrow> 'q \<Rightarrow> 'a list \<times> 'a list \<times> 'q" where
  "fifo_run put get [] q = ([], [], q)"
| "fifo_run put get (Put xs # ops) q =
     (let (n, q1) = put xs q; (acc, out, q2) = fifo_run put get ops q1
      in (take n xs @ acc, out, q2))"
| "fifo_run put get (Get k # ops) q =
     (let (ys, q1) = get k q; (acc, out, q2) = fifo_run put get ops q1
      in (acc, ys @ out, q2))"

locale bounded_fifo =
  fixes invar :: "'q \<Rightarrow> bool"
    and items :: "'q \<Rightarrow> 'a list"
    and limit :: "'q \<Rightarrow> nat"
    and put :: "'a list \<Rightarrow> 'q \<Rightarrow> nat \<times> 'q"
    and get :: "nat \<Rightarrow> 'q \<Rightarrow> 'a list \<times> 'q"
  assumes put_law: "invar q \<Longrightarrow> put xs q = (n, q') \<Longrightarrow>
      n = min (length xs) (limit q - length (items q)) \<and> items q' = items q @ take n xs \<and>
      invar q' \<and> limit q' = limit q"
    and get_law: "invar q \<Longrightarrow> get k q = (ys, q') \<Longrightarrow>
      ys = take k (items q) \<and> items q' = drop k (items q) \<and> invar q' \<and> limit q' = limit q"
    and items_limit: "invar q \<Longrightarrow> length (items q) \<le> limit q"
begin

lemma run_invar: "invar q \<Longrightarrow> fifo_run put get ops q = (acc, out, q') \<Longrightarrow> invar q' \<and> limit q' = limit q"
proof (induction ops arbitrary: q acc out)
  case Nil
  then show ?case by simp
next
  case (Cons op ops)
  show ?case
  proof (cases op)
    case (Put xs)
    obtain n q1 where p: "put xs q = (n, q1)" by fastforce
    with Cons.prems(1) have "invar q1" "limit q1 = limit q" using put_law by blast+
    with Cons p Put show ?thesis by (fastforce split: prod.splits)
  next
    case (Get k)
    obtain ys q1 where p: "get k q = (ys, q1)" by fastforce
    with Cons.prems(1) have "invar q1" "limit q1 = limit q" using get_law by blast+
    with Cons p Get show ?thesis by (fastforce split: prod.splits)
  qed
qed

lemma run_fifo: "invar q \<Longrightarrow> fifo_run put get ops q = (acc, out, q') \<Longrightarrow> items q @ acc = out @ items q'"
proof (induction ops arbitrary: q acc out)
  case Nil
  then show ?case by simp
next
  case (Cons op ops)
  show ?case
  proof (cases op)
    case (Put xs)
    obtain n q1 where p: "put xs q = (n, q1)" by fastforce
    with Cons.prems(1) have *: "invar q1" "items q1 = items q @ take n xs" using put_law by blast+
    obtain acc1 where "fifo_run put get ops q1 = (acc1, out, q')" "acc = take n xs @ acc1"
      using Cons.prems(2) p Put by (auto split: prod.splits)
    with Cons.IH [OF *(1)] *(2) show ?thesis by simp
  next
    case (Get k)
    obtain ys q1 where p: "get k q = (ys, q1)" by fastforce
    with Cons.prems(1) have *: "invar q1" "ys = take k (items q)" "items q1 = drop k (items q)"
      using get_law by blast+
    obtain out1 where o: "fifo_run put get ops q1 = (acc, out1, q')" "out = ys @ out1"
      using Cons.prems(2) p Get by (auto split: prod.splits)
    from Cons.IH [OF *(1) o(1)] * o(2) show ?thesis by (metis append.assoc append_take_drop_id)
  qed
qed

end

interpretation ring: bounded_fifo rb_inv rb_list rb_capacity "\<lambda>xs. rb_write (Some xs)" "rb_read True"
proof
  fix xs :: "'b list" and q n q'
  assume "rb_inv q" "rb_write (Some xs) q = (n, q')"
  from rb_write_refines [OF this]
  show "n = min (length xs) (rb_capacity q - length (rb_list q)) \<and>
        rb_list q' = rb_list q @ take n xs \<and> rb_inv q' \<and> rb_capacity q' = rb_capacity q" by simp
next
  fix k and q :: "'b ring_buffer" and ys q'
  assume "rb_inv q" "rb_read True k q = (ys, q')"
  from rb_read_refines [OF this]
  show "ys = take k (rb_list q) \<and> rb_list q' = drop k (rb_list q) \<and> rb_inv q' \<and>
        rb_capacity q' = rb_capacity q" by simp
next
  fix q :: "'b ring_buffer"
  assume "rb_inv q"
  then show "length (rb_list q) \<le> rb_capacity q" by (simp add: rb_inv_def)
qed

text \<open>
  Claim C8: a ring buffer that was constructed with some capacity delivers exactly what it
  accepted, in order, under any interleaving of writes and reads: the accepted items are the
  delivered ones followed by what is still buffered, and the capacity is never exceeded.
\<close>

theorem ring_buffer_fifo:
  assumes "RingBuffer t0 cap = Inr rb"
    and "fifo_run (\<lambda>xs. rb_write (Some xs)) (rb_read True) ops rb = (accepted, delivered, rb')"
  shows "accepted = delivered @ rb_list rb' \<and> rb_size rb' \<le> cap"
proof -
  have rb: "rb_inv rb" "rb_list rb = []" "rb_capacity rb = cap" using RingBuffer_refines [OF assms(1)] by auto
  then have "rb_inv rb'" "rb_capacity rb' = cap" using ring.run_invar [OF rb(1) assms(2)] by auto
  then show ?thesis
    using ring.run_fifo [OF rb(1) assms(2)] rb(2) by (simp add: rb_inv_def rb_size_def)
qed

definition ring3 :: "nat ring_buffer" where
  "ring3 = \<lparr>rb_capacity = 3, rb_buffer = [0, 0, 0], rb_head = 0, rb_tail = 0, rb_count = 0\<rparr>"

definition ring3_after :: "nat ring_buffer" where
  "ring3_after = \<lparr>rb_capacity = 3, rb_buffer = [4, 5, 3], rb_head = 2, rb_tail = 2, rb_count = 3\<rparr>"

theorem ring_buffer_fifo_witness:
  "[1, 2, 3, 4, 5] = [1, 2] @ rb_list ring3_after \<and> rb_size ring3_after \<le> 3"
proof (rule ring_buffer_fifo)
  show "RingBuffer 0 3 = Inr ring3"
    by (simp add: RingBuffer_def ring3_def numeral_3_eq_3)
  show "fifo_run (\<lambda>xs. rb_write (Some xs)) (rb_read True) [Put [1, 2, 3], Get 2, Put [4, 5, 6]] ring3
        = ([1, 2, 3, 4, 5], [1, 2], ring3_after)"
    by (simp add: ring3_def ring3_after_def rb_write_def rb_read_def store_wrapped_def
        load_wrapped_def copy_to_buffer_def copy_from_buffer_def blit_def slice_def Let_def)
qed

text \<open>
  An overwriting write drops the oldest items and no others: afterwards the buffer
  holds the newest \<open>rb_capacity\<close> items of the old contents followed by the new data, and the
  class invariant still holds.
\<close>

theorem ring_buffer_overwrite_keeps_newest:
  assumes "rb_inv rb" and "rb_write_overwrite (Some data) rb = (n, rb')"
  shows "rb_list rb' = drop (length (rb_list rb @ data) - rb_capacity rb) (rb_list rb @ data) \<and>
         rb_inv rb' \<and> n = min (length data) (rb_capacity rb)"
  using rb_write_overwrite_refines [OF assms] by simp

definition ring3_over :: "nat ring_buffer" where
  "ring3_over = \<lparr>rb_capacity = 3, rb_buffer = [7, 5, 6], rb_head = 1, rb_tail = 1, rb_count = 3\<rparr>"

theorem ring_buffer_overwrite_keeps_newest_witness:
  "rb_list ring3_over = drop (length (rb_list ring3_after @ [6, 7]) - rb_capacity ring3_after)
     (rb_list ring3_after @ [6, 7]) \<and>
   rb_inv ring3_over \<and> 2 = min (length [6, 7 :: nat]) (rb_capacity ring3_after)"
proof (rule ring_buffer_overwrite_keeps_newest)
  show "rb_inv ring3_after" by (simp add: ring3_after_def rb_inv_def)
  show "rb_write_overwrite (Some [6, 7]) ring3_after = (2, ring3_over)"
    by (simp add: ring3_after_def ring3_over_def rb_write_overwrite_def store_wrapped_def
        copy_to_buffer_def blit_def Let_def)
qed

text \<open>
  Reading with silence padding always fills the whole destination: the buffered
  prefix first, then the silence value, and the count returned is the number of real items.
\<close>

theorem ring_buffer_read_pad_silence:
  assumes "rb_inv rb" and "rb_read_pad_silence count s rb = (n, dest, rb')"
  shows "length dest = count \<and> dest = take count (rb_list rb) @ replicate (count - n) s \<and>
         n = min count (rb_count rb) \<and> rb_list rb' = drop count (rb_list rb) \<and> rb_inv rb'"
proof (cases "count = 0")
  case True
  with assms show ?thesis by (simp add: rb_read_pad_silence_def)
next
  case False
  obtain items rb1 where r: "rb_read True count rb = (items, rb1)" by fastforce
  with False assms(2)
  have "n = length items" "dest = items @ replicate (count - length items) s" "rb' = rb1"
    by (auto simp: rb_read_pad_silence_def Let_def)
  with rb_read_refines [OF assms(1) r] show ?thesis by auto
qed

theorem ring_buffer_read_pad_silence_witness:
  "length [3, 4, 5, 9 :: nat] = 4 \<and>
   [3, 4, 5, 9] = take 4 (rb_list ring3_after) @ replicate (4 - 3) 9 \<and>
   3 = min 4 (rb_count ring3_after) \<and>
   rb_list (ring3_after\<lparr>rb_tail := 2, rb_count := 0\<rparr>) = drop 4 (rb_list ring3_after) \<and>
   rb_inv (ring3_after\<lparr>rb_tail := 2, rb_count := 0\<rparr>)"
  by (rule ring_buffer_read_pad_silence)
    (simp_all add: ring3_after_def rb_inv_def rb_read_pad_silence_def rb_read_def load_wrapped_def
      copy_from_buffer_def slice_def)

end
