(* ===== verification/Audio_Types.thy ===== *)
theory Audio_Types
  imports Prelude
begin

text \<open>
  \<^verbatim>\<open>src/common/audio_types.hpp\<close>: the sample formats, \<^verbatim>\<open>AudioConfig\<close> with its size
  computations and its two validators. The lemmas show that the validators agree, that an accepted
  configuration has an exact packet size that fits a UDP datagram, and that the overflow guards of
  the byte/frame conversions keep every result inside \<^verbatim>\<open>size_t\<close>.
\<close>

section \<open>Sample formats\<close>

text \<open>
  The enumeration has \<^verbatim>\<open>uint8_t\<close> as its underlying type and is cast from a wire byte, so a value
  may be one the source does not name; \<open>FORMAT_OTHER\<close> holds those.
\<close>

datatype audio_sample_format =
    FORMAT_UNKNOWN
  | PCM_S16LE
  | PCM_FLOAT32LE
  | PCM_S24LE
  | PCM_S32LE
  | FORMAT_OTHER u8

definition format_of_u8 :: "u8 \<Rightarrow> audio_sample_format" where
  "format_of_u8 b =
     (if b = 0 then FORMAT_UNKNOWN else if b = 1 then PCM_S16LE else if b = 2 then PCM_FLOAT32LE
      else if b = 3 then PCM_S24LE else if b = 4 then PCM_S32LE else FORMAT_OTHER b)"

fun u8_of_format :: "audio_sample_format \<Rightarrow> u8" where
  "u8_of_format FORMAT_UNKNOWN = 0"
| "u8_of_format PCM_S16LE = 1"
| "u8_of_format PCM_FLOAT32LE = 2"
| "u8_of_format PCM_S24LE = 3"
| "u8_of_format PCM_S32LE = 4"
| "u8_of_format (FORMAT_OTHER b) = b"

lemma u8_of_format_of_u8 [simp, wire_simps]: "u8_of_format (format_of_u8 b) = b"
  by (simp add: format_of_u8_def)

fun to_string_view :: "audio_sample_format \<Rightarrow> string" where
  "to_string_view PCM_S16LE = ''S16LE''"
| "to_string_view PCM_FLOAT32LE = ''FLOAT32LE''"
| "to_string_view PCM_S24LE = ''S24LE''"
| "to_string_view PCM_S32LE = ''S32LE''"
| "to_string_view _ = ''UNKNOWN''"

section \<open>AudioConfig\<close>

record audio_config =
  ac_sample_rate :: u32
  ac_channels :: u16
  ac_format :: audio_sample_format
  ac_frames_per_packet :: u32

definition default_audio_config :: audio_config where
  "default_audio_config =
     \<lparr>ac_sample_rate = 48000, ac_channels = 2, ac_format = PCM_S16LE, ac_frames_per_packet = 480\<rparr>"

definition bytes_per_sample :: "audio_config \<Rightarrow> nat" where
  "bytes_per_sample c =
     (case ac_format c of
        PCM_S16LE \<Rightarrow> 2
      | PCM_FLOAT32LE \<Rightarrow> 4
      | PCM_S24LE \<Rightarrow> 3
      | PCM_S32LE \<Rightarrow> 4
      | _ \<Rightarrow> 2)"

definition bytes_per_frame :: "audio_config \<Rightarrow> nat" where
  "bytes_per_frame c = bytes_per_sample c * unat (ac_channels c)"

definition packet_payload_size :: "audio_config \<Rightarrow> nat" where
  "packet_payload_size c =
     (let bpf = bytes_per_frame c; fpp = unat (ac_frames_per_packet c) in
      if bpf = 0 \<or> fpp = 0 then 0
      else if fpp > SIZE_MAX div bpf then 0
      else fpp * bpf)"

definition frames_to_bytes :: "audio_config \<Rightarrow> nat \<Rightarrow> nat" where
  "frames_to_bytes c frames =
     (let bpf = bytes_per_frame c in
      if bpf = 0 then 0 else if frames > SIZE_MAX div bpf then 0 else frames * bpf)"

definition bytes_to_frames :: "audio_config \<Rightarrow> nat \<Rightarrow> nat" where
  "bytes_to_frames c bytes =
     (let bpf = bytes_per_frame c in if bpf > 0 then bytes div bpf else 0)"

definition is_valid :: "audio_config \<Rightarrow> bool" where
  "is_valid c =
     (if ac_sample_rate c = 0 \<or> ac_sample_rate c > 192000 then False
      else if ac_channels c = 0 \<or> ac_channels c > 32 then False
      else if ac_frames_per_packet c = 0 \<or> ac_frames_per_packet c > 8192 then False
      else if ac_format c = FORMAT_UNKNOWN then False
      else (let payload = packet_payload_size c in
            if payload = 0 \<or> payload > 65507 then False else True))"

definition validate :: "audio_config \<Rightarrow> unit expected" where
  "validate c =
     (if ac_sample_rate c = 0 \<or> ac_sample_rate c > 192000 then Inl ''invalid sample_rate''
      else if ac_channels c = 0 \<or> ac_channels c > 32 then Inl ''invalid channels''
      else if ac_frames_per_packet c = 0 \<or> ac_frames_per_packet c > 8192
      then Inl ''invalid frames_per_packet''
      else if ac_format c = FORMAT_UNKNOWN then Inl ''unknown format''
      else (let payload = packet_payload_size c in
            if payload = 0 then Inl ''payload size overflow or zero''
            else if payload > 65507 then Inl ''payload exceeds max UDP''
            else Inr ()))"

definition audio_config_eq :: "audio_config \<Rightarrow> audio_config \<Rightarrow> bool" where
  "audio_config_eq a b \<longleftrightarrow>
     ac_sample_rate a = ac_sample_rate b \<and> ac_channels a = ac_channels b \<and>
     ac_format a = ac_format b \<and> ac_frames_per_packet a = ac_frames_per_packet b"

section \<open>Size computations\<close>

lemma bytes_per_sample_cases: "bytes_per_sample c \<in> {2, 3, 4}"
  by (simp add: bytes_per_sample_def split: audio_sample_format.split)

lemma bytes_per_sample_nonzero [simp]: "bytes_per_sample c \<noteq> 0"
  using bytes_per_sample_cases [of c] by auto

lemma bytes_per_frame_bound: "bytes_per_frame c \<le> 4 * 65535"
proof -
  have "unat (ac_channels c) \<le> 65535"
    using unsigned_less [of "ac_channels c", where ?'a = nat] by simp
  moreover have "bytes_per_sample c \<le> 4" using bytes_per_sample_cases [of c] by auto
  ultimately show ?thesis
    unfolding bytes_per_frame_def by (metis mult_le_mono)
qed

lemma bytes_per_frame_eq_0_iff: "bytes_per_frame c = 0 \<longleftrightarrow> ac_channels c = 0"
  by (simp add: bytes_per_frame_def unat_eq_zero)

lemma audio_config_eq_iff: "audio_config_eq a b \<longleftrightarrow> a = (b :: audio_config)"
  by (auto simp: audio_config_eq_def intro: audio_config.equality)

lemma fpp_never_overflows:
  "\<not> unat (ac_frames_per_packet c) > SIZE_MAX div bytes_per_frame c" if "0 < bytes_per_frame c"
proof -
  have "unat (ac_frames_per_packet c) < 2 ^ 32"
    using unsigned_less [of "ac_frames_per_packet c", where ?'a = nat] by simp
  moreover have "SIZE_MAX div bytes_per_frame c \<ge> SIZE_MAX div (4 * 65535)"
    by (rule div_le_mono2 [OF that bytes_per_frame_bound])
  ultimately show ?thesis by (simp add: size_t_simps)
qed

text \<open>The overflow guard is never taken for a 32-bit frame count: the size is always exact.\<close>

lemma packet_payload_size_exact:
  "packet_payload_size c = unat (ac_frames_per_packet c) * bytes_per_frame c"
  using fpp_never_overflows [of c] by (auto simp: packet_payload_size_def Let_def)

lemma frames_to_bytes_bound: "frames_to_bytes c frames \<le> SIZE_MAX"
proof (cases "bytes_per_frame c = 0 \<or> frames > SIZE_MAX div bytes_per_frame c")
  case True
  then show ?thesis by (auto simp: frames_to_bytes_def Let_def)
next
  case False
  then have "frames * bytes_per_frame c \<le> (SIZE_MAX div bytes_per_frame c) * bytes_per_frame c"
    by simp
  also have "\<dots> \<le> SIZE_MAX" by simp
  finally show ?thesis by (auto simp: frames_to_bytes_def Let_def)
qed

lemma frames_bytes_frames:
  assumes "0 < bytes_per_frame c" and "frames \<le> SIZE_MAX div bytes_per_frame c"
  shows "bytes_to_frames c (frames_to_bytes c frames) = frames"
  using assms by (simp add: frames_to_bytes_def bytes_to_frames_def Let_def)

text \<open>\<open>is_valid\<close> and \<open>validate\<close> accept the same configurations.\<close>

lemma validate_iff_is_valid: "(validate c = Inr ()) = is_valid c"
  by (simp add: validate_def is_valid_def Let_def)

lemma is_valid_payload:
  assumes "is_valid c"
  shows "packet_payload_size c = unat (ac_frames_per_packet c) * bytes_per_frame c"
    and "0 < packet_payload_size c" and "packet_payload_size c \<le> 65507"
  using assms by (auto simp: is_valid_def Let_def packet_payload_size_exact split: if_splits)

end
