(* ===== verification/Floating.thy ===== *)
theory Floating
  imports Prelude
begin

text \<open>
  The part of IEEE 754 that the sources use through \<^verbatim>\<open>float\<close> and \<^verbatim>\<open>double\<close>: finite values as
  rationals, round-to-nearest-even in a format with a given precision, least exponent and largest
  value, the comparisons (all false on a NaN), \<^verbatim>\<open>std::clamp\<close>, and the conversions to integers,
  which C++ leaves undefined when the truncated value does not fit. The sign of a zero is not kept:
  no operation of the sources observes it.
\<close>

section \<open>Values and rounding\<close>

datatype flt = FNaN | FInf bool | FFin rat

record fmt =
  fmt_prec :: nat
  fmt_emin :: int
  fmt_max :: rat

definition binary32 :: fmt where
  "binary32 = \<lparr>fmt_prec = 24, fmt_emin = -149, fmt_max = (2 ^ 24 - 1) * 2 ^ 104\<rparr>"

definition binary64 :: fmt where
  "binary64 = \<lparr>fmt_prec = 53, fmt_emin = -1074, fmt_max = (2 ^ 53 - 1) * 2 ^ 971\<rparr>"

fun ilog2 :: "nat \<Rightarrow> nat" where
  "ilog2 n = (if n < 2 then 0 else Suc (ilog2 (n div 2)))"

declare ilog2.simps [simp del]

text \<open>The binary exponent of a positive rational.\<close>

definition rat_ilog2 :: "rat \<Rightarrow> int" where
  "rat_ilog2 q =
     (let (n, d) = quotient_of q; k = int (ilog2 (nat n)) - int (ilog2 (nat d))
      in if 2 powi k \<le> q then k else k - 1)"

definition round_half_even :: "rat \<Rightarrow> int" where
  "round_half_even r =
     (let f = \<lfloor>r\<rfloor>; d = r - of_int f
      in if d < 1 / 2 then f else if d > 1 / 2 then f + 1 else if even f then f else f + 1)"

definition quantum_exp :: "fmt \<Rightarrow> rat \<Rightarrow> int" where
  "quantum_exp F q = max (rat_ilog2 \<bar>q\<bar> - (int (fmt_prec F) - 1)) (fmt_emin F)"

definition fl_round :: "fmt \<Rightarrow> rat \<Rightarrow> flt" where
  "fl_round F q =
     (if q = 0 then FFin 0
      else (let u = 2 powi (quantum_exp F q); r = of_int (round_half_even (q / u)) * u
            in if \<bar>r\<bar> > fmt_max F then FInf (q < 0) else FFin r))"

section \<open>Operations\<close>

fun fl_neg :: "flt \<Rightarrow> flt" where
  "fl_neg FNaN = FNaN"
| "fl_neg (FInf s) = FInf (\<not> s)"
| "fl_neg (FFin a) = FFin (- a)"

fun fl_abs :: "flt \<Rightarrow> flt" where
  "fl_abs FNaN = FNaN"
| "fl_abs (FInf s) = FInf False"
| "fl_abs (FFin a) = FFin \<bar>a\<bar>"

fun fl_add :: "fmt \<Rightarrow> flt \<Rightarrow> flt \<Rightarrow> flt" where
  "fl_add F (FFin a) (FFin b) = fl_round F (a + b)"
| "fl_add F (FInf s) (FFin b) = FInf s"
| "fl_add F (FFin a) (FInf s) = FInf s"
| "fl_add F (FInf s) (FInf t) = (if s = t then FInf s else FNaN)"
| "fl_add F _ _ = FNaN"

definition fl_sub :: "fmt \<Rightarrow> flt \<Rightarrow> flt \<Rightarrow> flt" where
  "fl_sub F a b = fl_add F a (fl_neg b)"

fun fl_mul :: "fmt \<Rightarrow> flt \<Rightarrow> flt \<Rightarrow> flt" where
  "fl_mul F (FFin a) (FFin b) = fl_round F (a * b)"
| "fl_mul F (FInf s) (FFin b) = (if b = 0 then FNaN else FInf (s \<noteq> (b < 0)))"
| "fl_mul F (FFin a) (FInf t) = (if a = 0 then FNaN else FInf (t \<noteq> (a < 0)))"
| "fl_mul F (FInf s) (FInf t) = FInf (s \<noteq> t)"
| "fl_mul F _ _ = FNaN"

text \<open>Division by a nonzero constant, the only division the sources make.\<close>

fun fl_div_const :: "fmt \<Rightarrow> flt \<Rightarrow> rat \<Rightarrow> flt" where
  "fl_div_const F (FFin a) c = fl_round F (a / c)"
| "fl_div_const F (FInf s) c = FInf (s \<noteq> (c < 0))"
| "fl_div_const F FNaN c = FNaN"

fun fl_less :: "flt \<Rightarrow> flt \<Rightarrow> bool" where
  "fl_less (FFin a) (FFin b) = (a < b)"
| "fl_less (FInf s) (FFin b) = s"
| "fl_less (FFin a) (FInf t) = (\<not> t)"
| "fl_less (FInf s) (FInf t) = (s \<and> \<not> t)"
| "fl_less _ _ = False"

fun fl_le :: "flt \<Rightarrow> flt \<Rightarrow> bool" where
  "fl_le (FFin a) (FFin b) = (a \<le> b)"
| "fl_le (FInf s) (FFin b) = s"
| "fl_le (FFin a) (FInf t) = (\<not> t)"
| "fl_le (FInf s) (FInf t) = (s \<or> \<not> t)"
| "fl_le _ _ = False"

fun fl_isfinite :: "flt \<Rightarrow> bool" where
  "fl_isfinite (FFin _) = True"
| "fl_isfinite _ = False"

text \<open>\<^verbatim>\<open>std::clamp(v, lo, hi)\<close>: \<open>v < lo ? lo : hi < v ? hi : v\<close>, so a NaN passes through.\<close>

definition fl_clamp :: "flt \<Rightarrow> flt \<Rightarrow> flt \<Rightarrow> flt" where
  "fl_clamp v lo hi = (if fl_less v lo then lo else if fl_less hi v then hi else v)"

definition fl_of_int :: "fmt \<Rightarrow> int \<Rightarrow> flt" where
  "fl_of_int F i = fl_round F (of_int i)"

definition rat_trunc :: "rat \<Rightarrow> int" where
  "rat_trunc r = (if r < 0 then \<lceil>r\<rceil> else \<lfloor>r\<rfloor>)"

text \<open>
  \<^verbatim>\<open>static_cast\<close> from a floating type to an integer type with range \<open>lo..hi\<close>: \<open>None\<close> is undefined
  behaviour.
\<close>

definition fl_to_int :: "int \<Rightarrow> int \<Rightarrow> flt \<Rightarrow> int option" where
  "fl_to_int lo hi v =
     (case v of
        FFin r \<Rightarrow> (if lo \<le> rat_trunc r \<and> rat_trunc r \<le> hi then Some (rat_trunc r) else None)
      | _ \<Rightarrow> None)"

text \<open>The value of a binary32 bit pattern, as a packed \<^verbatim>\<open>float\<close> member carries it.\<close>

definition f32_of_bits :: "u32 \<Rightarrow> flt" where
  "f32_of_bits w =
     (let s = (w \<ge> 0x80000000);
          e = unat (drop_bit 23 w) mod 256;
          m = unat w mod 8388608;
          sg = (if s then - 1 else 1 :: rat)
      in if e = 255 then (if m = 0 then FInf s else FNaN)
         else if e = 0 then FFin (sg * of_nat m * 2 powi (- 149))
         else FFin (sg * of_nat (8388608 + m) * 2 powi (int e - 150)))"

section \<open>Exponents\<close>

lemma ilog2_bounds: "0 < n \<Longrightarrow> 2 ^ ilog2 n \<le> n \<and> n < 2 ^ Suc (ilog2 n)"
proof (induction n rule: ilog2.induct)
  case (1 n)
  show ?case
  proof (cases "n < 2")
    case True
    with "1.prems" show ?thesis by (simp add: ilog2.simps)
  next
    case False
    then have "2 ^ ilog2 (n div 2) \<le> n div 2 \<and> n div 2 < 2 ^ Suc (ilog2 (n div 2))"
      using "1.IH" by simp
    with False show ?thesis by (subst (1 2) ilog2.simps) auto
  qed
qed

lemma rat_ilog2_bounds:
  assumes "0 < q"
  shows "2 powi (rat_ilog2 q) \<le> q" and "q < 2 powi (rat_ilog2 q + 1)"
proof -
  obtain n d where nd: "quotient_of q = (n, d)" by fastforce
  have d: "0 < d" using nd quotient_of_denom_pos by blast
  have q: "q = of_int n / of_int d" using nd quotient_of_div by blast
  have n: "0 < n" using assms d by (simp add: q zero_less_divide_iff)
  define a b where "a = ilog2 (nat n)" and "b = ilog2 (nat d)"
  have log: "(2::rat) ^ ilog2 (nat m) \<le> of_int m" "of_int m < (2::rat) ^ Suc (ilog2 (nat m))" if m: "0 < m" for m
  proof -
    have "(of_nat (2 ^ ilog2 (nat m)) :: rat) \<le> of_nat (nat m)" "(of_nat (nat m) :: rat) < of_nat (2 ^ Suc (ilog2 (nat m)))"
      using ilog2_bounds [of "nat m"] m unfolding of_nat_le_iff of_nat_less_iff by simp_all
    then show "(2::rat) ^ ilog2 (nat m) \<le> of_int m" "of_int m < (2::rat) ^ Suc (ilog2 (nat m))"
      using m by (simp_all add: of_nat_nat)
  qed
  have A: "(2::rat) ^ a \<le> of_int n" "of_int n < (2::rat) ^ Suc a" unfolding a_def using log [OF n] by simp_all
  have B: "(2::rat) ^ b \<le> of_int d" "of_int d < (2::rat) ^ Suc b" unfolding b_def using log [OF d] by simp_all
  have pw: "(2::rat) powi (int a - int b) = 2 ^ a / 2 ^ b" by (simp add: power_int_diff)
  have hi: "q < 2 powi (int a - int b + 1)"
  proof -
    have "q < 2 ^ Suc a / of_int d" using A(2) d by (simp add: q divide_strict_right_mono)
    also have "\<dots> \<le> 2 ^ Suc a / 2 ^ b" using B(1) d by (intro divide_left_mono) auto
    finally show ?thesis by (simp add: power_int_add pw mult.commute)
  qed
  have lo: "2 powi (int a - int b - 1) \<le> q"
  proof -
    have "(2::rat) ^ a / 2 ^ Suc b \<le> 2 ^ a / of_int d" using B(2) d by (intro divide_left_mono) auto
    also have "\<dots> \<le> q" using A(1) d by (simp add: q divide_right_mono)
    finally show ?thesis by (simp add: power_int_diff)
  qed
  have "2 powi (rat_ilog2 q) \<le> q \<and> q < 2 powi (rat_ilog2 q + 1)"
    using lo hi by (auto simp: rat_ilog2_def nd Let_def a_def [symmetric] b_def [symmetric])
  then show "2 powi (rat_ilog2 q) \<le> q" "q < 2 powi (rat_ilog2 q + 1)" by auto
qed

lemma rat_ilog2_less:
  assumes "0 < q" and "q < 2 powi k"
  shows "rat_ilog2 q < k"
proof -
  have "(2::rat) powi (rat_ilog2 q) < 2 powi k"
    using rat_ilog2_bounds(1) [OF assms(1)] assms(2) by linarith
  then show ?thesis by (metis power_int_increasing one_le_numeral not_le)
qed

section \<open>Rounding\<close>

lemma round_half_even_of_int [simp]: "round_half_even (of_int m) = m"
  by (simp add: round_half_even_def)

lemma round_half_even_le: "r \<le> of_int m \<Longrightarrow> round_half_even r \<le> m"
proof (cases "r = of_int m")
  case False
  assume "r \<le> of_int m"
  with False have "\<lfloor>r\<rfloor> < m" by (simp add: floor_less_iff)
  then show ?thesis by (simp add: round_half_even_def Let_def)
qed simp

lemma round_half_even_ge: "of_int m \<le> r \<Longrightarrow> m \<le> round_half_even r"
  using le_floor_iff [of m r] by (auto simp: round_half_even_def Let_def)

lemma scaled_is_int:
  assumes "e \<le> k"
  shows "of_int m * 2 powi k / (2 powi e :: rat) = of_int (m * 2 ^ nat (k - e))"
proof -
  have "2 powi k / (2 powi e :: rat) = 2 powi (k - e)" by (simp add: power_int_diff)
  also have "\<dots> = 2 ^ nat (k - e)" using assms by (simp add: power_int_def)
  finally show ?thesis by (simp add: times_divide_eq_right [symmetric] del: times_divide_eq_right)
qed

lemma quantum_exp_le:
  assumes "q \<noteq> 0" and "\<bar>q\<bar> < 2 powi (k + int (fmt_prec F))" and "fmt_emin F \<le> k"
  shows "quantum_exp F q \<le> k"
  using rat_ilog2_less [of "\<bar>q\<bar>" "k + int (fmt_prec F)"] assms by (simp add: quantum_exp_def)

text \<open>Values with few enough significant bits are represented exactly.\<close>

lemma fl_round_exact:
  assumes q: "q = of_int m * 2 powi k" and m: "\<bar>m\<bar> < 2 ^ fmt_prec F"
    and k: "fmt_emin F \<le> k" and mx: "\<bar>q\<bar> \<le> fmt_max F"
  shows "fl_round F q = FFin q"
proof (cases "q = 0")
  case False
  have "\<bar>q\<bar> = of_int \<bar>m\<bar> * 2 powi k" by (simp add: q abs_mult)
  also have "\<dots> < 2 ^ fmt_prec F * 2 powi k"
    using m by (metis mult_strict_right_mono of_int_less_iff of_int_numeral of_int_power
        zero_less_numeral zero_less_power_int)
  also have "\<dots> = 2 powi (k + int (fmt_prec F))" by (simp add: power_int_add)
  finally have e: "quantum_exp F q \<le> k" using False k by (intro quantum_exp_le)
  define u :: rat where "u = 2 powi (quantum_exp F q)"
  have "u \<noteq> 0" by (simp add: u_def)
  have qu: "q / u = of_int (m * 2 ^ nat (k - quantum_exp F q))"
    unfolding q u_def using scaled_is_int [OF e] q by simp
  then have "of_int (round_half_even (q / u)) * u = q / u * u" by (simp only: round_half_even_of_int)
  also have "\<dots> = q" using \<open>u \<noteq> 0\<close> by simp
  finally have "of_int (round_half_even (q / u)) * u = q" .
  then show ?thesis using False mx by (simp add: fl_round_def Let_def u_def)
qed (simp add: fl_round_def)

text \<open>Rounding never leaves an interval with small integer end points.\<close>

lemma fl_round_interval:
  assumes lo: "of_int lo \<le> q" and hi: "q \<le> of_int hi"
    and b: "- (2 ^ fmt_prec F) < lo" "hi < 2 ^ fmt_prec F"
    and F: "fmt_emin F \<le> 0" "2 ^ fmt_prec F \<le> fmt_max F"
  shows "\<exists>r. fl_round F q = FFin r \<and> of_int lo \<le> r \<and> r \<le> of_int hi"
proof (cases "q = 0")
  case True
  with lo hi show ?thesis by (simp add: fl_round_def)
next
  case False
  have bq: "- (2 ^ fmt_prec F) < (of_int lo :: rat)" "(of_int hi :: rat) < 2 ^ fmt_prec F"
    using b by (metis of_int_less_iff of_int_minus of_int_numeral of_int_power)+
  have "\<bar>q\<bar> < 2 ^ fmt_prec F" using lo hi bq by linarith
  then have "\<bar>q\<bar> < 2 powi (0 + int (fmt_prec F))" by simp
  then have e: "quantum_exp F q \<le> 0" using False F(1) by (intro quantum_exp_le)
  define u :: rat where "u = 2 powi (quantum_exp F q)"
  define n where "n = (2::int) ^ nat (0 - quantum_exp F q)"
  have u: "0 < u" by (simp add: u_def)
  have sc: "of_int m / u = of_int (m * n)" for m :: int
    using scaled_is_int [OF e, of m] by (simp add: u_def n_def)
  have "of_int (lo * n) \<le> q / u" using lo u sc [of lo] by (metis divide_right_mono less_imp_le)
  moreover have "q / u \<le> of_int (hi * n)" using hi u sc [of hi] by (metis divide_right_mono less_imp_le)
  ultimately have R: "lo * n \<le> round_half_even (q / u)" "round_half_even (q / u) \<le> hi * n"
    by (simp_all only: round_half_even_le round_half_even_ge)
  define r where "r = of_int (round_half_even (q / u)) * u"
  have unscale: "of_int (m * n) * u = of_int m" for m :: int
    using u by (simp only: sc [symmetric]) simp
  have "of_int (lo * n) * u \<le> r" "r \<le> of_int (hi * n) * u"
    unfolding r_def using R u by (intro mult_right_mono; simp only: of_int_le_iff less_imp_le)+
  then have rb: "of_int lo \<le> r" "r \<le> of_int hi" by (simp_all only: unscale)
  then have "\<bar>r\<bar> \<le> fmt_max F" using bq F(2) by linarith
  then have "fl_round F q = FFin r" using False by (simp add: fl_round_def Let_def u_def r_def)
  then show ?thesis using rb by blast
qed

lemma round_half_even_error: "\<bar>of_int (round_half_even r) - r\<bar> \<le> 1 / 2"
proof -
  define f where "f = \<lfloor>r\<rfloor>"
  have "of_int f \<le> r" "r < of_int f + 1" unfolding f_def by linarith+
  moreover have "of_int (f + 1) = (of_int f + 1 :: rat)" by simp
  ultimately have "\<bar>of_int (if r - of_int f < 1 / 2 then f else if r - of_int f > 1 / 2 then f + 1
      else if even f then f else f + 1) - r\<bar> \<le> 1 / 2"
    by (cases "r - of_int f < 1 / 2"; cases "r - of_int f > 1 / 2"; cases "even f"; simp only: if_True if_False; linarith)
  then show ?thesis by (simp only: round_half_even_def Let_def f_def)
qed

text \<open>In the normal range the relative error is at most half a unit in the last place.\<close>

lemma fl_round_relative:
  assumes r: "fl_round F q = FFin r" and n: "2 powi (fmt_emin F + int (fmt_prec F) - 1) \<le> \<bar>q\<bar>"
    and q: "q \<noteq> 0"
  shows "\<bar>r - q\<bar> \<le> \<bar>q\<bar> / 2 ^ fmt_prec F"
proof -
  define e where "e = rat_ilog2 \<bar>q\<bar>"
  define u :: rat where "u = 2 powi (quantum_exp F q)"
  have "2 powi e \<le> \<bar>q\<bar>" "\<bar>q\<bar> < 2 powi (e + 1)" using rat_ilog2_bounds [of "\<bar>q\<bar>"] q by (simp_all add: e_def)
  then have "(2::rat) powi (fmt_emin F + int (fmt_prec F) - 1) < 2 powi (e + 1)" using n by linarith
  then have "fmt_emin F + int (fmt_prec F) - 1 < e + 1" by (metis power_int_increasing one_le_numeral not_le)
  then have "quantum_exp F q = e + (1 - int (fmt_prec F))" by (simp add: quantum_exp_def e_def)
  then have u: "u = 2 powi e * 2 / 2 ^ fmt_prec F" by (simp add: u_def power_int_add power_int_diff)
  have u0: "0 < u" by (simp add: u_def)
  have "r = of_int (round_half_even (q / u)) * u"
    using r q by (auto simp: fl_round_def Let_def u_def split: if_splits)
  then have "r - q = (of_int (round_half_even (q / u)) - q / u) * u" using u0 by (simp add: algebra_simps)
  then have "\<bar>r - q\<bar> = \<bar>of_int (round_half_even (q / u)) - q / u\<bar> * u" using u0 by (simp add: abs_mult)
  also have "\<dots> \<le> 1 / 2 * u" using round_half_even_error u0 by (intro mult_right_mono) auto
  also have "\<dots> = 2 powi e / 2 ^ fmt_prec F" by (simp add: u)
  also have "\<dots> \<le> \<bar>q\<bar> / 2 ^ fmt_prec F" using \<open>2 powi e \<le> \<bar>q\<bar>\<close> by (simp add: divide_right_mono)
  finally show ?thesis .
qed

lemma binary32_small [simp]:
  "fmt_prec binary32 = 24" "fmt_emin binary32 = - 149" "2 ^ 24 \<le> fmt_max binary32"
  by (simp_all add: binary32_def)

lemma fmt_max_binary32: "fmt_max binary32 = (2 ^ 24 - 1) * 2 ^ 104"
  by (simp add: binary32_def)

lemma f32_interval:
  assumes "of_int lo \<le> q" and "q \<le> of_int hi" and "- 16777216 < lo" and "hi < 16777216"
  shows "\<exists>r. fl_round binary32 q = FFin r \<and> of_int lo \<le> r \<and> r \<le> of_int hi"
  using assms by (intro fl_round_interval) (auto simp: fmt_max_binary32)

lemma f32_exact:
  assumes "\<bar>m\<bar> < 16777216" and "k \<in> {-149..0}"
  shows "fl_round binary32 (of_int m * 2 powi k) = FFin (of_int m * 2 powi k)"
proof (rule fl_round_exact)
  have "(2::rat) powi k \<le> 1" using assms(2) power_int_increasing [of k 0 "2::rat"] by simp
  then have "\<bar>of_int m * 2 powi k :: rat\<bar> \<le> of_int \<bar>m\<bar>"
    by (simp add: abs_mult mult_left_le)
  also have "\<dots> \<le> (of_int 16777216 :: rat)" using assms(1) by (simp only: of_int_le_iff)
  also have "\<dots> \<le> fmt_max binary32" by (simp add: fmt_max_binary32)
  finally show "\<bar>of_int m * 2 powi k :: rat\<bar> \<le> fmt_max binary32" .
qed (use assms in auto)

lemma fl_of_int_exact: "\<bar>i\<bar> < 16777216 \<Longrightarrow> fl_of_int binary32 i = FFin (of_int i)"
  using f32_exact [of i 0] by (simp add: fl_of_int_def)

lemma binary64_small [simp]:
  "fmt_prec binary64 = 53" "fmt_emin binary64 = - 1074" "2 ^ 53 \<le> fmt_max binary64"
  by (simp_all add: binary64_def)

lemma f64_interval:
  assumes "of_int lo \<le> q" and "q \<le> of_int hi" and "- (2 ^ 53) < lo" and "hi < 2 ^ 53"
  shows "\<exists>r. fl_round binary64 q = FFin r \<and> of_int lo \<le> r \<and> r \<le> of_int hi"
  using assms by (intro fl_round_interval) (auto simp del: power_numeral)

lemma f64_exact:
  assumes "\<bar>i\<bar> < 2 ^ 53"
  shows "fl_round binary64 (of_int i) = FFin (of_int i)"
proof -
  have "- (2 ^ 53) < i" "i < 2 ^ 53" using assms by (auto simp: abs_less_iff)
  from f64_interval [OF order_refl order_refl this] show ?thesis by auto
qed

text \<open>
  A quotient of integers compares with an integer as the exact quotient does, as long as the numerator
  and the product of the two right-hand numbers are below \<open>2 ^ 53\<close>.
\<close>

lemma f64_less_exact:
  fixes a c p :: nat
  assumes c: "0 < c" "c < 2 ^ 32" and a: "a < 2 ^ 53" and p: "p < 2 ^ 32" and pc: "p * c < 2 ^ 53"
  shows "fl_less (fl_div_const binary64 (FFin (of_nat a)) (of_nat c)) (FFin (of_nat p)) \<longleftrightarrow> a < p * c"
proof -
  define q :: rat where "q = of_nat a / of_nat c"
  have q0: "0 \<le> q" and qp: "q < of_nat p \<longleftrightarrow> a < p * c"
    using c(1) by (simp_all add: q_def divide_less_eq flip: of_nat_mult)
  have "q \<le> of_nat a" using c(1) by (simp add: q_def divide_le_eq mult_le_cancel_left1)
  then have qa: "q \<le> of_int (int a)" by simp
  show ?thesis
  proof (cases "a < p * c")
    case False
    have lo: "of_int (int p) \<le> q" using False qp by simp
    have "int a < 2 ^ 53" "- (2 ^ 53) < int p" using a by simp_all
    from f64_interval [OF lo qa this(2,1)] obtain r where "fl_round binary64 q = FFin r" "of_int (int p) \<le> r" by blast
    then show ?thesis using False by (simp add: q_def)
  next
    case True
    have "int a < 2 ^ 53" "- (2 ^ 53) < (0 :: int)" using a by simp_all
    from f64_interval [OF _ qa this(2,1)] q0 obtain r where r: "fl_round binary64 q = FFin r" by auto
    have "r < of_nat p"
    proof (cases "a = 0")
      case True
      then have "r = 0" using r by (simp add: q_def fl_round_def)
      then show ?thesis using \<open>a < p * c\<close> by (cases p) simp_all
    next
      case False
      have "1 / of_nat c \<le> q" using False c(1) by (simp add: q_def divide_le_cancel)
      moreover have "1 / 2 ^ 32 \<le> (1 :: rat) / of_nat c"
      proof -
        have "(of_nat c :: rat) \<le> of_nat (2 ^ 32)" using c(2) by (subst of_nat_le_iff) simp
        then show ?thesis using c(1) by (simp add: frac_le)
      qed
      moreover have "(2 :: rat) powi (- 1074 + 53 - 1) \<le> 2 powi (- 32)" by (rule power_int_increasing) simp_all
      ultimately have n: "(2 :: rat) powi (fmt_emin binary64 + int (fmt_prec binary64) - 1) \<le> \<bar>q\<bar>"
        using q0 by (simp add: power_int_minus field_simps)
      have "q \<noteq> 0" using False c(1) by (simp add: q_def)
      from abs_le_D1 [OF fl_round_relative [OF r n this]] have "r \<le> q + q / 2 ^ 53"
        unfolding abs_of_nonneg [OF q0] binary64_small by linarith
      moreover have "q + 1 / of_nat c \<le> of_nat p"
      proof -
        have "(of_nat (a + 1) :: rat) \<le> of_nat (p * c)" using True by (subst of_nat_le_iff) simp
        then show ?thesis using c(1) by (simp add: q_def field_simps)
      qed
      moreover have "q / 2 ^ 53 < 1 / of_nat c"
      proof -
        have "(of_nat a :: rat) < of_nat (2 ^ 53)" using a by (subst of_nat_less_iff)
        then have "of_nat a / 2 ^ 53 < (1 :: rat)" by simp
        then have "of_nat a / 2 ^ 53 / of_nat c < 1 / (of_nat c :: rat)" using c(1) by (intro divide_strict_right_mono) simp_all
        then show ?thesis by (simp add: q_def field_simps)
      qed
      ultimately show ?thesis by linarith
    qed
    then show ?thesis using True r by (simp add: q_def)
  qed
qed

section \<open>Truncation\<close>

lemma rat_trunc_bounds:
  assumes "of_int lo \<le> r" and "r \<le> of_int hi"
  shows "lo \<le> rat_trunc r" and "rat_trunc r \<le> hi"
  using assms by (auto simp: rat_trunc_def le_floor_iff ceiling_le_iff floor_le_iff le_ceiling_iff)

lemma rat_trunc_of_int [simp]: "rat_trunc (of_int i) = i"
  by (simp add: rat_trunc_def)

lemma rat_trunc_near: "\<bar>of_int (rat_trunc r) - r\<bar> < 1"
  unfolding rat_trunc_def by (cases "r < 0") (simp_all, linarith+)

lemma rat_trunc_abs: "\<bar>of_int (rat_trunc r)\<bar> \<le> \<bar>r\<bar>"
proof (cases "r < 0")
  case True
  then have "\<lceil>r\<rceil> \<le> 0" by (simp add: ceiling_le_iff)
  then have "(of_int \<lceil>r\<rceil> :: rat) \<le> 0" by simp
  moreover have "r \<le> of_int \<lceil>r\<rceil>" by linarith
  ultimately have "\<bar>of_int \<lceil>r\<rceil>\<bar> \<le> \<bar>r\<bar>" using True by linarith
  then show ?thesis using True by (simp only: rat_trunc_def if_True)
next
  case False
  then have "0 \<le> \<lfloor>r\<rfloor>" by simp
  then have "(0 :: rat) \<le> of_int \<lfloor>r\<rfloor>" by simp
  moreover have "of_int \<lfloor>r\<rfloor> \<le> r" by linarith
  ultimately have "\<bar>of_int \<lfloor>r\<rfloor>\<bar> \<le> \<bar>r\<bar>" using False by linarith
  then show ?thesis using False by (simp only: rat_trunc_def if_False)
qed

lemma fl_clamp_cases:
  assumes "v \<noteq> FNaN" and "lo \<le> hi"
  obtains x where "fl_clamp v (FFin lo) (FFin hi) = FFin x" and "lo \<le> x" and "x \<le> hi"
proof -
  have "\<exists>x. fl_clamp v (FFin lo) (FFin hi) = FFin x \<and> lo \<le> x \<and> x \<le> hi"
    using assms by (cases v) (auto simp: fl_clamp_def)
  with that show ?thesis by blast
qed

lemma fl_clamp_NaN [simp]: "fl_clamp FNaN lo hi = FNaN"
  by (simp add: fl_clamp_def)

lemma fl_clamp_inside: "lo \<le> x \<Longrightarrow> x \<le> hi \<Longrightarrow> fl_clamp (FFin x) (FFin lo) (FFin hi) = FFin x"
  by (simp add: fl_clamp_def)

section \<open>Values of bounded magnitude\<close>

text \<open>\<open>fl_in b v\<close>: \<open>v\<close> is a finite value between \<open>- b\<close> and \<open>b\<close>.\<close>

fun fl_in :: "int \<Rightarrow> flt \<Rightarrow> bool" where
  "fl_in b (FFin x) = (of_int (- b) \<le> x \<and> x \<le> of_int b)"
| "fl_in b _ = False"

lemma fl_inE:
  assumes "fl_in b v"
  obtains x where "v = FFin x" and "\<bar>x\<bar> \<le> of_int b"
  using assms by (cases v) (auto simp: abs_if)

lemma fl_in_round: "\<bar>q\<bar> \<le> of_int b \<Longrightarrow> b < 16777216 \<Longrightarrow> fl_in b (fl_round binary32 q)"
  using f32_interval [of "- b" q b] by (auto simp: abs_le_iff)

lemma fl_in_add: "fl_in a v \<Longrightarrow> fl_in b w \<Longrightarrow> a + b < 16777216 \<Longrightarrow> fl_in (a + b) (fl_add binary32 v w)"
  by (elim fl_inE) (simp add: fl_in_round abs_triangle_ineq [THEN order_trans] add_mono)

lemma fl_in_mul: "fl_in a v \<Longrightarrow> fl_in b w \<Longrightarrow> a * b < 16777216 \<Longrightarrow> fl_in (a * b) (fl_mul binary32 v w)"
  by (elim fl_inE) (auto simp: abs_mult intro!: fl_in_round mult_mono)

lemma fl_in_div: "fl_in a v \<Longrightarrow> 1 \<le> c \<Longrightarrow> a < 16777216 \<Longrightarrow> fl_in a (fl_div_const binary32 v c)"
proof (elim fl_inE)
  fix x assume x: "v = FFin x" "\<bar>x\<bar> \<le> of_int a" "1 \<le> c" "a < 16777216"
  then have "\<bar>x\<bar> / c \<le> \<bar>x\<bar>" using mult_left_mono [of 1 c "\<bar>x\<bar>"] by (simp add: divide_le_eq)
  then have "\<bar>x / c\<bar> \<le> of_int a" using x by simp
  with x show ?thesis by (simp add: fl_in_round)
qed

lemma fl_in_clamp: "v \<noteq> FNaN \<Longrightarrow> fl_in 1 (fl_clamp v (FFin (- 1)) (FFin 1))"
  by (erule fl_clamp_cases [of v "- 1" 1]) simp_all

lemma fl_in_not_NaN: "fl_in b v \<Longrightarrow> v \<noteq> FNaN"
  by auto

lemma fl_to_int_in:
  assumes "fl_in b v" and "lo \<le> - b" and "b \<le> hi"
  shows "\<exists>k. fl_to_int lo hi v = Some k \<and> - b \<le> k \<and> k \<le> b"
proof (rule fl_inE [OF assms(1)])
  fix x assume x: "v = FFin x" "\<bar>x\<bar> \<le> of_int b"
  then have "of_int (- b) \<le> x" "x \<le> of_int b" by (simp_all add: abs_le_iff)
  note rat_trunc_bounds [OF this]
  with x assms show ?thesis by (simp add: fl_to_int_def)
qed

end
