(* ===== verification/Jitter_Buffer.thy ===== *)
theory Jitter_Buffer
  imports Audio_Types Floating
begin

text \<open>
  \<^verbatim>\<open>src/client/jitter_buffer.hpp\<close> and \<^verbatim>\<open>jitter_buffer.cpp\<close>: the client's reordering and playout
  buffer. Packets are kept in 256 slots indexed by sequence number; the playhead consumes them in
  order, conceals gaps with silence and sheds excess latency. The record \<open>jitter_buffer\<close> has the
  members of the class; every public operation holds the mutex for its whole body, so an execution
  is a sequence of operations. The clocks are arguments. Operations return an option: \<open>None\<close> is
  undefined behaviour (a read or a store outside a buffer, signed overflow) or a loop that does not
  end, so the totality theorems exclude all of them.
\<close>

section \<open>State\<close>

definition MAX_SLOTS :: nat where "MAX_SLOTS = 256"

record packet_slot =
  ps_seq_num :: u32
  ps_timestamp_us :: u64
  ps_pcm_data :: "i16 list"
  ps_num_frames :: nat
  ps_is_valid :: bool

definition empty_slot :: packet_slot where
  "empty_slot = \<lparr>ps_seq_num = 0, ps_timestamp_us = 0, ps_pcm_data = [], ps_num_frames = 0, ps_is_valid = False\<rparr>"

record jitter_stats =
  js_packets_received :: u64
  js_packets_lost :: u64
  js_packets_out_of_order :: u64
  js_packets_duplicate :: u64
  js_underruns :: u64
  js_overruns :: u64
  js_drained_frames :: u64
  js_current_buffer_ms :: flt
  js_avg_jitter_ms :: flt

definition empty_stats :: jitter_stats where
  "empty_stats =
     \<lparr>js_packets_received = 0, js_packets_lost = 0, js_packets_out_of_order = 0, js_packets_duplicate = 0,
      js_underruns = 0, js_overruns = 0, js_drained_frames = 0, js_current_buffer_ms = FFin 0,
      js_avg_jitter_ms = FFin 0\<rparr>"

record jitter_buffer =
  jb_config :: audio_config
  jb_target_latency_ms :: u32
  jb_target_buffer_frames :: nat
  jb_startup_target_frames :: nat
  jb_startup_pending :: bool
  jb_hole_free_run :: nat
  jb_last_arrived_seq :: u32
  jb_has_last_arrived_seq :: bool
  jb_slots :: "packet_slot list"
  jb_next_play_seq :: u32
  jb_has_first_packet :: bool
  jb_is_buffering :: bool
  jb_slot_frame_offset :: nat
  jb_last_drain_ms :: u64
  jb_startup_complete_ms :: u64
  jb_stats :: jitter_stats
  jb_last_arrival_timestamp_us :: u64
  jb_last_transit_us :: int
  jb_jitter_estimate_us :: flt

abbreviation jb_channels :: "jitter_buffer \<Rightarrow> nat" where
  "jb_channels j \<equiv> unat (ac_channels (jb_config j))"

definition kStartupPrefillMultiplier :: u32 where "kStartupPrefillMultiplier = 3"
definition kStartupPrefillMinMs :: u32 where "kStartupPrefillMinMs = 120"
definition kStartupPrefillMaxMs :: u32 where "kStartupPrefillMaxMs = 500"
definition kStableArrivalCount :: nat where "kStableArrivalCount = 24"
definition kDrainMarginMs :: nat where "kDrainMarginMs = 25"
definition kDrainIntervalMs :: u64 where "kDrainIntervalMs = 400"
definition kDrainChunkFrames :: nat where "kDrainChunkFrames = 240"
definition kDrainFastIntervalMs :: u64 where "kDrainFastIntervalMs = 100"
definition kDrainFastChunkFrames :: nat where "kDrainFastChunkFrames = 480"
definition kDrainStartGraceMs :: u64 where "kDrainStartGraceMs = 3000"

text \<open>\<^verbatim>\<open>size_t\<close> subtraction.\<close>

definition size_sub :: "nat \<Rightarrow> nat \<Rightarrow> nat" where
  "size_sub a b = (if b \<le> a then a - b else a + 2 ^ 64 - b)"

section \<open>Construction, configuration, reset\<close>

definition JitterBuffer :: "u32 \<Rightarrow> jitter_buffer" where
  "JitterBuffer target_latency_ms =
     \<lparr>jb_config = default_audio_config, jb_target_latency_ms = target_latency_ms,
      jb_target_buffer_frames = 0, jb_startup_target_frames = 0, jb_startup_pending = False,
      jb_hole_free_run = 0, jb_last_arrived_seq = 0, jb_has_last_arrived_seq = False,
      jb_slots = replicate MAX_SLOTS empty_slot, jb_next_play_seq = 0, jb_has_first_packet = False,
      jb_is_buffering = True, jb_slot_frame_offset = 0, jb_last_drain_ms = 0,
      jb_startup_complete_ms = 0, jb_stats = empty_stats, jb_last_arrival_timestamp_us = 0,
      jb_last_transit_us = 0, jb_jitter_estimate_us = FFin 0\<rparr>"

definition jb_reset :: "jitter_buffer \<Rightarrow> jitter_buffer" where
  "jb_reset j =
     j\<lparr>jb_slots := map (\<lambda>s. s\<lparr>ps_is_valid := False, ps_num_frames := 0, ps_pcm_data := []\<rparr>) (jb_slots j),
       jb_next_play_seq := 0, jb_has_first_packet := False, jb_is_buffering := True,
       jb_startup_pending := True, jb_hole_free_run := 0, jb_has_last_arrived_seq := False,
       jb_last_arrived_seq := 0, jb_slot_frame_offset := 0, jb_last_arrival_timestamp_us := 0,
       jb_last_drain_ms := 0, jb_startup_complete_ms := 0, jb_last_transit_us := 0,
       jb_jitter_estimate_us := FFin 0\<rparr>"

definition startup_prefill_ms :: "u32 \<Rightarrow> u32" where
  "startup_prefill_ms target =
     min (max kStartupPrefillMinMs (target * kStartupPrefillMultiplier)) kStartupPrefillMaxMs"

definition jb_configure :: "audio_config \<Rightarrow> u32 \<Rightarrow> jitter_buffer \<Rightarrow> jitter_buffer" where
  "jb_configure config target_latency_ms j =
     (let target = (if target_latency_ms > 5 then target_latency_ms else 5);
          rate = unat (ac_sample_rate config)
      in jb_reset (j\<lparr>jb_config := config, jb_target_latency_ms := target,
           jb_target_buffer_frames := (rate * unat target) div 1000,
           jb_startup_target_frames := (rate * unat (startup_prefill_ms target)) div 1000\<rparr>))"

section \<open>Arrival of a packet\<close>

definition int64_ok :: "int \<Rightarrow> bool" where
  "int64_ok k \<longleftrightarrow> - (2 ^ 63) \<le> k \<and> k < 2 ^ 63"

text \<open>The jitter estimate; \<open>None\<close> when \<open>transit_diff - last_transit_us_\<close> or its absolute value overflows.\<close>

definition update_jitter :: "u64 \<Rightarrow> u64 \<Rightarrow> jitter_buffer \<Rightarrow> jitter_buffer option" where
  "update_jitter now_us timestamp_us j =
     (let done = (\<lambda>j. j\<lparr>jb_last_arrival_timestamp_us := now_us\<rparr>) in
      if jb_last_arrival_timestamp_us j > 0 \<and> timestamp_us > 0 then
        (let transit_diff = sint (now_us - timestamp_us);
             delta = transit_diff - jb_last_transit_us j in
         if jb_last_transit_us j = 0 then Some (done (j\<lparr>jb_last_transit_us := transit_diff\<rparr>))
         else if \<not> int64_ok delta \<or> \<not> int64_ok \<bar>delta\<bar> then None
         else Some (done (j\<lparr>jb_jitter_estimate_us :=
                fl_add binary64 (jb_jitter_estimate_us j)
                  (fl_div_const binary64
                    (fl_sub binary64 (fl_of_int binary64 \<bar>delta\<bar>) (jb_jitter_estimate_us j)) 16),
                jb_last_transit_us := transit_diff\<rparr>)))
      else Some (done j))"

definition first_packet :: "u32 \<Rightarrow> jitter_buffer \<Rightarrow> jitter_buffer" where
  "first_packet seq j =
     (if \<not> jb_has_first_packet j
      then j\<lparr>jb_has_first_packet := True, jb_next_play_seq := seq, jb_is_buffering := True\<rparr>
      else j)"

definition drop_slot :: "packet_slot \<Rightarrow> packet_slot" where
  "drop_slot s = s\<lparr>ps_is_valid := False, ps_pcm_data := []\<rparr>"

definition resync :: "u32 \<Rightarrow> jitter_buffer \<Rightarrow> jitter_buffer" where
  "resync seq j =
     j\<lparr>jb_slots := map drop_slot (jb_slots j), jb_next_play_seq := seq, jb_is_buffering := True,
       jb_slot_frame_offset := 0\<rparr>"

definition store_packet :: "u32 \<Rightarrow> u64 \<Rightarrow> i16 list \<Rightarrow> nat \<Rightarrow> jitter_buffer \<Rightarrow> jitter_buffer" where
  "store_packet seq timestamp_us pcm num_frames j =
     j\<lparr>jb_slots := (jb_slots j)[unat seq mod MAX_SLOTS :=
        \<lparr>ps_seq_num = seq, ps_timestamp_us = timestamp_us,
         ps_pcm_data = take (num_frames * jb_channels j) pcm, ps_num_frames = num_frames,
         ps_is_valid = True\<rparr>]\<rparr>"

definition track_run :: "u32 \<Rightarrow> jitter_buffer \<Rightarrow> jitter_buffer" where
  "track_run seq j =
     j\<lparr>jb_hole_free_run :=
         (if jb_has_last_arrived_seq j \<and> seq = jb_last_arrived_seq j + 1
          then jb_hole_free_run j + 1 else 1),
       jb_last_arrived_seq := seq, jb_has_last_arrived_seq := True\<rparr>"

text \<open>
  The contiguity scan. The index is a \<^verbatim>\<open>size_t\<close>, so \<^verbatim>\<open>next_play_seq_ + i\<close> is a 64-bit sum that
  does not wrap where the 32-bit sequence numbers do.
\<close>

function scan_contiguous :: "packet_slot list \<Rightarrow> u32 \<Rightarrow> nat \<Rightarrow> nat" where
  "scan_contiguous slots next_play i =
     (if i < MAX_SLOTS then
        (let s = slots ! ((unat next_play + i) mod MAX_SLOTS) in
         if ps_is_valid s \<and> unat (ps_seq_num s) = unat next_play + i
         then ps_num_frames s + scan_contiguous slots next_play (Suc i)
         else 0)
      else 0)"
  by pat_completeness auto
termination by (relation "measure (\<lambda>(_, _, i). MAX_SLOTS - i)") auto

declare scan_contiguous.simps [simp del]

definition total_valid_frames :: "packet_slot list \<Rightarrow> nat" where
  "total_valid_frames slots = (\<Sum>s \<leftarrow> slots. if ps_is_valid s then ps_num_frames s else 0)"

definition check_prefill :: "u64 \<Rightarrow> jitter_buffer \<Rightarrow> jitter_buffer" where
  "check_prefill now_ms j =
     (if jb_is_buffering j then
        (let fill_target = (if jb_startup_pending j then jb_startup_target_frames j
                            else jb_target_buffer_frames j);
             buffered = scan_contiguous (jb_slots j) (jb_next_play_seq j) 0;
             escape_target = (if jb_startup_pending j then fill_target * 2 else fill_target);
             delivery_stable = (jb_hole_free_run j \<ge> kStableArrivalCount)
         in if (buffered \<ge> fill_target \<and> delivery_stable) \<or>
               total_valid_frames (jb_slots j) \<ge> escape_target
            then (let j = j\<lparr>jb_is_buffering := False\<rparr> in
                  if jb_startup_pending j
                  then j\<lparr>jb_startup_pending := False, jb_startup_complete_ms := now_ms\<rparr>
                  else j)
            else j)
      else j)"

abbreviation upd_stats :: "(jitter_stats \<Rightarrow> jitter_stats) \<Rightarrow> jitter_buffer \<Rightarrow> jitter_buffer" where
  "upd_stats f j \<equiv> j\<lparr>jb_stats := f (jb_stats j)\<rparr>"

text \<open>
  \<open>pcm_data\<close> is the null pointer (\<open>None\<close>) or the samples that can be read from it.
\<close>

definition push_packet ::
    "u64 \<Rightarrow> u64 \<Rightarrow> u32 \<Rightarrow> u64 \<Rightarrow> i16 list option \<Rightarrow> nat \<Rightarrow> jitter_buffer \<Rightarrow> (bool \<times> jitter_buffer) option"
  where
  "push_packet now_us now_ms seq timestamp_us pcm_data num_frames j =
     (case pcm_data of
        None \<Rightarrow> Some (False, j)
      | Some pcm \<Rightarrow>
        if num_frames = 0 then Some (False, j)
        else (case update_jitter now_us timestamp_us j of
          None \<Rightarrow> None
        | Some j \<Rightarrow>
          (let j = upd_stats (\<lambda>s. s\<lparr>js_packets_received := js_packets_received s + 1\<rparr>) j;
               j = first_packet seq j;
               diff = sint (seq - jb_next_play_seq j)
           in if diff < 0 \<and> diff > - int MAX_SLOTS
              then Some (False, upd_stats (\<lambda>s. s\<lparr>js_packets_out_of_order := js_packets_out_of_order s + 1\<rparr>) j)
              else
                (let (j, diff) = (if diff < 0 then (resync seq j, 0) else (j, diff));
                     j = (if diff \<ge> int MAX_SLOTS
                          then resync seq (upd_stats (\<lambda>s. s\<lparr>js_overruns := js_overruns s + 1\<rparr>) j)
                          else j);
                     slot = jb_slots j ! (unat seq mod MAX_SLOTS)
                 in if ps_is_valid slot \<and> ps_seq_num slot = seq
                    then Some (False, upd_stats (\<lambda>s. s\<lparr>js_packets_duplicate := js_packets_duplicate s + 1\<rparr>) j)
                    else if length pcm < num_frames * jb_channels j then None
                    else Some (True, check_prefill now_ms
                           (track_run seq (store_packet seq timestamp_us pcm num_frames j)))))))"

section \<open>Playback\<close>

definition available_frames_unlocked :: "jitter_buffer \<Rightarrow> nat" where
  "available_frames_unlocked j =
     (let total = scan_contiguous (jb_slots j) (jb_next_play_seq j) 0
      in if total \<ge> jb_slot_frame_offset j then total - jb_slot_frame_offset j else total)"

definition available_frames :: "jitter_buffer \<Rightarrow> nat" where
  "available_frames j = available_frames_unlocked j"

definition is_ready :: "jitter_buffer \<Rightarrow> bool" where
  "is_ready j \<longleftrightarrow> \<not> jb_is_buffering j \<and> jb_has_first_packet j"

abbreviation cur_index :: "jitter_buffer \<Rightarrow> nat" where
  "cur_index j \<equiv> unat (jb_next_play_seq j) mod MAX_SLOTS"

abbreviation cur_slot :: "jitter_buffer \<Rightarrow> packet_slot" where
  "cur_slot j \<equiv> jb_slots j ! cur_index j"

abbreviation cur_available :: "jitter_buffer \<Rightarrow> bool" where
  "cur_available j \<equiv> ps_is_valid (cur_slot j) \<and> ps_seq_num (cur_slot j) = jb_next_play_seq j"

text \<open>Leaving a slot for the next one: the three copies of this code differ only in the slot.\<close>

definition leave_slot :: "packet_slot \<Rightarrow> jitter_buffer \<Rightarrow> jitter_buffer" where
  "leave_slot s j =
     j\<lparr>jb_slots := (jb_slots j)[cur_index j := s], jb_slot_frame_offset := 0,
       jb_next_play_seq := jb_next_play_seq j + 1\<rparr>"

partial_function (option) advance_playhead_locked :: "nat \<Rightarrow> jitter_buffer \<Rightarrow> jitter_buffer option" where
  "advance_playhead_locked frames j =
     (if frames = 0 then Some j
      else if cur_available j then
        (let remaining = size_sub (ps_num_frames (cur_slot j)) (jb_slot_frame_offset j)
         in if frames < remaining
            then Some (j\<lparr>jb_slot_frame_offset := jb_slot_frame_offset j + frames\<rparr>)
            else advance_playhead_locked (frames - remaining) (leave_slot (drop_slot (cur_slot j)) j))
      else advance_playhead_locked frames (leave_slot ((cur_slot j)\<lparr>ps_is_valid := False\<rparr>) j))"

definition drain_to_target :: "u64 \<Rightarrow> jitter_buffer \<Rightarrow> jitter_buffer option" where
  "drain_to_target now_ms j =
     (if \<not> jb_startup_pending j \<and> ac_sample_rate (jb_config j) > 0 then
        (let past_grace = (jb_startup_complete_ms j = 0 \<or>
                           now_ms - jb_startup_complete_ms j \<ge> kDrainStartGraceMs)
         in if past_grace then
           (let buffered = available_frames_unlocked j;
                rate = unat (ac_sample_rate (jb_config j));
                margin = (rate * kDrainMarginMs) div 1000
            in if buffered > jb_target_buffer_frames j + margin then
              (let large_backlog_threshold = jb_target_buffer_frames j + (rate * 100) div 1000;
                   large = (buffered > large_backlog_threshold);
                   interval = (if large then kDrainFastIntervalMs else kDrainIntervalMs);
                   chunk = (if large then kDrainFastChunkFrames else kDrainChunkFrames)
               in if now_ms - jb_last_drain_ms j \<ge> interval then
                 (let excess = buffered - jb_target_buffer_frames j - margin;
                      drop = min excess chunk
                  in (case advance_playhead_locked drop j of
                        None \<Rightarrow> None
                      | Some j \<Rightarrow>
                        Some ((upd_stats (\<lambda>s. s\<lparr>js_drained_frames := js_drained_frames s + of_nat drop\<rparr>) j)
                                \<lparr>jb_last_drain_ms := now_ms\<rparr>)))
                 else Some j)
               else Some j)
            else Some j)
      else Some j)"

definition has_future_packets :: "jitter_buffer \<Rightarrow> bool" where
  "has_future_packets j \<longleftrightarrow>
     list_ex (\<lambda>i. ps_is_valid (jb_slots j ! ((unat (jb_next_play_seq j) + i) mod MAX_SLOTS)))
       [1..<MAX_SLOTS]"

text \<open>
  The copy loop. \<open>out\<close> holds the samples stored so far at \<open>dest\<close>: every iteration stores right
  after them, at \<^verbatim>\<open>frames_delivered * channels\<close>.
\<close>

partial_function (option) pop_loop ::
    "nat \<Rightarrow> nat \<Rightarrow> i16 list \<Rightarrow> jitter_buffer \<Rightarrow> (nat \<times> i16 list \<times> jitter_buffer) option" where
  "pop_loop num_frames frames_delivered out j =
     (if frames_delivered < num_frames then
        (let slot = cur_slot j; ch = jb_channels j; needed = num_frames - frames_delivered in
         if cur_available j then
           (let available_in_slot = size_sub (ps_num_frames slot) (jb_slot_frame_offset j);
                to_copy = min available_in_slot needed;
                start = jb_slot_frame_offset j * ch
            in if length (ps_pcm_data slot) < start + to_copy * ch then None
               else (let out = out @ slice start (to_copy * ch) (ps_pcm_data slot);
                         off = jb_slot_frame_offset j + to_copy
                     in pop_loop num_frames (frames_delivered + to_copy) out
                          (if off \<ge> ps_num_frames slot then leave_slot (drop_slot slot) j
                           else j\<lparr>jb_slot_frame_offset := off\<rparr>)))
         else if has_future_packets j then
           (let conceal = min needed (if ac_frames_per_packet (jb_config j) > 0
                                      then unat (ac_frames_per_packet (jb_config j)) else 240)
            in pop_loop num_frames (frames_delivered + conceal) (out @ replicate (conceal * ch) 0)
                 (leave_slot (drop_slot slot)
                   (upd_stats (\<lambda>s. s\<lparr>js_packets_lost := js_packets_lost s + 1,
                                    js_underruns := js_underruns s + 1\<rparr>) j)))
         else Some (frames_delivered + needed, out @ replicate (needed * ch) 0,
                upd_stats (\<lambda>s. s\<lparr>js_underruns := js_underruns s + 1\<rparr>) (j\<lparr>jb_is_buffering := True\<rparr>)))
      else Some (frames_delivered, out, j))"

text \<open>\<open>dest\<close> is the null pointer or a buffer; a buffer with too little room is a stray store.\<close>

definition pop_frames ::
    "u64 \<Rightarrow> i16 list option \<Rightarrow> nat \<Rightarrow> jitter_buffer \<Rightarrow> (nat \<times> i16 list option \<times> jitter_buffer) option" where
  "pop_frames now_ms dest num_frames j =
     (case dest of
        None \<Rightarrow> Some (0, None, j)
      | Some d \<Rightarrow>
        if num_frames = 0 then Some (0, Some d, j)
        else if length d < num_frames * jb_channels j then None
        else if jb_is_buffering j \<or> \<not> jb_has_first_packet j
        then Some (num_frames, Some (blit d 0 (replicate (num_frames * jb_channels j) 0)), j)
        else (case drain_to_target now_ms j of
                None \<Rightarrow> None
              | Some j \<Rightarrow>
                map_option (\<lambda>(n, out, j). (n, Some (blit d 0 out), j)) (pop_loop num_frames 0 [] j)))"

definition available_duration_ms :: "jitter_buffer \<Rightarrow> flt" where
  "available_duration_ms j =
     (let frames = available_frames_unlocked j in
      if ac_sample_rate (jb_config j) = 0 then FFin 0
      else fl_div_const binary64 (fl_mul binary64 (fl_of_int binary64 (int frames)) (FFin 1000))
             (of_nat (unat (ac_sample_rate (jb_config j)))))"

definition get_stats :: "jitter_buffer \<Rightarrow> jitter_stats" where
  "get_stats j =
     (jb_stats j)\<lparr>js_current_buffer_ms := available_duration_ms j,
       js_avg_jitter_ms := fl_div_const binary64 (jb_jitter_estimate_us j) 1000\<rparr>"

section \<open>Sequence numbers and slot indices\<close>

lemma MAX_SLOTS_pos [simp]: "0 < MAX_SLOTS" "MAX_SLOTS \<noteq> 0"
  by (simp_all add: MAX_SLOTS_def)

lemma seq_index_add: "unat (q + of_nat i :: u32) mod MAX_SLOTS = (unat q + i) mod MAX_SLOTS"
proof -
  have "unat (q + of_nat i) = (unat q + i) mod 2 ^ 32"
    by (simp add: unat_word_ariths unat_of_nat mod_add_right_eq)
  moreover have "MAX_SLOTS dvd 2 ^ 32" by (simp add: MAX_SLOTS_def)
  ultimately show ?thesis by (simp add: mod_mod_cancel)
qed

lemma seq_index_Suc: "unat (q + 1 :: u32) mod MAX_SLOTS = Suc (unat q) mod MAX_SLOTS"
  using seq_index_add [of q 1] by simp

lemma unat_u32_of_small: "i < MAX_SLOTS \<Longrightarrow> unat (of_nat i :: u32) = i"
  by (simp add: unat_of_nat MAX_SLOTS_def)

lemma seq_as_offset: "seq = np + of_nat (unat (seq - np))" for seq np :: u32
  by simp

text \<open>Two sequence numbers of one window share a slot only when they are equal.\<close>

lemma window_index_inj:
  fixes a b np :: u32
  assumes "unat (a - np) < MAX_SLOTS" and "unat (b - np) < MAX_SLOTS"
    and "unat a mod MAX_SLOTS = unat b mod MAX_SLOTS"
  shows "a = b"
proof -
  have "(unat np + unat (a - np)) mod MAX_SLOTS = (unat np + unat (b - np)) mod MAX_SLOTS"
    using assms(3) seq_index_add [of np "unat (a - np)"] seq_index_add [of np "unat (b - np)"] by simp
  then have "unat (a - np) mod MAX_SLOTS = unat (b - np) mod MAX_SLOTS"
    by (rule mod_add_cancel_left)
  then have "a - np = b - np" using assms(1,2) by (simp add: word_unat_eq_iff)
  then show ?thesis by simp
qed

lemma sint_nonneg_unat: "0 \<le> sint w \<Longrightarrow> unat w = nat (sint w)" for w :: u32
proof -
  assume "0 \<le> sint w"
  moreover have "sint w < 2 ^ 31" using sint_less [of w] by simp
  moreover have "uint w = take_bit 32 (sint w)" by (simp add: uint_sint)
  ultimately have "uint w = sint w" by (simp add: take_bit_int_eq_self)
  then show ?thesis by (simp flip: nat_uint_eq)
qed

section \<open>Invariant\<close>

definition slot_ok :: "nat \<Rightarrow> u32 \<Rightarrow> nat \<Rightarrow> packet_slot \<Rightarrow> bool" where
  "slot_ok ch np k s \<longleftrightarrow>
     (ps_is_valid s \<longrightarrow>
        unat (ps_seq_num s) mod MAX_SLOTS = k \<and> unat (ps_seq_num s - np) < MAX_SLOTS \<and>
        0 < ps_num_frames s \<and> length (ps_pcm_data s) = ps_num_frames s * ch)"

text \<open>
  A valid slot holds a packet of the window of 256 sequence numbers that starts at the playhead, in
  the slot its number selects, with all the samples of its frames; a partly consumed packet is the
  one at the playhead; nothing is stored before the first packet.
\<close>

definition jb_inv :: "jitter_buffer \<Rightarrow> bool" where
  "jb_inv j \<longleftrightarrow>
     length (jb_slots j) = MAX_SLOTS \<and>
     (\<forall>k < MAX_SLOTS. slot_ok (jb_channels j) (jb_next_play_seq j) k (jb_slots j ! k)) \<and>
     (jb_slot_frame_offset j = 0 \<or>
        cur_available j \<and> jb_slot_frame_offset j < ps_num_frames (cur_slot j)) \<and>
     (\<not> jb_has_first_packet j \<longrightarrow> (\<forall>s \<in> set (jb_slots j). \<not> ps_is_valid s))"

lemma jb_invD:
  assumes "jb_inv j"
  shows "length (jb_slots j) = MAX_SLOTS"
    and "k < MAX_SLOTS \<Longrightarrow> slot_ok (jb_channels j) (jb_next_play_seq j) k (jb_slots j ! k)"
    and "cur_index j < length (jb_slots j)"
    and "cur_available j \<Longrightarrow> jb_slot_frame_offset j < ps_num_frames (cur_slot j)"
    and "cur_available j \<Longrightarrow> length (ps_pcm_data (cur_slot j)) = ps_num_frames (cur_slot j) * jb_channels j"
    and "\<not> cur_available j \<Longrightarrow> jb_slot_frame_offset j = 0"
    and "cur_available j \<Longrightarrow> jb_has_first_packet j"
proof -
  show *: "length (jb_slots j) = MAX_SLOTS" "cur_index j < length (jb_slots j)"
    using assms by (simp_all add: jb_inv_def)
  show k: "slot_ok (jb_channels j) (jb_next_play_seq j) k (jb_slots j ! k)" if "k < MAX_SLOTS" for k
    using assms that by (simp add: jb_inv_def)
  show "cur_available j \<Longrightarrow> jb_slot_frame_offset j < ps_num_frames (cur_slot j)"
    "cur_available j \<Longrightarrow> length (ps_pcm_data (cur_slot j)) = ps_num_frames (cur_slot j) * jb_channels j"
    using k [of "cur_index j"] assms by (auto simp: jb_inv_def slot_ok_def)
  show "\<not> cur_available j \<Longrightarrow> jb_slot_frame_offset j = 0" using assms by (auto simp: jb_inv_def)
  show "cur_available j \<Longrightarrow> jb_has_first_packet j" using assms * by (auto simp: jb_inv_def)
qed

lemma jb_inv_no_valid:
  assumes "length (jb_slots j) = MAX_SLOTS" and "\<forall>s \<in> set (jb_slots j). \<not> ps_is_valid s"
    and "jb_slot_frame_offset j = 0"
  shows "jb_inv j"
  using assms by (simp add: jb_inv_def slot_ok_def)

lemma jb_inv_cong:
  assumes "jb_inv j" and "jb_slots i = jb_slots j" and "jb_config i = jb_config j"
    and "jb_next_play_seq i = jb_next_play_seq j" and "jb_slot_frame_offset i = jb_slot_frame_offset j"
    and "jb_has_first_packet i = jb_has_first_packet j"
  shows "jb_inv i"
  using assms by (simp add: jb_inv_def)

text \<open>Fields that the bookkeeping steps leave alone.\<close>

lemma update_jitter_frame:
  assumes "update_jitter now ts j = Some i"
  shows "jb_slots i = jb_slots j" "jb_config i = jb_config j" "jb_next_play_seq i = jb_next_play_seq j"
    "jb_slot_frame_offset i = jb_slot_frame_offset j" "jb_has_first_packet i = jb_has_first_packet j"
    "jb_is_buffering i = jb_is_buffering j" "jb_stats i = jb_stats j"
    "jb_startup_pending i = jb_startup_pending j" "jb_hole_free_run i = jb_hole_free_run j"
    "jb_last_arrived_seq i = jb_last_arrived_seq j" "jb_has_last_arrived_seq i = jb_has_last_arrived_seq j"
    "jb_target_buffer_frames i = jb_target_buffer_frames j" "jb_startup_target_frames i = jb_startup_target_frames j"
  using assms by (auto simp: update_jitter_def Let_def split: if_splits)

lemma check_prefill_frame [simp]:
  "jb_slots (check_prefill t j) = jb_slots j" "jb_config (check_prefill t j) = jb_config j"
  "jb_next_play_seq (check_prefill t j) = jb_next_play_seq j"
  "jb_slot_frame_offset (check_prefill t j) = jb_slot_frame_offset j"
  "jb_has_first_packet (check_prefill t j) = jb_has_first_packet j"
  "jb_stats (check_prefill t j) = jb_stats j"
  by (simp_all add: check_prefill_def Let_def)

lemma track_run_frame [simp]:
  "jb_slots (track_run q j) = jb_slots j" "jb_config (track_run q j) = jb_config j"
  "jb_next_play_seq (track_run q j) = jb_next_play_seq j"
  "jb_slot_frame_offset (track_run q j) = jb_slot_frame_offset j"
  "jb_has_first_packet (track_run q j) = jb_has_first_packet j"
  "jb_stats (track_run q j) = jb_stats j"
  by (simp_all add: track_run_def)

lemma drop_slot_simps [simp]: "\<not> ps_is_valid (drop_slot s)" "ps_num_frames (drop_slot s) = ps_num_frames s"
  by (simp_all add: drop_slot_def)

lemma leave_slot_frame [simp]:
  "jb_config (leave_slot s j) = jb_config j" "jb_has_first_packet (leave_slot s j) = jb_has_first_packet j"
  "jb_next_play_seq (leave_slot s j) = jb_next_play_seq j + 1" "jb_slot_frame_offset (leave_slot s j) = 0"
  "jb_slots (leave_slot s j) = (jb_slots j)[cur_index j := s]"
  "jb_stats (leave_slot s j) = jb_stats j" "jb_is_buffering (leave_slot s j) = jb_is_buffering j"
  "jb_target_buffer_frames (leave_slot s j) = jb_target_buffer_frames j"
  "jb_startup_pending (leave_slot s j) = jb_startup_pending j"
  by (simp_all add: leave_slot_def)

subsection \<open>Operations that keep it\<close>

lemma jb_inv_JitterBuffer: "jb_inv (JitterBuffer target)"
  by (rule jb_inv_no_valid) (simp_all add: JitterBuffer_def empty_slot_def)

lemma jb_inv_reset: "length (jb_slots j) = MAX_SLOTS \<Longrightarrow> jb_inv (jb_reset j)"
  by (rule jb_inv_no_valid) (auto simp: jb_reset_def)

lemma jb_inv_configure: "jb_inv j \<Longrightarrow> jb_inv (jb_configure config target j)"
  unfolding jb_configure_def Let_def by (rule jb_inv_reset) (simp add: jb_invD(1))

lemma jb_inv_resync: "jb_inv j \<Longrightarrow> jb_inv (resync seq j)"
  by (rule jb_inv_no_valid) (auto simp: resync_def jb_invD(1))

lemma jb_inv_first_packet: "jb_inv j \<Longrightarrow> jb_inv (first_packet seq j)"
  by (auto simp: first_packet_def jb_invD(1) jb_invD(7) intro!: jb_inv_no_valid)
     (auto simp: jb_inv_def dest: jb_invD(6))

lemma jb_inv_offset:
  "jb_inv j \<Longrightarrow> cur_available j \<Longrightarrow> off < ps_num_frames (cur_slot j) \<Longrightarrow> jb_inv (j\<lparr>jb_slot_frame_offset := off\<rparr>)"
  by (auto simp: jb_inv_def)

lemma jb_inv_leave:
  assumes "jb_inv j" and "\<not> ps_is_valid s"
  shows "jb_inv (leave_slot s j)"
proof -
  note inv = jb_invD [OF assms(1)]
  have ok: "slot_ok (jb_channels j) (jb_next_play_seq j + 1) k ((jb_slots j)[cur_index j := s] ! k)"
    if k: "k < MAX_SLOTS" for k
  proof (cases "k = cur_index j")
    case True
    with assms(2) inv(1) show ?thesis by (simp add: slot_ok_def)
  next
    case False
    define d where "d = ps_seq_num (jb_slots j ! k) - jb_next_play_seq j"
    have "unat (d - 1) < MAX_SLOTS" if "ps_is_valid (jb_slots j ! k)"
    proof -
      have "unat d < MAX_SLOTS" and "unat (ps_seq_num (jb_slots j ! k)) mod MAX_SLOTS = k"
        using inv(2) [OF k] that by (simp_all add: slot_ok_def d_def)
      then have "d \<noteq> 0" using False by (auto simp: d_def)
      then show ?thesis using \<open>unat d < MAX_SLOTS\<close> by (simp add: unat_minus_one)
    qed
    then show ?thesis using inv(2) [OF k] False by (simp add: slot_ok_def d_def diff_diff_add)
  qed
  have "\<forall>s \<in> set ((jb_slots j)[cur_index j := s]). \<not> ps_is_valid s" if "\<not> jb_has_first_packet j"
    using that assms by (auto simp: jb_inv_def dest!: set_update_subset_insert [THEN subsetD])
  with ok inv(1) show ?thesis by (simp add: jb_inv_def)
qed

lemma jb_inv_store:
  assumes "jb_inv j" and w: "unat (seq - jb_next_play_seq j) < MAX_SLOTS" and "0 < num_frames"
    and pcm: "num_frames * jb_channels j \<le> length pcm" and "jb_has_first_packet j"
    and new: "\<not> (ps_is_valid (jb_slots j ! (unat seq mod MAX_SLOTS)) \<and>
                 ps_seq_num (jb_slots j ! (unat seq mod MAX_SLOTS)) = seq)"
  shows "jb_inv (store_packet seq ts pcm num_frames j)"
proof -
  note inv = jb_invD [OF assms(1)]
  have "unat seq mod MAX_SLOTS \<noteq> cur_index j" if "cur_available j"
  proof
    assume eq: "unat seq mod MAX_SLOTS = cur_index j"
    then have "seq = jb_next_play_seq j" using w by (intro window_index_inj [OF w]) auto
    with new that show False by simp
  qed
  moreover have "jb_slot_frame_offset j = 0 \<or> cur_available j \<and> jb_slot_frame_offset j < ps_num_frames (cur_slot j)"
    using inv(4,6) by blast
  moreover have "slot_ok (jb_channels j) (jb_next_play_seq j) k
      (jb_slots (store_packet seq ts pcm num_frames j) ! k)" if "k < MAX_SLOTS" for k
    using inv(2) [OF that] inv(1) that assms(3) w pcm
    by (auto simp: slot_ok_def store_packet_def nth_list_update)
  ultimately show ?thesis
    using inv(1) assms(5) unfolding jb_inv_def by (auto simp: store_packet_def nth_list_update)
qed

section \<open>Arrival\<close>

text \<open>The state after the bookkeeping of an arrival, and after the window has been moved if needed.\<close>

definition arrived :: "u32 \<Rightarrow> jitter_buffer \<Rightarrow> jitter_buffer" where
  "arrived seq j = first_packet seq (upd_stats (\<lambda>s. s\<lparr>js_packets_received := js_packets_received s + 1\<rparr>) j)"

definition window_for :: "u32 \<Rightarrow> jitter_buffer \<Rightarrow> jitter_buffer" where
  "window_for seq j =
     (let diff = sint (seq - jb_next_play_seq j) in
      if diff < 0 then resync seq j
      else if diff \<ge> int MAX_SLOTS then resync seq (upd_stats (\<lambda>s. s\<lparr>js_overruns := js_overruns s + 1\<rparr>) j)
      else j)"

definition is_late :: "u32 \<Rightarrow> jitter_buffer \<Rightarrow> bool" where
  "is_late seq j \<longleftrightarrow> (let diff = sint (seq - jb_next_play_seq j) in diff < 0 \<and> diff > - int MAX_SLOTS)"

definition holds_seq :: "u32 \<Rightarrow> jitter_buffer \<Rightarrow> bool" where
  "holds_seq seq j \<longleftrightarrow> (let slot = jb_slots j ! (unat seq mod MAX_SLOTS) in ps_is_valid slot \<and> ps_seq_num slot = seq)"

lemma push_packet_unfold:
  assumes "update_jitter now_us ts j = Some i" and "num_frames \<noteq> 0"
  shows "push_packet now_us now_ms seq ts (Some pcm) num_frames j =
     (let a = arrived seq i; b = window_for seq a in
      if is_late seq a
      then Some (False, upd_stats (\<lambda>s. s\<lparr>js_packets_out_of_order := js_packets_out_of_order s + 1\<rparr>) a)
      else if holds_seq seq b
      then Some (False, upd_stats (\<lambda>s. s\<lparr>js_packets_duplicate := js_packets_duplicate s + 1\<rparr>) b)
      else if length pcm < num_frames * jb_channels b then None
      else Some (True, check_prefill now_ms (track_run seq (store_packet seq ts pcm num_frames b))))"
  using assms by (simp add: push_packet_def arrived_def window_for_def is_late_def holds_seq_def Let_def)

lemma arrived_frame [simp]:
  "jb_has_first_packet (arrived seq j)" "jb_slots (arrived seq j) = jb_slots j"
  "jb_config (arrived seq j) = jb_config j" "jb_slot_frame_offset (arrived seq j) = jb_slot_frame_offset j"
  by (simp_all add: arrived_def first_packet_def)

lemma window_for_frame [simp]:
  "jb_has_first_packet (window_for seq j) = jb_has_first_packet j"
  "jb_config (window_for seq j) = jb_config j"
  by (simp_all add: window_for_def resync_def Let_def)

lemma jb_inv_arrived: "jb_inv j \<Longrightarrow> jb_inv (arrived seq j)"
  unfolding arrived_def by (rule jb_inv_first_packet) (simp add: jb_inv_def)

lemma jb_inv_window_for: "jb_inv j \<Longrightarrow> jb_inv (window_for seq j)"
  by (auto simp: window_for_def Let_def intro!: jb_inv_resync) (simp add: jb_inv_def)

lemma window_for_opens: "unat (seq - jb_next_play_seq (window_for seq j)) < MAX_SLOTS"
  using sint_nonneg_unat [of "seq - jb_next_play_seq j"]
  by (auto simp: window_for_def Let_def resync_def)

lemma jb_inv_update_jitter: "jb_inv j \<Longrightarrow> update_jitter now ts j = Some i \<Longrightarrow> jb_inv i"
  by (rule jb_inv_cong) (simp_all add: update_jitter_frame)

lemma jb_inv_stored:
  assumes "jb_inv i" and "\<not> holds_seq seq (window_for seq (arrived seq i))" and "num_frames \<noteq> 0"
    and "num_frames * jb_channels i \<le> length pcm"
  shows "jb_inv (check_prefill now_ms (track_run seq (store_packet seq ts pcm num_frames (window_for seq (arrived seq i)))))"
proof -
  have "jb_inv (store_packet seq ts pcm num_frames (window_for seq (arrived seq i)))"
    using assms by (intro jb_inv_store jb_inv_window_for jb_inv_arrived window_for_opens)
      (auto simp: holds_seq_def Let_def)
  then show ?thesis by (rule jb_inv_cong) simp_all
qed

lemma upd_stats_frame [simp]:
  "jb_inv (j\<lparr>jb_stats := st\<rparr>) = jb_inv j"
  by (simp add: jb_inv_def)

lemma store_packet_frame [simp]:
  "jb_config (store_packet q ts pcm n j) = jb_config j"
  "jb_has_first_packet (store_packet q ts pcm n j) = jb_has_first_packet j"
  "jb_next_play_seq (store_packet q ts pcm n j) = jb_next_play_seq j"
  "jb_slot_frame_offset (store_packet q ts pcm n j) = jb_slot_frame_offset j"
  "jb_stats (store_packet q ts pcm n j) = jb_stats j"
  by (simp_all add: store_packet_def)

lemma push_packet_inv:
  assumes "jb_inv j" and "push_packet now_us now_ms seq ts pcm_data num_frames j = Some (ok, j')"
  shows "jb_inv j'"
proof (cases "pcm_data = None \<or> num_frames = 0")
  case True
  with assms show ?thesis by (auto simp: push_packet_def split: option.splits)
next
  case False
  then obtain pcm where p: "pcm_data = Some pcm" and n: "num_frames \<noteq> 0" by auto
  with assms(2) obtain i where i: "update_jitter now_us ts j = Some i"
    by (cases "update_jitter now_us ts j") (auto simp: push_packet_def)
  have inv: "jb_inv i" by (rule jb_inv_update_jitter [OF assms(1) i])
  have late: "jb_inv (arrived seq i)" "jb_inv (window_for seq (arrived seq i))"
    by (simp_all add: jb_inv_arrived jb_inv_window_for inv)
  show ?thesis
    using assms(2) late jb_inv_stored [OF inv _ n, of seq pcm now_ms ts] unfolding p
    by (auto simp: push_packet_unfold [OF i n] Let_def split: if_splits)
qed

text \<open>Clock readings below $2^{62}$ microseconds keep the jitter estimate free of overflow.\<close>

definition transit_small :: "jitter_buffer \<Rightarrow> bool" where
  "transit_small j \<longleftrightarrow> \<bar>jb_last_transit_us j\<bar> < 2 ^ 62"

lemma pow_63: "(2::int) ^ 63 = 2 * 2 ^ 62"
  by simp

lemma uint_less_2_62: "unat (a :: u64) < 2 ^ 62 \<Longrightarrow> uint a < 2 ^ 62"
  using of_nat_less_iff [where ?'a = int, of "unat a" "2 ^ 62"] by simp

lemma sint_diff_small:
  fixes a b :: u64
  assumes "unat a < 2 ^ 62" and "unat b < 2 ^ 62"
  shows "\<bar>sint (a - b)\<bar> < 2 ^ 62"
proof -
  have ab: "uint a < 2 ^ 62" "uint b < 2 ^ 62" "0 \<le> uint a" "0 \<le> uint b"
    using assms by (simp_all only: uint_less_2_62 uint_ge_0)
  have "a - b = word_of_int (uint a - uint b)" by simp
  then have "sint (a - b) = signed_take_bit 63 (uint a - uint b)" by (simp only: signed_of_int) simp
  also have "\<dots> = uint a - uint b" using ab by (intro signed_take_bit_int_eq_self; unfold pow_63; linarith)
  finally have "sint (a - b) = uint a - uint b" .
  then show ?thesis using ab by linarith
qed

lemma update_jitter_total:
  assumes "transit_small j" and "unat now < 2 ^ 62" and "unat ts < 2 ^ 62"
  shows "\<exists>i. update_jitter now ts j = Some i \<and> transit_small i"
proof -
  define t where "t = sint (now - ts)"
  have "\<bar>t\<bar> < 2 ^ 62" using sint_diff_small [OF assms(2,3)] by (simp add: t_def)
  moreover from this assms(1) have "int64_ok (t - jb_last_transit_us j)" "int64_ok \<bar>t - jb_last_transit_us j\<bar>"
    unfolding transit_small_def int64_ok_def pow_63 by ((intro conjI; linarith) | linarith)+
  ultimately show ?thesis using assms(1)
    by (simp add: update_jitter_def Let_def transit_small_def t_def [symmetric])
qed

lemma transit_small_frame [simp]:
  "transit_small (check_prefill t j) = transit_small j" "transit_small (track_run q j) = transit_small j"
  "transit_small (store_packet q ts pcm n j) = transit_small j" "transit_small (window_for q j) = transit_small j"
  "transit_small (arrived q j) = transit_small j" "transit_small (j\<lparr>jb_stats := st\<rparr>) = transit_small j"
  by (simp_all add: transit_small_def check_prefill_def track_run_def store_packet_def window_for_def
      resync_def arrived_def first_packet_def Let_def)

lemma push_packet_defined:
  assumes "jb_inv j" and "transit_small j" and "num_frames * jb_channels j \<le> length pcm"
    and "unat now_us < 2 ^ 62" and "unat ts < 2 ^ 62"
  shows "\<exists>ok j'. push_packet now_us now_ms seq ts (Some pcm) num_frames j = Some (ok, j') \<and>
                 jb_inv j' \<and> transit_small j' \<and> jb_config j' = jb_config j"
proof (cases "num_frames = 0")
  case True
  with assms show ?thesis by (auto simp: push_packet_def)
next
  case False
  obtain i where i: "update_jitter now_us ts j = Some i" "transit_small i"
    using update_jitter_total [OF assms(2,4,5)] by blast
  have c: "jb_config i = jb_config j" using i(1) by (rule update_jitter_frame)
  have "\<exists>ok j'. push_packet now_us now_ms seq ts (Some pcm) num_frames j = Some (ok, j') \<and>
          transit_small j' \<and> jb_config j' = jb_config j"
    using assms(3) i(2) c
    by (auto simp: push_packet_unfold [OF i(1) False] Let_def)
  then show ?thesis using push_packet_inv [OF assms(1)] by blast
qed

lemma push_transit_small:
  assumes "transit_small j" and "push_packet now_us now_ms seq ts (Some pcm) num_frames j = Some (ok, j')"
    and "unat now_us < 2 ^ 62" and "unat ts < 2 ^ 62"
  shows "transit_small j'"
proof (cases "num_frames = 0")
  case True
  with assms show ?thesis by (auto simp: push_packet_def)
next
  case False
  obtain i where i: "update_jitter now_us ts j = Some i" "transit_small i"
    using update_jitter_total [OF assms(1,3,4)] by blast
  then show ?thesis using assms(2)
    by (auto simp: push_packet_unfold [OF i(1) False] Let_def split: if_splits)
qed

section \<open>The stream at the playhead\<close>

text \<open>
  \<open>run slots q n\<close> lists the packets that are present without a gap from sequence number \<open>q\<close> on, at
  most \<open>n\<close> of them; sequence numbers wrap at 32 bits. \<open>jb_stream\<close> is the audio that is waiting in
  these packets and \<open>jb_queued\<close> its length in frames.
\<close>

fun run :: "packet_slot list \<Rightarrow> u32 \<Rightarrow> nat \<Rightarrow> packet_slot list" where
  "run slots q 0 = []"
| "run slots q (Suc n) =
     (let s = slots ! (unat q mod MAX_SLOTS) in
      if ps_is_valid s \<and> ps_seq_num s = q then s # run slots (q + 1) n else [])"

definition jb_run :: "jitter_buffer \<Rightarrow> packet_slot list" where
  "jb_run j = run (jb_slots j) (jb_next_play_seq j) MAX_SLOTS"

definition jb_stream :: "jitter_buffer \<Rightarrow> i16 list" where
  "jb_stream j = drop (jb_slot_frame_offset j * jb_channels j) (concat (map ps_pcm_data (jb_run j)))"

definition jb_queued :: "jitter_buffer \<Rightarrow> nat" where
  "jb_queued j = sum_list (map ps_num_frames (jb_run j)) - jb_slot_frame_offset j"

lemma run_update_other:
  assumes "\<And>i. i < n \<Longrightarrow> (unat q + i) mod MAX_SLOTS \<noteq> k"
  shows "run (slots[k := s]) q n = run slots q n"
  using assms
proof (induction n arbitrary: q)
  case (Suc n)
  have "unat q mod MAX_SLOTS \<noteq> k" using Suc.prems [of 0] by simp
  moreover have "(unat (q + 1) + i) mod MAX_SLOTS \<noteq> k" if "i < n" for i
  proof -
    have "(unat (q + 1) + i) mod MAX_SLOTS = (Suc (unat q) + i) mod MAX_SLOTS"
      using seq_index_Suc [of q] by (metis mod_add_left_eq)
    then show ?thesis using Suc.prems [of "Suc i"] that by simp
  qed
  ultimately show ?case using Suc.IH [of "q + 1"] by (auto simp: Let_def)
qed simp

lemma run_stops:
  assumes "\<not> (ps_is_valid (slots ! (unat (q + of_nat n) mod MAX_SLOTS)) \<and>
               ps_seq_num (slots ! (unat (q + of_nat n) mod MAX_SLOTS)) = q + of_nat n)"
  shows "run slots q (n + m) = run slots q n"
  using assms
proof (induction n arbitrary: q)
  case 0
  then show ?case by (cases m) (auto simp: Let_def)
next
  case (Suc n)
  have "q + of_nat (Suc n) = (q + 1) + of_nat n" by (simp add: algebra_simps)
  then show ?case using Suc.IH [of "q + 1"] Suc.prems by (simp add: Let_def add.assoc)
qed

lemma shifted_index_distinct:
  assumes "i < MAX_SLOTS - 1"
  shows "(unat (q + 1 :: u32) + i) mod MAX_SLOTS \<noteq> unat q mod MAX_SLOTS"
proof
  assume "(unat (q + 1) + i) mod MAX_SLOTS = unat q mod MAX_SLOTS"
  then have "(unat q + Suc i) mod MAX_SLOTS = (unat q + 0) mod MAX_SLOTS"
    using seq_index_Suc [of q] by (metis add_Suc_right add_Suc add.right_neutral mod_add_left_eq)
  then have "Suc i mod MAX_SLOTS = 0 mod MAX_SLOTS" by (rule mod_add_cancel_left)
  then show False using assms by simp
qed

text \<open>Leaving the slot at the playhead removes the first packet of the run, and nothing else.\<close>

lemma jb_run_unfold:
  "jb_run j = (if cur_available j then cur_slot j # run (jb_slots j) (jb_next_play_seq j + 1) (MAX_SLOTS - 1) else [])"
proof -
  obtain n where n: "MAX_SLOTS = Suc n" using MAX_SLOTS_pos(1) gr0_implies_Suc by blast
  have "jb_run j = run (jb_slots j) (jb_next_play_seq j) (Suc n)" by (simp only: jb_run_def n)
  also have "\<dots> = (if cur_available j then cur_slot j # run (jb_slots j) (jb_next_play_seq j + 1) n else [])"
    by (simp only: run.simps Let_def)
  also have "n = MAX_SLOTS - 1" using n by (metis diff_Suc_1)
  finally show ?thesis .
qed

lemma jb_run_leave:
  assumes "jb_inv j" and "\<not> ps_is_valid s"
  shows "jb_run (leave_slot s j) = run (jb_slots j) (jb_next_play_seq j + 1) (MAX_SLOTS - 1)"
proof -
  define q where "q = jb_next_play_seq j"
  define slots' where "slots' = (jb_slots j)[cur_index j := s]"
  have wrap: "unat (q + 1 + of_nat (MAX_SLOTS - 1)) mod MAX_SLOTS = unat q mod MAX_SLOTS"
    using seq_index_add [of "q + 1" "MAX_SLOTS - 1"] seq_index_add [of q MAX_SLOTS]
    by (simp add: MAX_SLOTS_def algebra_simps)
  have "\<not> ps_is_valid (slots' ! (unat q mod MAX_SLOTS))"
    using assms jb_invD(3) [OF assms(1)] by (simp add: slots'_def q_def)
  then have "run slots' (q + 1) (MAX_SLOTS - 1 + 1) = run slots' (q + 1) (MAX_SLOTS - 1)"
    by (intro run_stops) (simp only: wrap, simp)
  also have "\<dots> = run (jb_slots j) (q + 1) (MAX_SLOTS - 1)"
    unfolding slots'_def by (rule run_update_other) (simp add: shifted_index_distinct q_def)
  finally show ?thesis by (simp add: jb_run_def slots'_def q_def MAX_SLOTS_def)
qed

lemma jb_run_leave_available:
  assumes "jb_inv j" and "cur_available j" and "\<not> ps_is_valid s"
  shows "jb_run j = cur_slot j # jb_run (leave_slot s j)"
  using assms by (simp add: jb_run_leave) (simp add: jb_run_unfold)

lemma stream_leave:
  assumes "jb_inv j" and "cur_available j" and "\<not> ps_is_valid s"
  shows "jb_stream j = drop (jb_slot_frame_offset j * jb_channels j) (ps_pcm_data (cur_slot j)) @ jb_stream (leave_slot s j)"
    and "jb_queued j = (ps_num_frames (cur_slot j) - jb_slot_frame_offset j) + jb_queued (leave_slot s j)"
  using jb_invD(4,5) [OF assms(1,2)] jb_run_leave_available [OF assms]
  by (simp_all add: jb_stream_def jb_queued_def)

lemma stream_offset:
  assumes "jb_inv j" and "cur_available j" and "jb_slot_frame_offset j + n < ps_num_frames (cur_slot j)"
  defines "i \<equiv> j\<lparr>jb_slot_frame_offset := jb_slot_frame_offset j + n\<rparr>"
  shows "jb_stream i = drop (n * jb_channels j) (jb_stream j)" and "jb_queued i = jb_queued j - n"
  by (simp_all add: i_def jb_stream_def jb_queued_def jb_run_def algebra_simps)

lemma stream_cong:
  "jb_slots i = jb_slots j \<Longrightarrow> jb_next_play_seq i = jb_next_play_seq j \<Longrightarrow>
   jb_slot_frame_offset i = jb_slot_frame_offset j \<Longrightarrow> jb_config i = jb_config j \<Longrightarrow>
   jb_stream i = jb_stream j \<and> jb_queued i = jb_queued j"
  by (simp add: jb_stream_def jb_queued_def jb_run_def)

text \<open>Every packet of the run is intact, so the stream has the samples of the queued frames.\<close>

lemma run_slots_ok:
  assumes "\<And>k. k < MAX_SLOTS \<Longrightarrow> slot_ok ch np k (slots ! k)" and "s \<in> set (run slots q n)"
  shows "length (ps_pcm_data s) = ps_num_frames s * ch \<and> 0 < ps_num_frames s"
  using assms(2)
proof (induction n arbitrary: q)
  case (Suc n)
  then show ?case using assms(1) [of "unat q mod MAX_SLOTS"]
    by (auto simp: Let_def slot_ok_def split: if_splits)
qed simp

lemma length_concat_frames:
  "(\<And>s. s \<in> set xs \<Longrightarrow> length (ps_pcm_data s) = ps_num_frames s * ch) \<Longrightarrow>
   length (concat (map ps_pcm_data xs)) = sum_list (map ps_num_frames xs) * ch"
  by (induction xs) (auto simp: algebra_simps)

lemma length_jb_stream: "jb_inv j \<Longrightarrow> length (jb_stream j) = jb_queued j * jb_channels j"
proof -
  assume inv: "jb_inv j"
  have "length (concat (map ps_pcm_data (jb_run j))) = sum_list (map ps_num_frames (jb_run j)) * jb_channels j"
    unfolding jb_run_def using run_slots_ok [OF jb_invD(2) [OF inv]] by (intro length_concat_frames) blast
  then show ?thesis by (simp add: jb_stream_def jb_queued_def diff_mult_distrib)
qed

section \<open>Playback\<close>

lemma size_sub_eq: "b \<le> a \<Longrightarrow> size_sub a b = a - b"
  by (simp add: size_sub_def)

lemma leave_slot_decrease:
  assumes "jb_inv j" and "cur_available j"
  shows "0 < size_sub (ps_num_frames (cur_slot j)) (jb_slot_frame_offset j)"
    and "size_sub (ps_num_frames (cur_slot j)) (jb_slot_frame_offset j)
         = ps_num_frames (cur_slot j) - jb_slot_frame_offset j"
  using jb_invD(4) [OF assms] by (simp_all add: size_sub_def)

lemma queued_pos_available: "0 < jb_queued j \<Longrightarrow> cur_available j"
  by (auto simp: jb_queued_def jb_run_unfold split: if_splits)

subsection \<open>Shedding frames\<close>

text \<open>Advancing by frames that are queued ends, and removes exactly these frames.\<close>

lemma advance_playhead_stream:
  assumes "jb_inv j" and "frames \<le> jb_queued j"
  shows "\<exists>i. advance_playhead_locked frames j = Some i \<and> jb_inv i \<and>
             jb_stream i = drop (frames * jb_channels j) (jb_stream j) \<and>
             jb_queued i = jb_queued j - frames \<and> jb_config i = jb_config j \<and>
             jb_has_first_packet i = jb_has_first_packet j \<and> jb_is_buffering i = jb_is_buffering j \<and>
             jb_stats i = jb_stats j \<and> jb_target_buffer_frames i = jb_target_buffer_frames j"
  using assms
proof (induction frames arbitrary: j rule: less_induct)
  case (less frames)
  note unfold = advance_playhead_locked.simps [of frames j]
  show ?case
  proof (cases "frames = 0")
    case True
    then have "advance_playhead_locked frames j = Some j" by (subst unfold) simp
    then show ?thesis using True less.prems by simp
  next
    case False
    then have cur: "cur_available j" using less.prems(2) by (intro queued_pos_available) simp
    define rem where "rem = size_sub (ps_num_frames (cur_slot j)) (jb_slot_frame_offset j)"
    note rem = leave_slot_decrease [OF less.prems(1) cur, folded rem_def]
    show ?thesis
    proof (cases "frames < rem")
      case True
      define i where "i = j\<lparr>jb_slot_frame_offset := jb_slot_frame_offset j + frames\<rparr>"
      have lt: "jb_slot_frame_offset j + frames < ps_num_frames (cur_slot j)" using True rem(2) by simp
      have "advance_playhead_locked frames j = Some i"
        using False True cur by (simp add: unfold Let_def rem_def [symmetric] i_def)
      moreover have "jb_inv i" unfolding i_def using less.prems(1) cur lt by (rule jb_inv_offset)
      ultimately show ?thesis using stream_offset [OF less.prems(1) cur lt] by (simp add: i_def)
    next
      case False': False
      define i where "i = leave_slot (drop_slot (cur_slot j)) j"
      have step: "advance_playhead_locked frames j = advance_playhead_locked (frames - rem) i"
        using False False' cur by (simp add: unfold Let_def rem_def [symmetric] i_def)
      have inv: "jb_inv i" unfolding i_def using less.prems(1) by (rule jb_inv_leave) simp
      note st = stream_leave [OF less.prems(1) cur drop_slot_simps(1), of "cur_slot j", folded i_def, folded rem(2)]
      have len: "length (drop (jb_slot_frame_offset j * jb_channels j) (ps_pcm_data (cur_slot j))) = rem * jb_channels j"
        using jb_invD(5) [OF less.prems(1) cur] by (simp add: rem(2) diff_mult_distrib)
      have "frames - rem < frames" using False rem(1) by simp
      moreover have "frames - rem \<le> jb_queued i" using less.prems(2) st(2) False' by simp
      ultimately obtain i' where i': "advance_playhead_locked (frames - rem) i = Some i'" "jb_inv i'"
        "jb_stream i' = drop ((frames - rem) * jb_channels j) (jb_stream i)"
        "jb_queued i' = jb_queued i - (frames - rem)" "jb_config i' = jb_config j"
        "jb_has_first_packet i' = jb_has_first_packet j" "jb_is_buffering i' = jb_is_buffering j"
        "jb_stats i' = jb_stats j" "jb_target_buffer_frames i' = jb_target_buffer_frames j"
        using less.IH [of "frames - rem" i] inv by (auto simp: i_def)
      moreover have "jb_stream i' = drop (frames * jb_channels j) (jb_stream j)"
        using i'(3) False' unfolding st(1) by (subst drop_frames_append [OF len]) simp_all
      ultimately show ?thesis using step st(2) False' by simp
    qed
  qed
qed

subsection \<open>The contiguity scan\<close>

text \<open>The scan counts at most the frames of the run, and all of them away from the 32-bit wrap.\<close>

lemma scan_beyond_wrap: "2 ^ 32 \<le> unat np + i \<Longrightarrow> scan_contiguous slots np i = 0"
  using unsigned_less [of "ps_seq_num (slots ! ((unat np + i) mod MAX_SLOTS))", where ?'a = nat]
  by (subst scan_contiguous.simps) (auto simp: Let_def)

lemma seq_eq_sum: "unat (a :: u32) = unat np + i \<Longrightarrow> a = np + of_nat i"
proof -
  assume "unat a = unat np + i"
  then have "(of_nat (unat a) :: u32) = of_nat (unat np + i)" by simp
  then show ?thesis by simp
qed

lemma scan_le_run:
  "scan_contiguous slots np i \<le> sum_list (map ps_num_frames (run slots (np + of_nat i) (MAX_SLOTS - i)))"
proof (induction slots np i rule: scan_contiguous.induct)
  case (1 slots np i)
  show ?case
  proof (cases "i < MAX_SLOTS \<and> ps_is_valid (slots ! ((unat np + i) mod MAX_SLOTS)) \<and>
      unat (ps_seq_num (slots ! ((unat np + i) mod MAX_SLOTS))) = unat np + i")
    case True
    then have "MAX_SLOTS - i = Suc (MAX_SLOTS - Suc i)" by (simp add: Suc_diff_Suc)
    moreover have "ps_seq_num (slots ! ((unat np + i) mod MAX_SLOTS)) = np + of_nat i"
      using True by (simp add: seq_eq_sum)
    moreover have "np + of_nat i + 1 = np + of_nat (Suc i)" by (simp add: algebra_simps)
    ultimately show ?thesis using 1 True
      by (subst scan_contiguous.simps) (simp add: Let_def seq_index_add add.assoc add.commute [of 1])
  next
    case False
    then have "scan_contiguous slots np i = 0" by (subst scan_contiguous.simps) (auto simp: Let_def)
    then show ?thesis by simp
  qed
qed

lemma scan_eq_run:
  "unat np + MAX_SLOTS \<le> 2 ^ 32 \<Longrightarrow>
   scan_contiguous slots np i = sum_list (map ps_num_frames (run slots (np + of_nat i) (MAX_SLOTS - i)))"
proof (induction slots np i rule: scan_contiguous.induct)
  case (1 slots np i)
  show ?case
  proof (cases "i < MAX_SLOTS")
    case True
    define s where "s = slots ! ((unat np + i) mod MAX_SLOTS)"
    have d: "MAX_SLOTS - i = Suc (MAX_SLOTS - Suc i)" using True by (simp add: Suc_diff_Suc)
    have e: "np + of_nat i + 1 = np + of_nat (Suc i)" by (simp add: algebra_simps)
    have "unat (np + of_nat i) = unat np + i"
      using "1.prems" True by (simp add: unat_word_ariths unat_of_nat)
    then have "unat (ps_seq_num s) = unat np + i \<longleftrightarrow> ps_seq_num s = np + of_nat i"
      by (metis seq_eq_sum)
    then show ?thesis
      using "1.IH" [OF True] "1.prems" True unfolding d
      by (subst scan_contiguous.simps) (auto simp: Let_def seq_index_add s_def e)
  next
    case False
    then show ?thesis by (subst scan_contiguous.simps) simp
  qed
qed

lemma available_le_queued:
  assumes "jb_inv j"
  shows "available_frames_unlocked j \<le> jb_queued j"
proof (cases "cur_available j")
  case True
  then have pos: "jb_slot_frame_offset j < ps_num_frames (cur_slot j)" by (rule jb_invD(4) [OF assms])
  have "scan_contiguous (jb_slots j) (jb_next_play_seq j) 0 \<ge> ps_num_frames (cur_slot j)"
    using True by (subst scan_contiguous.simps) (simp add: Let_def)
  then show ?thesis
    using scan_le_run [of "jb_slots j" "jb_next_play_seq j" 0] pos
    by (simp add: available_frames_unlocked_def Let_def jb_queued_def jb_run_def)
next
  case False
  then have "scan_contiguous (jb_slots j) (jb_next_play_seq j) 0 = 0"
    by (subst scan_contiguous.simps) (auto simp: Let_def word_unat_eq_iff)
  then show ?thesis using jb_invD(6) [OF assms False] by (simp add: available_frames_unlocked_def)
qed

subsection \<open>Copying frames\<close>

definition consume :: "nat \<Rightarrow> jitter_buffer \<Rightarrow> jitter_buffer" where
  "consume n j =
     (if jb_slot_frame_offset j + n \<ge> ps_num_frames (cur_slot j) then leave_slot (drop_slot (cur_slot j)) j
      else j\<lparr>jb_slot_frame_offset := jb_slot_frame_offset j + n\<rparr>)"

lemma consume_frame [simp]:
  "jb_config (consume n j) = jb_config j" "jb_has_first_packet (consume n j) = jb_has_first_packet j"
  "jb_is_buffering (consume n j) = jb_is_buffering j" "jb_stats (consume n j) = jb_stats j"
  by (simp_all add: consume_def)

lemma jb_inv_consume: "jb_inv j \<Longrightarrow> cur_available j \<Longrightarrow> jb_inv (consume n j)"
  by (auto simp: consume_def intro: jb_inv_leave jb_inv_offset)

lemma consume_stream:
  assumes "jb_inv j" and "cur_available j" and n: "n \<le> ps_num_frames (cur_slot j) - jb_slot_frame_offset j"
  shows "slice (jb_slot_frame_offset j * jb_channels j) (n * jb_channels j) (ps_pcm_data (cur_slot j))
         = take (n * jb_channels j) (jb_stream j)"
    and "jb_stream (consume n j) = drop (n * jb_channels j) (jb_stream j)"
    and "jb_queued (consume n j) = jb_queued j - n"
proof -
  define r where "r = ps_num_frames (cur_slot j) - jb_slot_frame_offset j"
  note st = stream_leave [OF assms(1,2) drop_slot_simps(1), of "cur_slot j", folded r_def]
  have len: "length (drop (jb_slot_frame_offset j * jb_channels j) (ps_pcm_data (cur_slot j))) = r * jb_channels j"
    using jb_invD(5) [OF assms(1,2)] by (simp add: r_def diff_mult_distrib)
  have "n * jb_channels j \<le> r * jb_channels j" using n by (simp add: r_def)
  then show "slice (jb_slot_frame_offset j * jb_channels j) (n * jb_channels j) (ps_pcm_data (cur_slot j))
      = take (n * jb_channels j) (jb_stream j)"
    using len unfolding st(1) slice_def by simp
  have "jb_stream (consume n j) = drop (n * jb_channels j) (jb_stream j) \<and> jb_queued (consume n j) = jb_queued j - n"
  proof (cases "jb_slot_frame_offset j + n \<ge> ps_num_frames (cur_slot j)")
    case True
    then have "n = r" using n by (simp add: r_def)
    then show ?thesis using True st len by (simp add: consume_def)
  next
    case False
    then show ?thesis using stream_offset [OF assms(1,2), of n] by (simp add: consume_def)
  qed
  then show "jb_stream (consume n j) = drop (n * jb_channels j) (jb_stream j)"
    and "jb_queued (consume n j) = jb_queued j - n" by simp_all
qed

text \<open>The copy of one iteration stays inside the packet.\<close>

lemma pop_loop_available:
  assumes "jb_inv j" and "cur_available j" and "d < num_frames"
  defines "n \<equiv> min (ps_num_frames (cur_slot j) - jb_slot_frame_offset j) (num_frames - d)"
  shows "pop_loop num_frames d out j = pop_loop num_frames (d + n) (out @ take (n * jb_channels j) (jb_stream j)) (consume n j)"
    and "0 < n" and "length (take (n * jb_channels j) (jb_stream j)) = n * jb_channels j"
    and "n \<le> ps_num_frames (cur_slot j) - jb_slot_frame_offset j"
proof -
  define r where "r = ps_num_frames (cur_slot j) - jb_slot_frame_offset j"
  have sub: "size_sub (ps_num_frames (cur_slot j)) (jb_slot_frame_offset j) = r"
    using leave_slot_decrease(2) [OF assms(1,2)] by (simp add: r_def)
  have n: "n = min r (num_frames - d)" by (simp add: n_def r_def)
  show "0 < n" using jb_invD(4) [OF assms(1,2)] assms(3) by (simp add: n_def)
  show le: "n \<le> ps_num_frames (cur_slot j) - jb_slot_frame_offset j" by (simp add: n_def)
  have "n \<le> jb_queued j"
    using le stream_leave(2) [OF assms(1,2) drop_slot_simps(1), of "cur_slot j"] by simp
  then show "length (take (n * jb_channels j) (jb_stream j)) = n * jb_channels j"
    using length_jb_stream [OF assms(1)] by simp
  have "(jb_slot_frame_offset j + n) * jb_channels j \<le> ps_num_frames (cur_slot j) * jb_channels j"
    using le jb_invD(4) [OF assms(1,2)] by (intro mult_right_mono) auto
  then have bound: "\<not> length (ps_pcm_data (cur_slot j)) < jb_slot_frame_offset j * jb_channels j + n * jb_channels j"
    using jb_invD(5) [OF assms(1,2)] by (simp add: algebra_simps)
  show "pop_loop num_frames d out j = pop_loop num_frames (d + n) (out @ take (n * jb_channels j) (jb_stream j)) (consume n j)"
    using assms(2,3) bound consume_stream(1) [OF assms(1,2) le]
    by (subst pop_loop.simps) (simp add: Let_def sub n [symmetric] consume_def)
qed

text \<open>A missing packet is concealed by one packet of silence, and the loop ends when nothing is left.\<close>

definition conceal_frames :: "nat \<Rightarrow> jitter_buffer \<Rightarrow> nat" where
  "conceal_frames needed j = min needed (if ac_frames_per_packet (jb_config j) > 0
                                      then unat (ac_frames_per_packet (jb_config j)) else 240)"

definition skip_missing :: "jitter_buffer \<Rightarrow> jitter_buffer" where
  "skip_missing j = leave_slot (drop_slot (cur_slot j))
     (upd_stats (\<lambda>s. s\<lparr>js_packets_lost := js_packets_lost s + 1, js_underruns := js_underruns s + 1\<rparr>) j)"

definition run_dry :: "jitter_buffer \<Rightarrow> jitter_buffer" where
  "run_dry j = upd_stats (\<lambda>s. s\<lparr>js_underruns := js_underruns s + 1\<rparr>) (j\<lparr>jb_is_buffering := True\<rparr>)"

lemma pop_loop_gap:
  assumes "\<not> cur_available j" and "has_future_packets j" and "d < num_frames"
  shows "pop_loop num_frames d out j =
         pop_loop num_frames (d + conceal_frames (num_frames - d) j)
           (out @ replicate (conceal_frames (num_frames - d) j * jb_channels j) 0) (skip_missing j)"
  by (subst pop_loop.simps) (simp only: assms Let_def if_True if_False conceal_frames_def skip_missing_def)

lemma pop_loop_dry:
  assumes "\<not> cur_available j" and "\<not> has_future_packets j" and "d < num_frames"
  shows "pop_loop num_frames d out j =
         Some (d + (num_frames - d), out @ replicate ((num_frames - d) * jb_channels j) 0, run_dry j)"
  by (subst pop_loop.simps) (simp only: assms Let_def if_True if_False run_dry_def)

lemma pop_loop_end: "\<not> d < num_frames \<Longrightarrow> pop_loop num_frames d out j = Some (d, out, j)"
  by (subst pop_loop.simps) (simp only: if_False)

lemma conceal_frames_bounds: "0 < needed \<Longrightarrow> 0 < conceal_frames needed j \<and> conceal_frames needed j \<le> needed"
  by (auto simp: conceal_frames_def unat_gt_0 word_greater_zero_iff)

lemma skip_missing_frame [simp]:
  "jb_config (skip_missing j) = jb_config j" "jb_has_first_packet (skip_missing j) = jb_has_first_packet j"
  "jb_next_play_seq (skip_missing j) = jb_next_play_seq j + 1"
  by (simp_all add: skip_missing_def)

lemma jb_inv_skip_missing: "jb_inv j \<Longrightarrow> jb_inv (skip_missing j)"
  unfolding skip_missing_def by (rule jb_inv_leave) simp_all

lemma run_dry_frame [simp]:
  "jb_config (run_dry j) = jb_config j" "jb_has_first_packet (run_dry j) = jb_has_first_packet j"
  "jb_inv (run_dry j) = jb_inv j"
  by (simp_all add: run_dry_def jb_inv_def)

lemma pop_loop_total:
  assumes "jb_inv j" and "d \<le> num_frames"
  shows "\<exists>out' i. pop_loop num_frames d out j = Some (num_frames, out @ out', i) \<and>
                  length out' = (num_frames - d) * jb_channels j \<and> jb_inv i \<and> jb_config i = jb_config j \<and>
                  jb_has_first_packet i = jb_has_first_packet j"
  using assms
proof (induction "num_frames - d" arbitrary: d out j rule: less_induct)
  case less
  show ?case
  proof (cases "d < num_frames")
    case False
    then show ?thesis using less.prems by (simp add: pop_loop_end)
  next
    case d: True
    consider (cur) "cur_available j" | (gap) "\<not> cur_available j" "has_future_packets j"
      | (dry) "\<not> cur_available j" "\<not> has_future_packets j" by blast
    then show ?thesis
    proof cases
      case cur
      note st = pop_loop_available [OF less.prems(1) cur d]
      define n where "n = min (ps_num_frames (cur_slot j) - jb_slot_frame_offset j) (num_frames - d)"
      have dn: "d + n \<le> num_frames" "num_frames - (d + n) < num_frames - d"
        using d st(2) [folded n_def] by (auto simp: n_def)
      define chunk where "chunk = take (n * jb_channels j) (jb_stream j)"
      have len: "length chunk = n * jb_channels j" using st(3) [folded n_def] by (simp only: chunk_def)
      obtain out' i where "pop_loop num_frames (d + n) (out @ chunk) (consume n j) = Some (num_frames, (out @ chunk) @ out', i)"
        "length out' = (num_frames - (d + n)) * jb_channels j" "jb_inv i" "jb_config i = jb_config j"
        "jb_has_first_packet i = jb_has_first_packet j"
        using less.hyps [OF dn(2) jb_inv_consume [OF less.prems(1) cur, of n] dn(1), of "out @ chunk"] by auto
      moreover have "length (chunk @ out') = (num_frames - d) * jb_channels j"
        using len calculation(2) dn(1) by (simp flip: add_mult_distrib)
      ultimately show ?thesis using st(1) [folded n_def, folded chunk_def, of out]
        by (intro exI [of _ "chunk @ out'"] exI [of _ i]) simp
    next
      case gap
      define n where "n = conceal_frames (num_frames - d) j"
      have n: "0 < n" "n \<le> num_frames - d" using conceal_frames_bounds [of "num_frames - d" j] d by (auto simp: n_def)
      then have dn: "d + n \<le> num_frames" "num_frames - (d + n) < num_frames - d" using d by auto
      define chunk where "chunk = replicate (n * jb_channels j) (0 :: i16)"
      obtain out' i where "pop_loop num_frames (d + n) (out @ chunk) (skip_missing j) = Some (num_frames, (out @ chunk) @ out', i)"
        "length out' = (num_frames - (d + n)) * jb_channels j" "jb_inv i" "jb_config i = jb_config j"
        "jb_has_first_packet i = jb_has_first_packet j"
        using less.hyps [OF dn(2) jb_inv_skip_missing [OF less.prems(1)] dn(1), of "out @ chunk"] by auto
      moreover have "length (chunk @ out') = (num_frames - d) * jb_channels j"
        using calculation(2) dn(1) by (simp add: chunk_def flip: add_mult_distrib)
      ultimately show ?thesis using pop_loop_gap [OF gap d, of out, folded n_def, folded chunk_def]
        by (intro exI [of _ "chunk @ out'"] exI [of _ i]) simp
    next
      case dry
      then show ?thesis using d less.prems(1) pop_loop_dry [OF dry d, of out] by simp
    qed
  qed
qed

lemma pop_loop_stream:
  assumes "jb_inv j" and "d \<le> num_frames" and "num_frames - d \<le> jb_queued j"
  shows "\<exists>i. pop_loop num_frames d out j
             = Some (num_frames, out @ take ((num_frames - d) * jb_channels j) (jb_stream j), i) \<and>
             jb_stream i = drop ((num_frames - d) * jb_channels j) (jb_stream j) \<and>
             jb_queued i = jb_queued j - (num_frames - d) \<and> jb_stats i = jb_stats j \<and>
             jb_is_buffering i = jb_is_buffering j"
  using assms
proof (induction "num_frames - d" arbitrary: d out j rule: less_induct)
  case less
  show ?case
  proof (cases "d < num_frames")
    case False
    then show ?thesis using less.prems by (simp add: pop_loop_end)
  next
    case d: True
    then have cur: "cur_available j" using less.prems(3) by (intro queued_pos_available) simp
    define n where "n = min (ps_num_frames (cur_slot j) - jb_slot_frame_offset j) (num_frames - d)"
    note st = pop_loop_available [OF less.prems(1) cur d, folded n_def]
    note cs = consume_stream [OF less.prems(1) cur st(4)]
    define m where "m = num_frames - (d + n)"
    have m: "num_frames - d = n + m" "d + n \<le> num_frames" using d by (auto simp: n_def m_def)
    have lt: "num_frames - (d + n) < num_frames - d" using st(2) d by simp
    have q: "num_frames - (d + n) \<le> jb_queued (consume n j)" using less.prems(3) cs(3) m by simp
    obtain i where i: "pop_loop num_frames (d + n) (out @ take (n * jb_channels j) (jb_stream j)) (consume n j)
        = Some (num_frames, (out @ take (n * jb_channels j) (jb_stream j)) @
            take (m * jb_channels j) (jb_stream (consume n j)), i)"
      "jb_stream i = drop (m * jb_channels j) (jb_stream (consume n j))"
      "jb_queued i = jb_queued (consume n j) - m" "jb_stats i = jb_stats j" "jb_is_buffering i = jb_is_buffering j"
      using less.hyps [OF lt jb_inv_consume [OF less.prems(1) cur, of n] m(2) q,
          of "out @ take (n * jb_channels j) (jb_stream j)", folded m_def] unfolding consume_frame by blast
    moreover have "take ((num_frames - d) * jb_channels j) (jb_stream j)
        = take (n * jb_channels j) (jb_stream j) @ take (m * jb_channels j) (jb_stream (consume n j))"
      unfolding m(1) cs(2) add_mult_distrib by (rule take_add)
    moreover have "jb_stream i = drop ((num_frames - d) * jb_channels j) (jb_stream j)"
      unfolding m(1) i(2) cs(2) add_mult_distrib by (simp add: add.commute)
    moreover have "jb_queued i = jb_queued j - (num_frames - d)" unfolding m(1) i(3) cs(3) by simp
    ultimately show ?thesis using st(1) [of out] by simp
  qed
qed

section \<open>Draining and popping\<close>

definition drain_floor :: "jitter_buffer \<Rightarrow> nat" where
  "drain_floor j = jb_target_buffer_frames j + (unat (ac_sample_rate (jb_config j)) * kDrainMarginMs) div 1000"

lemma drain_total:
  assumes "jb_inv j"
  shows "\<exists>i n. drain_to_target now_ms j = Some i \<and> jb_inv i \<and>
               jb_stream i = drop (n * jb_channels j) (jb_stream j) \<and> jb_queued i = jb_queued j - n \<and>
               (n = 0 \<or> n \<le> kDrainFastChunkFrames \<and> drain_floor j + n \<le> available_frames_unlocked j) \<and>
               jb_config i = jb_config j \<and> jb_has_first_packet i = jb_has_first_packet j \<and>
               jb_is_buffering i = jb_is_buffering j"
proof (cases "drain_to_target now_ms j = Some j")
  case True
  then show ?thesis using assms by (intro exI [of _ j] exI [of _ 0]) simp
next
  case False
  define av where "av = available_frames_unlocked j"
  define chunk where "chunk = (if av > jb_target_buffer_frames j + (unat (ac_sample_rate (jb_config j)) * 100) div 1000
      then kDrainFastChunkFrames else kDrainChunkFrames)"
  define n where "n = min (av - jb_target_buffer_frames j - (unat (ac_sample_rate (jb_config j)) * kDrainMarginMs) div 1000) chunk"
  have "av > drain_floor j" and eq: "drain_to_target now_ms j = (case advance_playhead_locked n j of
      None \<Rightarrow> None
    | Some j \<Rightarrow> Some ((upd_stats (\<lambda>s. s\<lparr>js_drained_frames := js_drained_frames s + of_nat n\<rparr>) j)
                   \<lparr>jb_last_drain_ms := now_ms\<rparr>))"
    using False unfolding drain_to_target_def Let_def av_def [symmetric] chunk_def [symmetric] n_def [symmetric]
      drain_floor_def [symmetric] by (simp_all split: if_splits)
  then have floor: "drain_floor j + n \<le> av" by (auto simp: n_def drain_floor_def)
  have small: "n \<le> kDrainFastChunkFrames"
    by (auto simp: n_def chunk_def kDrainFastChunkFrames_def kDrainChunkFrames_def)
  have "n \<le> jb_queued j" using floor available_le_queued [OF assms] by (simp add: av_def)
  then obtain i where i: "advance_playhead_locked n j = Some i" "jb_inv i"
    "jb_stream i = drop (n * jb_channels j) (jb_stream j)" "jb_queued i = jb_queued j - n"
    "jb_config i = jb_config j" "jb_has_first_packet i = jb_has_first_packet j" "jb_is_buffering i = jb_is_buffering j"
    using advance_playhead_stream [OF assms] by blast
  define i' where "i' = (upd_stats (\<lambda>s. s\<lparr>js_drained_frames := js_drained_frames s + of_nat n\<rparr>) i)\<lparr>jb_last_drain_ms := now_ms\<rparr>"
  have "drain_to_target now_ms j = Some i'" by (simp only: eq i(1) option.case i'_def)
  moreover have "jb_inv i'" using i(2) by (simp add: i'_def jb_inv_def)
  moreover have "jb_stream i' = jb_stream i \<and> jb_queued i' = jb_queued i"
    by (rule stream_cong) (simp_all add: i'_def)
  ultimately show ?thesis using i floor small
    by (intro exI [of _ i'] exI [of _ n]) (simp add: i'_def av_def)
qed

lemma pop_frames_cases:
  assumes "jb_inv j" and "num_frames * jb_channels j \<le> length d" and "num_frames \<noteq> 0"
  obtains (silent) "\<not> is_ready j" "pop_frames now_ms (Some d) num_frames j =
      Some (num_frames, Some (replicate (num_frames * jb_channels j) 0 @ drop (num_frames * jb_channels j) d), j)"
  | (play) i n out k where "is_ready j" "drain_to_target now_ms j = Some i" "jb_inv i"
      "jb_stream i = drop (n * jb_channels j) (jb_stream j)" "jb_queued i = jb_queued j - n"
      "n = 0 \<or> n \<le> kDrainFastChunkFrames \<and> drain_floor j + n \<le> available_frames_unlocked j"
      "jb_config i = jb_config j" "pop_loop num_frames 0 [] i = Some (num_frames, out, k)"
      "length out = num_frames * jb_channels j" "jb_inv k" "jb_config k = jb_config j"
      "jb_has_first_packet k = jb_has_first_packet j" "jb_is_buffering i = jb_is_buffering j"
      "pop_frames now_ms (Some d) num_frames j = Some (num_frames, Some (out @ drop (num_frames * jb_channels j) d), k)"
proof (cases "is_ready j")
  case False
  then show ?thesis using assms by (intro silent) (auto simp: pop_frames_def is_ready_def blit_def)
next
  case True
  obtain i n where i: "drain_to_target now_ms j = Some i" "jb_inv i"
    "jb_stream i = drop (n * jb_channels j) (jb_stream j)" "jb_queued i = jb_queued j - n"
    "n = 0 \<or> n \<le> kDrainFastChunkFrames \<and> drain_floor j + n \<le> available_frames_unlocked j"
    "jb_config i = jb_config j" "jb_has_first_packet i = jb_has_first_packet j" "jb_is_buffering i = jb_is_buffering j"
    using drain_total [OF assms(1)] by blast
  obtain out k where k: "pop_loop num_frames 0 [] i = Some (num_frames, out, k)"
    "length out = num_frames * jb_channels j" "jb_inv k" "jb_config k = jb_config j"
    "jb_has_first_packet k = jb_has_first_packet j"
    using pop_loop_total [OF i(2), of 0 num_frames "[]"] i(6,7) by auto
  have "pop_frames now_ms (Some d) num_frames j = Some (num_frames, Some (out @ drop (num_frames * jb_channels j) d), k)"
    using True assms i(1) k by (simp add: pop_frames_def is_ready_def blit_def)
  with True i k show ?thesis by (intro play)
qed

lemma pop_frames_defined:
  assumes "jb_inv j" and "num_frames * jb_channels j \<le> length d"
  shows "\<exists>out i. pop_frames now_ms (Some d) num_frames j
                 = Some (num_frames, Some (out @ drop (num_frames * jb_channels j) d), i) \<and>
                 length out = num_frames * jb_channels j \<and> jb_inv i \<and> jb_config i = jb_config j"
proof (cases "num_frames = 0")
  case True
  then show ?thesis using assms by (simp add: pop_frames_def)
next
  case False
  show ?thesis by (rule pop_frames_cases [OF assms False, of now_ms]) (use assms(1) in auto)
qed

lemma pop_frames_stream:
  assumes "jb_inv j" and "is_ready j" and "num_frames * jb_channels j \<le> length d" and "num_frames \<noteq> 0"
    and "num_frames + kDrainFastChunkFrames \<le> jb_queued j"
  shows "\<exists>n i. (n = 0 \<or> n \<le> kDrainFastChunkFrames \<and> drain_floor j + n \<le> available_frames_unlocked j) \<and>
               pop_frames now_ms (Some d) num_frames j =
                 Some (num_frames, Some (take (num_frames * jb_channels j) (drop (n * jb_channels j) (jb_stream j))
                        @ drop (num_frames * jb_channels j) d), i) \<and>
               jb_stream i = drop ((n + num_frames) * jb_channels j) (jb_stream j) \<and> is_ready i"
proof (rule pop_frames_cases [OF assms(1,3,4), of now_ms])
  assume "\<not> is_ready j" then show ?thesis using assms(2) by simp
next
  fix i n out k
  assume i: "jb_inv i" "jb_stream i = drop (n * jb_channels j) (jb_stream j)" "jb_queued i = jb_queued j - n"
      "n = 0 \<or> n \<le> kDrainFastChunkFrames \<and> drain_floor j + n \<le> available_frames_unlocked j"
      "jb_config i = jb_config j" "pop_loop num_frames 0 [] i = Some (num_frames, out, k)"
      "jb_has_first_packet k = jb_has_first_packet j" "jb_is_buffering i = jb_is_buffering j"
      "pop_frames now_ms (Some d) num_frames j = Some (num_frames, Some (out @ drop (num_frames * jb_channels j) d), k)"
  have "num_frames - 0 \<le> jb_queued i" using i(3,4) assms(5) by auto
  from pop_loop_stream [OF i(1) _ this, of "[]"]
  have out: "out = take (num_frames * jb_channels j) (jb_stream i)"
    "jb_stream k = drop (num_frames * jb_channels j) (jb_stream i)" "jb_is_buffering k = jb_is_buffering i"
    using i(5,6) by auto
  show ?thesis using i(2,4,7,8,9) out assms(2)
    by (intro exI [of _ n] exI [of _ k]) (simp add: is_ready_def add_mult_distrib add.commute)
qed

section \<open>Extending the stream\<close>

lemma run_fill:
  assumes "length (run slots q n) = l" and "l < n" and "n \<le> MAX_SLOTS" and "length slots = MAX_SLOTS"
    and "ps_is_valid s" and "ps_seq_num s = q + of_nat l"
  shows "\<exists>rest. run (slots[unat (q + of_nat l) mod MAX_SLOTS := s]) q n = run slots q n @ s # rest"
  using assms
proof (induction n arbitrary: q l)
  case (Suc n)
  define slots' where "slots' = slots[unat (q + of_nat l) mod MAX_SLOTS := s]"
  show ?case
  proof (cases l)
    case 0
    then show ?thesis using Suc.prems by (auto simp: Let_def split: if_splits)
  next
    case (Suc l')
    have head: "ps_is_valid (slots ! (unat q mod MAX_SLOTS)) \<and> ps_seq_num (slots ! (unat q mod MAX_SLOTS)) = q"
      and len: "length (run slots (q + 1) n) = l'" using Suc.prems(1) Suc by (auto simp: Let_def split: if_splits)
    have "unat (q + of_nat l) mod MAX_SLOTS \<noteq> unat q mod MAX_SLOTS"
    proof
      assume "unat (q + of_nat l) mod MAX_SLOTS = unat q mod MAX_SLOTS"
      then have "l mod MAX_SLOTS = 0 mod MAX_SLOTS"
        unfolding seq_index_add using mod_add_cancel_left [of "unat q" l MAX_SLOTS 0] by simp
      moreover have "l < MAX_SLOTS" using Suc.prems(2,3) by (rule order_less_le_trans)
      ultimately show False using Suc by (simp only: mod_less mod_0 nat.distinct)
    qed
    then have same: "slots' ! (unat q mod MAX_SLOTS) = slots ! (unat q mod MAX_SLOTS)" by (simp add: slots'_def)
    have ql: "q + 1 + of_nat l' = q + of_nat l" by (simp add: Suc algebra_simps)
    obtain rest where "run slots' (q + 1) n = run slots (q + 1) n @ s # rest"
      using Suc.IH [OF len] Suc.prems Suc unfolding ql slots'_def by auto
    then show ?thesis using head same unfolding slots'_def [symmetric] by (simp add: Let_def)
  qed
qed simp

lemma jb_run_length: "length (jb_run j) \<le> MAX_SLOTS"
proof -
  have "length (run slots q n) \<le> n" for slots q n by (induction n arbitrary: q) (auto simp: Let_def)
  then show ?thesis by (simp add: jb_run_def)
qed

lemma stream_extend:
  assumes "jb_inv j" and "jb_run i = jb_run j @ s # rest" and "jb_slot_frame_offset i = jb_slot_frame_offset j"
    and "jb_config i = jb_config j"
  shows "jb_stream i = jb_stream j @ ps_pcm_data s @ concat (map ps_pcm_data rest)"
proof -
  have "jb_slot_frame_offset j * jb_channels j \<le> length (concat (map ps_pcm_data (jb_run j)))"
  proof (cases "cur_available j")
    case True
    then show ?thesis using jb_invD(4,5) [OF assms(1) True] by (simp add: jb_run_unfold trans_le_add1)
  next
    case False
    then show ?thesis using jb_invD(6) [OF assms(1) False] by simp
  qed
  then show ?thesis using assms(2,3,4) by (simp add: jb_stream_def)
qed

lemma run_holds:
  assumes "p < length (run slots q n)"
  shows "ps_is_valid (slots ! (unat (q + of_nat p) mod MAX_SLOTS)) \<and>
         ps_seq_num (slots ! (unat (q + of_nat p) mod MAX_SLOTS)) = q + of_nat p"
  using assms
proof (induction n arbitrary: q p)
  case (Suc n)
  have "q + of_nat (Suc m) = q + 1 + of_nat m" for m :: nat by (simp add: algebra_simps)
  then show ?case using Suc.IH [of "p - 1" "q + 1"] Suc.prems
    by (cases p) (auto simp: Let_def add.assoc split: if_splits)
qed simp

lemma run_ends:
  assumes "length (run slots q n) < n"
  defines "e \<equiv> q + of_nat (length (run slots q n))"
  shows "\<not> (ps_is_valid (slots ! (unat e mod MAX_SLOTS)) \<and> ps_seq_num (slots ! (unat e mod MAX_SLOTS)) = e)"
  using assms(1) unfolding e_def
proof (induction n arbitrary: q)
  case (Suc n)
  then show ?case using Suc.IH [of "q + 1"] by (auto simp: Let_def add.assoc split: if_splits)
qed simp

lemma jb_run_holds: "p < length (jb_run j) \<Longrightarrow> holds_seq (jb_next_play_seq j + of_nat p) j"
  using run_holds by (auto simp: jb_run_def holds_seq_def Let_def)

lemma jb_run_no_valid: "jb_inv j \<Longrightarrow> \<not> jb_has_first_packet j \<Longrightarrow> jb_run j = [] \<and> jb_slot_frame_offset j = 0"
  using jb_invD(6,7) [of j] by (auto simp: jb_run_unfold)

lemma arrived_run:
  assumes "jb_inv j" and "jb_has_first_packet j \<longrightarrow> seq = jb_next_play_seq j + of_nat (length (jb_run j))"
  shows "jb_run (arrived seq j) = jb_run j"
    and "seq = jb_next_play_seq (arrived seq j) + of_nat (length (jb_run j))"
proof -
  have "jb_run (arrived seq j) = jb_run j \<and> seq = jb_next_play_seq (arrived seq j) + of_nat (length (jb_run j))"
  proof (cases "jb_has_first_packet j")
    case True
    then have "jb_next_play_seq (arrived seq j) = jb_next_play_seq j" by (simp add: arrived_def first_packet_def)
    with True assms show ?thesis by (simp add: jb_run_def)
  next
    case False
    have "\<forall>s \<in> set (jb_slots j). \<not> ps_is_valid s" using False assms(1) by (simp add: jb_inv_def)
    then have "\<not> cur_available (arrived seq j)" using jb_invD(1) [OF assms(1)] by simp
    then have "jb_run (arrived seq j) = []" by (simp only: jb_run_unfold if_False)
    moreover have "jb_next_play_seq (arrived seq j) = seq" using False by (simp add: arrived_def first_packet_def)
    ultimately show ?thesis using jb_run_no_valid [OF assms(1) False] by simp
  qed
  then show "jb_run (arrived seq j) = jb_run j"
    "seq = jb_next_play_seq (arrived seq j) + of_nat (length (jb_run j))" by simp_all
qed

lemma sint_of_small: "l < MAX_SLOTS \<Longrightarrow> sint (of_nat l :: u32) = int l"
proof -
  assume "l < MAX_SLOTS"
  then have "sint (word_of_int (int l) :: u32) = int l"
    by (simp only: signed_of_int) (simp add: signed_take_bit_int_eq_self MAX_SLOTS_def)
  then show ?thesis by simp
qed

lemma in_window:
  assumes "seq = jb_next_play_seq a + of_nat l" and "l < MAX_SLOTS"
  shows "window_for seq a = a" and "\<not> is_late seq a"
  using assms sint_of_small [OF assms(2)] by (simp_all add: window_for_def is_late_def Let_def)

text \<open>A packet that continues the run is accepted and appended to the stream.\<close>

lemma push_in_order:
  assumes inv: "jb_inv j" and "transit_small j" and n: "num_frames \<noteq> 0"
    and pcm: "num_frames * jb_channels j \<le> length pcm" and "unat now_us < 2 ^ 62" and "unat ts < 2 ^ 62"
    and seq: "jb_has_first_packet j \<longrightarrow> seq = jb_next_play_seq j + of_nat (length (jb_run j))"
    and l: "length (jb_run j) < MAX_SLOTS"
  shows "\<exists>j' s rest. push_packet now_us now_ms seq ts (Some pcm) num_frames j = Some (True, j') \<and>
      jb_run j' = jb_run j @ s # rest \<and>
      jb_stream j' = jb_stream j @ take (num_frames * jb_channels j) pcm @ concat (map ps_pcm_data rest) \<and>
      jb_has_first_packet j' \<and> seq = jb_next_play_seq j' + of_nat (length (jb_run j)) \<and>
      jb_config j' = jb_config j \<and> (\<forall>q. holds_seq q j' \<longrightarrow> q = seq \<or> holds_seq q j)"
proof -
  obtain i where i: "update_jitter now_us ts j = Some i" using update_jitter_total assms by blast
  note fr = update_jitter_frame [OF i]
  have run_i: "jb_run i = jb_run j" using fr by (simp add: jb_run_def)
  define a where "a = arrived seq i"
  have inv_i: "jb_inv i" by (rule jb_inv_update_jitter [OF inv i])
  have ra: "jb_run a = jb_run j" and sa: "seq = jb_next_play_seq a + of_nat (length (jb_run j))"
    using arrived_run [OF inv_i, of seq] seq fr run_i by (simp_all add: a_def)
  have inv_a: "jb_inv a" using inv_i by (simp add: a_def jb_inv_arrived)
  note win = in_window [OF sa l]
  have nh: "\<not> holds_seq seq a"
    using run_ends [of "jb_slots a" "jb_next_play_seq a" MAX_SLOTS] l sa ra
    by (simp add: jb_run_def [symmetric] holds_seq_def Let_def)
  define b where "b = store_packet seq ts pcm num_frames a"
  define s where "s = \<lparr>ps_seq_num = seq, ps_timestamp_us = ts, ps_pcm_data = take (num_frames * jb_channels a) pcm,
      ps_num_frames = num_frames, ps_is_valid = True\<rparr>"
  have sl: "jb_slots b = (jb_slots a)[unat seq mod MAX_SLOTS := s]" by (simp add: b_def store_packet_def s_def)
  define j' where "j' = check_prefill now_ms (track_run seq b)"
  have ca: "jb_config a = jb_config j" "jb_slot_frame_offset a = jb_slot_frame_offset j"
    using fr by (simp_all add: a_def)
  have push: "push_packet now_us now_ms seq ts (Some pcm) num_frames j = Some (True, j')"
    using win nh pcm ca by (simp add: push_packet_unfold [OF i n] Let_def a_def [symmetric] b_def [symmetric] j'_def)
  obtain rest where "run (jb_slots b) (jb_next_play_seq a) MAX_SLOTS = jb_run a @ s # rest"
    using run_fill [OF refl _ _ jb_invD(1) [OF inv_a], of "jb_next_play_seq a" MAX_SLOTS s] l sa ra
    unfolding sl jb_run_def [symmetric] by (auto simp: s_def)
  then have run': "jb_run j' = jb_run a @ s # rest" by (simp add: jb_run_def j'_def b_def)
  have "jb_stream j' = jb_stream a @ ps_pcm_data s @ concat (map ps_pcm_data rest)"
    by (rule stream_extend [OF inv_a run']) (simp_all add: j'_def b_def)
  moreover have "jb_stream a = jb_stream j" using ra ca by (simp add: jb_stream_def)
  moreover have "ps_pcm_data s = take (num_frames * jb_channels j) pcm" by (simp add: s_def ca)
  ultimately have stream: "jb_stream j' = jb_stream j @ take (num_frames * jb_channels j) pcm @ concat (map ps_pcm_data rest)"
    by simp
  have sj: "jb_slots j' = (jb_slots j)[unat seq mod MAX_SLOTS := s]"
    using fr(1) sl by (simp add: j'_def a_def)
  have holds: "\<forall>q. holds_seq q j' \<longrightarrow> q = seq \<or> holds_seq q j"
  proof (intro allI impI)
    fix q assume h: "holds_seq q j'"
    show "q = seq \<or> holds_seq q j"
    proof (cases "unat q mod MAX_SLOTS = unat seq mod MAX_SLOTS")
      case True
      then have "jb_slots j' ! (unat q mod MAX_SLOTS) = s" using jb_invD(1) [OF inv] by (simp add: sj)
      with h show ?thesis by (simp add: holds_seq_def Let_def s_def)
    next
      case False
      then have "jb_slots j' ! (unat q mod MAX_SLOTS) = jb_slots j ! (unat q mod MAX_SLOTS)" by (simp add: sj)
      with h show ?thesis by (simp add: holds_seq_def Let_def)
    qed
  qed
  have "jb_has_first_packet j'" "jb_next_play_seq j' = jb_next_play_seq a" "jb_config j' = jb_config j"
    by (simp_all add: j'_def b_def ca) (simp add: a_def)
  then show ?thesis using push run' [unfolded ra] stream holds sa by metis
qed

end
