(* ===== verification/Jitter_Playout.thy ===== *)
theory Jitter_Playout
  imports Jitter_Buffer
begin

text \<open>
  What the client relies on in the jitter buffer, over the definitions and the lemmas of
  \<open>Jitter_Buffer\<close>: every operation is defined and keeps the invariant, packets pushed in order come
  out as one uninterrupted stream, playback returns exactly the frames it is asked for, draining is
  bounded, every arrival is counted once, and the level is under-counted at the 32-bit wrap of the
  sequence numbers.
\<close>

section \<open>A small buffer for the examples\<close>

definition mono_config :: audio_config where
  "mono_config = \<lparr>ac_sample_rate = 1000, ac_channels = 1, ac_format = PCM_S16LE, ac_frames_per_packet = 2\<rparr>"

definition one_packet_jb :: jitter_buffer where
  "one_packet_jb =
     store_packet 0xFFFFFFFF 1 [11, 12, 13] 3
       ((JitterBuffer 35)\<lparr>jb_config := mono_config, jb_has_first_packet := True, jb_is_buffering := False,
          jb_next_play_seq := 0xFFFFFFFF\<rparr>)"

lemma one_packet_base_inv:
  "jb_inv ((JitterBuffer 35)\<lparr>jb_config := mono_config, jb_has_first_packet := True, jb_is_buffering := False,
          jb_next_play_seq := 0xFFFFFFFF\<rparr>)"
  by (rule jb_inv_no_valid) (simp_all add: JitterBuffer_def empty_slot_def)

lemma one_packet_inv: "jb_inv one_packet_jb"
  unfolding one_packet_jb_def
  by (rule jb_inv_store [OF one_packet_base_inv]) (simp_all add: mono_config_def JitterBuffer_def empty_slot_def MAX_SLOTS_def)

lemma one_packet_transit: "transit_small one_packet_jb"
  by (simp add: one_packet_jb_def transit_small_def store_packet_def JitterBuffer_def)

lemma one_packet_frame [simp]:
  "ac_channels mono_config = 1" "jb_next_play_seq one_packet_jb = 0xFFFFFFFF" "is_ready one_packet_jb"
  "jb_slot_frame_offset one_packet_jb = 0" "jb_config one_packet_jb = mono_config"
  by (simp_all add: one_packet_jb_def mono_config_def store_packet_def JitterBuffer_def is_ready_def)

lemma one_packet_cur:
  "ps_is_valid (cur_slot one_packet_jb)" "ps_seq_num (cur_slot one_packet_jb) = 0xFFFFFFFF"
  "ps_num_frames (cur_slot one_packet_jb) = 3"
  by (simp_all add: one_packet_jb_def store_packet_def JitterBuffer_def MAX_SLOTS_def)

section \<open>Arrival\<close>

text \<open>
  With an intact buffer, readable samples and clocks below $2^{62}$ microseconds, pushing a
  packet reads and stores only inside its buffers, does not overflow, returns, and keeps the
  invariant. The one case that is left is the null pointer, which is refused.
\<close>

theorem push_packet_total:
  assumes "jb_inv j" and "transit_small j" and "num_frames * jb_channels j \<le> length pcm"
    and "unat now_us < 2 ^ 62" and "unat ts < 2 ^ 62"
  shows "\<exists>ok j'. push_packet now_us now_ms seq ts (Some pcm) num_frames j = Some (ok, j') \<and>
                 jb_inv j' \<and> transit_small j' \<and> jb_config j' = jb_config j"
  using push_packet_defined [OF assms] .

theorem push_packet_total_witness:
  "\<exists>ok j'. push_packet 2000 2 0 1000 (Some [21, 22]) 2 one_packet_jb = Some (ok, j') \<and>
           jb_inv j' \<and> transit_small j' \<and> jb_config j' = jb_config one_packet_jb"
  using push_packet_total [OF one_packet_inv one_packet_transit, of 2 "[21, 22]" 2000 1000 2 0] by simp

section \<open>Playback\<close>

text \<open>
  Draining always ends; it removes a run of frames at the playhead and nothing else, at
  most 480 of them, and never takes the counted level below the target plus the 25 ms margin.
\<close>

theorem drain_to_target_bounded:
  assumes "jb_inv j"
  shows "\<exists>i n. drain_to_target now_ms j = Some i \<and> jb_inv i \<and>
               jb_stream i = drop (n * jb_channels j) (jb_stream j) \<and> jb_queued i = jb_queued j - n \<and>
               (n = 0 \<or> n \<le> kDrainFastChunkFrames \<and> drain_floor j + n \<le> available_frames_unlocked j)"
  using drain_total [OF assms] by blast

theorem drain_to_target_bounded_witness:
  "\<exists>i n. drain_to_target 9000 one_packet_jb = Some i \<and> jb_inv i \<and>
         jb_stream i = drop (n * 1) (jb_stream one_packet_jb) \<and> jb_queued i = jb_queued one_packet_jb - n \<and>
         (n = 0 \<or> n \<le> kDrainFastChunkFrames \<and>
            drain_floor one_packet_jb + n \<le> available_frames_unlocked one_packet_jb)"
  using drain_to_target_bounded [OF one_packet_inv, of 9000] by (simp only: one_packet_frame unsigned_1)

text \<open>
  Claim C21: popping from an intact buffer always returns, copies only samples that are there,
  stores exactly the requested frames at the start of the destination and nothing behind them, and
  keeps the invariant, whatever is missing from the buffer.
\<close>

theorem pop_frames_total:
  assumes "jb_inv j" and "num_frames * jb_channels j \<le> length d"
  shows "\<exists>out i. pop_frames now_ms (Some d) num_frames j
                 = Some (num_frames, Some (out @ drop (num_frames * jb_channels j) d), i) \<and>
                 length out = num_frames * jb_channels j \<and> jb_inv i \<and> jb_config i = jb_config j"
  using pop_frames_defined [OF assms] .

theorem pop_frames_total_witness:
  "\<exists>out i. pop_frames 9000 (Some [1, 2, 3, 4, 5, 6]) 5 one_packet_jb = Some (5, Some (out @ [6]), i) \<and>
           length out = 5 \<and> jb_inv i"
  using pop_frames_total [OF one_packet_inv, of 5 "[1, 2, 3, 4, 5, 6]" 9000] by auto

text \<open>
  Claim C1: while at least the requested frames and one drain chunk are queued without a gap,
  popping returns the next samples of the stream (after a possible drain) and the stream that is
  left continues right behind them.
\<close>

theorem pop_frames_in_order:
  assumes "jb_inv j" and "is_ready j" and "num_frames * jb_channels j \<le> length d" and "num_frames \<noteq> 0"
    and "num_frames + kDrainFastChunkFrames \<le> jb_queued j"
  shows "\<exists>n i. (n = 0 \<or> n \<le> kDrainFastChunkFrames \<and> drain_floor j + n \<le> available_frames_unlocked j) \<and>
               pop_frames now_ms (Some d) num_frames j =
                 Some (num_frames, Some (take (num_frames * jb_channels j) (drop (n * jb_channels j) (jb_stream j))
                        @ drop (num_frames * jb_channels j) d), i) \<and>
               jb_stream i = drop ((n + num_frames) * jb_channels j) (jb_stream j) \<and> is_ready i"
  using pop_frames_stream [OF assms] .

definition long_packet_jb :: jitter_buffer where
  "long_packet_jb =
     store_packet 7 1 (replicate 500 9) 500
       ((JitterBuffer 35)\<lparr>jb_config := mono_config, jb_has_first_packet := True, jb_is_buffering := False,
          jb_next_play_seq := 7\<rparr>)"

lemma long_packet_inv: "jb_inv long_packet_jb"
  unfolding long_packet_jb_def
  by (rule jb_inv_store [OF jb_inv_no_valid])
     (simp_all add: JitterBuffer_def empty_slot_def MAX_SLOTS_def)

lemma long_packet_queued: "500 \<le> jb_queued long_packet_jb"
  unfolding jb_queued_def
  by (subst jb_run_unfold) (simp add: long_packet_jb_def store_packet_def JitterBuffer_def MAX_SLOTS_def)

theorem pop_frames_in_order_witness:
  "\<exists>n i. (n = 0 \<or> n \<le> kDrainFastChunkFrames \<and> drain_floor long_packet_jb + n \<le> available_frames_unlocked long_packet_jb) \<and>
         pop_frames 9000 (Some [0, 0, 7]) 2 long_packet_jb =
           Some (2, Some (take 2 (drop n (jb_stream long_packet_jb)) @ [7]), i) \<and>
         jb_stream i = drop (n + 2) (jb_stream long_packet_jb) \<and> is_ready i"
proof -
  have "jb_channels long_packet_jb = 1" "is_ready long_packet_jb"
    by (simp_all add: long_packet_jb_def store_packet_def is_ready_def JitterBuffer_def)
  moreover have "2 + kDrainFastChunkFrames \<le> jb_queued long_packet_jb"
    using long_packet_queued by (simp add: kDrainFastChunkFrames_def)
  ultimately show ?thesis
    using pop_frames_in_order [OF long_packet_inv, of 2 "[0, 0, 7]" 9000] by (simp add: numeral_2_eq_2)
qed

section \<open>In-order delivery\<close>

text \<open>
  An arrival as the client makes it: the two clock readings, the timestamp, the samples, the number
  of frames. \<open>push_all\<close> pushes arrivals with consecutive sequence numbers, which wrap at 32 bits.
\<close>

type_synonym arrival = "u64 \<times> u64 \<times> u64 \<times> i16 list \<times> nat"

fun push_all :: "u32 \<Rightarrow> arrival list \<Rightarrow> jitter_buffer \<Rightarrow> jitter_buffer option" where
  "push_all seq [] j = Some j"
| "push_all seq ((now_us, now_ms, ts, pcm, n) # ps) j =
     (case push_packet now_us now_ms seq ts (Some pcm) n j of
        None \<Rightarrow> None
      | Some (ok, j') \<Rightarrow> push_all (seq + 1) ps j')"

fun arrival_ok :: "nat \<Rightarrow> arrival \<Rightarrow> bool" where
  "arrival_ok ch (now_us, now_ms, ts, pcm, n) \<longleftrightarrow>
     0 < n \<and> length pcm = n * ch \<and> unat now_us < 2 ^ 62 \<and> unat ts < 2 ^ 62"

fun arrival_pcm :: "arrival \<Rightarrow> i16 list" where
  "arrival_pcm (now_us, now_ms, ts, pcm, n) = pcm"

text \<open>Only the packets of the run are stored.\<close>

definition tight :: "jitter_buffer \<Rightarrow> bool" where
  "tight j \<longleftrightarrow> (\<forall>q. holds_seq q j \<longrightarrow> unat (q - jb_next_play_seq j) < length (jb_run j))"

lemma tight_extends:
  assumes run: "jb_run j' = jb_run j @ s # rest" and inv: "jb_inv j" and inv': "jb_inv j'"
    and seq: "seq = jb_next_play_seq j' + of_nat (length (jb_run j))"
    and holds: "\<forall>q. holds_seq q j' \<longrightarrow> q = seq \<or> holds_seq q j" and t: "tight j"
    and np: "jb_has_first_packet j \<longrightarrow> jb_next_play_seq j' = jb_next_play_seq j"
  shows "rest = []" and "tight j'"
proof -
  define l where "l = length (jb_run j)"
  have len: "length (jb_run j') = Suc (l + length rest)" using run by (simp add: l_def)
  then have lM: "l < MAX_SLOTS" "Suc (l + length rest) \<le> MAX_SLOTS" using jb_run_length [of j'] by simp_all
  have none: "\<not> holds_seq q j" if "\<not> jb_has_first_packet j" for q
    using inv that jb_invD(1) [OF inv] by (simp add: jb_inv_def holds_seq_def Let_def)
  have bound: "unat (q - jb_next_play_seq j') < Suc l" if "holds_seq q j'" for q
  proof (cases "q = seq")
    case True
    then show ?thesis using seq lM unat_u32_of_small [of l] by (simp add: l_def)
  next
    case False
    then have "holds_seq q j" using holds that by blast
    then have "unat (q - jb_next_play_seq j) < l" using t by (simp add: tight_def l_def)
    then show ?thesis using np none \<open>holds_seq q j\<close> by fastforce
  qed
  show "rest = []"
  proof (rule ccontr)
    assume "rest \<noteq> []"
    then have "Suc l < length (jb_run j')" using len by simp
    then have "holds_seq (jb_next_play_seq j' + of_nat (Suc l)) j'" by (rule jb_run_holds)
    from bound [OF this] have "unat (of_nat (Suc l) :: u32) < Suc l" by simp
    moreover have "Suc l < MAX_SLOTS" using lM(2) \<open>rest \<noteq> []\<close> by (cases rest) auto
    ultimately show False by (metis unat_u32_of_small less_irrefl)
  qed
  then show "tight j'" using bound len by (simp add: tight_def)
qed

lemma push_all_stream:
  assumes "jb_inv j" and "transit_small j" and "tight j" and "\<forall>a \<in> set ps. arrival_ok (jb_channels j) a"
    and "jb_has_first_packet j \<longrightarrow> seq = jb_next_play_seq j + of_nat (length (jb_run j))"
    and "length (jb_run j) + length ps \<le> MAX_SLOTS"
  shows "\<exists>j'. push_all seq ps j = Some j' \<and> jb_inv j' \<and>
              jb_stream j' = jb_stream j @ concat (map arrival_pcm ps)"
  using assms
proof (induction ps arbitrary: j seq)
  case Nil
  then show ?case by simp
next
  case (Cons a ps)
  obtain now_us now_ms ts pcm n where a: "a = (now_us, now_ms, ts, pcm, n)" by (cases a) auto
  have ok: "0 < n" "length pcm = n * jb_channels j" "unat now_us < 2 ^ 62" "unat ts < 2 ^ 62"
    using Cons.prems(4) by (auto simp: a)
  obtain j' s rest where p: "push_packet now_us now_ms seq ts (Some pcm) n j = Some (True, j')"
    and run: "jb_run j' = jb_run j @ s # rest"
    and st: "jb_stream j' = jb_stream j @ take (n * jb_channels j) pcm @ concat (map ps_pcm_data rest)"
    and f: "jb_has_first_packet j'" and sq: "seq = jb_next_play_seq j' + of_nat (length (jb_run j))"
    and c: "jb_config j' = jb_config j" and h: "\<forall>q. holds_seq q j' \<longrightarrow> q = seq \<or> holds_seq q j"
    using push_in_order [OF Cons.prems(1,2) _ _ ok(3,4) Cons.prems(5), of n pcm now_ms] ok(1,2) Cons.prems(6)
    by auto
  have inv': "jb_inv j'" by (rule push_packet_inv [OF Cons.prems(1) p])
  have np: "jb_has_first_packet j \<longrightarrow> jb_next_play_seq j' = jb_next_play_seq j"
    using sq Cons.prems(5) by auto
  note ti = tight_extends [OF run Cons.prems(1) inv' sq h Cons.prems(3) np]
  have tr: "transit_small j'" using push_transit_small [OF Cons.prems(2) p ok(3,4)] .
  have "seq + 1 = jb_next_play_seq j' + of_nat (length (jb_run j'))"
    using sq run ti(1) by (simp add: algebra_simps)
  moreover have "length (jb_run j') + length ps \<le> MAX_SLOTS" using run ti(1) Cons.prems(6) by simp
  ultimately obtain j'' where "push_all (seq + 1) ps j' = Some j''" "jb_inv j''"
    "jb_stream j'' = jb_stream j' @ concat (map arrival_pcm ps)"
    using Cons.IH [of j' "seq + 1"] inv' tr ti(2) Cons.prems(4) c by auto
  then show ?case using p st ti(1) ok(2) by (simp add: a)
qed

lemma configured_push_all:
  assumes "jb_inv j0" and "length ps \<le> MAX_SLOTS" and "\<forall>a \<in> set ps. arrival_ok (unat (ac_channels config)) a"
  shows "\<exists>j. push_all seq ps (jb_configure config target j0) = Some j \<and> jb_inv j \<and>
             jb_stream j = concat (map arrival_pcm ps)"
proof -
  define j where "j = jb_configure config target j0"
  have inv: "jb_inv j" unfolding j_def by (rule jb_inv_configure [OF assms(1)])
  have f: "\<not> jb_has_first_packet j" "transit_small j" "jb_config j = config"
    by (simp_all add: j_def jb_configure_def jb_reset_def transit_small_def Let_def)
  note e = jb_run_no_valid [OF inv f(1)]
  have "\<not> holds_seq q j" for q
    using inv f(1) jb_invD(1) [OF inv] by (simp add: jb_inv_def holds_seq_def Let_def)
  then have "tight j" by (simp add: tight_def)
  moreover have "jb_stream j = []" using e by (simp add: jb_stream_def)
  ultimately show ?thesis using push_all_stream [OF inv f(2), of ps seq] assms f e by (simp add: j_def)
qed

text \<open>
  Claim C18: after a configuration, up to 256 packets with consecutive sequence numbers (which may
  wrap at 32 bits) are all accepted, and the audio waiting at the playhead is exactly the
  concatenation of their samples.
\<close>

theorem in_order_delivery:
  assumes "jb_inv j0" and "length ps \<le> MAX_SLOTS" and "\<forall>a \<in> set ps. arrival_ok (unat (ac_channels config)) a"
  shows "\<exists>j. push_all seq ps (jb_configure config target j0) = Some j \<and> jb_inv j \<and>
             jb_stream j = concat (map arrival_pcm ps)"
  by (rule configured_push_all [OF assms])

theorem in_order_delivery_witness:
  "\<exists>j. push_all 0xFFFFFFFF [(1000, 1, 900, [1, 2], 2), (6000, 6, 5900, [3, 4], 2)]
         (jb_configure mono_config 35 (JitterBuffer 35)) = Some j \<and> jb_inv j \<and> jb_stream j = [1, 2, 3, 4]"
  using in_order_delivery [OF jb_inv_JitterBuffer, of "[(1000, 1, 900, [1, 2], 2), (6000, 6, 5900, [3, 4], 2)]" mono_config]
  by (simp add: MAX_SLOTS_def)

section \<open>Accounting\<close>

lemma push_counters:
  assumes "update_jitter now_us ts j = Some i" and "num_frames \<noteq> 0"
    and "push_packet now_us now_ms seq ts (Some pcm) num_frames j = Some (ok, j')"
  shows "js_packets_received (jb_stats j') = js_packets_received (jb_stats j) + 1"
    and "js_packets_out_of_order (jb_stats j') + js_packets_duplicate (jb_stats j')
         = js_packets_out_of_order (jb_stats j) + js_packets_duplicate (jb_stats j) + (if ok then 0 else 1)"
    and "ok \<longleftrightarrow> \<not> is_late seq (arrived seq i) \<and> \<not> holds_seq seq (window_for seq (arrived seq i))"
proof -
  have st: "jb_stats i = jb_stats j" using assms(1) by (rule update_jitter_frame)
  have arr: "js_packets_received (jb_stats (arrived seq i)) = js_packets_received (jb_stats j) + 1"
    "js_packets_out_of_order (jb_stats (arrived seq i)) = js_packets_out_of_order (jb_stats j)"
    "js_packets_duplicate (jb_stats (arrived seq i)) = js_packets_duplicate (jb_stats j)"
    by (simp_all add: arrived_def first_packet_def st)
  have win: "js_packets_received (jb_stats (window_for seq a)) = js_packets_received (jb_stats a)"
    "js_packets_out_of_order (jb_stats (window_for seq a)) = js_packets_out_of_order (jb_stats a)"
    "js_packets_duplicate (jb_stats (window_for seq a)) = js_packets_duplicate (jb_stats a)" for a
    by (simp_all add: window_for_def resync_def Let_def)
  note eq = assms(3) [unfolded push_packet_unfold [OF assms(1,2)] Let_def]
  show "js_packets_received (jb_stats j') = js_packets_received (jb_stats j) + 1"
    "js_packets_out_of_order (jb_stats j') + js_packets_duplicate (jb_stats j')
         = js_packets_out_of_order (jb_stats j) + js_packets_duplicate (jb_stats j) + (if ok then 0 else 1)"
    "ok \<longleftrightarrow> \<not> is_late seq (arrived seq i) \<and> \<not> holds_seq seq (window_for seq (arrived seq i))"
    using eq arr win by (auto split: if_splits)
qed

text \<open>
  Every packet that is not refused outright is counted as received once; a rejected one is
  counted once more, as late or as a duplicate, and an accepted one is not.
\<close>

theorem push_packet_accounting:
  assumes "num_frames \<noteq> 0"
    and "push_packet now_us now_ms seq ts (Some pcm) num_frames j = Some (ok, j')"
  shows "js_packets_received (jb_stats j') = js_packets_received (jb_stats j) + 1 \<and>
         js_packets_out_of_order (jb_stats j') + js_packets_duplicate (jb_stats j')
         = js_packets_out_of_order (jb_stats j) + js_packets_duplicate (jb_stats j) + (if ok then 0 else 1)"
proof -
  obtain i where "update_jitter now_us ts j = Some i"
    using assms by (cases "update_jitter now_us ts j") (auto simp: push_packet_def)
  then show ?thesis using push_counters assms by blast
qed

theorem push_packet_accounting_witness:
  "\<exists>ok j'. push_packet 1000 1 5 900 (Some [1, 2]) 1 (JitterBuffer 35) = Some (ok, j') \<and>
     js_packets_received (jb_stats j') = js_packets_received (jb_stats (JitterBuffer 35)) + 1 \<and>
     js_packets_out_of_order (jb_stats j') + js_packets_duplicate (jb_stats j')
       = js_packets_out_of_order (jb_stats (JitterBuffer 35)) + js_packets_duplicate (jb_stats (JitterBuffer 35))
         + (if ok then 0 else 1)"
proof -
  have "jb_channels (JitterBuffer 35) = 2" "transit_small (JitterBuffer 35)"
    by (simp_all add: JitterBuffer_def default_audio_config_def transit_small_def)
  then obtain ok j' where p: "push_packet 1000 1 5 900 (Some [1, 2]) 1 (JitterBuffer 35) = Some (ok, j')"
    using push_packet_defined [OF jb_inv_JitterBuffer, of 35 1 "[1, 2]" 1000 900 1 5] by auto
  show ?thesis using push_packet_accounting [OF _ p] p by auto
qed

section \<open>Leaving the buffering state\<close>

text \<open>
  A packet can start playback only if the gap-free audio at the playhead reaches the
  prefill and the last 24 arrivals were consecutive, or if all stored audio reaches the (doubled at
  start-up) escape level.
\<close>

theorem playback_start_gate:
  assumes "jb_inv j" and "jb_is_buffering j"
    and "push_packet now_us now_ms seq ts (Some pcm) num_frames j = Some (True, j')" and "\<not> jb_is_buffering j'"
  shows "\<not> jb_startup_pending j' \<and>
         (let fill = (if jb_startup_pending j then jb_startup_target_frames j else jb_target_buffer_frames j)
          in fill \<le> jb_queued j' + jb_slot_frame_offset j' \<and> kStableArrivalCount \<le> jb_hole_free_run j' \<or>
             (if jb_startup_pending j then 2 * fill else fill) \<le> total_valid_frames (jb_slots j'))"
proof -
  have n: "num_frames \<noteq> 0" by (rule notI) (use assms(3) in \<open>simp add: push_packet_def\<close>)
  then obtain i where i: "update_jitter now_us ts j = Some i"
    using assms(3) by (cases "update_jitter now_us ts j") (auto simp: push_packet_def)
  note fr = update_jitter_frame [OF i]
  define b where "b = track_run seq (store_packet seq ts pcm num_frames (window_for seq (arrived seq i)))"
  have j': "j' = check_prefill now_ms b"
    using assms(3) by (auto simp: push_packet_unfold [OF i n] Let_def b_def split: if_splits)
  have b: "jb_is_buffering b" "jb_startup_pending b = jb_startup_pending j"
    "jb_startup_target_frames b = jb_startup_target_frames j" "jb_target_buffer_frames b = jb_target_buffer_frames j"
    using assms(2) fr by (simp_all add: b_def track_run_def store_packet_def window_for_def resync_def
        arrived_def first_packet_def Let_def)
  have run: "scan_contiguous (jb_slots j') (jb_next_play_seq j') 0 \<le> sum_list (map ps_num_frames (jb_run j'))"
    using scan_le_run [of "jb_slots j'" "jb_next_play_seq j'" 0] by (simp add: jb_run_def)
  have "jb_slots j' = jb_slots b" "jb_next_play_seq j' = jb_next_play_seq b" by (simp_all add: j')
  then have "\<not> jb_startup_pending j' \<and> jb_hole_free_run j' = jb_hole_free_run b \<and>
      (let fill = (if jb_startup_pending j then jb_startup_target_frames j else jb_target_buffer_frames j) in
       fill \<le> scan_contiguous (jb_slots j') (jb_next_play_seq j') 0 \<and> kStableArrivalCount \<le> jb_hole_free_run b \<or>
       (if jb_startup_pending j then 2 * fill else fill) \<le> total_valid_frames (jb_slots j'))"
    using assms(4) b unfolding j' by (auto simp: check_prefill_def Let_def split: if_splits)
  then show ?thesis using run by (auto simp: Let_def jb_queued_def)
qed

lemma first_push_starts:
  "\<exists>j'. push_packet 1000 1 5 900 (Some [1, 2]) 1 (JitterBuffer 35) = Some (True, j') \<and> \<not> jb_is_buffering j'"
  by (simp add: push_packet_def update_jitter_def first_packet_def JitterBuffer_def empty_slot_def
      default_audio_config_def empty_stats_def store_packet_def track_run_def check_prefill_def MAX_SLOTS_def Let_def)

theorem playback_start_gate_witness:
  "\<exists>j'. push_packet 1000 1 5 900 (Some [1, 2]) 1 (JitterBuffer 35) = Some (True, j') \<and>
        (0 \<le> jb_queued j' + jb_slot_frame_offset j' \<and> kStableArrivalCount \<le> jb_hole_free_run j' \<or>
         0 \<le> total_valid_frames (jb_slots j')) \<and> \<not> jb_startup_pending j'"
proof -
  obtain j' where p: "push_packet 1000 1 5 900 (Some [1, 2]) 1 (JitterBuffer 35) = Some (True, j')" "\<not> jb_is_buffering j'"
    using first_push_starts by blast
  have "jb_is_buffering (JitterBuffer 35)" by (simp add: JitterBuffer_def)
  from playback_start_gate [OF jb_inv_JitterBuffer this p] p show ?thesis
    by (auto simp: JitterBuffer_def Let_def)
qed

section \<open>The level at the wrap of the sequence numbers\<close>

text \<open>
  Claim C29: away from the last 256 sequence numbers the counted level is the whole gap-free audio
  at the playhead.
\<close>

theorem available_frames_exact:
  assumes "jb_inv j" and "unat (jb_next_play_seq j) + MAX_SLOTS \<le> 2 ^ 32"
  shows "available_frames j = jb_queued j"
proof (cases "cur_available j")
  case True
  then have "jb_slot_frame_offset j < ps_num_frames (cur_slot j)" by (rule jb_invD(4) [OF assms(1)])
  then have "jb_slot_frame_offset j \<le> sum_list (map ps_num_frames (jb_run j))"
    using True by (simp add: jb_run_unfold)
  then show ?thesis using scan_eq_run [OF assms(2), of "jb_slots j" 0]
    by (simp add: available_frames_def available_frames_unlocked_def Let_def jb_queued_def jb_run_def)
next
  case False
  then show ?thesis using scan_eq_run [OF assms(2), of "jb_slots j" 0] jb_invD(6) [OF assms(1) False]
    by (simp add: available_frames_def available_frames_unlocked_def jb_queued_def jb_run_def)
qed

theorem available_frames_exact_witness: "available_frames long_packet_jb = jb_queued long_packet_jb"
  using available_frames_exact [OF long_packet_inv]
  by (simp add: long_packet_jb_def store_packet_def MAX_SLOTS_def)

text \<open>
  When the playhead is at the last sequence number, only the packet there is counted: the
  scan adds a 64-bit index, so it never matches the packets behind the wrap, however many are stored.
\<close>

theorem available_frames_stop_at_wrap:
  assumes "jb_inv j" and "jb_next_play_seq j = 0xFFFFFFFF" and "cur_available j"
  shows "available_frames j = ps_num_frames (cur_slot j) - jb_slot_frame_offset j"
proof -
  have "scan_contiguous (jb_slots j) (jb_next_play_seq j) (Suc 0) = 0"
    by (rule scan_beyond_wrap) (simp add: assms(2))
  then have "scan_contiguous (jb_slots j) (jb_next_play_seq j) 0 = ps_num_frames (cur_slot j)"
    using assms(3) by (subst scan_contiguous.simps) (simp add: Let_def)
  then show ?thesis using jb_invD(4) [OF assms(1,3)]
    by (simp add: available_frames_def available_frames_unlocked_def)
qed

theorem available_frames_stop_at_wrap_witness: "available_frames one_packet_jb = 3"
  using available_frames_stop_at_wrap [OF one_packet_inv] one_packet_cur by simp

section \<open>Playback as a reference function\<close>

text \<open>
  What playback has before it, without slots, sequence numbers and offsets: for each of the 256 places
  from the playhead on, the samples still to be played from the packet with that number, or \<open>None\<close> if
  the packet is missing.
\<close>

definition stored :: "jitter_buffer \<Rightarrow> nat \<Rightarrow> i16 list option" where
  "stored j i =
     (if holds_seq (jb_next_play_seq j + of_nat i) j
      then Some (drop (if i = 0 then jb_slot_frame_offset j * jb_channels j else 0)
                   (ps_pcm_data (jb_slots j ! ((unat (jb_next_play_seq j) + i) mod MAX_SLOTS))))
      else None)"

definition jb_window :: "jitter_buffer \<Rightarrow> i16 list option list" where
  "jb_window j = map (stored j) [0..<MAX_SLOTS]"

text \<open>
  The reference for playback: \<open>need\<close> samples of a list of packets, where a missing packet with another one
  behind it is a pause of \<open>pause\<close> samples, and only silence follows the last packet.
\<close>

fun ref_play :: "nat \<Rightarrow> nat \<Rightarrow> i16 list option list \<Rightarrow> i16 list" where
  "ref_play pause need [] = replicate need 0"
| "ref_play pause need (Some s # w) = (if need < length s then take need s else s @ ref_play pause (need - length s) w)"
| "ref_play pause need (None # w) =
     (if list_all (\<lambda>x. x = None) w then replicate need 0
      else replicate (min need pause) 0 @ ref_play pause (need - min need pause) w)"

definition pause_samples :: "jitter_buffer \<Rightarrow> nat" where
  "pause_samples j = (if ac_frames_per_packet (jb_config j) > 0 then unat (ac_frames_per_packet (jb_config j)) else 240) * jb_channels j"

lemma ref_play_zero [simp]: "ref_play pause 0 w = []"
proof (induction w)
  case (Cons x w)
  then show ?case by (cases x) auto
qed simp

lemma ref_play_only_missing: "list_all (\<lambda>x. x = None) w \<Longrightarrow> ref_play pause need w = replicate need 0"
  by (induction w) auto

lemma ref_play_trailing [simp]: "ref_play pause need (w @ [None]) = ref_play pause need w"
  by (induction pause need w rule: ref_play.induct) auto

lemma stored_cur:
  "stored j 0 = (if cur_available j then Some (drop (jb_slot_frame_offset j * jb_channels j) (ps_pcm_data (cur_slot j))) else None)"
  by (simp add: stored_def holds_seq_def Let_def)

lemma jb_window_Cons: "jb_window j = stored j 0 # map (stored j) [1..<MAX_SLOTS]"
  by (simp add: jb_window_def upt_conv_Cons)

lemma jb_window_cong:
  assumes "jb_slots i = jb_slots j" "jb_next_play_seq i = jb_next_play_seq j" "jb_config i = jb_config j"
    "jb_slot_frame_offset i = jb_slot_frame_offset j"
  shows "jb_window i = jb_window j"
  using assms by (simp add: jb_window_def stored_def holds_seq_def)

lemma jb_window_offset:
  "map (stored (j\<lparr>jb_slot_frame_offset := off\<rparr>)) [1..<MAX_SLOTS] = map (stored j) [1..<MAX_SLOTS]"
  by (simp add: stored_def holds_seq_def)

text \<open>Leaving a slot moves the window on by one place.\<close>

lemma stored_leave:
  assumes "jb_inv j" and "\<not> ps_is_valid s" and "i < MAX_SLOTS - 1"
  shows "stored (leave_slot s j) i = stored j (Suc i)"
proof -
  have ne: "(unat (jb_next_play_seq j) + Suc i) mod MAX_SLOTS \<noteq> cur_index j"
    using assms(3) mod_add_cancel_left [of "unat (jb_next_play_seq j)" "Suc i" MAX_SLOTS 0] by (auto simp: MAX_SLOTS_def)
  have q: "jb_next_play_seq j + 1 + of_nat i = jb_next_play_seq j + of_nat (Suc i)" by (simp add: add.assoc)
  have ix: "unat (jb_next_play_seq j + of_nat (Suc i)) mod MAX_SLOTS = (unat (jb_next_play_seq j) + Suc i) mod MAX_SLOTS"
    by (rule seq_index_add)
  have ix2: "(unat (jb_next_play_seq j + 1) + i) mod MAX_SLOTS = (unat (jb_next_play_seq j) + Suc i) mod MAX_SLOTS"
    using seq_index_Suc [of "jb_next_play_seq j"] by (metis add_Suc_right add_Suc mod_add_left_eq)
  show ?thesis using ne by (simp add: stored_def holds_seq_def q ix ix2 del: of_nat_Suc)
qed

lemma jb_window_leave:
  assumes "jb_inv j" and "\<not> ps_is_valid s"
  shows "jb_window (leave_slot s j) = map (stored j) [1..<MAX_SLOTS] @ [None]"
proof -
  have "stored (leave_slot s j) (MAX_SLOTS - 1) = None"
  proof -
    have "unat (jb_next_play_seq j + 1 + of_nat (MAX_SLOTS - 1)) mod MAX_SLOTS = cur_index j"
      using seq_index_add [of "jb_next_play_seq j + 1" "MAX_SLOTS - 1"] seq_index_add [of "jb_next_play_seq j" MAX_SLOTS]
      by (simp add: MAX_SLOTS_def algebra_simps)
    then show ?thesis using assms(2) jb_invD(3) [OF assms(1)] by (simp add: stored_def holds_seq_def)
  qed
  moreover have "[0..<MAX_SLOTS] = [0..<MAX_SLOTS - 1] @ [MAX_SLOTS - 1]" by (simp add: MAX_SLOTS_def upt_conv_Cons)
  moreover have "map (stored (leave_slot s j)) [0..<MAX_SLOTS - 1] = map (stored j) [1..<MAX_SLOTS]"
    by (rule nth_equalityI) (simp_all add: stored_leave [OF assms])
  ultimately show ?thesis by (simp add: jb_window_def)
qed

lemma future_iff_stored:
  assumes "jb_inv j"
  shows "has_future_packets j \<longleftrightarrow> \<not> list_all (\<lambda>x. x = None) (map (stored j) [1..<MAX_SLOTS])"
proof -
  have "ps_is_valid (jb_slots j ! ((unat (jb_next_play_seq j) + i) mod MAX_SLOTS)) \<longleftrightarrow> stored j i \<noteq> None" if "i < MAX_SLOTS" for i
  proof -
    define k where "k = (unat (jb_next_play_seq j) + i) mod MAX_SLOTS"
    have ix: "unat (jb_next_play_seq j + of_nat i) mod MAX_SLOTS = k" unfolding k_def by (rule seq_index_add)
    have "ps_seq_num (jb_slots j ! k) = jb_next_play_seq j + of_nat i" if v: "ps_is_valid (jb_slots j ! k)"
    proof (rule window_index_inj [of _ "jb_next_play_seq j"])
      have "slot_ok (jb_channels j) (jb_next_play_seq j) k (jb_slots j ! k)" by (rule jb_invD(2) [OF assms]) (simp add: k_def)
      then show "unat (ps_seq_num (jb_slots j ! k) - jb_next_play_seq j) < MAX_SLOTS"
        "unat (ps_seq_num (jb_slots j ! k)) mod MAX_SLOTS = unat (jb_next_play_seq j + of_nat i) mod MAX_SLOTS"
        using v ix by (simp_all add: slot_ok_def)
      show "unat (jb_next_play_seq j + of_nat i - jb_next_play_seq j) < MAX_SLOTS"
        using \<open>i < MAX_SLOTS\<close> unat_u32_of_small [of i] by simp
    qed
    then show ?thesis by (auto simp: stored_def holds_seq_def ix k_def [symmetric] Let_def)
  qed
  then show ?thesis by (auto simp: has_future_packets_def list_ex_iff list_all_iff)
qed
lemma pause_samples_keeps [simp]:
  "pause_samples (consume n j) = pause_samples j" "pause_samples (skip_missing j) = pause_samples j"
  unfolding pause_samples_def by (simp_all only: consume_frame skip_missing_frame)

lemma pop_loop_reference:
  assumes "jb_inv j" and "d \<le> num_frames" and "0 < jb_channels j"
  shows "\<exists>i. pop_loop num_frames d out j =
             Some (num_frames, out @ ref_play (pause_samples j) ((num_frames - d) * jb_channels j) (jb_window j), i)"
  using assms
proof (induction "num_frames - d" arbitrary: d out j rule: less_induct)
  case less
  let ?ch = "jb_channels j"
  show ?case
  proof (cases "d < num_frames")
    case False
    then show ?thesis using less.prems by (simp add: pop_loop_end)
  next
    case d: True
    consider (cur) "cur_available j" | (gap) "\<not> cur_available j" "has_future_packets j"
      | (dry) "\<not> cur_available j" "\<not> has_future_packets j" by blast
    then show ?thesis
    proof cases
      case cur
      define n where "n = min (ps_num_frames (cur_slot j) - jb_slot_frame_offset j) (num_frames - d)"
      note st = pop_loop_available [OF less.prems(1) cur d, folded n_def]
      define s where "s = drop (jb_slot_frame_offset j * ?ch) (ps_pcm_data (cur_slot j))"
      define w where "w = map (stored j) [1..<MAX_SLOTS]"
      have win: "jb_window j = Some s # w" using cur by (simp add: jb_window_Cons stored_cur s_def w_def)
      have ls: "length s = (ps_num_frames (cur_slot j) - jb_slot_frame_offset j) * ?ch"
        using jb_invD(5) [OF less.prems(1) cur] by (simp add: s_def diff_mult_distrib)
      have chunk: "take (n * ?ch) (jb_stream j) = take (n * ?ch) s"
        using consume_stream(1) [OF less.prems(1) cur st(4)] by (simp add: slice_def s_def)
      have lt: "num_frames - (d + n) < num_frames - d" "d + n \<le> num_frames" using st(2) d by (auto simp: n_def)
      have step: "\<exists>i. pop_loop num_frames d out j = Some (num_frames, (out @ take (n * ?ch) s) @
          ref_play (pause_samples j) ((num_frames - (d + n)) * ?ch) (jb_window (consume n j)), i)"
        using less.hyps [OF lt(1) jb_inv_consume [OF less.prems(1) cur, of n] lt(2), of "out @ take (n * ?ch) s"] less.prems(3) st(1) [of out] chunk
        by simp
      have "ref_play (pause_samples j) ((num_frames - d) * ?ch) (jb_window j) =
          take (n * ?ch) s @ ref_play (pause_samples j) ((num_frames - (d + n)) * ?ch) (jb_window (consume n j))"
      proof (cases "num_frames - d < ps_num_frames (cur_slot j) - jb_slot_frame_offset j")
        case True
        then have "n = num_frames - d" "(num_frames - d) * ?ch < length s" using less.prems(3) ls by (simp_all add: n_def)
        then show ?thesis using lt(2) by (simp add: win)
      next
        case False
        then have n: "n * ?ch = length s" "ps_num_frames (cur_slot j) \<le> jb_slot_frame_offset j + n" by (auto simp: n_def ls)
        have "jb_window (consume n j) = w @ [None]"
          using n(2) jb_window_leave [OF less.prems(1), of "drop_slot (cur_slot j)"] by (simp add: consume_def w_def)
        moreover have "(num_frames - d) * ?ch - length s = (num_frames - (d + n)) * ?ch"
          unfolding n(1) [symmetric] diff_mult_distrib [symmetric] by simp
        moreover have "\<not> (num_frames - d) * ?ch < length s" unfolding n(1) [symmetric] using lt(2) by auto
        ultimately show ?thesis by (simp add: win n(1))
      qed
      then show ?thesis using step by simp
    next
      case gap
      define n where "n = conceal_frames (num_frames - d) j"
      have n: "0 < n" "n \<le> num_frames - d" using conceal_frames_bounds [of "num_frames - d" j] d by (auto simp: n_def)
      then have dn: "d + n \<le> num_frames" "num_frames - (d + n) < num_frames - d" using d by auto
      define w where "w = map (stored j) [1..<MAX_SLOTS]"
      have win: "jb_window j = None # w" using gap(1) by (simp add: jb_window_Cons stored_cur w_def)
      have nw: "\<not> list_all (\<lambda>x. x = None) w" using gap(2) future_iff_stored [OF less.prems(1)] by (simp add: w_def)
      have "jb_window (skip_missing j) = jb_window (leave_slot (drop_slot (cur_slot j)) j)"
        by (rule jb_window_cong) (simp_all add: skip_missing_def)
      then have sk: "jb_window (skip_missing j) = w @ [None]"
        using jb_window_leave [OF less.prems(1), of "drop_slot (cur_slot j)"] by (simp add: w_def)
      have m: "min ((num_frames - d) * ?ch) (pause_samples j) = n * ?ch"
        unfolding n_def conceal_frames_def pause_samples_def by (rule nat_mult_min_left [symmetric])
      have "(num_frames - d) * ?ch - n * ?ch = (num_frames - (d + n)) * ?ch"
        unfolding diff_mult_distrib [symmetric] by simp
      then show ?thesis
        using less.hyps [OF dn(2) jb_inv_skip_missing [OF less.prems(1)] dn(1), of "out @ replicate (n * ?ch) 0"]
          pop_loop_gap [OF gap d, of out, folded n_def] less.prems(3) nw
        by (simp add: win sk m)
    next
      case dry
      have "jb_window j = None # map (stored j) [1..<MAX_SLOTS]" using dry(1) by (simp add: jb_window_Cons stored_cur)
      moreover have "list_all (\<lambda>x. x = None) (map (stored j) [1..<MAX_SLOTS])" using dry(2) future_iff_stored [OF less.prems(1)] by simp
      ultimately show ?thesis using pop_loop_dry [OF dry d, of out] d by (simp del: list.pred_map)
    qed
  qed
qed

text \<open>
  Claim C22: playback is the reference function. When the buffer plays, what a pop stores is, after a
  possible drain, exactly what the reference makes of the packets from the playhead on, whatever is
  missing and however sequence numbers and slots wrap: the stored samples in order, one packet of silence
  for each missing packet that has another one behind it, and silence after the last one; the rest of
  the destination is left alone. When it is still buffering it stores silence. This is for a
  buffer in which the invariant holds, a configuration with at least one channel, a request of at least
  one frame, and a destination with room for it.
\<close>

theorem pop_frames_reference:
  assumes "jb_inv j" and "0 < jb_channels j" and "num_frames * jb_channels j \<le> length d" and "num_frames \<noteq> 0"
  shows "\<exists>i k. drain_to_target now_ms j = Some i \<and>
     pop_frames now_ms (Some d) num_frames j =
       Some (num_frames,
             Some ((if is_ready j then ref_play (pause_samples j) (num_frames * jb_channels j) (jb_window i)
                    else replicate (num_frames * jb_channels j) 0) @ drop (num_frames * jb_channels j) d), k)"
proof -
  obtain i0 where i0: "drain_to_target now_ms j = Some i0" using drain_total [OF assms(1), of now_ms] by blast
  from assms(1,3,4) show ?thesis
  proof (cases rule: pop_frames_cases [of j num_frames d now_ms])
    case silent
    then show ?thesis using i0 by auto
  next
    case (play i n out k)
    obtain l where "pop_loop num_frames 0 [] i = Some (num_frames, ref_play (pause_samples i) (num_frames * jb_channels i) (jb_window i), l)"
      using pop_loop_reference [OF play(3), of 0 num_frames "[]"] play(7) assms(2) by auto
    then have "out = ref_play (pause_samples j) (num_frames * jb_channels j) (jb_window i)"
      using play(7,8) by (simp add: pause_samples_def)
    then show ?thesis using play by auto
  qed
qed

definition gap_jb :: jitter_buffer where
  "gap_jb =
     store_packet 8 1 [5, 6] 2
       ((JitterBuffer 35)\<lparr>jb_config := mono_config, jb_has_first_packet := True, jb_is_buffering := False,
          jb_next_play_seq := 7\<rparr>)"

lemma gap_jb_inv: "jb_inv gap_jb"
  unfolding gap_jb_def
  by (rule jb_inv_store [OF jb_inv_no_valid])
     (simp_all add: JitterBuffer_def empty_slot_def MAX_SLOTS_def mono_config_def)

lemma gap_jb_window: "\<exists>w. jb_window gap_jb = None # Some [5, 6] # w"
proof -
  have "[1..<MAX_SLOTS] = 1 # [2..<MAX_SLOTS]" by (simp add: MAX_SLOTS_def upt_conv_Cons numeral_2_eq_2)
  moreover have "stored gap_jb 0 = None" "stored gap_jb 1 = Some [5, 6]"
    by (simp_all add: gap_jb_def stored_def holds_seq_def store_packet_def JitterBuffer_def MAX_SLOTS_def empty_slot_def mono_config_def)
  ultimately show ?thesis by (simp add: jb_window_Cons)
qed

text \<open>A pop of four frames from a buffer whose first packet is missing: two frames of silence and the second packet.\<close>

theorem pop_frames_reference_witness:
  "\<exists>k. pop_frames 9000 (Some [1, 2, 3, 4, 7]) 4 gap_jb = Some (4, Some [0, 0, 5, 6, 7], k)"
proof -
  have c: "jb_channels gap_jb = 1" "is_ready gap_jb" "pause_samples gap_jb = 2"
    by (simp_all add: gap_jb_def store_packet_def JitterBuffer_def mono_config_def is_ready_def pause_samples_def)
  have "available_frames_unlocked gap_jb = 0"
    unfolding available_frames_unlocked_def
    by (subst scan_contiguous.simps) (simp add: gap_jb_def store_packet_def JitterBuffer_def MAX_SLOTS_def empty_slot_def)
  then have dr: "drain_to_target 9000 gap_jb = Some gap_jb" by (simp add: drain_to_target_def Let_def)
  obtain w where "jb_window gap_jb = None # Some [5, 6] # w" using gap_jb_window by blast
  then have "ref_play 2 4 (jb_window gap_jb) = [0, 0, 5, 6]" by (simp add: numeral_eq_Suc)
  with pop_frames_reference [OF gap_jb_inv, of 4 "[1, 2, 3, 4, 7]" 9000] show ?thesis by (simp add: c dr)
qed

section \<open>Configuration\<close>

text \<open>
  Whatever latency is asked for (including values whose triple overflows 32 bits), the
  start-up prefill lies between 120 and 500 ms and the steady target is at least 5 ms.
\<close>

theorem configure_bounds:
  "120 \<le> startup_prefill_ms t \<and> startup_prefill_ms t \<le> 500 \<and>
   5 \<le> jb_target_latency_ms (jb_configure config t j) \<and>
   jb_startup_target_frames (jb_configure config t j)
   \<le> (unat (ac_sample_rate config) * 500) div 1000"
proof -
  have p: "startup_prefill_ms u \<le> 500" "120 \<le> startup_prefill_ms u" for u
    by (simp_all add: startup_prefill_ms_def kStartupPrefillMinMs_def kStartupPrefillMaxMs_def min_def max_def)
  have "unat (startup_prefill_ms u) \<le> 500" for u using p(1) [of u] by (simp add: word_le_nat_alt)
  then have "(unat (ac_sample_rate config) * unat (startup_prefill_ms u)) div 1000
      \<le> (unat (ac_sample_rate config) * 500) div 1000" for u
    by (intro div_le_mono mult_left_mono) auto
  moreover have "(5 :: u32) \<le> (if 5 < t then t else 5)" by (auto simp: not_less)
  ultimately show ?thesis using p by (simp add: jb_configure_def jb_reset_def Let_def)
qed

section \<open>Executions\<close>

text \<open>The public operations in any order, with any arguments and clocks, as long as they are defined.\<close>

inductive jb_reachable :: "jitter_buffer \<Rightarrow> bool" where
  init: "jb_reachable (JitterBuffer target)"
| configure: "jb_reachable j \<Longrightarrow> jb_reachable (jb_configure config target j)"
| reset: "jb_reachable j \<Longrightarrow> jb_reachable (jb_reset j)"
| push: "jb_reachable j \<Longrightarrow> push_packet now_us now_ms seq ts pcm n j = Some (ok, j') \<Longrightarrow> jb_reachable j'"
| pop: "jb_reachable j \<Longrightarrow> pop_frames now_ms (Some d) n j = Some (r, d', j') \<Longrightarrow> jb_reachable j'"

lemma pop_frames_inv:
  assumes "jb_inv j" and "pop_frames now_ms (Some d) n j = Some (r, d', j')"
  shows "jb_inv j'"
proof (cases "n = 0")
  case True
  with assms show ?thesis by (simp add: pop_frames_def)
next
  case False
  then have "n * jb_channels j \<le> length d"
    using assms(2) by (auto simp: pop_frames_def not_less split: if_splits)
  with assms show ?thesis using pop_frames_defined [OF assms(1), of n d now_ms] by auto
qed

lemma reachable_inv: "jb_reachable j \<Longrightarrow> jb_inv j"
  by (induction rule: jb_reachable.induct)
     (auto intro: jb_inv_JitterBuffer jb_inv_configure jb_inv_reset push_packet_inv pop_frames_inv dest: jb_invD(1))

text \<open>
  Claim C4: in every execution of constructor, configure, reset, push and pop, each stored packet
  sits in its slot of the window at the playhead with all its samples.
\<close>

theorem jitter_buffer_invariant: "jb_reachable j \<Longrightarrow> jb_inv j"
  by (rule reachable_inv)

theorem jitter_buffer_invariant_witness: "jb_inv (jb_configure mono_config 50 (JitterBuffer 35))"
  by (rule jitter_buffer_invariant [OF jb_reachable.configure [OF jb_reachable.init]])

end
