(* ===== verification/Protocol.thy ===== *)
theory Protocol
  imports Audio_Types
begin

text \<open>
  \<^verbatim>\<open>src/common/protocol.hpp\<close>: the message types, the packed wire structures with their byte
  layout, the header validators, the span-based parser and the header factory. The lemmas show that
  the two validators agree, that parsing inverts the wire layout, that a parsed packet's payload
  lies inside the received bytes, and what \<open>validate_audio_header\<close> does and does not bound.
\<close>

section \<open>Constants and message types\<close>

definition MAGIC :: u32 where "MAGIC = 0x41554452"
definition CURRENT_VERSION :: u8 where "CURRENT_VERSION = 1"
definition DEFAULT_PORT :: u16 where "DEFAULT_PORT = 44100"
definition MAX_UDP_PACKET_SIZE :: nat where "MAX_UDP_PACKET_SIZE = 65507"
definition SAFE_PAYLOAD_MTU :: nat where "SAFE_PAYLOAD_MTU = 1400"

datatype msg_type =
    UNKNOWN
  | DISCOVERY_REQ
  | DISCOVERY_RESP
  | CONNECT_REQ
  | CONNECT_ACK
  | CONNECT_NAK
  | DISCONNECT_REQ
  | DISCONNECT_ACK
  | AUDIO_DATA
  | HEARTBEAT_PING
  | HEARTBEAT_PONG
  | CONTROL_CMD

fun u8_of_msg_type :: "msg_type \<Rightarrow> u8" where
  "u8_of_msg_type UNKNOWN = 0x00"
| "u8_of_msg_type DISCOVERY_REQ = 0x01"
| "u8_of_msg_type DISCOVERY_RESP = 0x02"
| "u8_of_msg_type CONNECT_REQ = 0x10"
| "u8_of_msg_type CONNECT_ACK = 0x11"
| "u8_of_msg_type CONNECT_NAK = 0x12"
| "u8_of_msg_type DISCONNECT_REQ = 0x20"
| "u8_of_msg_type DISCONNECT_ACK = 0x21"
| "u8_of_msg_type AUDIO_DATA = 0x30"
| "u8_of_msg_type HEARTBEAT_PING = 0x40"
| "u8_of_msg_type HEARTBEAT_PONG = 0x41"
| "u8_of_msg_type CONTROL_CMD = 0x50"

text \<open>
  \<^verbatim>\<open>static_cast<MsgType>(v)\<close> followed by a \<^verbatim>\<open>switch\<close>: a byte that names no enumerator takes the
  \<^verbatim>\<open>default\<close> branch, as \<^verbatim>\<open>UNKNOWN\<close> does.
\<close>

definition msg_type_of_u8 :: "u8 \<Rightarrow> msg_type" where
  "msg_type_of_u8 v =
     (if v = 0x01 then DISCOVERY_REQ else if v = 0x02 then DISCOVERY_RESP
      else if v = 0x10 then CONNECT_REQ else if v = 0x11 then CONNECT_ACK
      else if v = 0x12 then CONNECT_NAK
      else if v = 0x20 then DISCONNECT_REQ else if v = 0x21 then DISCONNECT_ACK
      else if v = 0x30 then AUDIO_DATA
      else if v = 0x40 then HEARTBEAT_PING else if v = 0x41 then HEARTBEAT_PONG
      else if v = 0x50 then CONTROL_CMD
      else UNKNOWN)"

definition is_valid_msg_type :: "u8 \<Rightarrow> bool" where
  "is_valid_msg_type v =
     (case msg_type_of_u8 v of
        DISCOVERY_REQ \<Rightarrow> True | DISCOVERY_RESP \<Rightarrow> True
      | CONNECT_REQ \<Rightarrow> True | CONNECT_ACK \<Rightarrow> True | CONNECT_NAK \<Rightarrow> True
      | DISCONNECT_REQ \<Rightarrow> True | DISCONNECT_ACK \<Rightarrow> True
      | AUDIO_DATA \<Rightarrow> True | HEARTBEAT_PING \<Rightarrow> True | HEARTBEAT_PONG \<Rightarrow> True
      | CONTROL_CMD \<Rightarrow> True
      | _ \<Rightarrow> False)"

fun msg_type_to_string :: "msg_type \<Rightarrow> string" where
  "msg_type_to_string DISCOVERY_REQ = ''DISCOVERY_REQ''"
| "msg_type_to_string DISCOVERY_RESP = ''DISCOVERY_RESP''"
| "msg_type_to_string CONNECT_REQ = ''CONNECT_REQ''"
| "msg_type_to_string CONNECT_ACK = ''CONNECT_ACK''"
| "msg_type_to_string CONNECT_NAK = ''CONNECT_NAK''"
| "msg_type_to_string DISCONNECT_REQ = ''DISCONNECT_REQ''"
| "msg_type_to_string DISCONNECT_ACK = ''DISCONNECT_ACK''"
| "msg_type_to_string AUDIO_DATA = ''AUDIO_DATA''"
| "msg_type_to_string HEARTBEAT_PING = ''HEARTBEAT_PING''"
| "msg_type_to_string HEARTBEAT_PONG = ''HEARTBEAT_PONG''"
| "msg_type_to_string CONTROL_CMD = ''CONTROL_CMD''"
| "msg_type_to_string UNKNOWN = ''UNKNOWN''"

definition FLAG_NONE :: u16 where "FLAG_NONE = 0x0000"
definition FLAG_DISCONTINUITY :: u16 where "FLAG_DISCONTINUITY = 0x0001"
definition FLAG_SILENCE :: u16 where "FLAG_SILENCE = 0x0002"
definition FLAG_KEYFRAME :: u16 where "FLAG_KEYFRAME = 0x0004"
definition FLAG_LAST_PACKET :: u16 where "FLAG_LAST_PACKET = 0x0008"

definition known_flags :: u16 where
  "known_flags = FLAG_DISCONTINUITY OR FLAG_SILENCE OR FLAG_KEYFRAME OR FLAG_LAST_PACKET"

lemmas protocol_consts =
  MAGIC_def CURRENT_VERSION_def MAX_UDP_PACKET_SIZE_def SAFE_PAYLOAD_MTU_def FLAG_NONE_def
  FLAG_DISCONTINUITY_def FLAG_SILENCE_def FLAG_KEYFRAME_def FLAG_LAST_PACKET_def known_flags_def

section \<open>Wire structures\<close>

record common_header =
  ch_magic :: u32
  ch_version :: u8
  ch_msg_type :: u8
  ch_flags :: u16
  ch_seq_num :: u32
  ch_timestamp_us :: u64
  ch_payload_size :: u32

definition sizeof_common_header :: nat where "sizeof_common_header = 24"

text \<open>The packed little-endian layout: what \<^verbatim>\<open>memcpy\<close> of the struct writes and reads.\<close>

definition encode_common_header :: "common_header \<Rightarrow> byte list" where
  "encode_common_header h =
     le_encode 4 (unat (ch_magic h)) @ [ch_version h] @ [ch_msg_type h] @
     le_encode 2 (unat (ch_flags h)) @ le_encode 4 (unat (ch_seq_num h)) @
     le_encode 8 (unat (ch_timestamp_us h)) @ le_encode 4 (unat (ch_payload_size h))"

definition decode_common_header :: "byte list \<Rightarrow> common_header" where
  "decode_common_header b =
     \<lparr>ch_magic = word_of_nat (le_decode (slice 0 4 b)),
      ch_version = b ! 4,
      ch_msg_type = b ! 5,
      ch_flags = word_of_nat (le_decode (slice 6 2 b)),
      ch_seq_num = word_of_nat (le_decode (slice 8 4 b)),
      ch_timestamp_us = word_of_nat (le_decode (slice 12 8 b)),
      ch_payload_size = word_of_nat (le_decode (slice 20 4 b))\<rparr>"

record audio_packet_header =
  ah_common :: common_header
  ah_sample_rate :: u32
  ah_channels :: u16
  ah_format :: u8
  ah_reserved :: u8
  ah_num_frames :: u32

definition sizeof_audio_packet_header :: nat where "sizeof_audio_packet_header = 36"

definition encode_audio_packet_header :: "audio_packet_header \<Rightarrow> byte list" where
  "encode_audio_packet_header a =
     encode_common_header (ah_common a) @
     le_encode 4 (unat (ah_sample_rate a)) @ le_encode 2 (unat (ah_channels a)) @
     [ah_format a] @ [ah_reserved a] @ le_encode 4 (unat (ah_num_frames a))"

definition decode_audio_packet_header :: "byte list \<Rightarrow> audio_packet_header" where
  "decode_audio_packet_header b =
     \<lparr>ah_common = decode_common_header b,
      ah_sample_rate = word_of_nat (le_decode (slice 24 4 b)),
      ah_channels = word_of_nat (le_decode (slice 28 2 b)),
      ah_format = b ! 30,
      ah_reserved = b ! 31,
      ah_num_frames = word_of_nat (le_decode (slice 32 4 b))\<rparr>"

record discovery_req_payload =
  dq_client_name :: "byte list"
  dq_client_version :: u16

definition sizeof_discovery_req_payload :: nat where "sizeof_discovery_req_payload = 34"

definition encode_discovery_req_payload :: "discovery_req_payload \<Rightarrow> byte list" where
  "encode_discovery_req_payload p = dq_client_name p @ le_encode 2 (unat (dq_client_version p))"

record discovery_resp_payload =
  dr_server_name :: "byte list"
  dr_server_version :: u16
  dr_server_port :: u16
  dr_is_busy :: u8
  dr_pc_muted :: u8

definition sizeof_discovery_resp_payload :: nat where "sizeof_discovery_resp_payload = 38"

definition encode_discovery_resp_payload :: "discovery_resp_payload \<Rightarrow> byte list" where
  "encode_discovery_resp_payload p =
     dr_server_name p @ le_encode 2 (unat (dr_server_version p)) @
     le_encode 2 (unat (dr_server_port p)) @ [dr_is_busy p] @ [dr_pc_muted p]"

record connect_req_payload =
  cr_client_name :: "byte list"
  cr_preferred_sample_rate :: u32
  cr_preferred_channels :: u16
  cr_preferred_format :: u8
  cr_target_latency_ms :: u16

definition sizeof_connect_req_payload :: nat where "sizeof_connect_req_payload = 41"

definition encode_connect_req_payload :: "connect_req_payload \<Rightarrow> byte list" where
  "encode_connect_req_payload p =
     cr_client_name p @ le_encode 4 (unat (cr_preferred_sample_rate p)) @
     le_encode 2 (unat (cr_preferred_channels p)) @ [cr_preferred_format p] @
     le_encode 2 (unat (cr_target_latency_ms p))"

record connect_ack_payload =
  ca_status_code :: u8
  ca_sample_rate :: u32
  ca_channels :: u16
  ca_format :: u8
  ca_frames_per_packet :: u16
  ca_pc_speaker_muted :: u8
  ca_status_msg :: "byte list"

definition sizeof_connect_ack_payload :: nat where "sizeof_connect_ack_payload = 75"

definition encode_connect_ack_payload :: "connect_ack_payload \<Rightarrow> byte list" where
  "encode_connect_ack_payload p =
     [ca_status_code p] @ le_encode 4 (unat (ca_sample_rate p)) @
     le_encode 2 (unat (ca_channels p)) @ [ca_format p] @
     le_encode 2 (unat (ca_frames_per_packet p)) @ [ca_pc_speaker_muted p] @ ca_status_msg p"

definition decode_connect_ack_payload :: "byte list \<Rightarrow> connect_ack_payload" where
  "decode_connect_ack_payload b =
     \<lparr>ca_status_code = b ! 0,
      ca_sample_rate = word_of_nat (le_decode (slice 1 4 b)),
      ca_channels = word_of_nat (le_decode (slice 5 2 b)),
      ca_format = b ! 7,
      ca_frames_per_packet = word_of_nat (le_decode (slice 8 2 b)),
      ca_pc_speaker_muted = b ! 10,
      ca_status_msg = slice 11 64 b\<rparr>"

record connect_nak_payload =
  cn_error_code :: u8
  cn_reason :: "byte list"

definition sizeof_connect_nak_payload :: nat where "sizeof_connect_nak_payload = 65"

definition encode_connect_nak_payload :: "connect_nak_payload \<Rightarrow> byte list" where
  "encode_connect_nak_payload p = [cn_error_code p] @ cn_reason p"

record disconnect_payload =
  dc_reason_code :: u8
  dc_reason :: "byte list"

definition sizeof_disconnect_payload :: nat where "sizeof_disconnect_payload = 65"

definition encode_disconnect_payload :: "disconnect_payload \<Rightarrow> byte list" where
  "encode_disconnect_payload p = [dc_reason_code p] @ dc_reason p"

record heartbeat_payload =
  hb_orig_timestamp_us :: u64
  hb_client_buffer_level_frames :: u32
  hb_packets_received :: u32
  hb_packets_lost :: u32
  hb_buffer_underruns :: u32
  hb_buffer_overruns :: u32

definition sizeof_heartbeat_payload :: nat where "sizeof_heartbeat_payload = 28"

definition encode_heartbeat_payload :: "heartbeat_payload \<Rightarrow> byte list" where
  "encode_heartbeat_payload p =
     le_encode 8 (unat (hb_orig_timestamp_us p)) @
     le_encode 4 (unat (hb_client_buffer_level_frames p)) @
     le_encode 4 (unat (hb_packets_received p)) @ le_encode 4 (unat (hb_packets_lost p)) @
     le_encode 4 (unat (hb_buffer_underruns p)) @ le_encode 4 (unat (hb_buffer_overruns p))"

definition decode_heartbeat_payload :: "byte list \<Rightarrow> heartbeat_payload" where
  "decode_heartbeat_payload b =
     \<lparr>hb_orig_timestamp_us = word_of_nat (le_decode (slice 0 8 b)),
      hb_client_buffer_level_frames = word_of_nat (le_decode (slice 8 4 b)),
      hb_packets_received = word_of_nat (le_decode (slice 12 4 b)),
      hb_packets_lost = word_of_nat (le_decode (slice 16 4 b)),
      hb_buffer_underruns = word_of_nat (le_decode (slice 20 4 b)),
      hb_buffer_overruns = word_of_nat (le_decode (slice 24 4 b))\<rparr>"

text \<open>The \<^verbatim>\<open>float\<close> parameter of a control command is carried as its 32 bits.\<close>

record control_cmd_payload =
  cc_cmd_id :: u8
  cc_param_float :: u32
  cc_param_int :: u32

definition sizeof_control_cmd_payload :: nat where "sizeof_control_cmd_payload = 9"

definition encode_control_cmd_payload :: "control_cmd_payload \<Rightarrow> byte list" where
  "encode_control_cmd_payload p =
     [cc_cmd_id p] @ le_encode 4 (unat (cc_param_float p)) @ le_encode 4 (unat (cc_param_int p))"

definition decode_control_cmd_payload :: "byte list \<Rightarrow> control_cmd_payload" where
  "decode_control_cmd_payload b =
     \<lparr>cc_cmd_id = b ! 0,
      cc_param_float = word_of_nat (le_decode (slice 1 4 b)),
      cc_param_int = word_of_nat (le_decode (slice 5 4 b))\<rparr>"

lemmas sizeof_defs =
  sizeof_common_header_def sizeof_audio_packet_header_def sizeof_discovery_req_payload_def
  sizeof_discovery_resp_payload_def sizeof_connect_req_payload_def sizeof_connect_ack_payload_def
  sizeof_connect_nak_payload_def sizeof_disconnect_payload_def sizeof_heartbeat_payload_def
  sizeof_control_cmd_payload_def

section \<open>Validation and parsing\<close>

definition is_valid_header :: "common_header \<Rightarrow> nat \<Rightarrow> bool" where
  "is_valid_header hdr received_bytes =
     (if received_bytes < sizeof_common_header then False
      else if ch_magic hdr \<noteq> MAGIC then False
      else if ch_version hdr \<noteq> CURRENT_VERSION then False
      else if \<not> is_valid_msg_type (ch_msg_type hdr) then False
      else if unat (ch_payload_size hdr) > MAX_UDP_PACKET_SIZE then False
      else (let total = (sizeof_common_header + unat (ch_payload_size hdr)) mod 2 ^ 64 in
            if total < sizeof_common_header then False
            else if received_bytes < total then False
            else if ch_flags hdr AND NOT known_flags \<noteq> 0 then False
            else True))"

definition validate_header :: "common_header \<Rightarrow> nat \<Rightarrow> unit expected" where
  "validate_header hdr received_bytes =
     (if received_bytes < sizeof_common_header then Inl ''packet too small for header''
      else if ch_magic hdr \<noteq> MAGIC then Inl ''bad magic''
      else if ch_version hdr \<noteq> CURRENT_VERSION then Inl ''unsupported version''
      else if \<not> is_valid_msg_type (ch_msg_type hdr) then Inl ''unknown msg_type''
      else if unat (ch_payload_size hdr) > MAX_UDP_PACKET_SIZE then Inl ''payload too large''
      else (let total = (sizeof_common_header + unat (ch_payload_size hdr)) mod 2 ^ 64 in
            if received_bytes < total then Inl ''truncated payload''
            else if ch_flags hdr AND NOT known_flags \<noteq> 0 then Inl ''unknown flags set''
            else Inr ()))"

definition parse_header :: "byte list \<Rightarrow> common_header expected" where
  "parse_header buf =
     (if length buf < sizeof_common_header then Inl ''buffer too small''
      else (let hdr = decode_common_header buf in
            case validate_header hdr (length buf) of Inl e \<Rightarrow> Inl e | Inr _ \<Rightarrow> Inr hdr))"

text \<open>\<^verbatim>\<open>subspan(offset, count)\<close> of \<^verbatim>\<open>src/common/span_compat.hpp\<close>: both ends are clamped.\<close>

definition subspan :: "'a list \<Rightarrow> nat \<Rightarrow> nat \<Rightarrow> 'a list" where
  "subspan buf offset count =
     (let off = (if offset > length buf then length buf else offset);
          remaining = length buf - off;
          cnt = (if count = SIZE_MAX \<or> count > remaining then remaining else count)
      in slice off cnt buf)"

definition span_first :: "'a list \<Rightarrow> nat \<Rightarrow> 'a list" where
  "span_first buf n = slice 0 (if n < length buf then n else length buf) buf"

definition span_last :: "'a list \<Rightarrow> nat \<Rightarrow> 'a list" where
  "span_last buf n =
     slice (if length buf > n then length buf - n else 0) (if n < length buf then n else length buf) buf"

definition payload_span :: "common_header \<Rightarrow> byte list \<Rightarrow> byte list expected" where
  "payload_span hdr buf =
     (let total = sizeof_common_header + unat (ch_payload_size hdr) in
      if length buf < total then Inl ''buffer smaller than header+payload''
      else Inr (subspan buf sizeof_common_header (unat (ch_payload_size hdr))))"

definition validate_audio_header :: "audio_packet_header \<Rightarrow> nat \<Rightarrow> unit expected" where
  "validate_audio_header ah received_bytes =
     (case validate_header (ah_common ah) received_bytes of
        Inl e \<Rightarrow> Inl e
      | Inr _ \<Rightarrow>
          if ch_msg_type (ah_common ah) \<noteq> u8_of_msg_type AUDIO_DATA then Inl ''not AUDIO_DATA''
          else if ah_sample_rate ah = 0 \<or> ah_sample_rate ah > 192000 then Inl ''invalid sample_rate''
          else if ah_channels ah = 0 \<or> ah_channels ah > 32 then Inl ''invalid channels''
          else if ah_num_frames ah = 0 \<or> ah_num_frames ah > 8192 then Inl ''invalid num_frames''
          else (let expected_pcm = unat (ah_num_frames ah) * unat (ah_channels ah) * 2;
                    header_only = sizeof_audio_packet_header - sizeof_common_header;
                    mismatch = (unat (ch_payload_size (ah_common ah)) \<noteq> header_only + expected_pcm)
                in if mismatch \<and> ah_format ah = u8_of_format PCM_S16LE \<and> mismatch
                   then Inl ''payload size mismatches num_frames''
                   else Inr ()))"

definition make_header :: "msg_type \<Rightarrow> u32 \<Rightarrow> u64 \<Rightarrow> u32 \<Rightarrow> u16 \<Rightarrow> common_header" where
  "make_header type seq ts_us payload_sz flags =
     \<lparr>ch_magic = MAGIC, ch_version = CURRENT_VERSION, ch_msg_type = u8_of_msg_type type,
      ch_flags = flags, ch_seq_num = seq, ch_timestamp_us = ts_us, ch_payload_size = payload_sz\<rparr>"


section \<open>Layout\<close>

declare le_encode.simps [simp del] le_decode.simps [simp del]

lemma length_encode_common_header [simp, wire_simps]:
  "length (encode_common_header h) = sizeof_common_header"
  by (simp add: encode_common_header_def sizeof_common_header_def)

lemma length_encode_audio_packet_header [simp, wire_simps]:
  "length (encode_audio_packet_header a) = sizeof_audio_packet_header"
  by (simp add: encode_audio_packet_header_def sizeof_defs)

lemma decode_encode_common_header [simp, wire_simps]:
  "decode_common_header (encode_common_header h @ rest) = h"
  by (simp add: decode_common_header_def encode_common_header_def slice_def nth_append wire_simps)

lemma decode_encode_audio_packet_header [simp, wire_simps]:
  "decode_audio_packet_header (encode_audio_packet_header a @ rest) = a"
  by (simp add: decode_audio_packet_header_def encode_audio_packet_header_def slice_def nth_append
      wire_simps sizeof_defs)

lemma decode_encode_connect_ack_payload [simp, wire_simps]:
  "length (ca_status_msg p) = 64 \<Longrightarrow>
   decode_connect_ack_payload (encode_connect_ack_payload p @ rest) = p"
  by (simp add: decode_connect_ack_payload_def encode_connect_ack_payload_def slice_def nth_append
      wire_simps)

lemma decode_encode_heartbeat_payload [simp, wire_simps]:
  "decode_heartbeat_payload (encode_heartbeat_payload p @ rest) = p"
  by (simp add: decode_heartbeat_payload_def encode_heartbeat_payload_def slice_def wire_simps)

lemma decode_encode_control_cmd_payload [simp, wire_simps]:
  "decode_control_cmd_payload (encode_control_cmd_payload p @ rest) = p"
  by (simp add: decode_control_cmd_payload_def encode_control_cmd_payload_def slice_def nth_append
      wire_simps)

lemma length_encode_payloads [wire_simps]:
  "length (encode_discovery_req_payload q) = length (dq_client_name q) + 2"
  "length (encode_discovery_resp_payload r) = length (dr_server_name r) + 6"
  "length (encode_connect_req_payload cr) = length (cr_client_name cr) + 9"
  "length (encode_connect_ack_payload ca) = length (ca_status_msg ca) + 11"
  "length (encode_connect_nak_payload cn) = length (cn_reason cn) + 1"
  "length (encode_disconnect_payload d) = length (dc_reason d) + 1"
  "length (encode_heartbeat_payload hb) = sizeof_heartbeat_payload"
  "length (encode_control_cmd_payload cc) = sizeof_control_cmd_payload"
  by (simp_all add: encode_discovery_req_payload_def encode_discovery_resp_payload_def
      encode_connect_req_payload_def encode_connect_ack_payload_def encode_connect_nak_payload_def
      encode_disconnect_payload_def encode_heartbeat_payload_def encode_control_cmd_payload_def
      sizeof_defs)

section \<open>The validators\<close>

lemma unat_u32_bound: "unat (w :: u32) < 4294967296"
  using unsigned_less [of w, where ?'a = nat] by simp

lemma msg_type_roundtrip [simp]: "msg_type_of_u8 (u8_of_msg_type t) = t"
  by (cases t) (simp_all add: msg_type_of_u8_def)

lemma is_valid_msg_type_iff: "is_valid_msg_type v \<longleftrightarrow> (\<exists>t. t \<noteq> UNKNOWN \<and> v = u8_of_msg_type t)"
proof
  assume "is_valid_msg_type v"
  then have "msg_type_of_u8 v \<noteq> UNKNOWN \<and> v = u8_of_msg_type (msg_type_of_u8 v)"
    by (auto simp: is_valid_msg_type_def msg_type_of_u8_def split: if_splits)
  then show "\<exists>t. t \<noteq> UNKNOWN \<and> v = u8_of_msg_type t" by blast
next
  assume "\<exists>t. t \<noteq> UNKNOWN \<and> v = u8_of_msg_type t"
  then show "is_valid_msg_type v"
    by (auto simp: is_valid_msg_type_def split: msg_type.split)
qed

lemma is_valid_msg_type_enum [simp]: "is_valid_msg_type (u8_of_msg_type t) = (t \<noteq> UNKNOWN)"
  by (simp add: is_valid_msg_type_def split: msg_type.split)

text \<open>The 64-bit sum of a header and a 32-bit payload size cannot wrap.\<close>

lemma total_no_wrap [simp]:
  "(sizeof_common_header + unat (ch_payload_size hdr)) mod 2 ^ 64 =
   sizeof_common_header + unat (ch_payload_size hdr)"
  using unat_u32_bound [of "ch_payload_size hdr"] by (simp add: sizeof_common_header_def)

text \<open>What both header validators accept, as one predicate.\<close>

definition header_ok :: "common_header \<Rightarrow> nat \<Rightarrow> bool" where
  "header_ok hdr n \<longleftrightarrow>
     ch_magic hdr = MAGIC \<and> ch_version hdr = CURRENT_VERSION \<and>
     is_valid_msg_type (ch_msg_type hdr) \<and>
     unat (ch_payload_size hdr) \<le> MAX_UDP_PACKET_SIZE \<and>
     sizeof_common_header + unat (ch_payload_size hdr) \<le> n \<and>
     ch_flags hdr AND NOT known_flags = 0"

lemma validate_header_iff: "(validate_header hdr n = Inr u) = header_ok hdr n"
  unfolding validate_header_def header_ok_def Let_def total_no_wrap by auto

lemma is_valid_header_iff: "is_valid_header hdr n = header_ok hdr n"
  unfolding is_valid_header_def header_ok_def Let_def total_no_wrap by auto

text \<open>
  The boolean check used by the receive loops and the checked variant used by the
  parser accept exactly the same headers, for every header and every received length.
\<close>

theorem header_validators_agree:
  "is_valid_header hdr n = (validate_header hdr n = Inr ())"
  by (simp add: is_valid_header_iff validate_header_iff)

lemma header_ok_make_header:
  "header_ok (make_header t seq ts sz fl) n \<longleftrightarrow>
     t \<noteq> UNKNOWN \<and> unat sz \<le> MAX_UDP_PACKET_SIZE \<and> sizeof_common_header + unat sz \<le> n \<and>
     fl AND NOT known_flags = 0"
  by (simp add: header_ok_def make_header_def)

lemma FLAG_NONE_known [simp]: "FLAG_NONE AND NOT known_flags = 0"
  by (simp add: FLAG_NONE_def)

text \<open>
  Claim C27: parsing inverts the wire layout. Any header the validators accept, laid out in
  front of its payload, is parsed back to itself, and \<open>payload_span\<close> then returns exactly the
  payload bytes, whatever trails the packet in the buffer.
\<close>

theorem parse_header_roundtrip:
  assumes "header_ok hdr (sizeof_common_header + length payload)"
    and "length payload = unat (ch_payload_size hdr)"
  shows "parse_header (encode_common_header hdr @ payload @ trailing) = Inr hdr \<and>
         payload_span hdr (encode_common_header hdr @ payload @ trailing) = Inr payload"
proof
  let ?buf = "encode_common_header hdr @ payload @ trailing"
  have len: "length ?buf = sizeof_common_header + length payload + length trailing" by simp
  have "header_ok hdr (length ?buf)" using assms(1) by (auto simp: header_ok_def)
  then have v: "validate_header hdr (length ?buf) = Inr ()" by (simp add: validate_header_iff)
  have d: "decode_common_header ?buf = hdr" by simp
  show "parse_header ?buf = Inr hdr"
    unfolding parse_header_def Let_def d v using len by simp
  show "payload_span hdr ?buf = Inr payload"
    using assms(2) unat_u32_bound [of "ch_payload_size hdr"]
    by (simp add: payload_span_def subspan_def Let_def slice_def size_t_simps)
qed

theorem parse_header_roundtrip_witness:
  "parse_header (encode_common_header (make_header CONTROL_CMD 7 9 2 FLAG_NONE) @ [1, 2] @ [3]) =
     Inr (make_header CONTROL_CMD 7 9 2 FLAG_NONE) \<and>
   payload_span (make_header CONTROL_CMD 7 9 2 FLAG_NONE)
     (encode_common_header (make_header CONTROL_CMD 7 9 2 FLAG_NONE) @ [1, 2] @ [3]) = Inr [1, 2]"
  by (rule parse_header_roundtrip)
    (simp add: header_ok_make_header protocol_consts sizeof_defs, simp add: make_header_def)

text \<open>
  Claim C28: whatever bytes arrive, a successful parse leaves no later read out of range: the
  received buffer holds the header and the announced payload, and the payload view has the
  announced length.
\<close>

theorem parse_header_payload_in_bounds:
  assumes "parse_header buf = Inr hdr"
  shows "\<exists>p. payload_span hdr buf = Inr p \<and> length p = unat (ch_payload_size hdr) \<and>
             sizeof_common_header + length p \<le> length buf \<and> length p \<le> MAX_UDP_PACKET_SIZE"
proof -
  from assms have "validate_header hdr (length buf) = Inr ()"
    by (auto simp: parse_header_def Let_def split: if_splits sum.splits)
  then have ok: "header_ok hdr (length buf)" by (simp add: validate_header_iff)
  then have "sizeof_common_header + unat (ch_payload_size hdr) \<le> length buf"
    and "unat (ch_payload_size hdr) \<le> MAX_UDP_PACKET_SIZE"
    by (auto simp: header_ok_def)
  then show ?thesis
    by (simp add: payload_span_def subspan_def Let_def slice_def size_t_simps protocol_consts)
qed

theorem parse_header_payload_in_bounds_witness:
  "\<exists>p. payload_span (make_header CONTROL_CMD 7 9 1 FLAG_NONE)
         (encode_common_header (make_header CONTROL_CMD 7 9 1 FLAG_NONE) @ [5]) = Inr p \<and>
       length p = unat (ch_payload_size (make_header CONTROL_CMD 7 9 1 FLAG_NONE)) \<and>
       sizeof_common_header + length p \<le>
         length (encode_common_header (make_header CONTROL_CMD 7 9 1 FLAG_NONE) @ [5 :: byte]) \<and>
       length p \<le> MAX_UDP_PACKET_SIZE"
proof (rule parse_header_payload_in_bounds)
  have "header_ok (make_header CONTROL_CMD 7 9 1 FLAG_NONE) 25"
    by (simp add: header_ok_make_header protocol_consts sizeof_defs)
  then show "parse_header (encode_common_header (make_header CONTROL_CMD 7 9 1 FLAG_NONE) @ [5]) =
             Inr (make_header CONTROL_CMD 7 9 1 FLAG_NONE)"
    by (simp add: parse_header_def sizeof_defs flip: validate_header_iff [where u = "()"])
qed

section \<open>Audio headers\<close>

definition audio_header_ok :: "audio_packet_header \<Rightarrow> nat \<Rightarrow> bool" where
  "audio_header_ok ah n \<longleftrightarrow>
     header_ok (ah_common ah) n \<and> ch_msg_type (ah_common ah) = u8_of_msg_type AUDIO_DATA \<and>
     0 < ah_sample_rate ah \<and> ah_sample_rate ah \<le> 192000 \<and>
     0 < ah_channels ah \<and> ah_channels ah \<le> 32 \<and>
     0 < ah_num_frames ah \<and> ah_num_frames ah \<le> 8192 \<and>
     (ah_format ah = u8_of_format PCM_S16LE \<longrightarrow>
        unat (ch_payload_size (ah_common ah)) =
          12 + unat (ah_num_frames ah) * unat (ah_channels ah) * 2)"

lemma validate_audio_header_iff: "(validate_audio_header ah n = Inr u) = audio_header_ok ah n"
proof (cases "validate_header (ah_common ah) n")
  case (Inl e)
  then have "\<not> header_ok (ah_common ah) n" using validate_header_iff [of "ah_common ah" n "()"] by simp
  with Inl show ?thesis by (simp add: validate_audio_header_def audio_header_ok_def)
next
  case (Inr b)
  then have "header_ok (ah_common ah) n" by (simp add: validate_header_iff)
  with Inr show ?thesis
    by (auto simp: validate_audio_header_def audio_header_ok_def Let_def sizeof_defs
        word_neq_0_conv not_less)
qed

text \<open>
  An accepted 16-bit audio packet carries exactly the samples it announces: header
  and PCM lie inside the received bytes and the announced payload is neither short nor long.
\<close>

theorem audio_header_s16_pcm_in_bounds:
  assumes "validate_audio_header ah n = Inr ()"
    and "ah_format ah = u8_of_format PCM_S16LE"
  shows "sizeof_audio_packet_header + unat (ah_num_frames ah) * unat (ah_channels ah) * 2 \<le> n \<and>
         unat (ch_payload_size (ah_common ah)) + sizeof_common_header =
           sizeof_audio_packet_header + unat (ah_num_frames ah) * unat (ah_channels ah) * 2"
  using assms by (auto simp: validate_audio_header_iff audio_header_ok_def header_ok_def sizeof_defs)

definition sample_audio_header :: "u8 \<Rightarrow> u16 \<Rightarrow> u32 \<Rightarrow> u32 \<Rightarrow> audio_packet_header" where
  "sample_audio_header fmt ch nf sz =
     \<lparr>ah_common = make_header AUDIO_DATA 0 0 sz FLAG_NONE, ah_sample_rate = 48000,
      ah_channels = ch, ah_format = fmt, ah_reserved = 0, ah_num_frames = nf\<rparr>"

theorem audio_header_s16_pcm_in_bounds_witness:
  "sizeof_audio_packet_header + unat (ah_num_frames (sample_audio_header 1 2 240 972)) *
     unat (ah_channels (sample_audio_header 1 2 240 972)) * 2 \<le> 996 \<and>
   unat (ch_payload_size (ah_common (sample_audio_header 1 2 240 972))) + sizeof_common_header =
     sizeof_audio_packet_header + unat (ah_num_frames (sample_audio_header 1 2 240 972)) *
     unat (ah_channels (sample_audio_header 1 2 240 972)) * 2"
  by (rule audio_header_s16_pcm_in_bounds)
    (simp_all add: validate_audio_header_iff audio_header_ok_def sample_audio_header_def
      header_ok_make_header protocol_consts sizeof_defs, simp_all add: make_header_def)

text \<open>
  For any other format byte the announced sample count is not tied to the payload:
  a 36-byte datagram with no PCM at all and 8192 announced frames is accepted.
\<close>

theorem audio_header_other_format_unchecked:
  "validate_audio_header (sample_audio_header 2 2 8192 12) 36 = Inr ()"
  by (simp add: validate_audio_header_iff audio_header_ok_def sample_audio_header_def
      header_ok_make_header protocol_consts sizeof_defs) (simp add: make_header_def)

section \<open>Well-formed packets\<close>

definition packet_ok :: "byte list \<Rightarrow> bool" where
  "packet_ok b \<longleftrightarrow> (\<exists>h. parse_header b = Inr h)"

lemma packet_ok_header:
  assumes "header_ok h (sizeof_common_header + length payload)"
  shows "packet_ok (encode_common_header h @ payload)"
proof -
  have "validate_header h (length (encode_common_header h @ payload)) = Inr ()"
    using assms by (simp add: validate_header_iff)
  then show ?thesis by (auto simp: packet_ok_def parse_header_def Let_def)
qed

lemma packet_ok_reply:
  assumes "t \<noteq> UNKNOWN" and "length payload = n" and "n \<le> 1000"
  shows "packet_ok (encode_common_header (make_header t seq ts (word_of_nat n) FLAG_NONE) @ payload)"
proof (rule packet_ok_header)
  have "unat (word_of_nat n :: u32) = n" using assms(3) by (simp add: unat_of_nat)
  then show "header_ok (make_header t seq ts (word_of_nat n) FLAG_NONE) (sizeof_common_header + length payload)"
    using assms by (simp add: header_ok_make_header protocol_consts(3))
qed

end
