(* ===== verification/Socket_Util.thy ===== *)
theory Socket_Util
  imports Text_Util "HOL-Library.Signed_Division"
begin

text \<open>
  \<^verbatim>\<open>src/common/socket_util.{hpp,cpp}\<close>: IPv4 addresses, the UDP and TCP socket wrappers, and the
  choice of the physical network interface. The operating system is an argument: name resolution is
  a record of functions, and every system call an operation makes has its result as an argument.
  The handles a wrapper closes are returned, so that ownership can be followed. The lemmas show that
  moving and closing a socket closes each handle once, that addresses behave as keys, and which
  interface is picked.
\<close>

section \<open>Addresses\<close>

record sockaddr_in =
  sin_family :: u16
  sin_port :: u16
  s_addr :: u32

definition AF_INET :: u16 where "AF_INET = 2"
definition INADDR_ANY :: u32 where "INADDR_ANY = 0"
definition INADDR_BROADCAST :: u32 where "INADDR_BROADCAST = 0xFFFFFFFF"

text \<open>Byte swap of \<^verbatim>\<open>htons\<close> and \<^verbatim>\<open>ntohs\<close> on a little-endian host.\<close>

definition htons :: "u16 \<Rightarrow> u16" where
  "htons w = push_bit 8 w OR drop_bit 8 w"

record socket_address =
  sa_addr :: sockaddr_in
  sa_valid :: bool

record resolver =
  inet_pton :: "string \<Rightarrow> u32 option"
  gethostbyname :: "string \<Rightarrow> u32 option"
  inet_ntop :: "u32 \<Rightarrow> string option"

definition zero_addr :: sockaddr_in where
  "zero_addr = \<lparr>sin_family = 0, sin_port = 0, s_addr = 0\<rparr>"

definition SocketAddress_empty :: socket_address where
  "SocketAddress_empty = \<lparr>sa_addr = zero_addr, sa_valid = False\<rparr>"

definition SocketAddress :: "resolver \<Rightarrow> string \<Rightarrow> u16 \<Rightarrow> socket_address" where
  "SocketAddress res ip port =
     (let addr = \<lparr>sin_family = AF_INET, sin_port = htons port, s_addr = 0\<rparr> in
      if ip = [] \<or> ip = ''0.0.0.0'' then \<lparr>sa_addr = addr\<lparr>s_addr := INADDR_ANY\<rparr>, sa_valid = True\<rparr>
      else if ip = ''255.255.255.255'' then \<lparr>sa_addr = addr\<lparr>s_addr := INADDR_BROADCAST\<rparr>, sa_valid = True\<rparr>
      else (case inet_pton res ip of
              Some a \<Rightarrow> \<lparr>sa_addr = addr\<lparr>s_addr := a\<rparr>, sa_valid = True\<rparr>
            | None \<Rightarrow>
                (case gethostbyname res ip of
                   Some a \<Rightarrow> \<lparr>sa_addr = addr\<lparr>s_addr := a\<rparr>, sa_valid = True\<rparr>
                 | None \<Rightarrow> \<lparr>sa_addr = addr, sa_valid = False\<rparr>)))"

definition SocketAddress_raw :: "sockaddr_in \<Rightarrow> socket_address" where
  "SocketAddress_raw a = \<lparr>sa_addr = a, sa_valid = True\<rparr>"

definition sa_ip :: "resolver \<Rightarrow> socket_address \<Rightarrow> string" where
  "sa_ip res a =
     (if \<not> sa_valid a then ''0.0.0.0''
      else (case inet_ntop res (s_addr (sa_addr a)) of Some s \<Rightarrow> s | None \<Rightarrow> ''0.0.0.0''))"

definition sa_port :: "socket_address \<Rightarrow> u16" where
  "sa_port a = (if \<not> sa_valid a then 0 else htons (sin_port (sa_addr a)))"

definition sa_eq :: "socket_address \<Rightarrow> socket_address \<Rightarrow> bool" where
  "sa_eq a b \<longleftrightarrow>
     sin_family (sa_addr a) = sin_family (sa_addr b) \<and> sin_port (sa_addr a) = sin_port (sa_addr b) \<and>
     s_addr (sa_addr a) = s_addr (sa_addr b)"

section \<open>UDP sockets\<close>

definition INVALID_SOCKET_HANDLE :: int where "INVALID_SOCKET_HANDLE = - 1"

record udp_socket =
  us_handle :: int
  us_is_bound :: bool

definition UdpSocket :: udp_socket where
  "UdpSocket = \<lparr>us_handle = INVALID_SOCKET_HANDLE, us_is_bound = False\<rparr>"

definition udp_is_open :: "udp_socket \<Rightarrow> bool" where
  "udp_is_open s \<longleftrightarrow> us_handle s \<noteq> INVALID_SOCKET_HANDLE"

text \<open>Closing returns the handles it gave back to the system.\<close>

definition udp_close :: "udp_socket \<Rightarrow> int list \<times> udp_socket" where
  "udp_close s =
     (if us_handle s \<noteq> INVALID_SOCKET_HANDLE
      then ([us_handle s], s\<lparr>us_handle := INVALID_SOCKET_HANDLE, us_is_bound := False\<rparr>) else ([], s))"

text \<open>Move construction: the new socket and what is left of the other one.\<close>

definition udp_move :: "udp_socket \<Rightarrow> udp_socket \<times> udp_socket" where
  "udp_move other =
     (\<lparr>us_handle = us_handle other, us_is_bound = us_is_bound other\<rparr>,
      other\<lparr>us_handle := INVALID_SOCKET_HANDLE, us_is_bound := False\<rparr>)"

text \<open>Move assignment; \<open>same\<close> is the self-assignment test.\<close>

definition udp_move_assign :: "bool \<Rightarrow> udp_socket \<Rightarrow> udp_socket \<Rightarrow> int list \<times> udp_socket \<times> udp_socket" where
  "udp_move_assign same this other =
     (if \<not> same then
        (let (closed, this) = udp_close this
         in (closed, this\<lparr>us_handle := us_handle other, us_is_bound := us_is_bound other\<rparr>,
             other\<lparr>us_handle := INVALID_SOCKET_HANDLE, us_is_bound := False\<rparr>))
      else ([], this, other))"

text \<open>
  \<open>set_buffer_sizes\<close> makes up to two \<open>setsockopt\<close> calls; \<open>rcv\<close> and \<open>snd\<close> say whether they return 0.
\<close>

definition udp_set_buffer_sizes :: "bool \<Rightarrow> bool \<Rightarrow> int \<Rightarrow> int \<Rightarrow> udp_socket \<Rightarrow> bool" where
  "udp_set_buffer_sizes rcv_ok snd_ok recv_size send_size s =
     (if \<not> udp_is_open s then False
      else (let ok = True;
                ok = (if recv_size > 0 then (if \<not> rcv_ok then False else ok) else ok);
                ok = (if send_size > 0 then (if \<not> snd_ok then False else ok) else ok)
            in ok))"

definition udp_open :: "int \<Rightarrow> udp_socket \<Rightarrow> bool \<times> udp_socket" where
  "udp_open os_socket s =
     (if udp_is_open s then (True, s)
      else (let s = s\<lparr>us_handle := os_socket\<rparr> in
            if us_handle s = INVALID_SOCKET_HANDLE then (False, s) else (True, s)))"

definition udp_bind :: "resolver \<Rightarrow> int \<Rightarrow> bool \<Rightarrow> u16 \<Rightarrow> string \<Rightarrow> udp_socket \<Rightarrow> bool \<times> udp_socket" where
  "udp_bind res os_socket os_bind_ok port ip s =
     (let (opened, s) = (if \<not> udp_is_open s then udp_open os_socket s else (True, s)) in
      if \<not> opened then (False, s)
      else (let bind_addr = SocketAddress res ip port in
            if \<not> sa_valid bind_addr then (False, s)
            else if \<not> os_bind_ok then (False, s)
            else (True, s\<lparr>us_is_bound := True\<rparr>)))"

text \<open>\<open>os_sendto\<close> is the result of the system call; the datagram it is asked to send is returned too.\<close>

definition udp_send_to ::
    "int \<Rightarrow> int \<Rightarrow> byte list \<Rightarrow> socket_address \<Rightarrow> udp_socket \<Rightarrow> int \<times> (byte list \<times> socket_address) option \<times> udp_socket" where
  "udp_send_to os_socket os_sendto data dest s =
     (let (opened, s) = (if \<not> udp_is_open s then udp_open os_socket s else (True, s)) in
      if \<not> opened then (- 1, None, s)
      else if \<not> sa_valid dest then (- 1, None, s)
      else (os_sendto, Some (data, dest), s))"

text \<open>\<open>os_recvfrom\<close> is the result, the bytes stored in the buffer and the sender's address.\<close>

definition udp_receive_from ::
    "int \<times> byte list \<times> sockaddr_in \<Rightarrow> socket_address \<Rightarrow> udp_socket \<Rightarrow> int \<times> byte list \<times> socket_address" where
  "udp_receive_from os_recvfrom out_source s =
     (if \<not> udp_is_open s then (- 1, [], out_source)
      else (case os_recvfrom of (n, bytes, src) \<Rightarrow>
              (n, bytes, if n \<ge> 0 then SocketAddress_raw src else out_source)))"

definition O_NONBLOCK :: int where "O_NONBLOCK = 2048"

text \<open>The flags that \<open>fcntl\<close> is given; \<open>None\<close> when it is not called.\<close>

definition non_blocking_flags :: "bool \<Rightarrow> int \<Rightarrow> int option" where
  "non_blocking_flags enable flags =
     (if flags < 0 then None
      else Some (if enable then flags OR O_NONBLOCK else flags AND NOT O_NONBLOCK))"

definition udp_set_non_blocking :: "int \<Rightarrow> (int \<Rightarrow> bool) \<Rightarrow> bool \<Rightarrow> udp_socket \<Rightarrow> bool" where
  "udp_set_non_blocking os_getfl os_setfl enable s =
     (if \<not> udp_is_open s then False
      else (case non_blocking_flags enable os_getfl of None \<Rightarrow> False | Some f \<Rightarrow> os_setfl f))"

record timeval =
  tv_sec :: int
  tv_usec :: int

text \<open>C++ division truncates towards zero.\<close>

definition timeval_of_ms :: "int \<Rightarrow> timeval" where
  "timeval_of_ms ms = \<lparr>tv_sec = ms sdiv 1000, tv_usec = (ms smod 1000) * 1000\<rparr>"

definition udp_set_timeout_ms :: "(timeval \<Rightarrow> bool) \<Rightarrow> int \<Rightarrow> udp_socket \<Rightarrow> bool" where
  "udp_set_timeout_ms os_setsockopt ms s = (if \<not> udp_is_open s then False else os_setsockopt (timeval_of_ms ms))"

definition udp_set_broadcast :: "(int \<Rightarrow> bool) \<Rightarrow> bool \<Rightarrow> udp_socket \<Rightarrow> bool" where
  "udp_set_broadcast os_setsockopt enable s =
     (if \<not> udp_is_open s then False else os_setsockopt (if enable then 1 else 0))"

definition udp_set_qos_priority :: "(int \<Rightarrow> bool) \<Rightarrow> bool \<Rightarrow> udp_socket \<Rightarrow> bool" where
  "udp_set_qos_priority os_setsockopt enable s =
     (if \<not> udp_is_open s then False else os_setsockopt (if enable then 0xB8 else 0))"

definition IFNAMSIZ :: nat where "IFNAMSIZ = 16"

definition udp_bind_to_interface :: "int \<Rightarrow> (byte list \<Rightarrow> bool) \<Rightarrow> string \<Rightarrow> udp_socket \<Rightarrow> bool \<times> udp_socket" where
  "udp_bind_to_interface os_socket os_setsockopt ifname s =
     (let (opened, s) = (if \<not> udp_is_open s then udp_open os_socket s else (True, s)) in
      if \<not> opened then (False, s)
      else if length ifname \<ge> IFNAMSIZ then (False, s)
      else (os_setsockopt (strncpy_field IFNAMSIZ ifname), s))"

definition udp_get_local_address :: "sockaddr_in option \<Rightarrow> udp_socket \<Rightarrow> socket_address" where
  "udp_get_local_address os_getsockname s =
     (if \<not> udp_is_open s then SocketAddress_empty
      else (case os_getsockname of Some a \<Rightarrow> SocketAddress_raw a | None \<Rightarrow> SocketAddress_empty))"

section \<open>Interfaces\<close>

record network_interface =
  ni_name :: string
  ni_ip_address :: string
  ni_is_loopback :: bool
  ni_is_up :: bool

text \<open>One entry of \<^verbatim>\<open>getifaddrs\<close>: the address is absent, of another family, or an IPv4 address.\<close>

record ifaddr =
  ifa_name :: "string option"
  ifa_addr :: "(u16 \<times> u32) option"
  ifa_loopback :: bool
  ifa_up :: bool

definition get_local_interfaces :: "resolver \<Rightarrow> ifaddr list option \<Rightarrow> network_interface list" where
  "get_local_interfaces res os_getifaddrs =
     (case os_getifaddrs of
        None \<Rightarrow> []
      | Some ifs \<Rightarrow>
          List.map_filter
            (\<lambda>ifa. case ifa_addr ifa of
                     None \<Rightarrow> None
                   | Some (fam, a) \<Rightarrow>
                       if fam = AF_INET
                       then Some \<lparr>ni_name = (case ifa_name ifa of Some n \<Rightarrow> n | None \<Rightarrow> ''unknown''),
                                  ni_ip_address = (case inet_ntop res a of Some s \<Rightarrow> s | None \<Rightarrow> []),
                                  ni_is_loopback = ifa_loopback ifa, ni_is_up = ifa_up ifa\<rparr>
                       else None) ifs)"

text \<open>
  The same on Windows. \<^verbatim>\<open>GetAdaptersAddresses\<close> is called with 15000 bytes and, if these are too few, once more with
  the size it asked for; the allocations may fail. An adapter has its state, its type, its name in UTF-8
  and the families and addresses of its unicast list.
\<close>

record adapter =
  ad_up :: bool
  ad_loopback :: bool
  ad_name :: string
  ad_unicast :: "(u16 \<times> u32) list"

datatype adapters_result = AdaptersOk "adapter list" | AdaptersOverflow | AdaptersError

definition adapter_interfaces :: "resolver \<Rightarrow> adapter \<Rightarrow> network_interface list" where
  "adapter_interfaces res ad =
     (if ad_up ad
      then List.map_filter
             (\<lambda>(fam, a). if fam = AF_INET
                then Some \<lparr>ni_name = ad_name ad, ni_ip_address = (case inet_ntop res a of Some s \<Rightarrow> s | None \<Rightarrow> []),
                           ni_is_loopback = ad_loopback ad, ni_is_up = True\<rparr>
                else None) (ad_unicast ad)
      else [])"

definition windows_local_interfaces ::
  "resolver \<Rightarrow> bool \<Rightarrow> adapters_result \<Rightarrow> bool \<Rightarrow> adapters_result \<Rightarrow> network_interface list" where
  "windows_local_interfaces res malloc1 call1 malloc2 call2 =
     (if \<not> malloc1 then []
      else if call1 = AdaptersOverflow \<and> \<not> malloc2 then []
      else (case (if call1 = AdaptersOverflow then call2 else call1) of
              AdaptersOk ads \<Rightarrow> concat (map (adapter_interfaces res) ads)
            | _ \<Rightarrow> []))"

text \<open>\<open>init_networking\<close> and \<open>cleanup_networking\<close>: the flag, and how often Winsock counts the process.\<close>

record networking =
  nw_initialized :: bool
  nw_wsa_count :: nat

definition init_networking :: "bool \<Rightarrow> networking \<Rightarrow> networking" where
  "init_networking startup_ok n =
     (if nw_initialized n then n
      else if startup_ok then n\<lparr>nw_wsa_count := nw_wsa_count n + 1, nw_initialized := True\<rparr> else n)"

definition cleanup_networking :: "networking \<Rightarrow> networking" where
  "cleanup_networking n =
     (if \<not> nw_initialized n then n else n\<lparr>nw_wsa_count := nw_wsa_count n - 1, nw_initialized := False\<rparr>)"

definition virtual_prefixes :: "string list" where
  "virtual_prefixes =
     [''lo'', ''tun'', ''tap'', ''ppp'', ''rmnet'', ''dum'', ''sit'', ''gre'', ''vti'', ''ip6tnl'',
      ''ip_vti'', ''wlan'', ''wifi'']"

definition virtual_iface :: "string \<Rightarrow> bool" where
  "virtual_iface n =
     (let v = list_ex (starts_with n) virtual_prefixes in
      if v then (if starts_with n ''wlan'' \<or> starts_with n ''wifi'' then False else v) else v)"

fun first_physical :: "network_interface list \<Rightarrow> string option" where
  "first_physical [] = None"
| "first_physical (i # is) =
     (if ni_is_loopback i \<or> \<not> ni_is_up i then first_physical is
      else if virtual_iface (ni_name i) then first_physical is
      else Some (ni_name i))"

fun first_with_address :: "network_interface list \<Rightarrow> string" where
  "first_with_address [] = []"
| "first_with_address (i # is) =
     (if ni_is_loopback i \<or> \<not> ni_is_up i then first_with_address is
      else if ni_ip_address i = ''0.0.0.0'' then first_with_address is
      else ni_name i)"

definition pick_physical_interface :: "network_interface list \<Rightarrow> string" where
  "pick_physical_interface ifaces =
     (case first_physical ifaces of Some n \<Rightarrow> n | None \<Rightarrow> first_with_address ifaces)"

section \<open>TCP sockets\<close>

record tcp_socket =
  ts_handle :: int

definition TcpSocket :: tcp_socket where
  "TcpSocket = \<lparr>ts_handle = INVALID_SOCKET_HANDLE\<rparr>"

definition tcp_is_open :: "tcp_socket \<Rightarrow> bool" where
  "tcp_is_open s \<longleftrightarrow> ts_handle s \<noteq> INVALID_SOCKET_HANDLE"

definition tcp_close :: "tcp_socket \<Rightarrow> int list \<times> tcp_socket" where
  "tcp_close s =
     (if ts_handle s \<noteq> INVALID_SOCKET_HANDLE then ([ts_handle s], s\<lparr>ts_handle := INVALID_SOCKET_HANDLE\<rparr>) else ([], s))"

definition tcp_move :: "tcp_socket \<Rightarrow> tcp_socket \<times> tcp_socket" where
  "tcp_move other = (\<lparr>ts_handle = ts_handle other\<rparr>, other\<lparr>ts_handle := INVALID_SOCKET_HANDLE\<rparr>)"

definition tcp_move_assign :: "bool \<Rightarrow> tcp_socket \<Rightarrow> tcp_socket \<Rightarrow> int list \<times> tcp_socket \<times> tcp_socket" where
  "tcp_move_assign same this other =
     (if \<not> same then
        (let (closed, this) = tcp_close this
         in (closed, this\<lparr>ts_handle := ts_handle other\<rparr>, other\<lparr>ts_handle := INVALID_SOCKET_HANDLE\<rparr>))
      else ([], this, other))"

definition tcp_open :: "int \<Rightarrow> tcp_socket \<Rightarrow> bool \<times> tcp_socket" where
  "tcp_open os_socket s =
     (if tcp_is_open s then (True, s)
      else (let s = s\<lparr>ts_handle := os_socket\<rparr> in
            if ts_handle s = INVALID_SOCKET_HANDLE then (False, s) else (True, s)))"

text \<open>\<open>select\<close> on one handle: its return value and the three outcomes of \<open>wait_fd_ready\<close>.\<close>

definition wait_fd_ready :: "int \<Rightarrow> int \<Rightarrow> int" where
  "wait_fd_ready os_select fd =
     (if fd = INVALID_SOCKET_HANDLE then - 1
      else if os_select < 0 then - 1 else if os_select > 0 then 1 else 0)"

definition tcp_connect :: "int \<Rightarrow> int \<Rightarrow> bool \<Rightarrow> int \<Rightarrow> int \<Rightarrow> tcp_socket \<Rightarrow> bool \<times> tcp_socket" where
  "tcp_connect os_socket os_connect would_block os_select so_error s =
     (let (opened, s) = (if \<not> tcp_is_open s then tcp_open os_socket s else (True, s)) in
      if \<not> opened then (False, s)
      else if os_connect = 0 then (True, s)
      else if os_connect \<noteq> - 1 then (False, s)
      else if \<not> would_block then (False, s)
      else if wait_fd_ready os_select (ts_handle s) \<le> 0 then (False, s)
      else (so_error = 0, s))"

definition tcp_listen :: "resolver \<Rightarrow> int \<Rightarrow> int \<Rightarrow> int \<Rightarrow> u16 \<Rightarrow> string \<Rightarrow> tcp_socket \<Rightarrow> bool \<times> tcp_socket" where
  "tcp_listen res os_socket os_bind os_listen port ip s =
     (let (opened, s) = (if \<not> tcp_is_open s then tcp_open os_socket s else (True, s)) in
      if \<not> opened then (False, s)
      else if \<not> sa_valid (SocketAddress res ip port) then (False, s)
      else if os_bind \<noteq> 0 then (False, s)
      else if os_listen \<noteq> 0 then (False, s)
      else (True, s))"

definition tcp_accept :: "int \<Rightarrow> int \<Rightarrow> tcp_socket \<Rightarrow> tcp_socket \<Rightarrow> bool \<times> int list \<times> tcp_socket" where
  "tcp_accept os_select os_accept s out_client =
     (if \<not> tcp_is_open s then (False, [], out_client)
      else if wait_fd_ready os_select (ts_handle s) \<le> 0 then (False, [], out_client)
      else if os_accept = INVALID_SOCKET_HANDLE then (False, [], out_client)
      else (let (closed, out_client) = tcp_close out_client
            in (True, closed, out_client\<lparr>ts_handle := os_accept\<rparr>)))"

definition tcp_send :: "int \<Rightarrow> tcp_socket \<Rightarrow> int" where
  "tcp_send os_send s = (if \<not> tcp_is_open s then - 1 else os_send)"

definition tcp_recv :: "int \<times> byte list \<Rightarrow> tcp_socket \<Rightarrow> int \<times> byte list" where
  "tcp_recv os_recv s = (if \<not> tcp_is_open s then (- 1, []) else os_recv)"

definition tcp_wait :: "int \<Rightarrow> tcp_socket \<Rightarrow> int" where
  "tcp_wait os_select s = wait_fd_ready os_select (ts_handle s)"

definition tcp_set_buffer_sizes :: "bool \<Rightarrow> bool \<Rightarrow> int \<Rightarrow> int \<Rightarrow> tcp_socket \<Rightarrow> bool" where
  "tcp_set_buffer_sizes rcv_ok snd_ok recv_bytes send_bytes s =
     (if \<not> tcp_is_open s then False
      else (let ok = True;
                ok = (if recv_bytes > 0 then rcv_ok \<and> ok else ok);
                ok = (if send_bytes > 0 then snd_ok \<and> ok else ok)
            in ok))"

definition tcp_set_tcp_nodelay :: "(int \<Rightarrow> bool) \<Rightarrow> bool \<Rightarrow> tcp_socket \<Rightarrow> bool" where
  "tcp_set_tcp_nodelay os_setsockopt enable s =
     (if \<not> tcp_is_open s then False else os_setsockopt (if enable then 1 else 0))"

definition tcp_set_non_blocking :: "int \<Rightarrow> (int \<Rightarrow> bool) \<Rightarrow> bool \<Rightarrow> tcp_socket \<Rightarrow> bool" where
  "tcp_set_non_blocking os_getfl os_setfl enable s =
     (if \<not> tcp_is_open s then False
      else (case non_blocking_flags enable os_getfl of None \<Rightarrow> False | Some f \<Rightarrow> os_setfl f))"

definition tcp_get_local_address :: "sockaddr_in option \<Rightarrow> tcp_socket \<Rightarrow> socket_address" where
  "tcp_get_local_address os_getsockname s =
     (if \<not> tcp_is_open s then SocketAddress_empty
      else (case os_getsockname of Some a \<Rightarrow> SocketAddress_raw a | None \<Rightarrow> SocketAddress_empty))"

section \<open>Ownership of handles\<close>

text \<open>
  A wrapper owns at most one handle. The locale says what closing and move assignment do to it; its
  lemma follows the handles through an assignment and both destructors.
\<close>

definition owned :: "int \<Rightarrow> int list" where
  "owned h = (if h = INVALID_SOCKET_HANDLE then [] else [h])"

locale handle_owner =
  fixes handle :: "'s \<Rightarrow> int"
    and close :: "'s \<Rightarrow> int list \<times> 's"
    and assign :: "'s \<Rightarrow> 's \<Rightarrow> int list \<times> 's \<times> 's"
  assumes close_gives: "fst (close s) = owned (handle s)"
    and close_empties: "handle (snd (close s)) = INVALID_SOCKET_HANDLE"
    and assign_closes: "assign a b = (cl, a', b') \<Longrightarrow> cl = fst (close a)"
    and assign_moves: "assign a b = (cl, a', b') \<Longrightarrow> handle a' = handle b \<and> handle b' = INVALID_SOCKET_HANDLE"
begin

lemma close_twice: "fst (close (snd (close s))) = []"
  by (simp add: close_gives close_empties owned_def)

lemma closed_once:
  assumes "assign a b = (cl, a', b')"
  shows "cl @ fst (close a') @ fst (close b') = owned (handle a) @ owned (handle b)"
  using assign_closes [OF assms] assign_moves [OF assms] by (simp add: close_gives owned_def)

end

interpretation udp_owner: handle_owner us_handle udp_close "udp_move_assign False"
  by unfold_locales (auto simp: udp_close_def udp_move_assign_def owned_def Let_def split: if_splits)

interpretation tcp_owner: handle_owner ts_handle tcp_close "tcp_move_assign False"
  by unfold_locales (auto simp: tcp_close_def tcp_move_assign_def owned_def Let_def split: if_splits)

text \<open>
  Assigning one UDP socket to another and destroying both closes the handle of each
  exactly once, and closing a socket again closes nothing.
\<close>

theorem udp_handles_closed_once:
  assumes "udp_move_assign False a b = (cl, a', b')"
  shows "cl @ fst (udp_close a') @ fst (udp_close b') = owned (us_handle a) @ owned (us_handle b) \<and>
         fst (udp_close (snd (udp_close a'))) = []"
  using udp_owner.closed_once [OF assms] udp_owner.close_twice by blast

theorem udp_handles_closed_once_witness:
  "\<exists>cl a' b'. udp_move_assign False (UdpSocket\<lparr>us_handle := 3\<rparr>) (UdpSocket\<lparr>us_handle := 4\<rparr>) = (cl, a', b') \<and>
              cl @ fst (udp_close a') @ fst (udp_close b') = [3, 4]"
proof -
  obtain cl a' b' where e: "udp_move_assign False (UdpSocket\<lparr>us_handle := 3\<rparr>) (UdpSocket\<lparr>us_handle := 4\<rparr>) = (cl, a', b')"
    using prod_cases3 by blast
  from udp_handles_closed_once [OF e] e show ?thesis by (simp add: owned_def INVALID_SOCKET_HANDLE_def)
qed

text \<open>The same holds for TCP sockets, the tunnel's included.\<close>

theorem tcp_handles_closed_once:
  assumes "tcp_move_assign False a b = (cl, a', b')"
  shows "cl @ fst (tcp_close a') @ fst (tcp_close b') = owned (ts_handle a) @ owned (ts_handle b) \<and>
         fst (tcp_close (snd (tcp_close a'))) = []"
  using tcp_owner.closed_once [OF assms] tcp_owner.close_twice by blast

theorem tcp_handles_closed_once_witness:
  "\<exists>cl a' b'. tcp_move_assign False (TcpSocket\<lparr>ts_handle := 7\<rparr>) TcpSocket = (cl, a', b') \<and>
              cl @ fst (tcp_close a') @ fst (tcp_close b') = [7]"
proof -
  obtain cl a' b' where e: "tcp_move_assign False (TcpSocket\<lparr>ts_handle := 7\<rparr>) TcpSocket = (cl, a', b')"
    using prod_cases3 by blast
  from tcp_handles_closed_once [OF e] e show ?thesis by (simp add: owned_def INVALID_SOCKET_HANDLE_def TcpSocket_def)
qed

section \<open>Addresses as keys\<close>

lemma htons_involution [simp]: "htons (htons w) = w"
  unfolding htons_def
  by (rule bit_word_eqI) (auto simp: bit_or_iff bit_push_bit_iff bit_drop_bit_eq)

lemma SocketAddress_port: "sin_port (sa_addr (SocketAddress res ip port)) = htons port"
  by (simp add: SocketAddress_def Let_def split: option.splits)

lemma sa_eq_iff: "sa_eq a b \<longleftrightarrow> sa_addr a = sa_addr b"
  by (auto simp: sa_eq_def intro: sockaddr_in.equality)

text \<open>
  A resolved address gives back the port it was made with, and an address that does not
  resolve reads as port 0 of \<open>0.0.0.0\<close>.
\<close>

theorem socket_address_port:
  "sa_port (SocketAddress res ip port) = (if sa_valid (SocketAddress res ip port) then port else 0) \<and>
   (\<not> sa_valid (SocketAddress res ip port) \<longrightarrow> sa_ip res (SocketAddress res ip port) = ''0.0.0.0'')"
  by (simp add: sa_port_def SocketAddress_port sa_ip_def)

definition no_dns :: resolver where
  "no_dns = \<lparr>inet_pton = (\<lambda>s. if s = ''127.0.0.1'' then Some 0x0100007F else None),
     gethostbyname = (\<lambda>_. None), inet_ntop = (\<lambda>a. if a = 0x0100007F then Some ''127.0.0.1'' else None)\<rparr>"

theorem socket_address_port_witness:
  "sa_port (SocketAddress no_dns ''127.0.0.1'' 45678) = 45678 \<and>
   sa_ip no_dns (SocketAddress no_dns ''nowhere'' 1) = ''0.0.0.0''"
  using socket_address_port [of no_dns "''127.0.0.1''" 45678] socket_address_port [of no_dns "''nowhere''" 1]
  by (simp add: SocketAddress_def no_dns_def Let_def)

section \<open>Time-outs\<close>

text \<open>A non-negative time-out in milliseconds is passed to the system exactly and in normal form.\<close>

theorem timeval_exact:
  assumes "0 \<le> ms"
  shows "tv_sec (timeval_of_ms ms) * 1000000 + tv_usec (timeval_of_ms ms) = ms * 1000 \<and>
         0 \<le> tv_usec (timeval_of_ms ms) \<and> tv_usec (timeval_of_ms ms) < 1000000"
proof -
  have d: "ms sdiv 1000 = ms div 1000" using assms by (cases "ms = 0") (simp_all add: signed_divide_int_def sgn_if)
  have m: "ms smod 1000 = ms mod 1000"
    using assms by (cases "ms = 0") (simp_all add: signed_modulo_int_def sgn_if)
  have "ms = ms div 1000 * 1000 + ms mod 1000" "0 \<le> ms mod 1000" "ms mod 1000 < 1000" by simp_all
  then show ?thesis unfolding timeval_of_ms_def timeval.select_convs d m by (intro conjI; linarith)
qed

theorem timeval_exact_witness: "tv_sec (timeval_of_ms 1500) * 1000000 + tv_usec (timeval_of_ms 1500) = 1500000"
  using timeval_exact [of 1500] by simp

section \<open>Choice of the interface\<close>

definition usable :: "network_interface \<Rightarrow> bool" where
  "usable i \<longleftrightarrow> ni_is_up i \<and> \<not> ni_is_loopback i"

lemma first_physical_Some:
  "first_physical is = Some n \<Longrightarrow> \<exists>i \<in> set is. usable i \<and> \<not> virtual_iface (ni_name i) \<and> n = ni_name i"
  by (induction "is") (auto simp: usable_def split: if_splits)

lemma first_physical_None:
  "first_physical is = None \<Longrightarrow> i \<in> set is \<Longrightarrow> usable i \<Longrightarrow> virtual_iface (ni_name i)"
  by (induction "is") (auto simp: usable_def split: if_splits)

lemma first_with_address_in:
  "first_with_address is = n \<Longrightarrow> n \<noteq> [] \<Longrightarrow> \<exists>i \<in> set is. usable i \<and> n = ni_name i"
  by (induction "is") (auto simp: usable_def split: if_splits)

lemma pick_in:
  assumes "pick_physical_interface is = n" and "n \<noteq> []"
  shows "\<exists>i \<in> set is. usable i \<and> ni_name i = n"
  using assms first_with_address_in [of "is" n] first_physical_Some [of "is" n]
  by (auto simp: pick_physical_interface_def split: option.splits)

text \<open>
  The interface picked is the name of one that is up and not loopback, and it is not a
  tunnel or datalink interface whenever the machine has another one that is usable.
\<close>

theorem pick_physical_interface_sound:
  assumes "pick_physical_interface is = n" and "n \<noteq> []"
  shows "(\<exists>i \<in> set is. usable i \<and> ni_name i = n) \<and>
         ((\<exists>i \<in> set is. usable i \<and> \<not> virtual_iface (ni_name i)) \<longrightarrow> \<not> virtual_iface n)"
proof (cases "first_physical is")
  case None
  then show ?thesis using pick_in [OF assms] first_physical_None [OF None] by blast
next
  case (Some m)
  then show ?thesis using pick_in [OF assms] assms(1) first_physical_Some [OF Some] by (auto simp: pick_physical_interface_def)
qed

definition iface :: "string \<Rightarrow> network_interface" where
  "iface n = \<lparr>ni_name = n, ni_ip_address = ''10.0.0.2'', ni_is_loopback = False, ni_is_up = True\<rparr>"

theorem pick_physical_interface_sound_witness:
  "pick_physical_interface [iface ''tun0'', iface ''wlan0''] = ''wlan0'' \<and> \<not> virtual_iface ''wlan0''"
proof -
  have p: "pick_physical_interface [iface ''tun0'', iface ''wlan0''] = ''wlan0''" by code_simp
  have "\<exists>i \<in> set [iface ''tun0'', iface ''wlan0'']. usable i \<and> \<not> virtual_iface (ni_name i)" by code_simp
  with pick_physical_interface_sound [OF p] p show ?thesis by blast
qed

text \<open>
  There is no preference for Ethernet over Wi-Fi, whatever the comment says: the first
  usable interface of the system's list wins.
\<close>

theorem pick_physical_interface_wifi_first:
  "pick_physical_interface [iface ''wlan0'', iface ''eth0''] = ''wlan0''"
  by code_simp

text \<open>On Windows too the interface picked is an adapter that is up, is not the loopback and has an IPv4 address.\<close>

lemma in_map_filter: "y \<in> set (List.map_filter f xs) \<Longrightarrow> \<exists>x \<in> set xs. f x = Some y"
  by (induction xs) (auto simp: List.map_filter_simps split: option.splits)

lemma adapter_interfaces_from:
  assumes "i \<in> set (adapter_interfaces res ad)"
  shows "ad_up ad \<and> ni_name i = ad_name ad \<and> ni_is_loopback i = ad_loopback ad \<and> AF_INET \<in> fst ` set (ad_unicast ad)"
proof -
  have up: "ad_up ad" using assms by (auto simp: adapter_interfaces_def split: if_splits)
  obtain u where u: "u \<in> set (ad_unicast ad)"
    "(case u of (fam, a) \<Rightarrow> if fam = AF_INET
       then Some \<lparr>ni_name = ad_name ad, ni_ip_address = (case inet_ntop res a of Some s \<Rightarrow> s | None \<Rightarrow> []),
                  ni_is_loopback = ad_loopback ad, ni_is_up = True\<rparr> else None) = Some i"
    using in_map_filter [OF assms [unfolded adapter_interfaces_def if_P [OF up]]] by blast
  obtain fam a where fa: "u = (fam, a)" by fastforce
  then have "fam = AF_INET" "ni_name i = ad_name ad" "ni_is_loopback i = ad_loopback ad"
    using u(2) by (auto split: if_splits)
  then show ?thesis using up u(1) fa by force
qed

theorem windows_pick_sound:
  assumes "pick_physical_interface (windows_local_interfaces res True (AdaptersOk ads) m2 c2) = n" and "n \<noteq> []"
  shows "\<exists>ad \<in> set ads. ad_up ad \<and> \<not> ad_loopback ad \<and> ad_name ad = n \<and> AF_INET \<in> fst ` set (ad_unicast ad)"
proof -
  obtain i where i: "i \<in> set (windows_local_interfaces res True (AdaptersOk ads) m2 c2)" "usable i" "ni_name i = n"
    using pick_in [OF assms] by blast
  then obtain ad where ad: "ad \<in> set ads" "i \<in> set (adapter_interfaces res ad)" by (auto simp: windows_local_interfaces_def)
  then show ?thesis using adapter_interfaces_from [OF ad(2)] i(2,3) by (auto simp: usable_def)
qed

theorem windows_pick_sound_witness:
  "\<exists>ad \<in> set [\<lparr>ad_up = True, ad_loopback = True, ad_name = ''Loopback'', ad_unicast = [(AF_INET, 1)]\<rparr>,
             \<lparr>ad_up = True, ad_loopback = False, ad_name = ''Ethernet'', ad_unicast = [(AF_INET, 2)]\<rparr>].
     ad_name ad = ''Ethernet'' \<and> \<not> ad_loopback ad"
proof -
  define ads where "ads = [\<lparr>ad_up = True, ad_loopback = True, ad_name = ''Loopback'', ad_unicast = [(AF_INET, 1)]\<rparr>,
             \<lparr>ad_up = True, ad_loopback = False, ad_name = ''Ethernet'', ad_unicast = [(AF_INET, 2 :: u32)]\<rparr>]"
  have "\<not> virtual_iface ''Ethernet''" by code_simp
  then have "pick_physical_interface (windows_local_interfaces res True (AdaptersOk ads) True AdaptersError) = ''Ethernet''" for res
    by (simp add: ads_def windows_local_interfaces_def adapter_interfaces_def List.map_filter_def pick_physical_interface_def)
  from windows_pick_sound [OF this] show ?thesis by (auto simp: ads_def)
qed

text \<open>Winsock is initialised at most once at a time, and every initialisation is undone.\<close>

definition networking_ok :: "networking \<Rightarrow> bool" where
  "networking_ok n \<longleftrightarrow> nw_wsa_count n = (if nw_initialized n then 1 else 0)"

lemma networking_balanced:
  "networking_ok \<lparr>nw_initialized = False, nw_wsa_count = 0\<rparr>"
  "networking_ok n \<Longrightarrow> networking_ok (init_networking startup_ok n)"
  "networking_ok n \<Longrightarrow> networking_ok (cleanup_networking n) \<and> nw_wsa_count (cleanup_networking n) = 0"
  by (auto simp: networking_ok_def init_networking_def cleanup_networking_def)

end
