(* ===== verification/Endpoint_Control.thy ===== *)
theory Endpoint_Control
  imports Floating
begin

text \<open>
  \<^verbatim>\<open>src/server/audio_endpoint_control.{hpp,cpp}\<close>: muting the server's own speaker while a client
  listens, and restoring it. Both branches of the sources are modelled: the one with the dummy
  device, and the Windows one over the calls of \<^verbatim>\<open>IAudioEndpointVolume\<close>, which are an argument
  (\<open>endpoint_api\<close>) acting on a device state. The operations of the Windows branch that may lock the
  mutex twice return an option, \<open>None\<close> being the deadlock.
\<close>

section \<open>Shared state\<close>

datatype mute_method = EndpointMute | VolumeZero | Both

record endpoint_control =
  ec_is_silenced_by_us :: bool
  ec_prev_mute_state :: bool
  ec_prev_volume_level :: flt
  ec_active_mute_method :: mute_method

definition AudioEndpointControl :: endpoint_control where
  "AudioEndpointControl =
     \<lparr>ec_is_silenced_by_us = False, ec_prev_mute_state = False, ec_prev_volume_level = FFin 1,
      ec_active_mute_method = EndpointMute\<rparr>"

definition is_currently_silenced_by_us :: "'a endpoint_control_scheme \<Rightarrow> bool" where
  "is_currently_silenced_by_us c \<longleftrightarrow> ec_is_silenced_by_us c"

definition uses_mute :: "mute_method \<Rightarrow> bool" where
  "uses_mute m \<longleftrightarrow> m = EndpointMute \<or> m = Both"

definition uses_volume :: "mute_method \<Rightarrow> bool" where
  "uses_volume m \<longleftrightarrow> m = VolumeZero \<or> m = Both"

section \<open>The dummy device\<close>

record dummy_control = endpoint_control +
  dc_muted :: bool
  dc_volume :: flt

definition dummy_new :: dummy_control where
  "dummy_new = endpoint_control.extend AudioEndpointControl \<lparr>dc_muted = False, dc_volume = FFin 1\<rparr>"

definition dummy_init :: "dummy_control \<Rightarrow> bool \<times> dummy_control" where
  "dummy_init c = (True, c)"

definition dummy_shutdown :: "dummy_control \<Rightarrow> dummy_control" where
  "dummy_shutdown c = (if ec_is_silenced_by_us c then c\<lparr>ec_is_silenced_by_us := False\<rparr> else c)"

definition dummy_mute_pc_speaker :: "mute_method \<Rightarrow> dummy_control \<Rightarrow> bool \<times> dummy_control" where
  "dummy_mute_pc_speaker m c =
     (let c = c\<lparr>ec_active_mute_method := m\<rparr>;
          c = (if \<not> ec_is_silenced_by_us c
               then c\<lparr>ec_prev_mute_state := dc_muted c, ec_prev_volume_level := dc_volume c\<rparr> else c)
      in (True, c\<lparr>dc_muted := True, dc_volume := FFin 0, ec_is_silenced_by_us := True\<rparr>))"

definition dummy_unmute_pc_speaker :: "dummy_control \<Rightarrow> bool \<times> dummy_control" where
  "dummy_unmute_pc_speaker c =
     (if \<not> ec_is_silenced_by_us c then (True, c)
      else (True, c\<lparr>dc_muted := ec_prev_mute_state c, dc_volume := ec_prev_volume_level c,
                    ec_is_silenced_by_us := False\<rparr>))"

definition dummy_set_mute :: "bool \<Rightarrow> dummy_control \<Rightarrow> bool \<times> dummy_control" where
  "dummy_set_mute b c = (True, c\<lparr>dc_muted := b\<rparr>)"

definition dummy_is_muted :: "dummy_control \<Rightarrow> bool" where
  "dummy_is_muted c = dc_muted c"

definition dummy_set_volume :: "flt \<Rightarrow> dummy_control \<Rightarrow> bool \<times> dummy_control" where
  "dummy_set_volume v c = (True, c\<lparr>dc_volume := fl_clamp v (FFin 0) (FFin 1)\<rparr>)"

definition dummy_get_volume :: "dummy_control \<Rightarrow> flt" where
  "dummy_get_volume c = dc_volume c"

section \<open>The Windows device\<close>

text \<open>
  A getter returns \<open>None\<close> when the call fails and leaves its out-parameter alone; a setter returns
  whether it succeeded and the device afterwards.
\<close>

record 'd endpoint_api =
  api_GetMute :: "'d \<Rightarrow> bool option"
  api_SetMute :: "bool \<Rightarrow> 'd \<Rightarrow> bool \<times> 'd"
  api_GetVolume :: "'d \<Rightarrow> flt option"
  api_SetVolume :: "flt \<Rightarrow> 'd \<Rightarrow> bool \<times> 'd"

text \<open>Which interface pointers are held, and whether COM has to be released.\<close>

record win_control = endpoint_control +
  wc_enumerator :: bool
  wc_device :: bool
  wc_endpoint_volume :: bool
  wc_com_initialized :: bool

definition win_new :: win_control where
  "win_new = endpoint_control.extend AudioEndpointControl
     \<lparr>wc_enumerator = False, wc_device = False, wc_endpoint_volume = False, wc_com_initialized = False\<rparr>"

datatype com_result = COM_OK | COM_CHANGED_MODE | COM_FAILED

text \<open>\<open>create\<close>, \<open>get_default\<close>, \<open>activate\<close>: the calls succeed and give a non-null pointer.\<close>

definition win_init :: "com_result \<Rightarrow> bool \<Rightarrow> bool \<Rightarrow> bool \<Rightarrow> win_control \<Rightarrow> bool \<times> win_control" where
  "win_init com create get_default activate c =
     (if com = COM_FAILED then (False, c)
      else (let c = c\<lparr>wc_com_initialized := (com = COM_OK)\<rparr> in
            if \<not> create then (False, c)
            else (let c = c\<lparr>wc_enumerator := True\<rparr> in
                  if \<not> get_default then (False, c)
                  else (let c = c\<lparr>wc_device := True\<rparr> in
                        if \<not> activate then (False, c)
                        else (True, c\<lparr>wc_endpoint_volume := True\<rparr>)))))"

definition win_restore :: "'d endpoint_api \<Rightarrow> win_control \<Rightarrow> 'd \<Rightarrow> 'd" where
  "win_restore api c d =
     (let d = (if uses_mute (ec_active_mute_method c) then snd (api_SetMute api (ec_prev_mute_state c) d) else d)
      in if uses_volume (ec_active_mute_method c) then snd (api_SetVolume api (ec_prev_volume_level c) d) else d)"

definition win_shutdown :: "'d endpoint_api \<Rightarrow> win_control \<Rightarrow> 'd \<Rightarrow> win_control \<times> 'd" where
  "win_shutdown api c d =
     (let (c, d) = (if ec_is_silenced_by_us c
                    then (c\<lparr>ec_is_silenced_by_us := False\<rparr>, if wc_endpoint_volume c then win_restore api c d else d)
                    else (c, d))
      in (c\<lparr>wc_endpoint_volume := False, wc_device := False, wc_enumerator := False, wc_com_initialized := False\<rparr>, d))"

text \<open>
  Without the endpoint the operation calls \<open>init\<close>, which locks the mutex this operation holds.
\<close>

definition win_mute_pc_speaker ::
    "'d endpoint_api \<Rightarrow> mute_method \<Rightarrow> win_control \<Rightarrow> 'd \<Rightarrow> (bool \<times> win_control \<times> 'd) option" where
  "win_mute_pc_speaker api m c d =
     (let c = c\<lparr>ec_active_mute_method := m\<rparr> in
      if \<not> wc_endpoint_volume c then None
      else
        (let current_mute = (case api_GetMute api d of Some b \<Rightarrow> b | None \<Rightarrow> False);
             current_vol = (case api_GetVolume api d of Some v \<Rightarrow> v | None \<Rightarrow> FFin 1);
             c = (if \<not> ec_is_silenced_by_us c
                  then c\<lparr>ec_prev_mute_state := current_mute, ec_prev_volume_level := current_vol\<rparr> else c);
             (hr, d) = (if uses_mute m then api_SetMute api True d else (True, d));
             (hr, d) = (if uses_volume m then api_SetVolume api (FFin 0) d else (hr, d))
         in Some (hr, c\<lparr>ec_is_silenced_by_us := True\<rparr>, d)))"

definition win_unmute_pc_speaker :: "'d endpoint_api \<Rightarrow> win_control \<Rightarrow> 'd \<Rightarrow> bool \<times> win_control \<times> 'd" where
  "win_unmute_pc_speaker api c d =
     (if \<not> ec_is_silenced_by_us c then (True, c, d)
      else if \<not> wc_endpoint_volume c then (False, c, d)
      else (True, c\<lparr>ec_is_silenced_by_us := False\<rparr>, win_restore api c d))"

definition win_set_mute :: "'d endpoint_api \<Rightarrow> bool \<Rightarrow> win_control \<Rightarrow> 'd \<Rightarrow> bool \<times> 'd" where
  "win_set_mute api b c d = (if \<not> wc_endpoint_volume c then (False, d) else api_SetMute api b d)"

definition win_is_muted :: "'d endpoint_api \<Rightarrow> win_control \<Rightarrow> 'd \<Rightarrow> bool" where
  "win_is_muted api c d =
     (if \<not> wc_endpoint_volume c then False else (case api_GetMute api d of Some b \<Rightarrow> b | None \<Rightarrow> False))"

definition win_set_volume :: "'d endpoint_api \<Rightarrow> flt \<Rightarrow> win_control \<Rightarrow> 'd \<Rightarrow> bool \<times> 'd" where
  "win_set_volume api v c d =
     (let clamped = fl_clamp v (FFin 0) (FFin 1) in
      if \<not> wc_endpoint_volume c then (False, d) else api_SetVolume api clamped d)"

definition win_get_volume :: "'d endpoint_api \<Rightarrow> win_control \<Rightarrow> 'd \<Rightarrow> flt" where
  "win_get_volume api c d =
     (if \<not> wc_endpoint_volume c then FFin 1 else (case api_GetVolume api d of Some v \<Rightarrow> v | None \<Rightarrow> FFin 1))"

section \<open>Silencing and restoring as a contract\<close>

text \<open>
  What the server needs of a speaker control: while silenced it stays silenced, whatever number of
  times it is asked for, and one release brings back what was observed before.
\<close>

locale speaker_control =
  fixes silence :: "'s \<Rightarrow> 's"
    and release :: "'s \<Rightarrow> 's"
    and silenced :: "'s \<Rightarrow> bool"
    and observe :: "'s \<Rightarrow> 'o"
    and saved :: "'s \<Rightarrow> 'o"
  assumes silence_silenced: "silenced (silence s)"
    and silence_saves: "saved (silence s) = (if silenced s then saved s else observe s)"
    and release_restores: "silenced s \<Longrightarrow> observe (release s) = saved s"
    and release_not_silenced: "\<not> silenced (release s)"
    and release_idle: "\<not> silenced s \<Longrightarrow> release s = s"
begin

lemma silence_repeat: "0 < n \<Longrightarrow> silenced ((silence ^^ n) s) \<and> (\<not> silenced s \<longrightarrow> saved ((silence ^^ n) s) = observe s)"
proof (induction n)
  case (Suc n)
  then show ?case by (cases n) (auto simp: silence_silenced silence_saves)
qed simp

lemma restore_after:
  assumes "\<not> silenced s"
  shows "observe (release ((silence ^^ n) s)) = observe s \<and> \<not> silenced (release ((silence ^^ n) s))"
proof (cases n)
  case 0
  then show ?thesis using assms by (simp add: release_idle)
next
  case (Suc k)
  then show ?thesis using silence_repeat [of n s] assms by (simp add: release_restores release_not_silenced)
qed

end

definition dummy_observe :: "dummy_control \<Rightarrow> bool \<times> flt" where
  "dummy_observe c = (dummy_is_muted c, dummy_get_volume c)"

interpretation dummy_speaker: speaker_control
  "\<lambda>c. snd (dummy_mute_pc_speaker m c)" "\<lambda>c. snd (dummy_unmute_pc_speaker c)" is_currently_silenced_by_us
  dummy_observe "\<lambda>c. (ec_prev_mute_state c, ec_prev_volume_level c)" for m
  by unfold_locales
    (auto simp: dummy_mute_pc_speaker_def dummy_unmute_pc_speaker_def is_currently_silenced_by_us_def
      dummy_observe_def dummy_is_muted_def dummy_get_volume_def Let_def)

text \<open>
  With the dummy device, any number of mutings followed by one unmuting gives back the
  mute flag and the volume from before, and the control is no longer marked as silencing.
\<close>

theorem dummy_mute_restores:
  assumes "\<not> is_currently_silenced_by_us c"
  shows "dummy_observe (snd (dummy_unmute_pc_speaker (((\<lambda>c. snd (dummy_mute_pc_speaker m c)) ^^ n) c))) = dummy_observe c \<and>
         \<not> is_currently_silenced_by_us (snd (dummy_unmute_pc_speaker (((\<lambda>c. snd (dummy_mute_pc_speaker m c)) ^^ n) c)))"
  using dummy_speaker.restore_after [OF assms] .

theorem dummy_mute_restores_witness:
  "dummy_observe (snd (dummy_unmute_pc_speaker (((\<lambda>c. snd (dummy_mute_pc_speaker Both c)) ^^ 3) dummy_new))) = (False, FFin 1)"
  using dummy_mute_restores [of dummy_new 3 Both]
  by (simp add: is_currently_silenced_by_us_def dummy_new_def AudioEndpointControl_def dummy_observe_def
      dummy_is_muted_def dummy_get_volume_def endpoint_control.defs)

section \<open>The Windows branch\<close>

text \<open>
  The documented behaviour of the endpoint calls: a getter after a successful setter returns the
  value that was set, and the two controls are independent. \<open>api_works\<close> says that no call fails.
\<close>

definition api_works :: "'d endpoint_api \<Rightarrow> bool" where
  "api_works api \<longleftrightarrow>
     (\<forall>d. api_GetMute api d \<noteq> None \<and> api_GetVolume api d \<noteq> None) \<and>
     (\<forall>b d. fst (api_SetMute api b d) \<and> api_GetMute api (snd (api_SetMute api b d)) = Some b \<and>
            api_GetVolume api (snd (api_SetMute api b d)) = api_GetVolume api d) \<and>
     (\<forall>v d. fst (api_SetVolume api v d) \<and> api_GetVolume api (snd (api_SetVolume api v d)) = Some v \<and>
            api_GetMute api (snd (api_SetVolume api v d)) = api_GetMute api d)"

lemma api_worksD:
  assumes "api_works api"
  shows "api_GetMute api (snd (api_SetMute api b d)) = Some b"
    and "api_GetVolume api (snd (api_SetMute api b d)) = api_GetVolume api d"
    and "api_GetVolume api (snd (api_SetVolume api v d)) = Some v"
    and "api_GetMute api (snd (api_SetVolume api v d)) = api_GetMute api d"
    and "fst (api_SetMute api b d)" and "fst (api_SetVolume api v d)"
    and "\<exists>b. api_GetMute api d = Some b" and "\<exists>v. api_GetVolume api d = Some v"
  using assms unfolding api_works_def by auto

text \<open>
  On Windows, with calls that succeed, muting by any method silences the device that way,
  and unmuting restores the mute flag and the volume exactly.
\<close>

theorem win_mute_restores:
  assumes "api_works api" and "wc_endpoint_volume c" and "\<not> ec_is_silenced_by_us c"
    and "win_mute_pc_speaker api m c d = Some (ok, c1, d1)"
    and "win_unmute_pc_speaker api c1 d1 = (ok', c2, d2)"
  shows "ok \<and> ok' \<and> (uses_mute m \<longrightarrow> api_GetMute api d1 = Some True) \<and>
         (uses_volume m \<longrightarrow> api_GetVolume api d1 = Some (FFin 0)) \<and>
         api_GetMute api d2 = api_GetMute api d \<and> api_GetVolume api d2 = api_GetVolume api d \<and>
         \<not> ec_is_silenced_by_us c2"
proof -
  note api = api_worksD [OF assms(1)]
  obtain b v where "api_GetMute api d = Some b" "api_GetVolume api d = Some v" using api(7,8) by blast
  then show ?thesis using assms(2-5)
    by (cases m) (auto simp: win_mute_pc_speaker_def win_unmute_pc_speaker_def win_restore_def uses_mute_def
        uses_volume_def Let_def api split: prod.splits, (metis api(1-6) fst_conv snd_conv)+)
qed

text \<open>A device that is a pair of a mute flag and a volume.\<close>

definition pair_api :: "(bool \<times> flt) endpoint_api" where
  "pair_api = \<lparr>api_GetMute = (\<lambda>d. Some (fst d)), api_SetMute = (\<lambda>b d. (True, (b, snd d))),
     api_GetVolume = (\<lambda>d. Some (snd d)), api_SetVolume = (\<lambda>v d. (True, (fst d, v)))\<rparr>"

lemma pair_api_works: "api_works pair_api"
  by (simp add: api_works_def pair_api_def)

theorem win_mute_restores_witness:
  "\<exists>ok c1 d1 ok' c2 d2.
     win_mute_pc_speaker pair_api Both (win_new\<lparr>wc_endpoint_volume := True\<rparr>) (False, FFin (3 / 4)) = Some (ok, c1, d1) \<and>
     win_unmute_pc_speaker pair_api c1 d1 = (ok', c2, d2) \<and> api_GetVolume pair_api d1 = Some (FFin 0) \<and>
     api_GetVolume pair_api d2 = Some (FFin (3 / 4)) \<and> \<not> ec_is_silenced_by_us c2"
proof -
  define c where "c = win_new\<lparr>wc_endpoint_volume := True\<rparr>"
  have c: "wc_endpoint_volume c" "\<not> ec_is_silenced_by_us c"
    by (simp_all add: c_def win_new_def AudioEndpointControl_def endpoint_control.defs)
  obtain ok c1 d1 where m: "win_mute_pc_speaker pair_api Both c (False, FFin (3 / 4)) = Some (ok, c1, d1)"
    using c(1) by (auto simp: win_mute_pc_speaker_def Let_def uses_mute_def uses_volume_def pair_api_def)
  obtain ok' c2 d2 where u: "win_unmute_pc_speaker pair_api c1 d1 = (ok', c2, d2)" using prod_cases3 by blast
  have gv: "api_GetVolume pair_api (False, FFin (3 / 4)) = Some (FFin (3 / 4))" by (simp add: pair_api_def)
  have "api_GetVolume pair_api d1 = Some (FFin 0) \<and> api_GetVolume pair_api d2 = Some (FFin (3 / 4)) \<and> \<not> ec_is_silenced_by_us c2"
    using win_mute_restores [OF pair_api_works c m u] by (simp add: uses_volume_def gv)
  with m u show ?thesis unfolding c_def by blast
qed

text \<open>
  A second muting by another method forgets the first one: after volume zero and then
  endpoint mute, unmuting leaves the volume at zero.
\<close>

theorem win_mute_method_change_loses_volume:
  "(case win_mute_pc_speaker pair_api VolumeZero (win_new\<lparr>wc_endpoint_volume := True\<rparr>) (False, FFin 1) of
      Some (_, c1, d1) \<Rightarrow>
        (case win_mute_pc_speaker pair_api EndpointMute c1 d1 of
           Some (_, c2, d2) \<Rightarrow> win_unmute_pc_speaker pair_api c2 d2
         | None \<Rightarrow> undefined)
    | None \<Rightarrow> undefined) = (True, win_new\<lparr>wc_endpoint_volume := True\<rparr>, (False, FFin 0))"
  by (simp add: win_mute_pc_speaker_def win_unmute_pc_speaker_def win_restore_def win_new_def pair_api_def
      AudioEndpointControl_def endpoint_control.defs uses_mute_def uses_volume_def Let_def)

text \<open>
  Muting before a successful initialisation never returns: the operation holds the mutex
  and calls \<open>init\<close>, which locks it.
\<close>

theorem win_mute_uninitialised_deadlocks: "\<not> wc_endpoint_volume c \<Longrightarrow> win_mute_pc_speaker api m c d = None"
  by (simp add: win_mute_pc_speaker_def)

theorem win_mute_uninitialised_deadlocks_witness: "win_mute_pc_speaker pair_api Both win_new (False, FFin 1) = None"
  by (rule win_mute_uninitialised_deadlocks) (simp add: win_new_def endpoint_control.defs)

text \<open>
  A successful initialisation makes muting available, and a failed one leaves the endpoint
  as it was.
\<close>

theorem win_init_enables_mute:
  "win_init com create get_default activate c = (ok, c') \<Longrightarrow>
   (if ok then win_mute_pc_speaker api m c' d \<noteq> None else wc_endpoint_volume c' = wc_endpoint_volume c)"
  by (auto simp: win_init_def win_mute_pc_speaker_def Let_def split: if_splits prod.splits)

theorem win_init_enables_mute_witness:
  "\<exists>c'. win_init COM_CHANGED_MODE True True True win_new = (True, c') \<and> win_mute_pc_speaker pair_api Both c' (False, FFin 1) \<noteq> None"
proof -
  obtain c' where i: "win_init COM_CHANGED_MODE True True True win_new = (True, c')" by (simp add: win_init_def Let_def)
  show ?thesis using win_init_enables_mute [OF i, of pair_api Both] i by auto
qed

text \<open>A volume that is set is stored between zero and one, whatever number is asked for.\<close>

theorem set_volume_clamped:
  assumes "v \<noteq> FNaN"
  shows "\<exists>x. dummy_get_volume (snd (dummy_set_volume v c)) = FFin x \<and> 0 \<le> x \<and> x \<le> 1"
  using fl_clamp_cases [OF assms, of 0 1] by (auto simp: dummy_get_volume_def dummy_set_volume_def)

theorem set_volume_clamped_witness:
  "\<exists>x. dummy_get_volume (snd (dummy_set_volume (FInf False) dummy_new)) = FFin x \<and> 0 \<le> x \<and> x \<le> 1"
  by (rule set_volume_clamped) simp

section \<open>The speaker of either build\<close>

text \<open>
  The object the server holds is built for one platform: the dummy device, or a Windows device with
  the calls of its endpoint. The device is its mute flag, its volume, and a number that stands for
  whatever else the answers of its driver depend on.
\<close>

record win_device =
  wd_mute :: bool
  wd_volume :: flt
  wd_driver :: nat

datatype speaker = MockSpeaker dummy_control | WinSpeaker "win_device endpoint_api" win_control win_device

text \<open>What the system answers when the object is initialised.\<close>

record com_answers =
  cm_com :: com_result
  cm_create :: bool
  cm_get_default :: bool
  cm_activate :: bool

fun sp_is_silenced_by_us :: "speaker \<Rightarrow> bool" where
  "sp_is_silenced_by_us (MockSpeaker c) = is_currently_silenced_by_us c"
| "sp_is_silenced_by_us (WinSpeaker api c d) = is_currently_silenced_by_us c"

fun sp_init :: "com_answers \<Rightarrow> speaker \<Rightarrow> bool \<times> speaker" where
  "sp_init a (MockSpeaker c) = (case dummy_init c of (ok, c) \<Rightarrow> (ok, MockSpeaker c))"
| "sp_init a (WinSpeaker api c d) =
     (case win_init (cm_com a) (cm_create a) (cm_get_default a) (cm_activate a) c of (ok, c) \<Rightarrow> (ok, WinSpeaker api c d))"

fun sp_shutdown :: "speaker \<Rightarrow> speaker" where
  "sp_shutdown (MockSpeaker c) = MockSpeaker (dummy_shutdown c)"
| "sp_shutdown (WinSpeaker api c d) = (case win_shutdown api c d of (c, d) \<Rightarrow> WinSpeaker api c d)"

fun sp_mute_pc_speaker :: "mute_method \<Rightarrow> speaker \<Rightarrow> (bool \<times> speaker) option" where
  "sp_mute_pc_speaker m (MockSpeaker c) = (case dummy_mute_pc_speaker m c of (ok, c) \<Rightarrow> Some (ok, MockSpeaker c))"
| "sp_mute_pc_speaker m (WinSpeaker api c d) =
     (case win_mute_pc_speaker api m c d of None \<Rightarrow> None | Some (ok, c, d) \<Rightarrow> Some (ok, WinSpeaker api c d))"

fun sp_unmute_pc_speaker :: "speaker \<Rightarrow> bool \<times> speaker" where
  "sp_unmute_pc_speaker (MockSpeaker c) = (case dummy_unmute_pc_speaker c of (ok, c) \<Rightarrow> (ok, MockSpeaker c))"
| "sp_unmute_pc_speaker (WinSpeaker api c d) =
     (case win_unmute_pc_speaker api c d of (ok, c, d) \<Rightarrow> (ok, WinSpeaker api c d))"

fun sp_set_mute :: "bool \<Rightarrow> speaker \<Rightarrow> bool \<times> speaker" where
  "sp_set_mute b (MockSpeaker c) = (case dummy_set_mute b c of (ok, c) \<Rightarrow> (ok, MockSpeaker c))"
| "sp_set_mute b (WinSpeaker api c d) = (case win_set_mute api b c d of (ok, d) \<Rightarrow> (ok, WinSpeaker api c d))"

fun sp_set_volume :: "flt \<Rightarrow> speaker \<Rightarrow> bool \<times> speaker" where
  "sp_set_volume v (MockSpeaker c) = (case dummy_set_volume v c of (ok, c) \<Rightarrow> (ok, MockSpeaker c))"
| "sp_set_volume v (WinSpeaker api c d) = (case win_set_volume api v c d of (ok, d) \<Rightarrow> (ok, WinSpeaker api c d))"

text \<open>The device itself, whether or not the object holds an endpoint to it.\<close>

fun sp_muted :: "speaker \<Rightarrow> bool option" where
  "sp_muted (MockSpeaker c) = Some (dummy_is_muted c)"
| "sp_muted (WinSpeaker api c d) = api_GetMute api d"

fun sp_volume :: "speaker \<Rightarrow> flt option" where
  "sp_volume (MockSpeaker c) = Some (dummy_get_volume c)"
| "sp_volume (WinSpeaker api c d) = api_GetVolume api d"

text \<open>A speaker as the constructor makes it; one whose calls do not fail.\<close>

fun fresh_speaker :: "speaker \<Rightarrow> bool" where
  "fresh_speaker (MockSpeaker c) \<longleftrightarrow> c = dummy_new"
| "fresh_speaker (WinSpeaker api c d) \<longleftrightarrow> c = win_new"

fun sp_works :: "speaker \<Rightarrow> bool" where
  "sp_works (MockSpeaker c) \<longleftrightarrow> True"
| "sp_works (WinSpeaker api c d) \<longleftrightarrow> api_works api"

text \<open>
  Which of the two controls a method takes care of: both on the dummy device, on Windows those
  that the method names. Silent: every control the method takes care of is set to silence.
\<close>

fun covers_mute :: "mute_method \<Rightarrow> speaker \<Rightarrow> bool" where
  "covers_mute m (MockSpeaker c) \<longleftrightarrow> True"
| "covers_mute m (WinSpeaker api c d) \<longleftrightarrow> uses_mute m"

fun covers_volume :: "mute_method \<Rightarrow> speaker \<Rightarrow> bool" where
  "covers_volume m (MockSpeaker c) \<longleftrightarrow> True"
| "covers_volume m (WinSpeaker api c d) \<longleftrightarrow> uses_volume m"

definition sp_quiet :: "mute_method \<Rightarrow> speaker \<Rightarrow> bool" where
  "sp_quiet m sp \<longleftrightarrow>
     (covers_mute m sp \<longrightarrow> sp_muted sp = Some True) \<and> (covers_volume m sp \<longrightarrow> sp_volume sp = Some (FFin 0))"

definition sp_as_before :: "mute_method \<Rightarrow> speaker \<Rightarrow> speaker \<Rightarrow> bool" where
  "sp_as_before m before sp \<longleftrightarrow>
     (covers_mute m sp \<longrightarrow> sp_muted sp = sp_muted before) \<and> (covers_volume m sp \<longrightarrow> sp_volume sp = sp_volume before)"

text \<open>
  The state between a muting and the unmuting: while silenced the object remembers how the device
  was and, on Windows, holds the endpoint; otherwise the device is as it was.
\<close>

fun sp_holds :: "mute_method \<Rightarrow> speaker \<Rightarrow> speaker \<Rightarrow> bool" where
  "sp_holds m before (MockSpeaker c) \<longleftrightarrow>
     (if ec_is_silenced_by_us c
      then sp_muted before = Some (ec_prev_mute_state c) \<and> sp_volume before = Some (ec_prev_volume_level c)
      else sp_as_before m before (MockSpeaker c))"
| "sp_holds m before (WinSpeaker api c d) \<longleftrightarrow>
     api_works api \<and>
     (if ec_is_silenced_by_us c
      then wc_endpoint_volume c \<and> ec_active_mute_method c = m \<and>
           (uses_mute m \<longrightarrow> sp_muted before = Some (ec_prev_mute_state c)) \<and>
           (uses_volume m \<longrightarrow> sp_volume before = Some (ec_prev_volume_level c))
      else sp_as_before m before (WinSpeaker api c d))"

fun sp_bound :: "speaker \<Rightarrow> bool" where
  "sp_bound (MockSpeaker c) \<longleftrightarrow> True"
| "sp_bound (WinSpeaker api c d) \<longleftrightarrow> (ec_is_silenced_by_us c \<longrightarrow> wc_endpoint_volume c)"

named_theorems sp_defs
lemmas [sp_defs] = dummy_init_def dummy_shutdown_def dummy_mute_pc_speaker_def dummy_unmute_pc_speaker_def
  dummy_set_mute_def dummy_set_volume_def dummy_is_muted_def dummy_get_volume_def is_currently_silenced_by_us_def
  win_init_def win_shutdown_def win_mute_pc_speaker_def win_unmute_pc_speaker_def win_set_mute_def win_set_volume_def
  win_restore_def sp_as_before_def sp_quiet_def Let_def

text \<open>What the operations do to the mark, to the hold on the endpoint, and to the calls.\<close>

lemma sp_mute_mark:
  assumes "sp_mute_pc_speaker m sp = Some (ok, sp')"
  shows "sp_is_silenced_by_us sp'" and "sp_bound sp'" and "sp_works sp' = sp_works sp"
  using assms by (cases sp; auto simp: sp_defs split: option.splits prod.splits if_splits)+

lemma sp_unmute_mark:
  "sp_bound sp \<Longrightarrow> \<not> sp_is_silenced_by_us (snd (sp_unmute_pc_speaker sp))"
  "sp_bound sp \<Longrightarrow> sp_bound (snd (sp_unmute_pc_speaker sp))"
  "\<not> sp_is_silenced_by_us sp \<Longrightarrow> sp_unmute_pc_speaker sp = (True, sp)"
  by (cases sp; auto simp: sp_defs)+

lemma sp_command_mark [simp]:
  "sp_is_silenced_by_us (snd (sp_set_mute b sp)) = sp_is_silenced_by_us sp"
  "sp_is_silenced_by_us (snd (sp_set_volume v sp)) = sp_is_silenced_by_us sp"
  "sp_bound (snd (sp_set_mute b sp)) = sp_bound sp" "sp_bound (snd (sp_set_volume v sp)) = sp_bound sp"
  by (cases sp; auto simp: sp_defs split: prod.splits)+

lemma sp_init_keeps:
  "sp_is_silenced_by_us (snd (sp_init a sp)) = sp_is_silenced_by_us sp"
  "sp_bound sp \<Longrightarrow> sp_bound (snd (sp_init a sp))"
  "sp_holds m before sp \<Longrightarrow> sp_holds m before (snd (sp_init a sp))"
  "sp_muted (snd (sp_init a sp)) = sp_muted sp" "sp_volume (snd (sp_init a sp)) = sp_volume sp"
  by (cases sp; auto simp: sp_defs split: prod.splits if_splits)+

lemma sp_shutdown_keeps:
  assumes "\<not> sp_is_silenced_by_us sp"
  shows "\<not> sp_is_silenced_by_us (sp_shutdown sp)" and "sp_bound (sp_shutdown sp)"
    and "sp_holds m before sp \<Longrightarrow> sp_holds m before (sp_shutdown sp)"
  using assms by (cases sp; auto simp: sp_defs)+

lemma sp_works_keeps [simp]:
  "sp_works (snd (sp_init a sp)) = sp_works sp" "sp_works (sp_shutdown sp) = sp_works sp"
  "sp_works (snd (sp_unmute_pc_speaker sp)) = sp_works sp" "sp_works (snd (sp_set_mute b sp)) = sp_works sp"
  "sp_works (snd (sp_set_volume v sp)) = sp_works sp"
  by (cases sp; auto simp: sp_defs split: prod.splits)+

lemma sp_quiet_init: "sp_quiet m (snd (sp_init a sp)) = sp_quiet m sp"
  by (cases sp) (auto simp: sp_defs split: prod.splits)

text \<open>A speaker that is held stays held by every operation, and the unmuting gives it back.\<close>

lemma sp_holds_start: "sp_works sp \<Longrightarrow> \<not> sp_is_silenced_by_us sp \<Longrightarrow> sp_holds m sp sp"
  by (cases sp) (auto simp: sp_defs)

lemma sp_holds_released: "sp_holds m before sp \<Longrightarrow> \<not> sp_is_silenced_by_us sp \<Longrightarrow> sp_as_before m before sp"
  by (cases sp) (auto simp: is_currently_silenced_by_us_def split: if_splits)

lemma sp_holds_unmute:
  assumes "sp_holds m before sp"
  shows "sp_holds m before (snd (sp_unmute_pc_speaker sp))"
proof (cases sp)
  case (MockSpeaker c)
  then show ?thesis using assms by (auto simp: sp_defs)
next
  case (WinSpeaker api c d)
  then have w: "api_works api" using assms by simp
  show ?thesis using assms api_worksD [OF w] WinSpeaker
    by (cases m) (auto simp: sp_defs uses_mute_def uses_volume_def split: if_splits)
qed

lemma sp_holds_mute:
  assumes "sp_holds m before sp" and "sp_mute_pc_speaker m sp = Some (ok, sp')"
  shows "sp_holds m before sp'"
proof (cases sp)
  case (MockSpeaker c)
  then show ?thesis using assms by (auto simp: sp_defs split: if_splits)
next
  case (WinSpeaker api c d)
  then have w: "api_works api" using assms by simp
  obtain b v where "api_GetMute api d = Some b" "api_GetVolume api d = Some v" using api_worksD(7,8) [OF w] by blast
  then show ?thesis using assms WinSpeaker w
    by (cases m) (auto simp: sp_defs uses_mute_def uses_volume_def split: if_splits prod.splits option.splits)
qed

lemma sp_mute_quiet:
  assumes "sp_works sp" and "sp_mute_pc_speaker m sp = Some (ok, sp')"
  shows "ok \<and> sp_quiet m sp'"
proof (cases sp)
  case (MockSpeaker c)
  then show ?thesis using assms by (auto simp: sp_defs)
next
  case (WinSpeaker api c d)
  then have w: "api_works api" using assms by simp
  show ?thesis using assms WinSpeaker api_worksD [OF w]
    by (cases m) (auto simp: sp_defs uses_mute_def uses_volume_def split: if_splits prod.splits, (metis fst_conv snd_conv api_worksD [OF w])+)
qed

lemma sp_holds_command:
  assumes "sp_holds m before sp" and "sp_is_silenced_by_us sp"
  shows "sp_holds m before (snd (sp_set_mute b sp))" and "sp_holds m before (snd (sp_set_volume v sp))"
  using assms by (cases sp; auto simp: sp_defs split: prod.splits if_splits)+

lemma fresh_speaker_mark: "fresh_speaker sp \<Longrightarrow> \<not> sp_is_silenced_by_us sp"
  by (cases sp) (auto simp: is_currently_silenced_by_us_def dummy_new_def win_new_def AudioEndpointControl_def endpoint_control.defs)

text \<open>
  On Windows a volume that is set while the speaker is only muted outlasts the unmuting: the volume
  is saved, and restored only by the methods that set it.
\<close>

theorem win_volume_command_not_restored:
  assumes "api_works api" and "wc_endpoint_volume c" and "\<not> ec_is_silenced_by_us c"
    and "sp_mute_pc_speaker EndpointMute (WinSpeaker api c d) = Some (ok, sp1)"
  shows "sp_volume (snd (sp_unmute_pc_speaker (snd (sp_set_volume v sp1)))) = Some (fl_clamp v (FFin 0) (FFin 1))"
  using assms api_worksD [OF assms(1)]
  by (auto simp: sp_defs uses_mute_def uses_volume_def split: prod.splits) (metis snd_conv)+

text \<open>A device whose calls succeed, and the example: the client's half volume stays.\<close>

definition win_device_api :: "win_device endpoint_api" where
  "win_device_api = \<lparr>api_GetMute = (\<lambda>d. Some (wd_mute d)), api_SetMute = (\<lambda>b d. (True, d\<lparr>wd_mute := b\<rparr>)),
     api_GetVolume = (\<lambda>d. Some (wd_volume d)), api_SetVolume = (\<lambda>v d. (True, d\<lparr>wd_volume := v\<rparr>))\<rparr>"

lemma win_device_api_works: "api_works win_device_api"
  by (simp add: api_works_def win_device_api_def)

definition win_example :: speaker where
  "win_example = WinSpeaker win_device_api win_new \<lparr>wd_mute = False, wd_volume = FFin 1, wd_driver = 0\<rparr>"

theorem win_volume_command_not_restored_witness:
  "\<exists>sp1. sp_mute_pc_speaker EndpointMute (snd (sp_init \<lparr>cm_com = COM_OK, cm_create = True, cm_get_default = True, cm_activate = True\<rparr> win_example))
           = Some (True, sp1) \<and>
         sp_volume (snd (sp_unmute_pc_speaker (snd (sp_set_volume (FFin (1 / 2)) sp1)))) = Some (FFin (1 / 2))"
proof -
  define c where "c = win_new\<lparr>wc_com_initialized := True, wc_enumerator := True, wc_device := True, wc_endpoint_volume := True\<rparr>"
  have i: "snd (sp_init \<lparr>cm_com = COM_OK, cm_create = True, cm_get_default = True, cm_activate = True\<rparr> win_example)
      = WinSpeaker win_device_api c \<lparr>wd_mute = False, wd_volume = FFin 1, wd_driver = 0\<rparr>"
    by (simp add: win_example_def win_init_def c_def)
  have c: "wc_endpoint_volume c" "\<not> ec_is_silenced_by_us c"
    by (simp_all add: c_def win_new_def AudioEndpointControl_def endpoint_control.defs)
  obtain sp1 where m: "sp_mute_pc_speaker EndpointMute (WinSpeaker win_device_api c \<lparr>wd_mute = False, wd_volume = FFin 1, wd_driver = 0\<rparr>)
      = Some (True, sp1)"
    using c by (simp add: win_mute_pc_speaker_def uses_mute_def uses_volume_def Let_def) (simp add: win_device_api_def)
  from win_volume_command_not_restored [OF win_device_api_works c m, of "FFin (1 / 2)"] m show ?thesis
    by (simp add: i fl_clamp_def)
qed

end
