(* ===== verification/Audio_Converter.thy ===== *)
theory Audio_Converter
  imports Audio_Types Floating
begin

text \<open>
  \<^verbatim>\<open>class AudioConverter\<close> of \<^verbatim>\<open>src/common/audio_types.hpp\<close>: sample conversion between binary32 and
  16-bit PCM, the downmix to stereo and the volume control. A \<^verbatim>\<open>float\<close> expression is evaluated in
  binary32 with one rounding per operation. Every routine returns an option: \<open>None\<close> is undefined
  behaviour (an access outside a buffer, or a conversion to an integer that does not fit). The
  lemmas bound the outputs and show which inputs keep the routines defined.
\<close>

section \<open>Sample conversion\<close>

definition float_sample_to_s16 :: "flt \<Rightarrow> i16 option" where
  "float_sample_to_s16 x =
     (let v = fl_clamp x (FFin (- 1)) (FFin 1)
      in map_option word_of_int (fl_to_int (- 32768) 32767 (fl_mul binary32 v (FFin 32767))))"

definition s16_sample_to_float :: "i16 \<Rightarrow> flt" where
  "s16_sample_to_float s = fl_div_const binary32 (fl_of_int binary32 (sint s)) 32768"

definition float32_to_s16le :: "flt list \<Rightarrow> i16 list \<Rightarrow> (bool \<times> i16 list) option" where
  "float32_to_s16le src dst =
     (if length dst < length src then Some (False, dst)
      else map_option (\<lambda>ys. (True, blit dst 0 ys)) (those (map float_sample_to_s16 src)))"

definition s16le_to_float32 :: "i16 list \<Rightarrow> flt list \<Rightarrow> bool \<times> flt list" where
  "s16le_to_float32 src dst =
     (if length dst < length src then (False, dst)
      else (True, blit dst 0 (map s16_sample_to_float src)))"

text \<open>
  The overloads on raw pointers: a null pointer is \<open>None\<close>, otherwise the buffer it points to.
\<close>

definition float32_to_s16le_raw ::
    "flt list option \<Rightarrow> i16 list option \<Rightarrow> nat \<Rightarrow> i16 list option option" where
  "float32_to_s16le_raw src dst sample_count =
     (case (src, dst) of
        (Some s, Some d) \<Rightarrow>
          if sample_count = 0 then Some (Some d)
          else if length s < sample_count \<or> length d < sample_count then None
          else map_option (\<lambda>ys. Some (blit d 0 ys))
                 (those (map float_sample_to_s16 (take sample_count s)))
      | _ \<Rightarrow> Some dst)"

definition s16le_to_float32_raw ::
    "i16 list option \<Rightarrow> flt list option \<Rightarrow> nat \<Rightarrow> flt list option option" where
  "s16le_to_float32_raw src dst sample_count =
     (case (src, dst) of
        (Some s, Some d) \<Rightarrow>
          if sample_count = 0 then Some (Some d)
          else if length s < sample_count \<or> length d < sample_count then None
          else Some (Some (blit d 0 (map s16_sample_to_float (take sample_count s))))
      | _ \<Rightarrow> Some dst)"

section \<open>Downmix\<close>

abbreviation clamp1 :: "flt \<Rightarrow> flt" where
  "clamp1 v \<equiv> fl_clamp v (FFin (- 1)) (FFin 1)"

definition center_gain :: flt where "center_gain = fl_round binary32 (7071 / 10000)"
definition surround_gain :: flt where "surround_gain = fl_round binary32 (7071 / 10000)"
definition mix_gain :: flt where "mix_gain = fl_round binary32 (7 / 10)"

definition downmix_frame_surround :: "flt list \<Rightarrow> flt list" where
  "downmix_frame_surround frame =
     (let fl = clamp1 (frame ! 0); fr = clamp1 (frame ! 1); fc = clamp1 (frame ! 2);
          bl = clamp1 (frame ! 4); br = clamp1 (frame ! 5);
          left = fl_add binary32 (fl_add binary32 fl (fl_mul binary32 center_gain fc))
                   (fl_mul binary32 surround_gain bl);
          right = fl_add binary32 (fl_add binary32 fr (fl_mul binary32 center_gain fc))
                   (fl_mul binary32 surround_gain br)
      in [clamp1 (fl_mul binary32 left mix_gain), clamp1 (fl_mul binary32 right mix_gain)])"

text \<open>The channel loop of the generic branch: the two sums and the two counters.\<close>

fun downmix_sums :: "nat \<Rightarrow> flt list \<Rightarrow> flt \<Rightarrow> flt \<Rightarrow> nat \<Rightarrow> nat \<Rightarrow> flt \<times> flt \<times> nat \<times> nat" where
  "downmix_sums ch [] sum_l sum_r cnt_l cnt_r = (sum_l, sum_r, cnt_l, cnt_r)"
| "downmix_sums ch (x # xs) sum_l sum_r cnt_l cnt_r =
     (let v = clamp1 x in
      if ch mod 2 = 0 then downmix_sums (Suc ch) xs (fl_add binary32 sum_l v) sum_r (Suc cnt_l) cnt_r
      else downmix_sums (Suc ch) xs sum_l (fl_add binary32 sum_r v) cnt_l (Suc cnt_r))"

definition downmix_frame_generic :: "flt list \<Rightarrow> flt list" where
  "downmix_frame_generic frame =
     (let (sum_l, sum_r, cnt_l, cnt_r) = downmix_sums 0 frame (FFin 0) (FFin 0) 0 0;
          l = (if cnt_l \<noteq> 0 then fl_div_const binary32 sum_l (of_nat cnt_l) else FFin 0);
          r = (if cnt_r \<noteq> 0 then fl_div_const binary32 sum_r (of_nat cnt_r) else FFin 0)
      in [clamp1 l, clamp1 r])"

definition downmix_frame :: "nat \<Rightarrow> flt list \<Rightarrow> flt list" where
  "downmix_frame src_channels frame =
     (if src_channels = 2 then frame
      else if src_channels = 1 then (let v = clamp1 (frame ! 0) in [v, v])
      else if src_channels \<ge> 6 then downmix_frame_surround frame
      else downmix_frame_generic frame)"

definition downmix_impl :: "flt list \<Rightarrow> nat \<Rightarrow> flt list \<Rightarrow> nat \<Rightarrow> flt list option" where
  "downmix_impl src src_channels dst frame_count =
     (if length src < frame_count * src_channels \<or> length dst < frame_count * 2 then None
      else Some (blit dst 0
             (concat (map (\<lambda>i. downmix_frame src_channels (slice (i * src_channels) src_channels src))
                        [0..<frame_count]))))"

text \<open>The two products of the span overload are computed in \<^verbatim>\<open>size_t\<close>.\<close>

definition downmix_to_stereo_float ::
    "flt list \<Rightarrow> nat \<Rightarrow> flt list \<Rightarrow> nat \<Rightarrow> (bool \<times> flt list) option" where
  "downmix_to_stereo_float src src_channels dst frame_count =
     (if src_channels = 0 \<or> frame_count = 0 then Some (False, dst)
      else if length src < (frame_count * src_channels) mod 2 ^ 64 then Some (False, dst)
      else if length dst < (frame_count * 2) mod 2 ^ 64 then Some (False, dst)
      else map_option (Pair True) (downmix_impl src src_channels dst frame_count))"

definition downmix_to_stereo_float_raw ::
    "flt list option \<Rightarrow> nat \<Rightarrow> flt list option \<Rightarrow> nat \<Rightarrow> flt list option option" where
  "downmix_to_stereo_float_raw src src_channels dst frame_count =
     (case (src, dst) of
        (Some s, Some d) \<Rightarrow>
          if src_channels = 0 \<or> frame_count = 0 then Some dst
          else if src_channels > 32 then Some dst
          else map_option Some (downmix_impl s src_channels d frame_count)
      | _ \<Rightarrow> Some dst)"

section \<open>Volume\<close>

definition volume_sample :: "flt \<Rightarrow> i16 \<Rightarrow> i16 option" where
  "volume_sample volume s =
     map_option (\<lambda>v. word_of_int (if v < - 32768 then - 32768 else if 32767 < v then 32767 else v))
       (fl_to_int (- (2 ^ 31)) (2 ^ 31 - 1) (fl_mul binary32 (fl_of_int binary32 (sint s)) volume))"

definition apply_volume_s16le :: "i16 list \<Rightarrow> flt \<Rightarrow> i16 list option" where
  "apply_volume_s16le samples volume =
     (if samples = [] then Some samples
      else if fl_less (fl_abs (fl_sub binary32 volume (FFin 1))) (fl_round binary32 (1 / 1000))
      then Some samples
      else if fl_le volume (FFin 0) then Some (replicate (length samples) 0)
      else if \<not> fl_isfinite volume then Some (replicate (length samples) 0)
      else (let volume = fl_clamp volume (FFin 0) (FFin 10)
            in those (map (volume_sample volume) samples)))"

definition apply_volume_s16le_raw :: "i16 list option \<Rightarrow> nat \<Rightarrow> flt \<Rightarrow> i16 list option option" where
  "apply_volume_s16le_raw samples count volume =
     (case samples of
        None \<Rightarrow> Some None
      | Some s \<Rightarrow>
          if count = 0 then Some (Some s)
          else if length s < count then None
          else map_option (\<lambda>ys. Some (ys @ drop count s)) (apply_volume_s16le (take count s) volume))"

section \<open>Shared facts\<close>

lemma sint_i16_bounds: "- 32768 \<le> sint (s :: i16)" "sint s \<le> 32767"
  using sint_greater_eq [of s] sint_less [of s] by simp_all

lemma sint_word_of_int_i16: "- 32768 \<le> v \<Longrightarrow> v \<le> 32767 \<Longrightarrow> sint (word_of_int v :: i16) = v"
  by (simp add: signed_of_int signed_take_bit_int_eq_self)

lemma those_map_Some: "(\<And>x. x \<in> set xs \<Longrightarrow> f x = Some (g x)) \<Longrightarrow> those (map f xs) = Some (map g xs)"
  by (induction xs) auto

lemma those_map_total:
  "(\<And>x. x \<in> set xs \<Longrightarrow> \<exists>y. f x = Some y \<and> P x y) \<Longrightarrow>
   \<exists>ys. those (map f xs) = Some ys \<and> list_all2 P xs ys"
proof (induction xs)
  case (Cons x xs)
  obtain y where "f x = Some y" "P x y" using Cons.prems [of x] by auto
  moreover obtain ys where "those (map f xs) = Some ys" "list_all2 P xs ys"
    using Cons.IH Cons.prems by (meson list.set_intros(2))
  ultimately show ?case by simp
qed simp

lemma those_map_None: "x \<in> set xs \<Longrightarrow> f x = None \<Longrightarrow> those (map f xs) = None"
  by (induction xs) (auto split: option.splits)

section \<open>Conversion\<close>

lemma float_sample_to_s16_total:
  assumes "x \<noteq> FNaN"
  shows "\<exists>y. float_sample_to_s16 x = Some y \<and> - 32767 \<le> sint y \<and> sint y \<le> 32767"
proof -
  have "fl_in (1 * 32767) (fl_mul binary32 (clamp1 x) (FFin 32767))"
    using fl_in_clamp [OF assms] by (rule fl_in_mul) simp_all
  then have "fl_in 32767 (fl_mul binary32 (clamp1 x) (FFin 32767))" by (simp only: mult_1)
  from fl_to_int_in [OF this, of "- 32768" 32767]
  obtain k where "fl_to_int (- 32768) 32767 (fl_mul binary32 (clamp1 x) (FFin 32767)) = Some k"
    and "- 32767 \<le> k" "k \<le> 32767" by auto
  then show ?thesis by (simp add: float_sample_to_s16_def sint_word_of_int_i16)
qed

lemma float_sample_to_s16_NaN: "float_sample_to_s16 FNaN = None"
  by (simp add: float_sample_to_s16_def fl_to_int_def)

lemma fl_of_int_i16: "fl_of_int binary32 (sint (s :: i16)) = FFin (of_int (sint s))"
  using sint_i16_bounds [of s] by (intro fl_of_int_exact) (simp add: abs_less_iff)

lemma s16_sample_to_float_exact: "s16_sample_to_float s = FFin (of_int (sint s) / 32768)"
proof -
  have b: "\<bar>sint s\<bar> < 16777216" using sint_i16_bounds [of s] by (simp add: abs_less_iff)
  have p: "(2::rat) powi (- 15) = 1 / 32768" by (simp add: power_int_def power_divide)
  have "fl_round binary32 (of_int (sint s) * (1 / 32768)) = FFin (of_int (sint s) * (1 / 32768))"
    using f32_exact [OF b, of "- 15"] by (simp only: p) simp
  then show ?thesis by (simp add: s16_sample_to_float_def fl_of_int_i16)
qed

lemma float_samples_to_s16:
  assumes "FNaN \<notin> set src"
  shows "\<exists>ys. those (map float_sample_to_s16 src) = Some ys \<and> length ys = length src \<and>
              (\<forall>y \<in> set ys. - 32767 \<le> sint y \<and> sint y \<le> 32767)"
proof -
  have "\<exists>ys. those (map float_sample_to_s16 src) = Some ys \<and>
             list_all2 (\<lambda>x y. - 32767 \<le> sint y \<and> sint y \<le> 32767) src ys"
    using assms by (intro those_map_total float_sample_to_s16_total) auto
  then obtain ys where "those (map float_sample_to_s16 src) = Some ys"
    and *: "list_all2 (\<lambda>x y. - 32767 \<le> sint y \<and> sint y \<le> 32767) src ys"
    by blast
  moreover have "length ys = length src" using * by (simp add: list_all2_lengthD)
  moreover have "\<forall>y \<in> set ys. - 32767 \<le> sint y \<and> sint y \<le> 32767"
    using * by (auto simp: list_all2_conv_all_nth in_set_conv_nth)
  ultimately show ?thesis by blast
qed

text \<open>
  Converting samples to 16 bits is defined for every input without a NaN, overwrites
  exactly the first samples of the destination, and yields values in the symmetric range.
\<close>

theorem float32_to_s16le_defined:
  assumes "FNaN \<notin> set src" and "length src \<le> length dst"
  shows "\<exists>ys. float32_to_s16le src dst = Some (True, ys @ drop (length src) dst) \<and>
              length ys = length src \<and> (\<forall>y \<in> set ys. - 32767 \<le> sint y \<and> sint y \<le> 32767)"
  using float_samples_to_s16 [OF assms(1)] assms(2) by (auto simp: float32_to_s16le_def blit_def)

theorem float32_to_s16le_defined_witness:
  "\<exists>ys. float32_to_s16le [FFin 2, FInf True, FFin (1 / 2)] (replicate 4 7)
        = Some (True, ys @ [7]) \<and> length ys = 3 \<and> (\<forall>y \<in> set ys. - 32767 \<le> sint y \<and> sint y \<le> 32767)"
  using float32_to_s16le_defined [of "[FFin 2, FInf True, FFin (1 / 2)]" "replicate 4 7"]
  by (simp add: numeral_eq_Suc)

text \<open>
  A NaN sample reaches the integer conversion, whose behaviour is undefined: the clamp
  lets it through.
\<close>

theorem float32_to_s16le_nan_undefined:
  assumes "FNaN \<in> set src" and "length src \<le> length dst"
  shows "float32_to_s16le src dst = None"
  using assms by (simp add: float32_to_s16le_def those_map_None float_sample_to_s16_NaN)

theorem float32_to_s16le_nan_undefined_witness: "float32_to_s16le [FFin 0, FNaN] [0, 0] = None"
  using float32_to_s16le_nan_undefined [of "[FFin 0, FNaN]" "[0, 0]"] by simp

section \<open>Round trip\<close>

lemma roundtrip_strict:
  fixes i :: int
  assumes "i \<noteq> 0" and "\<bar>i\<bar> \<le> 32768"
  shows "\<exists>r. fl_round binary32 (of_int i * 32767 / 32768) = FFin r \<and>
             (if 0 < i then of_int i - 1 \<le> r \<and> r < of_int i else of_int i < r \<and> r \<le> of_int i + 1)"
proof -
  define q :: rat where "q = of_int i * 32767 / 32768"
  define lo where "lo = (if 0 < i then i - 1 else i)"
  have ib: "\<bar>of_int i :: rat\<bar> \<le> 32768" "1 \<le> \<bar>of_int i :: rat\<bar>"
    using assms by (metis of_int_abs of_int_le_iff of_int_numeral, simp)
  have sg: "0 < i \<Longrightarrow> (0::rat) < of_int i" "\<not> 0 < i \<Longrightarrow> (of_int i::rat) < 0" using assms(1) by auto
  have aq: "\<bar>q\<bar> = \<bar>of_int i\<bar> * 32767 / 32768" by (simp add: q_def abs_mult)
  have "of_int lo \<le> q" "q \<le> of_int (lo + 1)"
    unfolding q_def lo_def using ib(1) sg by (auto simp: abs_le_iff)
  moreover have "- 16777216 < lo" "lo + 1 < 16777216" using assms(2) by (auto simp: lo_def abs_le_iff)
  ultimately obtain r where r: "fl_round binary32 q = FFin r" "of_int lo \<le> r" "r \<le> of_int (lo + 1)"
    using f32_interval [of lo q "lo + 1"] by auto
  have "(2::rat) powi (- 126) \<le> 2 powi (- 1)" by (rule power_int_increasing) auto
  then have n: "(2::rat) powi (fmt_emin binary32 + int (fmt_prec binary32) - 1) \<le> \<bar>q\<bar>"
    using ib(2) by (simp add: aq)
  have "q \<noteq> 0" using ib(2) aq by auto
  have "\<bar>r - q\<bar> \<le> \<bar>q\<bar> / 2 ^ 24" using fl_round_relative [OF r(1) n \<open>q \<noteq> 0\<close>] by simp
  also have "\<dots> < \<bar>of_int i\<bar> / 32768" using ib(2) by (simp add: aq)
  also have "\<dots> = \<bar>of_int i - q\<bar>" using sg by (cases "0 < i") (auto simp: q_def abs_if field_simps)
  finally have "r \<noteq> of_int i" by auto
  then show ?thesis using r by (auto simp: q_def lo_def)
qed

lemma trunc_below:
  assumes "of_int i - 1 \<le> r" and "r < of_int i" and "0 < i"
  shows "rat_trunc r = i - 1"
proof -
  have "(1::rat) \<le> of_int i" using assms(3) by simp
  then have "\<not> r < 0" using assms(1) by linarith
  moreover have "\<lfloor>r\<rfloor> = i - 1" using assms by (intro floor_unique) auto
  ultimately show ?thesis by (simp add: rat_trunc_def)
qed

lemma trunc_above:
  assumes "of_int i < r" and "r \<le> of_int i + 1" and "i < 0"
  shows "rat_trunc r = i + 1"
proof (cases "r < 0")
  case True
  moreover have "\<lceil>r\<rceil> = i + 1" using assms by (intro ceiling_unique) auto
  ultimately show ?thesis by (simp add: rat_trunc_def)
next
  case False
  have "i + 1 \<le> 0" using assms(3) by simp
  then have "(of_int (i + 1) :: rat) \<le> 0" by (simp only: of_int_le_0_iff)
  then have "r = 0" and "of_int (i + 1) = (0::rat)" using False assms(2) by simp_all
  then show ?thesis by (simp add: rat_trunc_def)
qed

text \<open>
  A sample converted to \<^verbatim>\<open>float\<close> and back moves exactly one step towards zero (the
  scales are 32768 one way and 32767 with truncation the other), and silence stays silence.
\<close>

theorem s16_float_roundtrip:
  "float_sample_to_s16 (s16_sample_to_float s) = Some (word_of_int (sint s - sgn (sint s)))"
proof (cases "sint s = 0")
  case True
  then show ?thesis
    by (simp add: s16_sample_to_float_exact float_sample_to_s16_def fl_clamp_inside fl_round_def
        fl_to_int_def rat_trunc_def)
next
  case False
  define i where "i = sint s"
  have ib: "- 32768 \<le> i" "i \<le> 32767" using sint_i16_bounds [of s] by (simp_all add: i_def)
  have iq: "- 32768 \<le> (of_int i :: rat)" "(of_int i :: rat) \<le> 32767"
    using ib by (metis of_int_le_iff of_int_minus of_int_numeral, metis of_int_le_iff of_int_numeral)
  have "i \<noteq> 0" using False by (simp add: i_def)
  moreover have "\<bar>i\<bar> \<le> 32768" using ib by (simp add: abs_le_iff)
  ultimately obtain r where r: "fl_round binary32 (of_int i * 32767 / 32768) = FFin r"
    and d: "if 0 < i then of_int i - 1 \<le> r \<and> r < of_int i else of_int i < r \<and> r \<le> of_int i + 1"
    using roundtrip_strict by blast
  have t: "rat_trunc r = i - sgn i"
    using d \<open>i \<noteq> 0\<close> trunc_below [of i r] trunc_above [of i r] by (auto simp: sgn_if split: if_splits)
  have "- 32768 \<le> i - sgn i \<and> i - sgn i \<le> 32767" using ib \<open>i \<noteq> 0\<close> by (auto simp: sgn_if)
  moreover have "clamp1 (FFin (of_int i / 32768)) = FFin (of_int i / 32768)"
    using iq by (intro fl_clamp_inside) auto
  ultimately show ?thesis
    using r t by (simp add: s16_sample_to_float_exact float_sample_to_s16_def fl_to_int_def i_def [symmetric])
qed

section \<open>Volume\<close>

lemma volume_sample_total:
  assumes v: "fl_in 10 v"
  shows "\<exists>y. volume_sample v s = Some y \<and> (fl_in 1 v \<longrightarrow> \<bar>sint y\<bar> \<le> \<bar>sint s\<bar>)"
proof -
  obtain x where x: "v = FFin x" "\<bar>x\<bar> \<le> 10" using v by (auto elim: fl_inE)
  have sb: "\<bar>sint s\<bar> \<le> 32768" using sint_i16_bounds [of s] by (simp add: abs_le_iff)
  then have sq: "\<bar>of_int (sint s) :: rat\<bar> \<le> 32768" by (metis of_int_abs of_int_le_iff of_int_numeral)
  have prod: "\<bar>of_int (sint s) * x\<bar> \<le> of_int (\<bar>sint s\<bar> * b)" if "fl_in b v" for b
    using that x by (auto simp: abs_mult abs_le_iff intro!: mult_left_mono)
  have rnd: "\<exists>k. fl_to_int (- (2 ^ 31)) (2 ^ 31 - 1) (fl_round binary32 (of_int (sint s) * x)) = Some k \<and>
               \<bar>k\<bar> \<le> \<bar>sint s\<bar> * b" if "fl_in b v" "b \<le> 10" for b
  proof -
    have "\<bar>sint s\<bar> * b \<le> \<bar>sint s\<bar> * 10" using that by (simp add: mult_left_mono)
    with sb have le: "\<bar>sint s\<bar> * b \<le> 327680" by simp
    have "fl_in (\<bar>sint s\<bar> * b) (fl_round binary32 (of_int (sint s) * x))"
      using prod [OF that(1)] le by (intro fl_in_round) auto
    from fl_to_int_in [OF this, of "- (2 ^ 31)" "2 ^ 31 - 1"] show ?thesis
      using le by (auto simp: abs_le_iff)
  qed
  from rnd [OF v] obtain k where
    k: "fl_to_int (- (2 ^ 31)) (2 ^ 31 - 1) (fl_round binary32 (of_int (sint s) * x)) = Some k"
    by auto
  have "\<bar>k\<bar> \<le> \<bar>sint s\<bar>" if "fl_in 1 v" using rnd [OF that] k by auto
  then show ?thesis
    using k x sint_i16_bounds [of s] by (auto simp: volume_sample_def fl_of_int_i16 sint_word_of_int_i16)
qed

text \<open>
  The volume control is defined for every sample and every volume, NaN and infinities
  included, keeps the number of samples, and never amplifies when the volume is at most one.
\<close>

theorem apply_volume_total:
  "\<exists>ys. apply_volume_s16le xs volume = Some ys \<and> length ys = length xs \<and>
        (fl_le volume (FFin 1) \<longrightarrow> list_all2 (\<lambda>x y. \<bar>sint y\<bar> \<le> \<bar>sint x\<bar>) xs ys)"
proof -
  have same: "list_all2 (\<lambda>x y. \<bar>sint y\<bar> \<le> \<bar>sint x\<bar>) xs xs" by (simp add: list_all2_conv_all_nth)
  have zero: "list_all2 (\<lambda>x y. \<bar>sint y\<bar> \<le> \<bar>sint x\<bar>) xs (replicate (length xs) 0)"
    by (simp add: list_all2_conv_all_nth)
  show ?thesis
  proof (cases "fl_isfinite volume \<and> \<not> fl_le volume (FFin 0)")
    case True
    then obtain x where x: "volume = FFin x" "0 < x" by (cases volume) auto
    define v where "v = fl_clamp volume (FFin 0) (FFin 10)"
    have "fl_in 10 v" using x by (simp add: v_def fl_clamp_def)
    have v1: "fl_in 1 v" if "fl_le volume (FFin 1)" using x that by (simp add: v_def fl_clamp_def)
    obtain ys where ys: "those (map (volume_sample v) xs) = Some ys"
      "list_all2 (\<lambda>x y. fl_in 1 v \<longrightarrow> \<bar>sint y\<bar> \<le> \<bar>sint x\<bar>) xs ys"
      using those_map_total [of xs "volume_sample v" "\<lambda>x y. fl_in 1 v \<longrightarrow> \<bar>sint y\<bar> \<le> \<bar>sint x\<bar>"]
        volume_sample_total [OF \<open>fl_in 10 v\<close>] by blast
    then have "length ys = length xs" by (simp add: list_all2_lengthD)
    with ys v1 True same show ?thesis by (auto simp: apply_volume_s16le_def Let_def v_def)
  next
    case False
    with same zero show ?thesis by (auto simp: apply_volume_s16le_def)
  qed
qed

theorem apply_volume_total_witness:
  "\<exists>ys. apply_volume_s16le [1000, 32768] (FFin (1 / 2)) = Some ys \<and> length ys = 2 \<and>
        list_all2 (\<lambda>x y. \<bar>sint y\<bar> \<le> \<bar>sint x\<bar>) [1000 :: i16, 32768] ys"
  using apply_volume_total [of "[1000, 32768]" "FFin (1 / 2)"] by (simp add: numeral_2_eq_2)

section \<open>Downmix\<close>

lemma gains_in [simp]: "fl_in 1 center_gain" "fl_in 1 surround_gain" "fl_in 1 mix_gain"
  unfolding center_gain_def surround_gain_def mix_gain_def by (rule fl_in_round; simp)+

lemma downmix_sums_in:
  assumes "FNaN \<notin> set xs" and "fl_in (int cl) sl" and "fl_in (int cr) sr"
    and "cl + cr + length xs < 16777216"
    and "downmix_sums ch xs sl sr cl cr = (sl', sr', cl', cr')"
  shows "fl_in (int cl') sl' \<and> fl_in (int cr') sr' \<and> cl' + cr' = cl + cr + length xs"
  using assms
proof (induction xs arbitrary: ch sl sr cl cr)
  case (Cons x xs)
  have "fl_in (int cl + 1) (fl_add binary32 sl (clamp1 x))" "fl_in (int cr + 1) (fl_add binary32 sr (clamp1 x))"
    using Cons.prems by (auto intro!: fl_in_add fl_in_clamp)
  then have step: "fl_in (int (Suc cl)) (fl_add binary32 sl (clamp1 x))"
    "fl_in (int (Suc cr)) (fl_add binary32 sr (clamp1 x))"
    by (simp_all only: of_nat_Suc add.commute)
  show ?case
  proof (cases "ch mod 2 = 0")
    case True
    then show ?thesis
      using Cons.IH [of "Suc cl" "fl_add binary32 sl (clamp1 x)" cr sr "Suc ch"] Cons.prems step
      by (simp add: Let_def)
  next
    case False
    then show ?thesis
      using Cons.IH [of cl sl "Suc cr" "fl_add binary32 sr (clamp1 x)" "Suc ch"] Cons.prems step
      by (simp add: Let_def)
  qed
qed simp

lemma downmix_generic_in:
  assumes "FNaN \<notin> set frame" and "length frame < 16777216"
  shows "list_all (fl_in 1) (downmix_frame_generic frame)"
proof -
  obtain sl sr cl cr where s: "downmix_sums 0 frame (FFin 0) (FFin 0) 0 0 = (sl, sr, cl, cr)"
    using prod_cases4 by blast
  then have i: "fl_in (int cl) sl" "fl_in (int cr) sr" "cl + cr = length frame"
    using downmix_sums_in [OF assms(1) _ _ _ s] assms(2) by auto
  have "fl_div_const binary32 sl (of_nat cl) \<noteq> FNaN" if "cl \<noteq> 0"
    using fl_in_div [OF i(1)] that i(3) assms(2) by (intro fl_in_not_NaN [of "int cl"]) auto
  moreover have "fl_div_const binary32 sr (of_nat cr) \<noteq> FNaN" if "cr \<noteq> 0"
    using fl_in_div [OF i(2)] that i(3) assms(2) by (intro fl_in_not_NaN [of "int cr"]) auto
  ultimately show ?thesis by (auto simp: downmix_frame_generic_def s intro!: fl_in_clamp)
qed

lemma surround_mix_in:
  assumes "a \<noteq> FNaN" and "b \<noteq> FNaN" and "c \<noteq> FNaN"
  shows "fl_in 1 (clamp1 (fl_mul binary32 (fl_add binary32 (fl_add binary32 (clamp1 a)
           (fl_mul binary32 center_gain (clamp1 b))) (fl_mul binary32 surround_gain (clamp1 c))) mix_gain))"
proof -
  have cb: "fl_in (1 * 1) (fl_mul binary32 center_gain (clamp1 b))"
    using fl_in_clamp [OF assms(2)] by (intro fl_in_mul) auto
  have sc: "fl_in (1 * 1) (fl_mul binary32 surround_gain (clamp1 c))"
    using fl_in_clamp [OF assms(3)] by (intro fl_in_mul) auto
  have "fl_in ((1 + 1 * 1 + 1 * 1) * 1) (fl_mul binary32 (fl_add binary32 (fl_add binary32 (clamp1 a)
           (fl_mul binary32 center_gain (clamp1 b))) (fl_mul binary32 surround_gain (clamp1 c))) mix_gain)"
    by (rule fl_in_mul [OF fl_in_add [OF fl_in_add [OF fl_in_clamp [OF assms(1)] cb] sc]]) simp_all
  then show ?thesis by (intro fl_in_clamp fl_in_not_NaN)
qed

lemma downmix_frame_in:
  assumes "src_channels \<noteq> 2" and "src_channels \<noteq> 0" and "length frame = src_channels"
    and "FNaN \<notin> set frame"
  shows "list_all (fl_in 1) (downmix_frame src_channels frame)"
    and "length (downmix_frame src_channels frame) = 2"
proof -
  have n: "frame ! k \<noteq> FNaN" if "k < src_channels" for k using that assms by (metis nth_mem)
  show "list_all (fl_in 1) (downmix_frame src_channels frame)"
  proof (cases "src_channels \<ge> 6")
    case True
    then show ?thesis using n
      by (simp add: downmix_frame_def downmix_frame_surround_def Let_def surround_mix_in)
  next
    case False
    then show ?thesis using assms n
      by (auto simp: downmix_frame_def Let_def intro!: fl_in_clamp downmix_generic_in)
  qed
  show "length (downmix_frame src_channels frame) = 2"
    using assms by (auto simp: downmix_frame_def downmix_frame_surround_def downmix_frame_generic_def
        Let_def split: prod.split)
qed

lemma length_concat_const: "(\<And>i. i < n \<Longrightarrow> length (f i) = k) \<Longrightarrow> length (concat (map f [0..<n])) = n * k"
  by (induction n) auto

lemma downmix_impl_bounded:
  assumes "src_channels \<notin> {0, 2}" and "frame_count \<noteq> 0" and "FNaN \<notin> set src"
    and "frame_count * src_channels \<le> length src" and "frame_count * 2 \<le> length dst"
  shows "\<exists>ys. downmix_impl src src_channels dst frame_count = Some (ys @ drop (frame_count * 2) dst) \<and>
              length ys = frame_count * 2 \<and> list_all (fl_in 1) ys"
proof -
  define f where "f i = downmix_frame src_channels (slice (i * src_channels) src_channels src)" for i
  define ys where "ys = concat (map f [0..<frame_count])"
  have sl: "length (slice (i * src_channels) src_channels src) = src_channels"
    if "i < frame_count" for i
  proof (rule length_slice)
    have "Suc i * src_channels \<le> frame_count * src_channels" using that by (intro mult_right_mono) auto
    then show "i * src_channels + src_channels \<le> length src" using assms(4) by simp
  qed
  have nn: "FNaN \<notin> set (slice (i * src_channels) src_channels src)" for i
    using assms(3) by (auto simp: slice_def dest: in_set_takeD in_set_dropD)
  have len: "length ys = frame_count * 2"
    unfolding ys_def f_def using assms(1) sl nn by (intro length_concat_const downmix_frame_in(2)) auto
  have "list_all (fl_in 1) (f i)" if "i < frame_count" for i
    unfolding f_def using assms(1) sl [OF that] nn by (intro downmix_frame_in(1)) auto
  then have "list_all (fl_in 1) ys" by (auto simp: ys_def list_all_iff)
  moreover have "downmix_impl src src_channels dst frame_count = Some (ys @ drop (frame_count * 2) dst)"
    using assms(4,5) len by (simp add: downmix_impl_def f_def [symmetric] ys_def [symmetric] blit_def)
  ultimately show ?thesis using len by blast
qed

text \<open>
  For every layout but stereo the downmix of samples without a NaN is defined, writes
  exactly two samples per frame, and each is finite and in the range from minus one to one.
\<close>

theorem downmix_bounded:
  assumes "src_channels \<notin> {0, 2}" and "frame_count \<noteq> 0" and "FNaN \<notin> set src"
    and "frame_count * src_channels \<le> length src" and "frame_count * 2 \<le> length dst"
    and "length src < 2 ^ 64" and "length dst < 2 ^ 64"
  shows "\<exists>ys. downmix_to_stereo_float src src_channels dst frame_count
              = Some (True, ys @ drop (frame_count * 2) dst) \<and>
              length ys = frame_count * 2 \<and> list_all (fl_in 1) ys"
  using downmix_impl_bounded [OF assms(1-5)] assms by (auto simp: downmix_to_stereo_float_def)

theorem downmix_bounded_witness:
  "\<exists>ys. downmix_to_stereo_float [FFin 3, FFin 1, FFin (- 2), FFin 0, FInf True, FFin 1] 6 [FFin 5, FNaN, FFin 9] 1
        = Some (True, ys @ [FFin 9]) \<and> length ys = 2 \<and> list_all (fl_in 1) ys"
  using downmix_bounded [of 6 1 "[FFin 3, FFin 1, FFin (- 2), FFin 0, FInf True, FFin 1]" "[FFin 5, FNaN, FFin 9]"]
  by simp

end
