(* ===== verification/Capture.thy ===== *)
theory Capture
  imports Audio_Converter
begin

text \<open>
  The capture engines of the server: the interface \<^verbatim>\<open>IAudioCapture\<close> as a contract, the tone generator
  (\<^verbatim>\<open>src/server/dummy_capture.cpp\<close>), and of \<^verbatim>\<open>src/server/wasapi_capture.cpp\<close> the engine of systems other
  than Windows and the conversion of a captured buffer to stereo 16-bit PCM; \<open>Wasapi_Session\<close> has the
  session with Windows. The sine of the tone generator is an argument.
\<close>

section \<open>Tone generator\<close>

record dummy_capture =
  dcap_frequency_hz :: flt
  dcap_is_running :: bool
  dcap_config :: audio_config

definition DummyCapture :: "flt \<Rightarrow> dummy_capture" where
  "DummyCapture f = \<lparr>dcap_frequency_hz = f, dcap_is_running = False, dcap_config = default_audio_config\<rparr>"

definition dummy_capture_config :: "audio_config \<Rightarrow> audio_config" where
  "dummy_capture_config desired =
     (let c = desired;
          c = (if ac_sample_rate c = 0 then c\<lparr>ac_sample_rate := 48000\<rparr> else c);
          c = (if ac_channels c = 0 then c\<lparr>ac_channels := 2\<rparr> else c);
          c = (if ac_frames_per_packet c = 0 then c\<lparr>ac_frames_per_packet := 480\<rparr> else c)
      in c\<lparr>ac_format := PCM_S16LE\<rparr>)"

definition dummy_capture_start :: "audio_config \<Rightarrow> dummy_capture \<Rightarrow> bool \<times> audio_config \<times> dummy_capture" where
  "dummy_capture_start desired d =
     (if dcap_is_running d then (True, dcap_config d, d)
      else (let c = dummy_capture_config desired
            in (True, c, d\<lparr>dcap_config := c, dcap_is_running := True\<rparr>)))"

definition dummy_capture_stop :: "dummy_capture \<Rightarrow> dummy_capture" where
  "dummy_capture_stop d = (if \<not> dcap_is_running d then d else d\<lparr>dcap_is_running := False\<rparr>)"

definition dummy_is_capturing :: "dummy_capture \<Rightarrow> bool" where
  "dummy_is_capturing d = dcap_is_running d"

definition two_pi :: flt where
  "two_pi = fl_mul binary64 (FFin 2) (fl_round binary64 (314159265358979323846 / 10 ^ 20))"

text \<open>
  One block of the worker: the samples and the next phase; \<open>gain\<close> is 0.3 (0.25 in the mock of the
  Windows engine). \<open>None\<close> is a conversion that does not fit.
\<close>

fun tone_block :: "(flt \<Rightarrow> flt) \<Rightarrow> rat \<Rightarrow> flt \<Rightarrow> rat \<Rightarrow> nat \<Rightarrow> nat \<Rightarrow> flt \<Rightarrow> (i16 list \<times> flt) option" where
  "tone_block sin64 gain freq rate ch 0 phase = Some ([], phase)"
| "tone_block sin64 gain freq rate ch (Suc n) phase =
     (let sample = fl_mul binary64 (sin64 phase) (fl_round binary64 gain);
          phase = fl_add binary64 phase (fl_div_const binary64 (fl_mul binary64 two_pi freq) rate);
          phase = (if fl_less two_pi phase then fl_sub binary64 phase two_pi else phase)
      in (case fl_to_int (- 32768) 32767 (fl_mul binary64 sample (FFin 32767)) of
            None \<Rightarrow> None
          | Some s \<Rightarrow>
              map_option (\<lambda>(xs, p). (replicate ch (word_of_int s) @ xs, p))
                (tone_block sin64 gain freq rate ch n phase)))"

text \<open>The time the worker sleeps after a block, in microseconds.\<close>

definition block_sleep_us :: "nat \<Rightarrow> u32 \<Rightarrow> u64 \<Rightarrow> u32" where
  "block_sleep_us frames rate elapsed =
     (let target = (of_nat frames * 1000000 :: u64) div ucast rate
      in if target > elapsed then ucast (target - elapsed) else 0)"

section \<open>Windows engine\<close>

record wasapi_capture =
  wcap_is_running :: bool
  wcap_actual_config :: audio_config
  wcap_is_float :: bool
  wcap_channels :: nat
  wcap_sample_rate :: u32
  wcap_bits :: nat

definition WasapiCapture :: wasapi_capture where
  "WasapiCapture = \<lparr>wcap_is_running = False, wcap_actual_config = default_audio_config, wcap_is_float = False,
     wcap_channels = 2, wcap_sample_rate = 48000, wcap_bits = 16\<rparr>"

definition wasapi_config :: "u32 \<Rightarrow> audio_config \<Rightarrow> audio_config" where
  "wasapi_config rate desired =
     \<lparr>ac_sample_rate = rate, ac_channels = 2, ac_format = PCM_S16LE,
      ac_frames_per_packet = (if ac_frames_per_packet desired > 0 then ac_frames_per_packet desired else 480)\<rparr>"

definition wasapi_mock_config :: "audio_config \<Rightarrow> audio_config" where
  "wasapi_mock_config desired =
     wasapi_config (if ac_sample_rate desired > 0 then ac_sample_rate desired else 48000) desired"

definition wasapi_mock_start :: "audio_config \<Rightarrow> wasapi_capture \<Rightarrow> bool \<times> audio_config \<times> wasapi_capture" where
  "wasapi_mock_start desired w =
     (if wcap_is_running w then (True, wcap_actual_config w, w)
      else (let c = wasapi_mock_config desired in (True, c, w\<lparr>wcap_actual_config := c, wcap_is_running := True\<rparr>)))"

definition wasapi_stop :: "wasapi_capture \<Rightarrow> wasapi_capture" where
  "wasapi_stop w = (if \<not> wcap_is_running w then w else w\<lparr>wcap_is_running := False\<rparr>)"

text \<open>A captured buffer: the device memory read as \<^verbatim>\<open>float\<close> and as \<^verbatim>\<open>int16_t\<close>.\<close>

record capture_buffer =
  cb_float :: "flt list"
  cb_s16 :: "i16 list"

definition vector_resize :: "'a \<Rightarrow> nat \<Rightarrow> 'a list \<Rightarrow> 'a list" where
  "vector_resize z k xs = take k xs @ replicate (k - length xs) z"

lemma length_vector_resize [simp]: "length (vector_resize z k xs) = k"
  by (simp add: vector_resize_def)

definition downmix_s16 :: "i16 list \<Rightarrow> nat \<Rightarrow> nat \<Rightarrow> i16 list option" where
  "downmix_s16 src ch n =
     (if \<exists>i < n. length src \<le> i * ch + 1 then None
      else Some (concat (map (\<lambda>i. [src ! (i * ch + 0), src ! (i * ch + 1)]) [0..<n])))"

definition convert_capture ::
    "bool \<Rightarrow> capture_buffer option \<Rightarrow> nat \<Rightarrow> wasapi_capture \<Rightarrow> flt list \<Rightarrow> i16 list \<Rightarrow> (flt list \<times> i16 list) option" where
  "convert_capture silent p_data n w temp_stereo out =
     (let temp_stereo = vector_resize (FFin 0) (n * 2) temp_stereo;
          out = vector_resize 0 (n * 2) out in
      if silent then Some (temp_stereo, replicate (n * 2) 0)
      else (case p_data of
              None \<Rightarrow> Some (temp_stereo, out)
            | Some p \<Rightarrow>
                if wcap_is_float w then
                  (if wcap_channels w = 2 then
                     (case float32_to_s16le_raw (Some (cb_float p)) (Some out) (n * 2) of
                        Some (Some out) \<Rightarrow> Some (temp_stereo, out)
                      | _ \<Rightarrow> None)
                   else
                     (case downmix_to_stereo_float_raw (Some (cb_float p)) (wcap_channels w) (Some temp_stereo) n of
                        Some (Some temp_stereo) \<Rightarrow>
                          (case float32_to_s16le_raw (Some temp_stereo) (Some out) (n * 2) of
                             Some (Some out) \<Rightarrow> Some (temp_stereo, out)
                           | _ \<Rightarrow> None)
                      | _ \<Rightarrow> None))
                else if wcap_bits w = 16 then
                  (if wcap_channels w = 2 then
                     (if length (cb_s16 p) < n * 2 then None
                      else Some (temp_stereo, take (n * 2) (cb_s16 p)))
                   else map_option (Pair temp_stereo) (downmix_s16 (cb_s16 p) (wcap_channels w) n))
                else Some (temp_stereo, out)))"

section \<open>The contract of an engine\<close>

text \<open>What the server relies on: a running engine reports a packet format with whole, non-empty frames.\<close>

definition capture_config_ok :: "audio_config \<Rightarrow> bool" where
  "capture_config_ok c \<longleftrightarrow>
     ac_channels c \<noteq> 0 \<and> ac_sample_rate c \<noteq> 0 \<and> ac_frames_per_packet c \<noteq> 0 \<and> ac_format c = PCM_S16LE"

locale capture_engine =
  fixes start :: "audio_config \<Rightarrow> 'e \<Rightarrow> bool \<times> audio_config \<times> 'e"
    and stop :: "'e \<Rightarrow> 'e"
    and capturing :: "'e \<Rightarrow> bool"
    and config :: "'e \<Rightarrow> audio_config"
    and fresh :: 'e
  assumes start_runs: "start d e = (True, a, e') \<Longrightarrow> capturing e' \<and> a = config e'"
    and start_config: "start d e = (True, a, e') \<Longrightarrow> \<not> capturing e \<Longrightarrow> capture_config_ok a"
    and start_again: "capturing e \<Longrightarrow> start d e = (True, config e, e)"
    and stop_stops: "\<not> capturing (stop e)"
    and fresh_idle: "\<not> capturing fresh"
begin

lemma start_good:
  assumes "capturing e \<longrightarrow> capture_config_ok (config e)" and "start d e = (True, a, e')"
  shows "capturing e' \<and> capture_config_ok (config e') \<and> a = config e'"
  using assms start_runs start_config start_again by (cases "capturing e") (metis prod.inject, metis)

lemma restart: "start d (stop e) = (True, a, e') \<Longrightarrow> capturing e' \<and> capture_config_ok (config e')"
  using start_good [of "stop e" d a e'] stop_stops by simp

end

interpretation tone_engine: capture_engine
  dummy_capture_start dummy_capture_stop dummy_is_capturing dcap_config "DummyCapture f" for f
  by unfold_locales
    (auto simp: dummy_capture_start_def dummy_capture_stop_def dummy_is_capturing_def dummy_capture_config_def
      DummyCapture_def capture_config_ok_def Let_def split: if_splits)

interpretation mock_engine: capture_engine
  wasapi_mock_start wasapi_stop wcap_is_running wcap_actual_config WasapiCapture
  by unfold_locales
    (auto simp: wasapi_mock_start_def wasapi_stop_def wasapi_mock_config_def wasapi_config_def WasapiCapture_def
      capture_config_ok_def Let_def word_greater_zero_iff split: if_splits)

text \<open>
  Whatever configuration is asked for, zeros included, starting the tone generator always
  succeeds and reports a 16-bit format with at least one channel, frame and sample per second.
\<close>

theorem tone_generator_config_ok:
  assumes "dummy_capture_start desired (DummyCapture f) = (ok, actual, d)"
  shows "ok \<and> dummy_is_capturing d \<and> capture_config_ok actual \<and> dcap_config d = actual"
proof -
  have ok: "ok" using assms by (simp add: dummy_capture_start_def DummyCapture_def Let_def)
  then show ?thesis using tone_engine.start_good [of "DummyCapture f" desired actual d] assms tone_engine.fresh_idle
    by simp
qed

theorem tone_generator_config_ok_witness:
  "\<exists>ok actual d. dummy_capture_start (default_audio_config\<lparr>ac_channels := 0\<rparr>) (DummyCapture (FFin 440)) = (ok, actual, d) \<and>
     capture_config_ok actual"
proof -
  obtain ok actual d where e: "dummy_capture_start (default_audio_config\<lparr>ac_channels := 0\<rparr>) (DummyCapture (FFin 440)) = (ok, actual, d)"
    using prod_cases3 by blast
  show ?thesis using tone_generator_config_ok [OF e] e by blast
qed

section \<open>Conversion of captured buffers\<close>

lemma float_raw_full:
  assumes "FNaN \<notin> set (take k src)" and "k \<le> length src" and "length dst = k" and "k \<noteq> 0"
  shows "\<exists>ys. float32_to_s16le_raw (Some src) (Some dst) k = Some (Some ys) \<and> length ys = k \<and>
              (\<forall>y \<in> set ys. - 32767 \<le> sint y \<and> sint y \<le> 32767)"
  using float_samples_to_s16 [OF assms(1)] assms(2-4) by (auto simp: float32_to_s16le_raw_def blit_def)

text \<open>
  A float buffer of 1 to 32 channels without a NaN is always converted, reading only the
  captured frames, into exactly two 16-bit samples per frame, whatever the previous buffers held.
\<close>

theorem convert_capture_float:
  assumes "wcap_is_float w" and "1 \<le> wcap_channels w" and "wcap_channels w \<le> 32" and "0 < n"
    and "length (cb_float p) = n * wcap_channels w" and "FNaN \<notin> set (cb_float p)"
  shows "\<exists>temp' out'. convert_capture False (Some p) n w temp out = Some (temp', out') \<and> length out' = n * 2 \<and>
              (\<forall>y \<in> set out'. - 32767 \<le> sint y \<and> sint y \<le> 32767)"
proof (cases "wcap_channels w = 2")
  case True
  then show ?thesis
    using float_raw_full [of "n * 2" "cb_float p" "vector_resize 0 (n * 2) out"] assms
    by (auto simp: convert_capture_def Let_def)
next
  case False
  define t where "t = vector_resize (FFin 0) (n * 2) temp"
  have "\<exists>ys. downmix_impl (cb_float p) (wcap_channels w) t n = Some (ys @ drop (n * 2) t) \<and> length ys = n * 2 \<and>
          list_all (fl_in 1) ys"
    using False assms by (intro downmix_impl_bounded) (auto simp: t_def)
  then obtain ys where ys: "downmix_impl (cb_float p) (wcap_channels w) t n = Some ys" "length ys = n * 2"
    "list_all (fl_in 1) ys" by (auto simp: t_def)
  have d: "downmix_to_stereo_float_raw (Some (cb_float p)) (wcap_channels w) (Some t) n = Some (Some ys)"
    using ys assms by (simp add: downmix_to_stereo_float_raw_def)
  have "FNaN \<notin> set ys" using ys(3) by (auto simp: list_all_iff)
  then show ?thesis
    using float_raw_full [of "n * 2" ys "vector_resize 0 (n * 2) out"] ys(2) d False assms
    by (auto simp: convert_capture_def Let_def t_def [symmetric])
qed

theorem convert_capture_float_witness:
  "\<exists>temp' out'. convert_capture False (Some \<lparr>cb_float = [FFin 1, FFin 0, FFin (1 / 2)], cb_s16 = []\<rparr>) 1
       (WasapiCapture\<lparr>wcap_is_float := True, wcap_channels := 3\<rparr>) [] [] = Some (temp', out') \<and> length out' = 2"
  using convert_capture_float [of "WasapiCapture\<lparr>wcap_is_float := True, wcap_channels := 3\<rparr>" 1
      "\<lparr>cb_float = [FFin 1, FFin 0, FFin (1 / 2)], cb_s16 = []\<rparr>" "[]" "[]"] by auto

text \<open>
  A 16-bit device with a single channel is read one sample past its buffer: the right
  channel of the last frame is taken from behind the captured data.
\<close>

theorem convert_capture_mono_s16_overread:
  assumes "\<not> wcap_is_float w" and "wcap_bits w = 16" and "wcap_channels w = 1" and "0 < n"
    and "length (cb_s16 p) = n"
  shows "convert_capture False (Some p) n w temp out = None"
proof -
  have "\<exists>i < n. length (cb_s16 p) \<le> i * 1 + 1" using assms(4,5) by (intro exI [of _ "n - 1"]) simp
  then show ?thesis using assms by (simp add: convert_capture_def downmix_s16_def Let_def)
qed

theorem convert_capture_mono_s16_overread_witness:
  "convert_capture False (Some \<lparr>cb_float = [], cb_s16 = [7, 8]\<rparr>) 2 (WasapiCapture\<lparr>wcap_channels := 1\<rparr>) [] [] = None"
  by (rule convert_capture_mono_s16_overread) (simp_all add: WasapiCapture_def)

section \<open>Pacing\<close>

text \<open>
  After a block the generator sleeps at most the duration of the block, so the pause never
  wraps to a huge value, provided the block is shorter than $2^{32}$ microseconds.
\<close>

theorem block_sleep_bounded:
  assumes "0 < unat rate" and "frames * 1000000 div unat rate < 2 ^ 32" and "frames < 2 ^ 40"
  shows "unat (block_sleep_us frames rate elapsed) \<le> frames * 1000000 div unat rate"
proof -
  define target where "target = (of_nat frames * 1000000 :: u64) div ucast rate"
  have "frames * 1000000 < 2 ^ 64" using assms(3) by simp
  then have "unat (of_nat frames * 1000000 :: u64) = frames * 1000000"
    by (simp add: unat_word_ariths unat_of_nat)
  moreover have "unat (ucast rate :: u64) = unat rate"
    using unsigned_less [of rate, where ?'a = nat] by (simp add: unsigned_ucast_eq take_bit_nat_eq_self)
  ultimately have t: "unat target = frames * 1000000 div unat rate"
    by (simp add: target_def unat_div_distrib)
  have "unat (ucast (target - elapsed) :: u32) \<le> unat target" if "target > elapsed"
  proof -
    have "unat (target - elapsed) = unat target - unat elapsed"
      using that by (simp add: unat_sub_if_size word_le_nat_alt word_less_nat_alt less_imp_le)
    moreover have "unat (ucast (target - elapsed) :: u32) \<le> unat (target - elapsed)"
      by (simp add: unsigned_ucast_eq take_bit_nat_less_eq_self)
    ultimately show ?thesis by simp
  qed
  then show ?thesis by (auto simp: block_sleep_us_def Let_def target_def [symmetric] t)
qed

theorem block_sleep_bounded_witness: "unat (block_sleep_us 480 48000 100) \<le> 10000"
  using block_sleep_bounded [of 48000 480 100] by simp

end
