(* ===== verification/Usb_Tunnel.thy ===== *)
theory Usb_Tunnel
  imports Prelude
begin

text \<open>
  \<^verbatim>\<open>src/common/usb_tunnel.hpp\<close>: the length-prefixed framing both relays run over the adb reverse
  TCP connection. A socket call's outcome is decided by the operating system, so \<open>read_frame\<close> and
  \<open>write_frame\<close> take the sequence of outcomes their calls will see; a run that needs more outcomes
  than the sequence holds is still waiting and has the value \<open>None\<close>. The lemmas show that frames
  survive any fragmentation of the byte stream.
\<close>

section \<open>Framing constants and socket outcomes\<close>

definition kFrameHeaderSize :: nat where "kFrameHeaderSize = 4"
definition kMaxFramePayload :: nat where "kMaxFramePayload = 65536"

datatype recv_result = Frame | Closed | Timeout | RecvError

text \<open>
  One iteration's socket call: \<^verbatim>\<open>recv\<close> returned bytes; 0; \<^verbatim>\<open>-1\<close> with \<^verbatim>\<open>EAGAIN\<close>, and
  \<^verbatim>\<open>wait_readable(20)\<close> returned the given value; or \<^verbatim>\<open>-1\<close> with another error.
\<close>

datatype recv_outcome = Received "byte list" | RecvEof | RecvWouldBlock int | RecvFailed

datatype send_outcome = Sent nat | SendZero | SendWouldBlock int | SendFailed

text \<open>\<^verbatim>\<open>select2\<close>: which of the two sockets are reported, given their open state and readiness.\<close>

definition select2 :: "(bool \<times> bool) option \<Rightarrow> (bool \<times> bool) option \<Rightarrow> int \<Rightarrow> int" where
  "select2 tcp udp r =
     (let is_open_of = (\<lambda>s. case s of None \<Rightarrow> False | Some (op, _) \<Rightarrow> op);
          isset = (\<lambda>s. case s of None \<Rightarrow> False | Some (op, rdy) \<Rightarrow> op \<and> rdy)
      in if \<not> is_open_of tcp \<and> \<not> is_open_of udp then 0
         else if r \<le> 0 then 0
         else (if isset tcp then 1 else 0) + (if isset udp then 2 else 0))"

section \<open>Reading a frame\<close>

definition frame_len :: "byte list \<Rightarrow> u32" where
  "frame_len rx =
     ucast (rx ! 0) OR push_bit 8 (ucast (rx ! 1)) OR push_bit 16 (ucast (rx ! 2)) OR
     push_bit 24 (ucast (rx ! 3))"

text \<open>
  One look at the reassembly buffer: \<open>None\<close> when no complete frame is there yet, otherwise the
  result, the new buffer and the frame's payload.
\<close>

definition extract_frame :: "byte list \<Rightarrow> (recv_result \<times> byte list \<times> byte list) option" where
  "extract_frame rx =
     (if length rx \<ge> kFrameHeaderSize
      then (let len = unat (frame_len rx) in
            if len > kMaxFramePayload then Some (RecvError, [], [])
            else if length rx \<ge> kFrameHeaderSize + len
            then Some (Frame, drop (kFrameHeaderSize + len) rx, slice kFrameHeaderSize len rx)
            else None)
      else None)"

text \<open>
  \<^verbatim>\<open>read_frame\<close>: the result, the reassembly buffer, the payload and the outcomes not used.
\<close>

fun read_frame ::
  "byte list \<Rightarrow> recv_outcome list \<Rightarrow> (recv_result \<times> byte list \<times> byte list \<times> recv_outcome list) option"
where
  "read_frame rx outs =
     (case extract_frame rx of
        Some (r, rx', payload) \<Rightarrow> Some (r, rx', payload, outs)
      | None \<Rightarrow>
          (case outs of
             [] \<Rightarrow> None
           | Received chunk # outs' \<Rightarrow> read_frame (rx @ chunk) outs'
           | RecvEof # outs' \<Rightarrow> Some (Closed, rx, [], outs')
           | RecvWouldBlock r # outs' \<Rightarrow>
               if r = 1 then read_frame rx outs'
               else if r = 0 then Some (Timeout, rx, [], outs')
               else Some (RecvError, rx, [], outs')
           | RecvFailed # outs' \<Rightarrow> Some (RecvError, rx, [], outs')))"

declare read_frame.simps [simp del]

section \<open>Writing a frame\<close>

definition frame_header :: "nat \<Rightarrow> byte list" where
  "frame_header len =
     [word_of_nat (len AND 0xFF), word_of_nat (drop_bit 8 len AND 0xFF),
      word_of_nat (drop_bit 16 len AND 0xFF), word_of_nat (drop_bit 24 len AND 0xFF)]"

text \<open>\<^verbatim>\<open>send_fully\<close>: success, the bytes that reached the socket, and the outcomes not used.\<close>

fun send_fully :: "byte list \<Rightarrow> send_outcome list \<Rightarrow> (bool \<times> byte list \<times> send_outcome list) option"
where
  "send_fully p outs =
     (if p = [] then Some (True, [], outs)
      else (case outs of
              [] \<Rightarrow> None
            | Sent n # outs' \<Rightarrow>
                if n = 0 then Some (False, [], outs')
                else map_option (\<lambda>(ok, w, r). (ok, take n p @ w, r)) (send_fully (drop n p) outs')
            | SendZero # outs' \<Rightarrow> Some (False, [], outs')
            | SendWouldBlock r # outs' \<Rightarrow>
                if r \<noteq> 1 then Some (False, [], outs') else send_fully p outs'
            | SendFailed # outs' \<Rightarrow> Some (False, [], outs')))"

declare send_fully.simps [simp del]

definition write_frame ::
  "byte list \<Rightarrow> send_outcome list \<Rightarrow> (bool \<times> byte list \<times> send_outcome list) option" where
  "write_frame data outs =
     (if length data > kMaxFramePayload then Some (False, [], outs)
      else (case send_fully (frame_header (length data)) outs of
              None \<Rightarrow> None
            | Some (ok1, w1, outs1) \<Rightarrow>
                if \<not> ok1 then Some (False, w1, outs1)
                else map_option (\<lambda>(ok2, w2, outs2). (ok2, w1 @ w2, outs2)) (send_fully data outs1)))"

section \<open>Header encoding\<close>

text \<open>The wire form of one frame.\<close>

definition frame_bytes :: "byte list \<Rightarrow> byte list" where
  "frame_bytes payload = frame_header (length payload) @ payload"

lemma and_255: "x AND 255 = x mod 256" for x :: nat
  using take_bit_eq_mask [of 8 x] by (simp add: take_bit_eq_mod mask_eq_exp_minus_1)

lemma word_of_nat_mod_256: "(word_of_nat (x mod 256) :: byte) = word_of_nat x"
  by (rule word_unat_eq_iff [THEN iffD2]) (simp add: unat_of_nat)

lemma frame_header_le: "frame_header len = le_encode 4 len"
proof -
  have four: "(4 :: nat) = Suc (Suc (Suc (Suc 0)))" by simp
  show ?thesis
    unfolding frame_header_def four le_encode.simps
    by (simp add: and_255 word_of_nat_mod_256 drop_bit_eq_div flip: div_mult2_eq)
qed

lemma ucast_shift_disjoint:
  "(ucast a :: u32) AND (push_bit 8 x) = 0" for a :: byte
  by (rule bit_eqI) (auto simp: bit_simps dest: bit_imp_le_length)

lemma ucast_or_shift:
  "(ucast a :: u32) OR push_bit 8 x = ucast a + push_bit 8 x" for a :: byte
  by (rule disjunctive_add_eq_or [symmetric]) (rule ucast_shift_disjoint)

lemma unat_frame_len_cons:
  "unat (frame_len (b0 # b1 # b2 # b3 # rest)) =
   unat b0 + 256 * (unat b1 + 256 * (unat b2 + 256 * unat b3))"
proof -
  have b: "unat b0 < 256" "unat b1 < 256" "unat b2 < 256" "unat b3 < 256"
    by (rule unat_byte_less)+
  have "frame_len (b0 # b1 # b2 # b3 # rest) =
        ucast b0 OR push_bit 8 (ucast b1 OR push_bit 8 (ucast b2 OR push_bit 8 (ucast b3)))"
    by (simp add: frame_len_def numeral_2_eq_2 numeral_3_eq_3 push_bit_or or.assoc)
  also have "\<dots> = ucast b0 + push_bit 8 (ucast b1 + push_bit 8 (ucast b2 + push_bit 8 (ucast b3)))"
    by (simp only: ucast_or_shift)
  also have "\<dots> = word_of_nat (unat b0 + 256 * (unat b1 + 256 * (unat b2 + 256 * unat b3)))"
    by (simp add: push_bit_eq_mult algebra_simps)
  finally have "unat (frame_len (b0 # b1 # b2 # b3 # rest)) =
      (unat b0 + 256 * (unat b1 + 256 * (unat b2 + 256 * unat b3))) mod 2 ^ 32"
    by (simp only: unat_of_nat) simp
  with b show ?thesis by simp
qed

lemma unat_frame_len:
  assumes "4 \<le> length rx"
  shows "unat (frame_len rx) = le_decode (take 4 rx)"
proof -
  from assms obtain b0 b1 b2 b3 rest where "rx = b0 # b1 # b2 # b3 # rest"
    by (auto simp: numeral_eq_Suc Suc_le_length_iff)
  then show ?thesis by (simp add: unat_frame_len_cons)
qed

section \<open>Framing correctness\<close>

lemma length_frame_header [simp]: "length (frame_header n) = kFrameHeaderSize"
  by (simp add: frame_header_def kFrameHeaderSize_def)

lemma unat_frame_len_header:
  assumes "n \<le> kMaxFramePayload"
  shows "unat (frame_len (frame_header n @ rest)) = n"
  using assms
  by (simp add: unat_frame_len frame_header_le le_decode_encode kMaxFramePayload_def
      del: le_encode.simps le_decode.simps)

text \<open>A buffer that starts with a whole frame yields that frame and keeps the rest.\<close>

lemma extract_frame_whole:
  assumes "length payload \<le> kMaxFramePayload"
  shows "extract_frame (frame_bytes payload @ rest) = Some (Frame, rest, payload)"
  using assms unat_frame_len_header [OF assms, of "payload @ rest"]
  by (simp add: extract_frame_def frame_bytes_def Let_def slice_def)

text \<open>A proper prefix of a frame yields nothing: the reader keeps waiting.\<close>

lemma extract_frame_partial:
  assumes pre: "rx @ more = frame_bytes payload @ rest" and short: "length rx < length (frame_bytes payload)"
    and len: "length payload \<le> kMaxFramePayload"
  shows "extract_frame rx = None"
proof (cases "kFrameHeaderSize \<le> length rx")
  case False
  then show ?thesis by (simp add: extract_frame_def)
next
  case True
  have "take kFrameHeaderSize rx = take kFrameHeaderSize (rx @ more)" using True by simp
  also have "\<dots> = frame_header (length payload)" unfolding pre by (simp add: frame_bytes_def)
  finally have "take 4 rx = frame_header (length payload)" by (simp add: kFrameHeaderSize_def)
  then have "unat (frame_len rx) = length payload"
    using True len unat_frame_len [of rx] unat_frame_len_header [OF len, of "[]"]
      unat_frame_len [of "frame_header (length payload)"]
    by (simp add: kFrameHeaderSize_def)
  then show ?thesis
    using short len by (simp add: extract_frame_def Let_def frame_bytes_def)
qed

text \<open>The bytes an outcome sequence will deliver, and sequences that only deliver bytes.\<close>

fun delivered :: "recv_outcome list \<Rightarrow> byte list" where
  "delivered [] = []"
| "delivered (Received chunk # outs) = chunk @ delivered outs"
| "delivered (_ # outs) = delivered outs"

fun healthy :: "recv_outcome list \<Rightarrow> bool" where
  "healthy [] = True"
| "healthy (Received _ # outs) = healthy outs"
| "healthy (RecvWouldBlock r # outs) = (r = 1 \<and> healthy outs)"
| "healthy (_ # outs) = False"

lemma read_frame_received:
  "extract_frame rx = None \<Longrightarrow> read_frame rx (Received chunk # outs) = read_frame (rx @ chunk) outs"
  by (simp add: read_frame.simps [of rx])

lemma read_frame_retry:
  "extract_frame rx = None \<Longrightarrow> read_frame rx (RecvWouldBlock 1 # outs) = read_frame rx outs"
  by (subst read_frame.simps) simp

lemma read_frame_step:
  assumes "length payload \<le> kMaxFramePayload" and "healthy outs"
    and "rx @ delivered outs = frame_bytes payload @ rest"
  shows "\<exists>rx' outs'. read_frame rx outs = Some (Frame, rx', payload, outs') \<and> healthy outs' \<and>
                     rx' @ delivered outs' = rest"
  using assms(2,3)
proof (induction rx outs rule: read_frame.induct)
  case (1 rx outs)
  show ?case
  proof (cases "length (frame_bytes payload) \<le> length rx")
    case True
    then obtain rest' where rx: "rx = frame_bytes payload @ rest'"
      using "1.prems"(2) by (metis append_eq_append_conv_if append_take_drop_id)
    then have "rest' @ delivered outs = rest" using "1.prems"(2) by simp
    with "1.prems"(1) show ?thesis
      using extract_frame_whole [OF assms(1), of rest'] by (simp add: rx read_frame.simps)
  next
    case False
    then have ex: "extract_frame rx = None"
      using extract_frame_partial [OF "1.prems"(2) _ assms(1)] by simp
    show ?thesis
    proof (cases outs)
      case Nil
      with "1.prems"(2) False have "length rx = length (frame_bytes payload @ rest)" by simp
      with False show ?thesis by simp
    next
      case (Cons o1 outs1)
      then show ?thesis
      proof (cases o1)
        case (Received chunk)
        with "1.IH"(1) [OF ex Cons] "1.prems" Cons ex show ?thesis
          by (simp add: read_frame_received)
      next
        case (RecvWouldBlock r)
        with "1.IH"(2) [OF ex Cons] "1.prems" Cons ex show ?thesis
          by (simp add: read_frame_retry)
      qed (use "1.prems"(1) Cons in simp_all)
    qed
  qed
qed

text \<open>Repeated reads on one connection, as the relays make them.\<close>

fun read_frames :: "nat \<Rightarrow> byte list \<Rightarrow> recv_outcome list \<Rightarrow> byte list list option" where
  "read_frames 0 rx outs = Some []"
| "read_frames (Suc n) rx outs =
     (case read_frame rx outs of
        Some (Frame, rx', payload, outs') \<Rightarrow> map_option ((#) payload) (read_frames n rx' outs')
      | _ \<Rightarrow> None)"

lemma read_frames_all:
  assumes "\<forall>p \<in> set ps. length p \<le> kMaxFramePayload" and "healthy outs"
    and "rx @ delivered outs = concat (map frame_bytes ps) @ rest"
  shows "read_frames (length ps) rx outs = Some ps"
  using assms
proof (induction ps arbitrary: rx outs)
  case Nil
  then show ?case by simp
next
  case (Cons p ps)
  have "length p \<le> kMaxFramePayload" using Cons.prems(1) by simp
  moreover have "rx @ delivered outs = frame_bytes p @ (concat (map frame_bytes ps) @ rest)"
    using Cons.prems(3) by simp
  ultimately obtain rx' outs' where
    r: "read_frame rx outs = Some (Frame, rx', p, outs')" "healthy outs'"
       "rx' @ delivered outs' = concat (map frame_bytes ps) @ rest"
    using read_frame_step [OF _ Cons.prems(2)] by blast
  then have "read_frames (length ps) rx' outs' = Some ps" using Cons.IH Cons.prems(1) by simp
  with r(1) show ?case by simp
qed

text \<open>
  Claim C20: frames survive the tunnel whatever the fragmentation. If the bytes of a sequence
  of frames arrive in any chunks, with any number of would-block waits in between, then reading as
  many frames returns exactly the payloads sent, in order.
\<close>

theorem tunnel_frames_survive_fragmentation:
  assumes "\<forall>p \<in> set ps. length p \<le> kMaxFramePayload"
    and "healthy outs" and "delivered outs = concat (map frame_bytes ps)"
  shows "read_frames (length ps) [] outs = Some ps"
  using read_frames_all [OF assms(1,2), of "[]" "[]"] assms(3) by simp

theorem tunnel_frames_survive_fragmentation_witness:
  "read_frames (length [[7, 8 :: byte], []]) []
     [Received [2, 0], RecvWouldBlock 1, Received [0, 0, 7], Received [8, 0, 0], Received [0, 0]] =
   Some [[7, 8], []]"
  by (rule tunnel_frames_survive_fragmentation)
    (simp_all add: kMaxFramePayload_def frame_bytes_def frame_header_def and_255 drop_bit_eq_div)

text \<open>What \<open>send_fully\<close> puts on the wire is a prefix of its input, all of it on success.\<close>

lemma send_fully_sent:
  "p \<noteq> [] \<Longrightarrow> 0 < n \<Longrightarrow> send_fully p (Sent n # outs) =
     map_option (\<lambda>(ok, w, r). (ok, take n p @ w, r)) (send_fully (drop n p) outs)"
  by (subst send_fully.simps) simp

lemma send_fully_blocked:
  "p \<noteq> [] \<Longrightarrow> send_fully p (SendWouldBlock r # outs) =
     (if r \<noteq> 1 then Some (False, [], outs) else send_fully p outs)"
  by (subst send_fully.simps) simp

lemma send_fully_prefix:
  "send_fully p outs = Some (ok, w, outs') \<Longrightarrow>
   (\<exists>rest. p = w @ rest) \<and> (ok \<longleftrightarrow> w = p)"
proof (induction p outs arbitrary: ok w outs' rule: send_fully.induct)
  case (1 p outs)
  show ?case
  proof (cases "p = []")
    case True
    with "1.prems" show ?thesis by (simp add: send_fully.simps)
  next
    case False
    then obtain o1 outs1 where outs: "outs = o1 # outs1"
      using "1.prems" by (cases outs) (auto simp: send_fully.simps)
    show ?thesis
    proof (cases o1)
      case (Sent n)
      show ?thesis
      proof (cases "n = 0")
        case True
        with "1.prems" False Sent outs show ?thesis by (simp add: send_fully.simps)
      next
        case n: False
        obtain w1 where s: "send_fully (drop n p) outs1 = Some (ok, w1, outs')"
          and w: "w = take n p @ w1"
          using "1.prems" False Sent outs n by (auto simp: send_fully_sent)
        from "1.IH"(1) [OF False outs Sent n s]
        show ?thesis by (metis append.assoc append_take_drop_id same_append_eq w)
      qed
    next
      case (SendWouldBlock r)
      with "1.prems" False outs "1.IH"(2) [OF False outs SendWouldBlock]
      show ?thesis by (auto simp: send_fully_blocked split: if_splits)
    qed (use "1.prems" False outs in \<open>simp_all add: send_fully.simps\<close>)
  qed
qed

lemma write_frame_result:
  assumes "write_frame data outs = Some (ok, wire, outs')"
  shows "(\<exists>rest. frame_bytes data = wire @ rest) \<and>
         (ok \<longleftrightarrow> length data \<le> kMaxFramePayload \<and> wire = frame_bytes data)"
proof (cases "length data > kMaxFramePayload")
  case True
  with assms show ?thesis by (simp add: write_frame_def)
next
  case False
  obtain ok1 w1 outs1 where s1: "send_fully (frame_header (length data)) outs = Some (ok1, w1, outs1)"
    using assms False by (auto simp: write_frame_def split: option.splits)
  note p1 = send_fully_prefix [OF s1]
  show ?thesis
  proof (cases ok1)
    case no: False
    with assms False s1 have "ok = False" "wire = w1" by (simp_all add: write_frame_def)
    with p1 no show ?thesis by (auto simp: frame_bytes_def)
  next
    case True
    with assms False s1 obtain w2 where "send_fully data outs1 = Some (ok, w2, outs')"
      and w: "wire = w1 @ w2"
      by (auto simp: write_frame_def)
    note p2 = send_fully_prefix [OF this(1)]
    show ?thesis using p1 p2 True w False by (auto simp: frame_bytes_def)
  qed
qed

text \<open>
  A frame writer never emits anything but its frame: what reached the socket is a
  prefix of the frame's wire form, and the call reports success exactly when the whole frame is out.
\<close>

theorem write_frame_exact:
  assumes "write_frame data outs = Some (ok, wire, outs')"
  shows "(\<exists>rest. frame_bytes data = wire @ rest) \<and>
         (ok \<longleftrightarrow> length data \<le> kMaxFramePayload \<and> wire = frame_bytes data)"
  by (rule write_frame_result [OF assms])

theorem write_frame_exact_witness:
  "(\<exists>rest. frame_bytes [7, 8] = [2, 0, 0, 0, 7, 8] @ rest) \<and>
   (True \<longleftrightarrow> length [7, 8 :: byte] \<le> kMaxFramePayload \<and> [2, 0, 0, 0, 7, 8] = frame_bytes [7, 8])"
  by (rule write_frame_exact [where outs = "[Sent 1, SendWouldBlock 1, Sent 3, Sent 9]" and outs' = "[]"])
    (simp add: write_frame_def kMaxFramePayload_def frame_header_def and_255 drop_bit_eq_div
      send_fully.simps)

text \<open>
  A corrupt length never makes the reader buffer without bound: a prefix that
  announces more than the cap fails at once and empties the reassembly buffer.
\<close>

theorem read_frame_rejects_oversize:
  assumes "kFrameHeaderSize \<le> length rx" and "unat (frame_len rx) > kMaxFramePayload"
  shows "read_frame rx outs = Some (RecvError, [], [], outs)"
  using assms by (simp add: read_frame.simps extract_frame_def Let_def)

theorem read_frame_rejects_oversize_witness:
  "read_frame [0, 0, 2, 0, 9] [] = Some (RecvError, [], [], [])"
  by (rule read_frame_rejects_oversize)
    (simp_all add: kFrameHeaderSize_def kMaxFramePayload_def unat_frame_len_cons)

end
