(* ===== verification/Server.thy ===== *)
theory Server
  imports Protocol Socket_Util Endpoint_Control Capture Usb_Tunnel
begin

text \<open>
  \<^verbatim>\<open>src/server/server.{hpp,cpp}\<close>: the session state machine of the server. Every handler is a
  function on the record of the class's members; the datagrams it sends are appended to a log. The
  capture engine is reached through a record of its operations, as the code reaches it through
  \<^verbatim>\<open>IAudioCapture\<close>; the speaker is the one the build has, the dummy device or the Windows endpoint. What
  the system decides (clocks, results of socket calls, the answers of COM) is an argument of every step.
  The threads interleave at the granularity of a handler, a watchdog tick, a capture callback or a relay
  event. A step that gives \<open>None\<close> calls through a null pointer or never returns.
\<close>

section \<open>State\<close>

record server_config =
  sc_port :: u16
  sc_bind_ip :: string
  sc_sample_rate :: u32
  sc_channels :: u16
  sc_frames_per_packet :: u32
  sc_auto_mute_pc_speaker :: bool
  sc_mute_method :: mute_method
  sc_client_timeout_ms :: u32
  sc_use_test_tone :: bool
  sc_test_tone_freq :: flt
  sc_usb_mode :: bool

definition default_server_config :: server_config where
  "default_server_config =
     \<lparr>sc_port = DEFAULT_PORT, sc_bind_ip = ''0.0.0.0'', sc_sample_rate = 48000, sc_channels = 2,
      sc_frames_per_packet = 240, sc_auto_mute_pc_speaker = True, sc_mute_method = EndpointMute,
      sc_client_timeout_ms = 8000, sc_use_test_tone = False, sc_test_tone_freq = FFin 440, sc_usb_mode = False\<rparr>"

datatype server_state = STOPPED | LISTENING | STREAMING

record server_stats =
  ss_packets_sent :: u64
  ss_bytes_sent :: u64
  ss_audio_frames_captured :: u64
  ss_client_rtt_us :: u32
  ss_client_buffer_level :: u32
  ss_client_lost_packets :: u32

text \<open>The operations of a capture engine; \<open>start\<close> takes the desired and the previous actual format.\<close>

record 'e capture_ops =
  co_start :: "audio_config \<Rightarrow> audio_config \<Rightarrow> 'e \<Rightarrow> bool \<times> audio_config \<times> 'e"
  co_stop :: "'e \<Rightarrow> 'e"
  co_is_capturing :: "'e \<Rightarrow> bool"

record 'e server =
  sv_config :: server_config
  sv_is_running :: bool
  sv_state :: server_state
  sv_socket :: udp_socket
  sv_engine :: "'e option"
  sv_endpoint :: speaker
  sv_actual_audio_config :: audio_config
  sv_active_client :: socket_address
  sv_last_client_activity_time_ms :: u64
  sv_sequence_number :: u32
  sv_stats :: server_stats
  sv_chunk_buffer :: "byte list"
  sv_sent :: "(byte list \<times> socket_address) list"

text \<open>\<open>sp\<close> is the endpoint control as its own constructor makes it, on the device of the machine.\<close>

definition AudioRouterServer :: "speaker \<Rightarrow> server_config \<Rightarrow> 'e server" where
  "AudioRouterServer sp config =
     \<lparr>sv_config = config, sv_is_running = False, sv_state = STOPPED, sv_socket = UdpSocket, sv_engine = None,
      sv_endpoint = sp, sv_actual_audio_config = default_audio_config,
      sv_active_client = SocketAddress_empty, sv_last_client_activity_time_ms = 0, sv_sequence_number = 0,
      sv_stats = \<lparr>ss_packets_sent = 0, ss_bytes_sent = 0, ss_audio_frames_captured = 0, ss_client_rtt_us = 0,
                  ss_client_buffer_level = 0, ss_client_lost_packets = 0\<rparr>,
      sv_chunk_buffer = [], sv_sent = []\<rparr>"

text \<open>
  The environment of one step: clock readings in the order the code takes them, the handle the
  system gives to a new socket, the result of sending a datagram, and what COM answers.
\<close>

record env =
  en_now_us :: u64
  en_now_ms :: u64
  en_now_ms2 :: u64
  en_packet_time_us :: "u32 \<Rightarrow> u64"
  en_socket :: int
  en_sendto :: "byte list \<Rightarrow> int"
  en_com :: com_answers

definition sv_send :: "env \<Rightarrow> byte list \<Rightarrow> socket_address \<Rightarrow> 'e server \<Rightarrow> int \<times> 'e server" where
  "sv_send env data dest s =
     (case udp_send_to (en_socket env) (en_sendto env data) data dest (sv_socket s) of
        (r, out, sock) \<Rightarrow>
          (r, s\<lparr>sv_socket := sock, sv_sent := sv_sent s @ (case out of None \<Rightarrow> [] | Some d \<Rightarrow> [d])\<rparr>))"

section \<open>Handlers\<close>

definition handle_discovery_req :: "env \<Rightarrow> socket_address \<Rightarrow> 'e server \<Rightarrow> 'e server" where
  "handle_discovery_req env sender s =
     (let hdr = make_header DISCOVERY_RESP 0 (en_now_us env) (word_of_nat sizeof_discovery_resp_payload) FLAG_NONE;
          pay = \<lparr>dr_server_name = strncpy_field 32 ''AudioRouter-PC-Server'',
                 dr_server_version = ucast CURRENT_VERSION, dr_server_port = sc_port (sv_config s),
                 dr_is_busy = (if sv_state s = STREAMING then 1 else 0),
                 dr_pc_muted = (if sp_is_silenced_by_us (sv_endpoint s) then 1 else 0)\<rparr>
      in snd (sv_send env (encode_common_header hdr @ encode_discovery_resp_payload pay) sender s))"

definition nak_packet :: "u64 \<Rightarrow> byte list" where
  "nak_packet now_us =
     encode_common_header (make_header CONNECT_NAK 0 now_us (word_of_nat sizeof_connect_nak_payload) FLAG_NONE) @
     encode_connect_nak_payload
       \<lparr>cn_error_code = 1, cn_reason = strncpy_field 64 ''Server is currently streaming to another client''\<rparr>"

definition ack_packet :: "u64 \<Rightarrow> audio_config \<Rightarrow> bool \<Rightarrow> byte list" where
  "ack_packet now_us c muted_ok =
     encode_common_header (make_header CONNECT_ACK 0 now_us (word_of_nat sizeof_connect_ack_payload) FLAG_NONE) @
     encode_connect_ack_payload
       \<lparr>ca_status_code = 0, ca_sample_rate = ac_sample_rate c, ca_channels = ac_channels c,
        ca_format = u8_of_format (ac_format c), ca_frames_per_packet = ucast (ac_frames_per_packet c),
        ca_pc_speaker_muted = (if muted_ok then 1 else 0),
        ca_status_msg = strncpy_field 64 ''Connected: Audio routed to client''\<rparr>"

definition desired_audio_config :: "server_config \<Rightarrow> audio_config" where
  "desired_audio_config c =
     \<lparr>ac_sample_rate = sc_sample_rate c, ac_channels = sc_channels c, ac_format = PCM_S16LE,
      ac_frames_per_packet = sc_frames_per_packet c\<rparr>"

text \<open>
  The engine exists whenever the server runs; \<open>None\<close> is a call through the null pointer, or the muting
  that locks its mutex twice.
\<close>

definition handle_connect_req :: "'e capture_ops \<Rightarrow> env \<Rightarrow> socket_address \<Rightarrow> 'e server \<Rightarrow> 'e server option" where
  "handle_connect_req ops env sender s =
     (if sv_state s = STREAMING \<and> sa_valid (sv_active_client s) \<and> \<not> sa_eq (sv_active_client s) sender \<and>
         en_now_ms env - sv_last_client_activity_time_ms s < ucast (sc_client_timeout_ms (sv_config s))
      then Some (snd (sv_send env (nak_packet (en_now_us env)) sender s))
      else
        (let s = s\<lparr>sv_active_client := sender, sv_last_client_activity_time_ms := en_now_ms2 env,
                   sv_sequence_number := 0\<rparr>
         in case sv_engine s of
              None \<Rightarrow> None
            | Some e \<Rightarrow>
                (let (started, s) =
                   (if \<not> co_is_capturing ops e
                    then (case co_start ops (desired_audio_config (sv_config s)) (sv_actual_audio_config s) e of
                            (ok, actual, e') \<Rightarrow> (ok, s\<lparr>sv_actual_audio_config := actual, sv_engine := Some e'\<rparr>))
                    else (True, s))
                 in if \<not> started then Some s
                    else
                      (case (if sc_auto_mute_pc_speaker (sv_config s)
                             then sp_mute_pc_speaker (sc_mute_method (sv_config s)) (sv_endpoint s)
                             else Some (False, sv_endpoint s)) of
                         None \<Rightarrow> None
                       | Some (muted_ok, ep) \<Rightarrow>
                           (let s = s\<lparr>sv_endpoint := ep, sv_state := STREAMING\<rparr>
                            in Some (snd (sv_send env (ack_packet (en_now_us env) (sv_actual_audio_config s) muted_ok) sender s)))))))"

definition disconnect_packet :: "u64 \<Rightarrow> string \<Rightarrow> byte list" where
  "disconnect_packet now_us reason =
     encode_common_header (make_header DISCONNECT_ACK 0 now_us (word_of_nat sizeof_disconnect_payload) FLAG_NONE) @
     encode_disconnect_payload \<lparr>dc_reason_code = 0, dc_reason = strncpy_field 64 reason\<rparr>"

definition disconnect_client :: "env \<Rightarrow> string \<Rightarrow> bool \<Rightarrow> 'e server \<Rightarrow> 'e server" where
  "disconnect_client env reason send_ack s =
     (if sv_state s = STREAMING \<and> sa_valid (sv_active_client s) then
        (let s = (if send_ack
                  then snd (sv_send env (disconnect_packet (en_now_us env) reason) (sv_active_client s) s) else s);
             s = (if sc_auto_mute_pc_speaker (sv_config s)
                  then s\<lparr>sv_endpoint := snd (sp_unmute_pc_speaker (sv_endpoint s))\<rparr> else s)
         in s\<lparr>sv_active_client := SocketAddress_empty, sv_state := LISTENING\<rparr>)
      else s)"

definition handle_disconnect_req :: "env \<Rightarrow> socket_address \<Rightarrow> 'e server \<Rightarrow> 'e server" where
  "handle_disconnect_req env sender s =
     (if sa_eq sender (sv_active_client s)
      then disconnect_client env ''Client disconnected gracefully'' True s else s)"

definition handle_heartbeat_ping :: "env \<Rightarrow> common_header \<Rightarrow> byte list \<Rightarrow> socket_address \<Rightarrow> 'e server \<Rightarrow> 'e server" where
  "handle_heartbeat_ping env hdr payload sender s =
     (if \<not> sa_eq sender (sv_active_client s) then s
      else
        (let s = s\<lparr>sv_last_client_activity_time_ms := en_now_ms env\<rparr>;
             (orig, s) =
               (if length payload \<ge> sizeof_heartbeat_payload
                then (let p = decode_heartbeat_payload payload
                      in (hb_orig_timestamp_us p,
                          s\<lparr>sv_stats := (sv_stats s)\<lparr>ss_client_buffer_level := hb_client_buffer_level_frames p,
                                                   ss_client_lost_packets := hb_packets_lost p\<rparr>\<rparr>))
                else (0, s));
             pong = encode_common_header (make_header HEARTBEAT_PONG (ch_seq_num hdr) (en_now_us env)
                        (word_of_nat sizeof_heartbeat_payload) FLAG_NONE) @
                    encode_heartbeat_payload
                      \<lparr>hb_orig_timestamp_us = orig, hb_client_buffer_level_frames = 0,
                       hb_packets_received = ucast (ss_packets_sent (sv_stats s)), hb_packets_lost = 0,
                       hb_buffer_underruns = 0, hb_buffer_overruns = 0\<rparr>
         in snd (sv_send env pong sender s)))"

definition handle_control_cmd :: "byte list \<Rightarrow> socket_address \<Rightarrow> 'e server \<Rightarrow> 'e server" where
  "handle_control_cmd payload sender s =
     (if \<not> sa_eq sender (sv_active_client s) then s
      else if length payload < sizeof_control_cmd_payload then s
      else
        (let cmd = decode_control_cmd_payload payload in
         if cc_cmd_id cmd = 1 then s\<lparr>sv_endpoint := snd (sp_set_mute True (sv_endpoint s))\<rparr>
         else if cc_cmd_id cmd = 2 then s\<lparr>sv_endpoint := snd (sp_set_mute False (sv_endpoint s))\<rparr>
         else if cc_cmd_id cmd = 3
         then s\<lparr>sv_endpoint := snd (sp_set_volume (f32_of_bits (cc_param_float cmd)) (sv_endpoint s))\<rparr>
         else s))"

text \<open>One datagram of the receive loop: what \<open>receive_from\<close> stored, and its sender.\<close>

definition receive_datagram :: "'e capture_ops \<Rightarrow> env \<Rightarrow> byte list \<Rightarrow> socket_address \<Rightarrow> 'e server \<Rightarrow> 'e server option" where
  "receive_datagram ops env buf sender s =
     (if length buf < sizeof_common_header then Some s
      else
        (let hdr = decode_common_header buf in
         if \<not> is_valid_header hdr (length buf) then Some s
         else
           (let payload = drop sizeof_common_header buf in
            case msg_type_of_u8 (ch_msg_type hdr) of
              DISCOVERY_REQ \<Rightarrow> Some (handle_discovery_req env sender s)
            | CONNECT_REQ \<Rightarrow> handle_connect_req ops env sender s
            | DISCONNECT_REQ \<Rightarrow> Some (handle_disconnect_req env sender s)
            | HEARTBEAT_PING \<Rightarrow> Some (handle_heartbeat_ping env hdr payload sender s)
            | CONTROL_CMD \<Rightarrow> Some (handle_control_cmd payload sender s)
            | _ \<Rightarrow> Some s)))"

definition watchdog_tick :: "env \<Rightarrow> 'e server \<Rightarrow> 'e server" where
  "watchdog_tick env s =
     (if sv_state s = STREAMING then
        (let last = sv_last_client_activity_time_ms s in
         if last > 0 \<and> en_now_ms env - last > ucast (sc_client_timeout_ms (sv_config s))
         then disconnect_client env ''Heartbeat timeout'' False s else s)
      else s)"

section \<open>Audio\<close>

definition audio_packet :: "u32 \<Rightarrow> u64 \<Rightarrow> audio_config \<Rightarrow> nat \<Rightarrow> byte list \<Rightarrow> byte list" where
  "audio_packet seq now_us c frames pcm =
     encode_audio_packet_header
       \<lparr>ah_common = make_header AUDIO_DATA seq now_us
          (word_of_nat (sizeof_audio_packet_header - sizeof_common_header + length pcm)) FLAG_NONE,
        ah_sample_rate = ac_sample_rate c, ah_channels = ac_channels c, ah_format = u8_of_format (ac_format c),
        ah_reserved = 0, ah_num_frames = word_of_nat frames\<rparr> @ pcm"

partial_function (option) chunk_loop :: "env \<Rightarrow> audio_config \<Rightarrow> nat \<Rightarrow> nat \<Rightarrow> 'e server \<Rightarrow> 'e server option" where
  "chunk_loop env c chunk_frames chunk_bytes s =
     (if length (sv_chunk_buffer s) \<ge> chunk_bytes then
        (let seq = sv_sequence_number s;
             pkt = audio_packet seq (en_packet_time_us env seq) c chunk_frames (take chunk_bytes (sv_chunk_buffer s));
             s = s\<lparr>sv_sequence_number := seq + 1, sv_chunk_buffer := drop chunk_bytes (sv_chunk_buffer s)\<rparr>;
             (sent, s) = sv_send env pkt (sv_active_client s) s;
             st = sv_stats s;
             s = (if sent > 0
                  then s\<lparr>sv_stats := st\<lparr>ss_packets_sent := ss_packets_sent st + 1,
                          ss_bytes_sent := ss_bytes_sent st + word_of_int sent,
                          ss_audio_frames_captured := ss_audio_frames_captured st + of_nat chunk_frames\<rparr>\<rparr>
                  else s)
         in chunk_loop env c chunk_frames chunk_bytes s)
      else Some s)"

definition chunk_frames_of :: "server_config \<Rightarrow> nat" where
  "chunk_frames_of c = (if sc_frames_per_packet c > 0 then unat (sc_frames_per_packet c) else 240)"

text \<open>The callback of the engine; \<open>data\<close> is what can be read from the pointer it is given.\<close>

definition on_audio_captured :: "env \<Rightarrow> byte list \<Rightarrow> nat \<Rightarrow> audio_config \<Rightarrow> 'e server \<Rightarrow> 'e server option" where
  "on_audio_captured env data num_frames c s =
     (if sv_state s \<noteq> STREAMING then Some s
      else if \<not> sa_valid (sv_active_client s) then Some s
      else
        (let total = num_frames * bytes_per_frame c;
             chunk_frames = chunk_frames_of (sv_config s);
             chunk_bytes = chunk_frames * bytes_per_frame c
         in if length data < total then None
            else chunk_loop env c chunk_frames chunk_bytes (s\<lparr>sv_chunk_buffer := sv_chunk_buffer s @ take total data\<rparr>)))"

section \<open>Start and stop\<close>

definition server_start :: "resolver \<Rightarrow> env \<Rightarrow> bool \<Rightarrow> 'e \<Rightarrow> 'e server \<Rightarrow> bool \<times> 'e server" where
  "server_start res env os_bind_ok fresh s =
     (if sv_is_running s then (True, s)
      else
        (let s = (if sc_auto_mute_pc_speaker (sv_config s)
                  then s\<lparr>sv_endpoint := snd (sp_init (en_com env) (sv_endpoint s))\<rparr> else s);
             (opened, sock) = udp_open (en_socket env) (sv_socket s)
         in if \<not> opened then (False, s\<lparr>sv_socket := sock\<rparr>)
            else
              (let (bound, sock) = udp_bind res (en_socket env) os_bind_ok (sc_port (sv_config s)) (sc_bind_ip (sv_config s)) sock
               in if \<not> bound then (False, s\<lparr>sv_socket := snd (udp_close sock)\<rparr>)
                  else (True, s\<lparr>sv_socket := sock, sv_engine := Some fresh, sv_is_running := True,
                                sv_state := LISTENING\<rparr>))))"

definition server_stop :: "'e capture_ops \<Rightarrow> env \<Rightarrow> 'e server \<Rightarrow> 'e server" where
  "server_stop ops env s =
     (let s = s\<lparr>sv_is_running := False\<rparr>;
          s = disconnect_client env ''Server shutdown'' True s;
          s = s\<lparr>sv_engine := map_option (co_stop ops) (sv_engine s)\<rparr>;
          s = s\<lparr>sv_socket := snd (udp_close (sv_socket s))\<rparr>;
          s = (if sc_auto_mute_pc_speaker (sv_config s)
               then s\<lparr>sv_endpoint := sp_shutdown (snd (sp_unmute_pc_speaker (sv_endpoint s)))\<rparr> else s)
      in s\<lparr>sv_state := STOPPED\<rparr>)"

section \<open>USB relay\<close>

text \<open>
  The relay between the tunnel and the engine's UDP socket: the reassembly buffer and whether the
  tunnel is closed. \<open>m\<close> is the result of \<open>select2\<close>. A step gives the datagram for the engine, the
  bytes for the tunnel, the new state and the unused socket outcomes.
\<close>

record relay =
  rl_rx :: "byte list"
  rl_tunnel_closed :: bool

definition relay_accept :: relay where
  "relay_accept = \<lparr>rl_rx = [], rl_tunnel_closed = False\<rparr>"

definition relay_from_tunnel :: "recv_outcome list \<Rightarrow> relay \<Rightarrow> (byte list option \<times> relay \<times> recv_outcome list) option" where
  "relay_from_tunnel outs r =
     (case read_frame (rl_rx r) outs of
        None \<Rightarrow> None
      | Some (res, rx, frame, outs') \<Rightarrow>
          Some (if res = Frame then Some frame else None,
                r\<lparr>rl_rx := rx, rl_tunnel_closed := (rl_tunnel_closed r \<or> res = Closed \<or> res = RecvError)\<rparr>, outs'))"

definition relay_to_tunnel :: "byte list \<Rightarrow> send_outcome list \<Rightarrow> relay \<Rightarrow> (byte list \<times> relay \<times> send_outcome list) option" where
  "relay_to_tunnel datagram outs r =
     (if datagram = [] then Some ([], r, outs)
      else (case write_frame datagram outs of
              None \<Rightarrow> None
            | Some (ok, bytes, outs') \<Rightarrow> Some (bytes, r\<lparr>rl_tunnel_closed := (rl_tunnel_closed r \<or> \<not> ok)\<rparr>, outs')))"

definition relay_step ::
    "int \<Rightarrow> byte list \<Rightarrow> recv_outcome list \<Rightarrow> send_outcome list \<Rightarrow> relay \<Rightarrow>
     (byte list option \<times> byte list \<times> relay \<times> recv_outcome list \<times> send_outcome list) option" where
  "relay_step m datagram routs souts r =
     (case (if m AND 1 \<noteq> 0 then relay_from_tunnel routs r else Some (None, r, routs)) of
        None \<Rightarrow> None
      | Some (frame, r, routs) \<Rightarrow>
          (case (if m AND 2 \<noteq> 0 then relay_to_tunnel datagram souts r else Some ([], r, souts)) of
             None \<Rightarrow> None
           | Some (bytes, r, souts) \<Rightarrow> Some (frame, bytes, r, routs, souts)))"

definition relay_closed :: "env \<Rightarrow> 'e server \<Rightarrow> 'e server" where
  "relay_closed env s = (if sv_is_running s then disconnect_client env ''USB tunnel disconnected'' True s else s)"

end
