(* ===== verification/Server_Session.thy ===== *)
theory Server_Session
  imports Server
begin

text \<open>
  The correctness of the server's session: which clients it listens to, that the speaker is silent in
  a session and given back at its end, on either build, that every datagram it sends is one a client accepts, that the captured audio
  is cut into packets without loss, and the time-out.
\<close>

section \<open>Sending\<close>

lemma sv_send_frame:
  assumes "sv_send env data dest s = (r, s')"
  shows "sv_config s' = sv_config s" "sv_is_running s' = sv_is_running s" "sv_state s' = sv_state s"
    "sv_engine s' = sv_engine s" "sv_endpoint s' = sv_endpoint s"
    "sv_actual_audio_config s' = sv_actual_audio_config s" "sv_active_client s' = sv_active_client s"
    "sv_last_client_activity_time_ms s' = sv_last_client_activity_time_ms s"
    "sv_sequence_number s' = sv_sequence_number s" "sv_stats s' = sv_stats s" "sv_chunk_buffer s' = sv_chunk_buffer s"
  using assms by (auto simp: sv_send_def split: prod.splits)

lemma snd_sv_send_frame [simp]:
  "sv_config (snd (sv_send env data dest s)) = sv_config s"
  "sv_is_running (snd (sv_send env data dest s)) = sv_is_running s"
  "sv_state (snd (sv_send env data dest s)) = sv_state s"
  "sv_engine (snd (sv_send env data dest s)) = sv_engine s"
  "sv_endpoint (snd (sv_send env data dest s)) = sv_endpoint s"
  "sv_actual_audio_config (snd (sv_send env data dest s)) = sv_actual_audio_config s"
  "sv_active_client (snd (sv_send env data dest s)) = sv_active_client s"
  "sv_last_client_activity_time_ms (snd (sv_send env data dest s)) = sv_last_client_activity_time_ms s"
  "sv_sequence_number (snd (sv_send env data dest s)) = sv_sequence_number s"
  "sv_stats (snd (sv_send env data dest s)) = sv_stats s"
  "sv_chunk_buffer (snd (sv_send env data dest s)) = sv_chunk_buffer s"
  by (simp_all add: sv_send_def split: prod.splits)

text \<open>What is added to the log: at most the one datagram, to the one destination.\<close>

definition logs :: "'e server \<Rightarrow> 'e server \<Rightarrow> byte list \<Rightarrow> socket_address \<Rightarrow> bool" where
  "logs s s' data dest \<longleftrightarrow> sv_sent s' = sv_sent s \<or> sv_sent s' = sv_sent s @ [(data, dest)]"

lemma sv_send_logs: "logs s (snd (sv_send env data dest s)) data dest"
  by (auto simp: logs_def sv_send_def udp_send_to_def Let_def split: prod.splits)

lemma sv_send_open:
  assumes "udp_is_open (sv_socket s)" and "sa_valid dest"
  shows "sv_send env data dest s = (en_sendto env data, s\<lparr>sv_sent := sv_sent s @ [(data, dest)]\<rparr>)"
  using assms by (simp add: sv_send_def udp_send_to_def)

section \<open>Well-formed datagrams\<close>

lemma unat_u32_of_nat: "n < 2 ^ 32 \<Longrightarrow> unat (word_of_nat n :: u32) = n"
  by (simp only: unat_of_nat) simp

lemma reply_packets_ok:
  "packet_ok (nak_packet now)" "packet_ok (ack_packet now c m)" "packet_ok (disconnect_packet now reason)"
  unfolding nak_packet_def ack_packet_def disconnect_packet_def
  by (rule packet_ok_reply; simp add: wire_simps sizeof_defs)+

lemma discovery_reply_ok:
  "length (dr_server_name p) = 32 \<Longrightarrow>
   packet_ok (encode_common_header (make_header DISCOVERY_RESP seq ts (word_of_nat sizeof_discovery_resp_payload) FLAG_NONE)
              @ encode_discovery_resp_payload p)"
  by (rule packet_ok_reply) (simp_all add: wire_simps sizeof_discovery_resp_payload_def)

lemma pong_ok:
  "packet_ok (encode_common_header (make_header HEARTBEAT_PONG seq ts (word_of_nat sizeof_heartbeat_payload) FLAG_NONE)
              @ encode_heartbeat_payload p)"
  by (rule packet_ok_reply) (simp_all add: wire_simps sizeof_heartbeat_payload_def)

section \<open>Invariant of the session\<close>

text \<open>
  While a client is served its address is an IPv4 address and the engine captures; the endpoint control
  is marked as silencing exactly while a client is served (and muting is configured), and holds its
  endpoint then.
\<close>

definition session_inv :: "'e capture_ops \<Rightarrow> 'e server \<Rightarrow> bool" where
  "session_inv ops s \<longleftrightarrow>
     (sv_state s = STREAMING \<longrightarrow>
        sa_valid (sv_active_client s) \<and> (\<exists>e. sv_engine s = Some e \<and> co_is_capturing ops e)) \<and>
     (sp_is_silenced_by_us (sv_endpoint s) \<longleftrightarrow>
        sv_state s = STREAMING \<and> sc_auto_mute_pc_speaker (sv_config s)) \<and>
     sp_bound (sv_endpoint s) \<and>
     (sv_is_running s \<longrightarrow> sv_engine s \<noteq> None)"

definition ops_ok :: "'e capture_ops \<Rightarrow> bool" where
  "ops_ok ops \<longleftrightarrow>
     (\<forall>d a e a' e'. co_start ops d a e = (True, a', e') \<longrightarrow> co_is_capturing ops e') \<and>
     (\<forall>e. \<not> co_is_capturing ops (co_stop ops e))"

lemma disconnect_client_frame:
  assumes "session_inv ops s"
  shows "session_inv ops (disconnect_client env reason ack s)"
    and "sv_state (disconnect_client env reason ack s) \<noteq> STREAMING"
  using assms
  by (auto simp: disconnect_client_def session_inv_def sp_unmute_mark Let_def)

lemma disconnect_client_keeps [simp]:
  "sv_config (disconnect_client env reason ack s) = sv_config s"
  "sv_is_running (disconnect_client env reason ack s) = sv_is_running s"
  "sv_engine (disconnect_client env reason ack s) = sv_engine s"
  "sv_chunk_buffer (disconnect_client env reason ack s) = sv_chunk_buffer s"
  by (simp_all add: disconnect_client_def Let_def)

lemma session_inv_cong:
  assumes "session_inv ops s" and "sv_state s' = sv_state s" and "sv_active_client s' = sv_active_client s"
    and "sv_engine s' = sv_engine s" and "sp_is_silenced_by_us (sv_endpoint s') = sp_is_silenced_by_us (sv_endpoint s)"
    and "sp_bound (sv_endpoint s') = sp_bound (sv_endpoint s)" and "sv_config s' = sv_config s" and "sv_is_running s' = sv_is_running s"
  shows "session_inv ops s'"
  using assms by (simp add: session_inv_def)

text \<open>The outcomes of a connection request: refused, without capture, connected.\<close>

definition busy_with_other :: "env \<Rightarrow> socket_address \<Rightarrow> 'e server \<Rightarrow> bool" where
  "busy_with_other env sender s \<longleftrightarrow>
     sv_state s = STREAMING \<and> sa_valid (sv_active_client s) \<and> \<not> sa_eq (sv_active_client s) sender \<and>
     en_now_ms env - sv_last_client_activity_time_ms s < ucast (sc_client_timeout_ms (sv_config s))"

definition accept_client :: "env \<Rightarrow> socket_address \<Rightarrow> 'e server \<Rightarrow> 'e server" where
  "accept_client env sender s =
     s\<lparr>sv_active_client := sender, sv_last_client_activity_time_ms := en_now_ms2 env, sv_sequence_number := 0\<rparr>"

definition silence_speaker :: "'e server \<Rightarrow> (bool \<times> speaker) option" where
  "silence_speaker s =
     (if sc_auto_mute_pc_speaker (sv_config s)
      then sp_mute_pc_speaker (sc_mute_method (sv_config s)) (sv_endpoint s) else Some (False, sv_endpoint s))"

definition serve_client :: "env \<Rightarrow> socket_address \<Rightarrow> 'e server \<Rightarrow> 'e server option" where
  "serve_client env sender s =
     (case silence_speaker s of
        None \<Rightarrow> None
      | Some (muted_ok, sp) \<Rightarrow>
          Some (snd (sv_send env (ack_packet (en_now_us env) (sv_actual_audio_config s) muted_ok) sender
                      (s\<lparr>sv_endpoint := sp, sv_state := STREAMING\<rparr>))))"

lemma handle_connect_req_unfold:
  "handle_connect_req ops env sender s =
     (if busy_with_other env sender s then Some (snd (sv_send env (nak_packet (en_now_us env)) sender s))
      else case sv_engine s of
             None \<Rightarrow> None
           | Some e \<Rightarrow>
               if co_is_capturing ops e then serve_client env sender (accept_client env sender s)
               else (case co_start ops (desired_audio_config (sv_config s)) (sv_actual_audio_config s) e of
                       (ok, actual, e') \<Rightarrow>
                         (let s1 = (accept_client env sender s)\<lparr>sv_actual_audio_config := actual, sv_engine := Some e'\<rparr>
                          in if ok then serve_client env sender s1 else Some s1)))"
  by (simp add: handle_connect_req_def busy_with_other_def accept_client_def serve_client_def silence_speaker_def Let_def
      split: option.split prod.split)

lemma accept_client_frame [simp]:
  "sv_config (accept_client env sender s) = sv_config s" "sv_state (accept_client env sender s) = sv_state s"
  "sv_engine (accept_client env sender s) = sv_engine s" "sv_endpoint (accept_client env sender s) = sv_endpoint s"
  "sv_is_running (accept_client env sender s) = sv_is_running s" "sv_active_client (accept_client env sender s) = sender"
  "sv_chunk_buffer (accept_client env sender s) = sv_chunk_buffer s" "sv_sent (accept_client env sender s) = sv_sent s"
  "sv_sequence_number (accept_client env sender s) = 0"
  by (simp_all add: accept_client_def)

lemma serve_client_frame:
  assumes "serve_client env sender s = Some s'"
  obtains muted_ok sp where "silence_speaker s = Some (muted_ok, sp)" "sv_endpoint s' = sp"
    "sv_config s' = sv_config s" "sv_state s' = STREAMING" "sv_engine s' = sv_engine s"
    "sv_is_running s' = sv_is_running s" "sv_active_client s' = sv_active_client s"
    "sv_chunk_buffer s' = sv_chunk_buffer s" "sv_sequence_number s' = sv_sequence_number s"
    "sv_actual_audio_config s' = sv_actual_audio_config s"
    "logs s s' (ack_packet (en_now_us env) (sv_actual_audio_config s) muted_ok) sender"
proof -
  obtain m sp where m: "silence_speaker s = Some (m, sp)" using assms by (auto simp: serve_client_def split: option.splits)
  define u where "u = s\<lparr>sv_endpoint := sp, sv_state := STREAMING\<rparr>"
  define ack where "ack = ack_packet (en_now_us env) (sv_actual_audio_config s) m"
  have s': "s' = snd (sv_send env ack sender u)" using assms m by (simp add: serve_client_def u_def ack_def)
  have "logs s s' ack sender" using sv_send_logs [of u env ack sender] by (simp add: s' logs_def u_def)
  then show ?thesis using m by (intro that [of m sp]) (simp_all add: s' u_def ack_def)
qed

lemma silence_speaker_silences:
  assumes "silence_speaker s = Some (ok, sp)" and "sp_bound (sv_endpoint s)"
  shows "sp_is_silenced_by_us sp \<longleftrightarrow> sc_auto_mute_pc_speaker (sv_config s) \<or> sp_is_silenced_by_us (sv_endpoint s)"
    and "sp_bound sp"
  using assms sp_mute_mark [of "sc_mute_method (sv_config s)" "sv_endpoint s" ok sp]
  by (auto simp: silence_speaker_def split: if_splits)

lemma session_inv_serve:
  assumes "sa_valid (sv_active_client s)" and "sv_engine s = Some e" and "co_is_capturing ops e"
    and "sp_is_silenced_by_us (sv_endpoint s) \<longrightarrow> sc_auto_mute_pc_speaker (sv_config s)" and "sp_bound (sv_endpoint s)"
    and "serve_client env sender s = Some s'"
  shows "session_inv ops s'"
  using assms(6)
proof (rule serve_client_frame)
  fix ok sp
  assume "silence_speaker s = Some (ok, sp)" "sv_endpoint s' = sp" "sv_config s' = sv_config s" "sv_state s' = STREAMING"
    "sv_engine s' = sv_engine s" "sv_active_client s' = sv_active_client s"
  then show ?thesis using assms(1-5) silence_speaker_silences [of s ok sp] by (auto simp: session_inv_def)
qed

lemma session_inv_connect:
  assumes "session_inv ops s" and "ops_ok ops" and "sa_valid sender"
    and "handle_connect_req ops env sender s = Some s'"
  shows "session_inv ops s'"
proof (cases "busy_with_other env sender s")
  case True
  then have "s' = snd (sv_send env (nak_packet (en_now_us env)) sender s)"
    using assms(4) by (simp add: handle_connect_req_unfold)
  then show ?thesis using assms(1) by (auto elim!: session_inv_cong)
next
  case False
  obtain e where e: "sv_engine s = Some e"
    using assms(4) False by (cases "sv_engine s") (auto simp: handle_connect_req_unfold)
  have q: "sp_is_silenced_by_us (sv_endpoint s) \<longrightarrow> sc_auto_mute_pc_speaker (sv_config s)" "sp_bound (sv_endpoint s)"
    using assms(1) by (simp_all add: session_inv_def)
  show ?thesis
  proof (cases "co_is_capturing ops e")
    case True
    then have "serve_client env sender (accept_client env sender s) = Some s'"
      using assms(4) False e by (simp add: handle_connect_req_unfold)
    then show ?thesis using True e q assms(3) by (intro session_inv_serve [of "accept_client env sender s" e]) simp_all
  next
    case idle: False
    obtain ok actual e' where st: "co_start ops (desired_audio_config (sv_config s)) (sv_actual_audio_config s) e = (ok, actual, e')"
      using prod_cases3 by blast
    define s1 where "s1 = (accept_client env sender s)\<lparr>sv_actual_audio_config := actual, sv_engine := Some e'\<rparr>"
    have s': "if ok then serve_client env sender s1 = Some s' else s' = s1"
      using assms(4) False e idle st by (auto simp: handle_connect_req_unfold s1_def Let_def)
    have "sv_state s \<noteq> STREAMING" using assms(1) e idle by (auto simp: session_inv_def)
    then have "session_inv ops s1" using assms(1) by (simp add: session_inv_def s1_def)
    moreover have "session_inv ops s'" if ok
    proof (rule session_inv_serve [of s1 e'])
      show "sa_valid (sv_active_client s1)" using assms(3) by (simp add: s1_def)
      show "co_is_capturing ops e'" using that st assms(2) by (simp add: ops_ok_def)
    qed (use that s' q in \<open>simp_all add: s1_def\<close>)
    ultimately show ?thesis using s' by (cases ok) simp_all
  qed
qed

lemma session_inv_receive:
  assumes "session_inv ops s" and "ops_ok ops" and "sa_valid sender"
    and "receive_datagram ops env buf sender s = Some s'"
  shows "session_inv ops s'"
proof -
  have "session_inv ops (handle_discovery_req env sender s)"
    using assms(1) by (auto simp: handle_discovery_req_def Let_def elim!: session_inv_cong)
  moreover have "session_inv ops (handle_disconnect_req env sender s)"
    using assms(1) disconnect_client_frame(1) [OF assms(1)] by (simp add: handle_disconnect_req_def)
  moreover have "session_inv ops (handle_heartbeat_ping env h p sender s)" for h p
    using assms(1) by (auto simp: handle_heartbeat_ping_def Let_def elim!: session_inv_cong)
  moreover have "session_inv ops (handle_control_cmd p sender s)" for p
    using assms(1) by (auto simp: handle_control_cmd_def Let_def elim!: session_inv_cong)
  ultimately show ?thesis using assms session_inv_connect [OF assms(1-3)]
    by (auto simp: receive_datagram_def Let_def split: if_splits msg_type.splits)
qed

section \<open>Cutting the captured audio\<close>

text \<open>The state after one turn of the chunk loop.\<close>

definition chunk_step :: "env \<Rightarrow> audio_config \<Rightarrow> nat \<Rightarrow> nat \<Rightarrow> 'e server \<Rightarrow> 'e server" where
  "chunk_step env c cf cb s =
     (let seq = sv_sequence_number s;
          pkt = audio_packet seq (en_packet_time_us env seq) c cf (take cb (sv_chunk_buffer s));
          s = s\<lparr>sv_sequence_number := seq + 1, sv_chunk_buffer := drop cb (sv_chunk_buffer s)\<rparr>;
          (sent, s) = sv_send env pkt (sv_active_client s) s;
          st = sv_stats s
      in (if sent > 0
          then s\<lparr>sv_stats := st\<lparr>ss_packets_sent := ss_packets_sent st + 1,
                  ss_bytes_sent := ss_bytes_sent st + word_of_int sent,
                  ss_audio_frames_captured := ss_audio_frames_captured st + of_nat cf\<rparr>\<rparr>
          else s))"

lemma chunk_loop_unfold:
  "chunk_loop env c cf cb s =
     (if length (sv_chunk_buffer s) \<ge> cb then chunk_loop env c cf cb (chunk_step env c cf cb s) else Some s)"
  by (subst chunk_loop.simps) (simp add: chunk_step_def Let_def split: prod.split)

lemma chunk_step_frame [simp]:
  "sv_config (chunk_step env c cf cb s) = sv_config s" "sv_is_running (chunk_step env c cf cb s) = sv_is_running s"
  "sv_state (chunk_step env c cf cb s) = sv_state s" "sv_engine (chunk_step env c cf cb s) = sv_engine s"
  "sv_endpoint (chunk_step env c cf cb s) = sv_endpoint s"
  "sv_active_client (chunk_step env c cf cb s) = sv_active_client s"
  "sv_sequence_number (chunk_step env c cf cb s) = sv_sequence_number s + 1"
  "sv_chunk_buffer (chunk_step env c cf cb s) = drop cb (sv_chunk_buffer s)"
  "sv_actual_audio_config (chunk_step env c cf cb s) = sv_actual_audio_config s"
  by (auto simp: chunk_step_def Let_def sv_send_frame split: prod.split)

definition same_session :: "'e server \<Rightarrow> 'e server \<Rightarrow> bool" where
  "same_session s s' \<longleftrightarrow>
     sv_config s' = sv_config s \<and> sv_is_running s' = sv_is_running s \<and> sv_state s' = sv_state s \<and>
     sv_engine s' = sv_engine s \<and> sv_endpoint s' = sv_endpoint s \<and> sv_active_client s' = sv_active_client s"

lemma chunk_loop_total:
  assumes "0 < cb"
  shows "\<exists>s'. chunk_loop env c cf cb s = Some s'"
proof (induction "length (sv_chunk_buffer s)" arbitrary: s rule: less_induct)
  case less
  show ?case
  proof (cases "length (sv_chunk_buffer s) \<ge> cb")
    case True
    then have "\<exists>s'. chunk_loop env c cf cb (chunk_step env c cf cb s) = Some s'" using assms by (intro less) simp
    then show ?thesis using True by (subst chunk_loop_unfold) simp
  next
    case False
    then show ?thesis by (subst chunk_loop_unfold) simp
  qed
qed

lemma chunk_loop_session:
  assumes "chunk_loop env c cf cb s = Some s'"
  shows "same_session s s'"
proof (rule chunk_loop.raw_induct [OF _ assms, where P = "\<lambda>env c cf cb s s'. same_session s s'"])
  fix f :: "env \<Rightarrow> audio_config \<Rightarrow> nat \<Rightarrow> nat \<Rightarrow> 'a server \<Rightarrow> 'a server option" and env c cf cb s s'
  assume IH: "\<And>env c cf cb s s'. f env c cf cb s = Some s' \<Longrightarrow> same_session s s'"
    and eq: "(if length (sv_chunk_buffer s) \<ge> cb then
        (let seq = sv_sequence_number s;
             pkt = audio_packet seq (en_packet_time_us env seq) c cf (take cb (sv_chunk_buffer s));
             s = s\<lparr>sv_sequence_number := seq + 1, sv_chunk_buffer := drop cb (sv_chunk_buffer s)\<rparr>;
             (sent, s) = sv_send env pkt (sv_active_client s) s;
             st = sv_stats s;
             s = (if sent > 0
                  then s\<lparr>sv_stats := st\<lparr>ss_packets_sent := ss_packets_sent st + 1,
                          ss_bytes_sent := ss_bytes_sent st + word_of_int sent,
                          ss_audio_frames_captured := ss_audio_frames_captured st + of_nat cf\<rparr>\<rparr>
                  else s)
         in f env c cf cb s)
      else Some s) = Some s'"
  show "same_session s s'"
  proof (cases "length (sv_chunk_buffer s) \<ge> cb")
    case True
    then have "f env c cf cb (chunk_step env c cf cb s) = Some s'"
      using eq by (auto simp: chunk_step_def Let_def split: prod.splits)
    from IH [OF this] show ?thesis by (simp add: same_session_def)
  next
    case False
    then show ?thesis using eq by (simp add: same_session_def)
  qed
qed

definition chunk_packet :: "env \<Rightarrow> audio_config \<Rightarrow> nat \<Rightarrow> nat \<Rightarrow> byte list \<Rightarrow> u32 \<Rightarrow> nat \<Rightarrow> byte list" where
  "chunk_packet env c cf cb buf seq i =
     audio_packet (seq + of_nat i) (en_packet_time_us env (seq + of_nat i)) c cf (slice (i * cb) cb buf)"

lemma chunk_packet_Suc: "chunk_packet env c cf cb (drop cb buf) (seq + 1) i = chunk_packet env c cf cb buf seq (Suc i)"
  by (simp add: chunk_packet_def slice_def add.assoc add.commute [of cb])

lemma chunk_loop_packets:
  assumes "0 < cb" and "udp_is_open (sv_socket s)" and "sa_valid (sv_active_client s)"
  defines "k \<equiv> length (sv_chunk_buffer s) div cb"
  shows "\<exists>s'. chunk_loop env c cf cb s = Some s' \<and>
      sv_sent s' = sv_sent s @ map (\<lambda>i. (chunk_packet env c cf cb (sv_chunk_buffer s) (sv_sequence_number s) i,
                                       sv_active_client s)) [0..<k] \<and>
      sv_chunk_buffer s' = drop (k * cb) (sv_chunk_buffer s) \<and>
      sv_sequence_number s' = sv_sequence_number s + of_nat k"
  using assms(2,3) unfolding k_def
proof (induction "length (sv_chunk_buffer s)" arbitrary: s rule: less_induct)
  case less
  show ?case
  proof (cases "length (sv_chunk_buffer s) \<ge> cb")
    case False
    then have "length (sv_chunk_buffer s) div cb = 0" by simp
    then show ?thesis using False by (subst chunk_loop_unfold) simp
  next
    case True
    define t where "t = chunk_step env c cf cb s"
    define m where "m = length (sv_chunk_buffer t) div cb"
    have k: "length (sv_chunk_buffer s) div cb = Suc m"
      using True assms(1) by (simp add: m_def t_def le_div_geq)
    have "udp_is_open (sv_socket t)" and sent: "sv_sent t = sv_sent s @ [(chunk_packet env c cf cb (sv_chunk_buffer s) (sv_sequence_number s) 0, sv_active_client s)]"
      using less.prems by (simp_all add: t_def chunk_step_def sv_send_open Let_def chunk_packet_def slice_def)
    moreover have "length (sv_chunk_buffer t) < length (sv_chunk_buffer s)" using True assms(1) by (simp add: t_def)
    ultimately obtain s' where s': "chunk_loop env c cf cb t = Some s'"
      "sv_sent s' = sv_sent t @ map (\<lambda>i. (chunk_packet env c cf cb (sv_chunk_buffer t) (sv_sequence_number t) i,
                                       sv_active_client t)) [0..<m]"
      "sv_chunk_buffer s' = drop (m * cb) (sv_chunk_buffer t)" "sv_sequence_number s' = sv_sequence_number t + of_nat m"
      using less.hyps [of t] less.prems(2) by (auto simp: m_def t_def)
    have "map (\<lambda>i. (chunk_packet env c cf cb (sv_chunk_buffer t) (sv_sequence_number t) i, sv_active_client t)) [0..<m]
        = map (\<lambda>i. (chunk_packet env c cf cb (sv_chunk_buffer s) (sv_sequence_number s) i, sv_active_client s)) [Suc 0..<Suc m]"
      by (simp add: t_def chunk_packet_Suc map_Suc_upt [symmetric] o_def del: upt_Suc)
    then have "sv_sent s' = sv_sent s @ map (\<lambda>i. (chunk_packet env c cf cb (sv_chunk_buffer s) (sv_sequence_number s) i,
                                       sv_active_client s)) [0..<Suc m]"
      using s'(2) sent by (simp add: upt_conv_Cons del: upt_Suc)
    moreover have "chunk_loop env c cf cb s = Some s'" using True s'(1) by (subst chunk_loop_unfold) (simp add: t_def)
    moreover have "sv_chunk_buffer s' = drop (Suc m * cb) (sv_chunk_buffer s)"
      using s'(3) by (simp add: t_def add.commute)
    moreover have "sv_sequence_number s' = sv_sequence_number s + of_nat (Suc m)"
      using s'(4) by (simp add: t_def algebra_simps)
    ultimately show ?thesis unfolding k by blast
  qed
qed

lemma concat_slices: "k * cb \<le> length buf \<Longrightarrow> concat (map (\<lambda>i. slice (i * cb) cb buf) [0..<k]) = take (k * cb) buf"
proof (induction k)
  case (Suc k)
  then show ?case by (simp add: slice_def take_add add.commute [of cb])
qed simp

text \<open>
  Claim C17: a capture callback during a session cuts everything captured so far into packets with
  consecutive sequence numbers: the payloads of the packets sent, followed by what stays in the
  buffer, are the old remainder followed by the new audio, and less than one packet stays behind.
\<close>

theorem audio_chunking_lossless:
  assumes "sv_state s = STREAMING" and "sa_valid (sv_active_client s)" and "udp_is_open (sv_socket s)"
    and "0 < bytes_per_frame c" and "length data = num_frames * bytes_per_frame c"
  shows "\<exists>s' pcms. on_audio_captured env data num_frames c s = Some s' \<and>
      sv_sent s' = sv_sent s @ map (\<lambda>(i, pcm). (audio_packet (sv_sequence_number s + of_nat i)
                     (en_packet_time_us env (sv_sequence_number s + of_nat i)) c (chunk_frames_of (sv_config s)) pcm,
                     sv_active_client s)) (zip [0..<length pcms] pcms) \<and>
      concat pcms @ sv_chunk_buffer s' = sv_chunk_buffer s @ data \<and>
      (\<forall>pcm \<in> set pcms. length pcm = chunk_frames_of (sv_config s) * bytes_per_frame c) \<and>
      length (sv_chunk_buffer s') < chunk_frames_of (sv_config s) * bytes_per_frame c \<and>
      sv_sequence_number s' = sv_sequence_number s + of_nat (length pcms)"
proof -
  define cf where "cf = chunk_frames_of (sv_config s)"
  define cb where "cb = cf * bytes_per_frame c"
  define t where "t = s\<lparr>sv_chunk_buffer := sv_chunk_buffer s @ data\<rparr>"
  define buf where "buf = sv_chunk_buffer s @ data"
  define k where "k = length buf div cb"
  define pcms where "pcms = map (\<lambda>i. slice (i * cb) cb buf) [0..<k]"
  have cb: "0 < cb" using assms(4) by (simp add: cb_def cf_def chunk_frames_of_def unat_gt_0 word_greater_zero_iff)
  obtain s' where s': "chunk_loop env c cf cb t = Some s'"
    "sv_sent s' = sv_sent s @ map (\<lambda>i. (chunk_packet env c cf cb buf (sv_sequence_number s) i, sv_active_client s)) [0..<k]"
    "sv_chunk_buffer s' = drop (k * cb) buf" "sv_sequence_number s' = sv_sequence_number s + of_nat k"
    using chunk_loop_packets [OF cb, of t env c cf] assms(2,3) by (auto simp: t_def buf_def k_def)
  have kb: "k * cb \<le> length buf" by (simp add: k_def)
  have on: "on_audio_captured env data num_frames c s = Some s'"
    using assms s'(1) by (simp add: on_audio_captured_def Let_def cf_def cb_def t_def)
  have "length (slice (i * cb) cb buf) = cb" if "i < k" for i
  proof (rule length_slice)
    have "Suc i * cb \<le> k * cb" using that by (intro mult_right_mono) auto
    then show "i * cb + cb \<le> length buf" using kb by simp
  qed
  then have "\<forall>pcm \<in> set pcms. length pcm = cb" by (auto simp: pcms_def)
  moreover have "concat pcms @ sv_chunk_buffer s' = buf" using concat_slices [OF kb] by (simp add: pcms_def s'(3))
  moreover have "length (sv_chunk_buffer s') < cb"
    using cb by (simp add: s'(3) k_def minus_div_mult_eq_mod)
  moreover have "map (\<lambda>(i, pcm). (audio_packet (sv_sequence_number s + of_nat i)
                     (en_packet_time_us env (sv_sequence_number s + of_nat i)) c cf pcm, sv_active_client s)) (zip [0..<length pcms] pcms)
      = map (\<lambda>i. (chunk_packet env c cf cb buf (sv_sequence_number s) i, sv_active_client s)) [0..<k]"
    by (rule nth_equalityI) (simp_all add: pcms_def chunk_packet_def)
  ultimately show ?thesis using on s'(2,4)
    by (intro exI [of _ s'] exI [of _ pcms]) (simp add: cf_def [symmetric] cb_def [symmetric] buf_def, simp add: pcms_def)
qed

definition example_client :: socket_address where
  "example_client = SocketAddress_raw \<lparr>sin_family = AF_INET, sin_port = 1, s_addr = 2\<rparr>"

definition example_server :: "dummy_capture server" where
  "example_server = AudioRouterServer (MockSpeaker dummy_new) default_server_config\<lparr>sv_is_running := True, sv_state := STREAMING,
     sv_active_client := example_client, sv_socket := UdpSocket\<lparr>us_handle := 3\<rparr>,
     sv_engine := Some (DummyCapture (FFin 440)\<lparr>dcap_is_running := True\<rparr>),
     sv_last_client_activity_time_ms := 1000,
     sv_endpoint := MockSpeaker (snd (dummy_mute_pc_speaker EndpointMute dummy_new))\<rparr>"

definition example_env :: env where
  "example_env = \<lparr>en_now_us = 5000, en_now_ms = 1005, en_now_ms2 = 1005, en_packet_time_us = (\<lambda>_. 5000), en_socket = 3,
     en_sendto = (\<lambda>d. int (length d)),
     en_com = \<lparr>cm_com = COM_OK, cm_create = True, cm_get_default = True, cm_activate = True\<rparr>\<rparr>"

lemma example_server_frame [simp]:
  "sv_state example_server = STREAMING" "sv_active_client example_server = example_client"
  "udp_is_open (sv_socket example_server)" "sa_valid example_client" "sv_chunk_buffer example_server = []"
  "sv_config example_server = default_server_config" "sv_sent example_server = []" "sv_sequence_number example_server = 0"
  "sv_last_client_activity_time_ms example_server = 1000" "sv_is_running example_server"
  by (simp_all add: example_server_def AudioRouterServer_def example_client_def SocketAddress_raw_def udp_is_open_def
      INVALID_SOCKET_HANDLE_def)

theorem audio_chunking_lossless_witness:
  "\<exists>s' pcms. on_audio_captured example_env (replicate 1000 7) 250 default_audio_config example_server = Some s' \<and>
      concat pcms @ sv_chunk_buffer s' = replicate 1000 7 \<and> length (sv_chunk_buffer s') < 960 \<and>
      sv_sequence_number s' = of_nat (length pcms)"
proof -
  have b: "bytes_per_frame default_audio_config = 4" "chunk_frames_of default_server_config = 240"
    by (simp_all add: bytes_per_frame_def bytes_per_sample_def default_audio_config_def chunk_frames_of_def default_server_config_def)
  from audio_chunking_lossless [of example_server default_audio_config "replicate 1000 7" 250 example_env]
  show ?thesis by (auto simp: b)
qed

section \<open>Audio packets and the client's checks\<close>

text \<open>The header of an audio packet.\<close>

definition packet_header :: "u32 \<Rightarrow> u64 \<Rightarrow> audio_config \<Rightarrow> nat \<Rightarrow> nat \<Rightarrow> audio_packet_header" where
  "packet_header seq now c frames len =
     \<lparr>ah_common = make_header AUDIO_DATA seq now (word_of_nat (sizeof_audio_packet_header - sizeof_common_header + len)) FLAG_NONE,
      ah_sample_rate = ac_sample_rate c, ah_channels = ac_channels c, ah_format = u8_of_format (ac_format c),
      ah_reserved = 0, ah_num_frames = word_of_nat frames\<rparr>"

lemma audio_packet_split: "audio_packet seq now c frames pcm = encode_audio_packet_header (packet_header seq now c frames (length pcm)) @ pcm"
  by (simp add: audio_packet_def packet_header_def)

lemma packet_header_fields [simp]:
  "ch_seq_num (ah_common (packet_header seq now c frames len)) = seq" "ch_timestamp_us (ah_common (packet_header seq now c frames len)) = now"
  "ah_channels (packet_header seq now c frames len) = ac_channels c" "ah_num_frames (packet_header seq now c frames len) = word_of_nat frames"
  by (simp_all add: packet_header_def make_header_def)

lemma packet_header_ok:
  assumes "0 < ac_sample_rate c" "ac_sample_rate c \<le> 192000" "0 < ac_channels c" "ac_channels c \<le> 32"
    and "ac_format c = PCM_S16LE" and "0 < frames" "frames \<le> 8192"
    and "length pcm = frames * bytes_per_frame c" and "12 + length pcm \<le> MAX_UDP_PACKET_SIZE"
  shows "audio_header_ok (packet_header seq now c frames (length pcm)) (sizeof_audio_packet_header + length pcm)"
    and "unat (word_of_nat frames :: u32) = frames"
proof -
  define h where "h = packet_header seq now c frames (length pcm)"
  have sz: "unat (word_of_nat (sizeof_audio_packet_header - sizeof_common_header + length pcm) :: u32) = 12 + length pcm"
    using unat_u32_of_nat [of "12 + length pcm"] assms(9) by (simp add: sizeof_defs protocol_consts)
  show nf: "unat (word_of_nat frames :: u32) = frames" using assms(7) by (simp add: unat_of_nat)
  have fr: "(0 :: u32) < word_of_nat frames" "(word_of_nat frames :: u32) \<le> 8192"
    using assms(6,7) nf by (simp_all add: word_less_nat_alt word_le_nat_alt)
  have pl: "length pcm = frames * unat (ac_channels c) * 2"
    using assms(5,8) by (simp add: bytes_per_frame_def bytes_per_sample_def)
  have "header_ok (ah_common h) (sizeof_audio_packet_header + length pcm)"
    using assms(9) sz by (simp add: h_def packet_header_def header_ok_make_header sizeof_defs)
  then show "audio_header_ok (packet_header seq now c frames (length pcm)) (sizeof_audio_packet_header + length pcm)"
    using assms(1-5) fr nf pl sz by (simp add: audio_header_ok_def h_def packet_header_def make_header_def)
qed

text \<open>
  Every audio packet built from a 16-bit configuration within the protocol's limits passes
  the checks a client makes, and decodes to the frames, the channels and the samples it was made of.
\<close>

theorem audio_packet_accepted:
  assumes "0 < ac_sample_rate c" "ac_sample_rate c \<le> 192000" "0 < ac_channels c" "ac_channels c \<le> 32"
    and "ac_format c = PCM_S16LE" and "0 < frames" "frames \<le> 8192"
    and "length pcm = frames * bytes_per_frame c" and "12 + length pcm \<le> MAX_UDP_PACKET_SIZE"
  shows "let pkt = audio_packet seq now c frames pcm; ah = decode_audio_packet_header pkt in
         validate_audio_header ah (length pkt) = Inr () \<and> ch_seq_num (ah_common ah) = seq \<and>
         unat (ah_num_frames ah) = frames \<and> ah_channels ah = ac_channels c \<and>
         drop sizeof_audio_packet_header pkt = pcm"
  using packet_header_ok(1) [OF assms, of seq now] packet_header_ok(2) [OF assms] by (simp add: audio_packet_split validate_audio_header_iff Let_def)

theorem audio_packet_accepted_witness:
  "let pkt = audio_packet 9 1 default_audio_config 1 [1, 2, 3, 4]; ah = decode_audio_packet_header pkt in
   validate_audio_header ah (length pkt) = Inr () \<and> unat (ah_num_frames ah) = 1 \<and>
   drop sizeof_audio_packet_header pkt = [1, 2, 3, 4]"
  using audio_packet_accepted [of default_audio_config 1 "[1, 2, 3, 4]" 9 1]
  by (simp add: default_audio_config_def bytes_per_frame_def bytes_per_sample_def protocol_consts Let_def)

section \<open>Executions\<close>

text \<open>
  The events of a running server: start and stop, a datagram, a tick of the watchdog, a capture
  callback, the end of a USB tunnel. Senders are what \<open>recvfrom\<close> reports, IPv4 addresses.
\<close>

datatype server_event = Starts | Stops | Arrives "byte list" | Ticks | Captured | TunnelEnds

inductive server_step :: "'e capture_ops \<Rightarrow> server_event \<Rightarrow> 'e server \<Rightarrow> 'e server \<Rightarrow> bool" for ops where
  start: "\<not> co_is_capturing ops fresh \<Longrightarrow> server_start res env b fresh s = (ok, s') \<Longrightarrow> server_step ops Starts s s'"
| stop: "server_step ops Stops s (server_stop ops env s)"
| datagram: "sv_is_running s \<Longrightarrow> sin_family src = AF_INET \<Longrightarrow>
             receive_datagram ops env buf (SocketAddress_raw src) s = Some s' \<Longrightarrow> server_step ops (Arrives buf) s s'"
| watchdog: "sv_is_running s \<Longrightarrow> server_step ops Ticks s (watchdog_tick env s)"
| audio: "on_audio_captured env data n c s = Some s' \<Longrightarrow> server_step ops Captured s s'"
| tunnel: "server_step ops TunnelEnds s (relay_closed env s)"

inductive_cases server_stepE: "server_step ops ev s s'"

text \<open>Every state of a server that was made with the speaker \<open>sp\<close>.\<close>

inductive server_reach :: "'e capture_ops \<Rightarrow> speaker \<Rightarrow> server_config \<Rightarrow> 'e server \<Rightarrow> bool" for ops sp config where
  init: "fresh_speaker sp \<Longrightarrow> server_reach ops sp config (AudioRouterServer sp config)"
| step: "server_reach ops sp config s \<Longrightarrow> server_step ops ev s s' \<Longrightarrow> server_reach ops sp config s'"

text \<open>
  One session: from a state \<open>s0\<close> in which no client is served, through the event that makes the
  server serve one, to any state up to the first in which it serves none again.
\<close>

inductive session_run :: "'e capture_ops \<Rightarrow> 'e server \<Rightarrow> server_event list \<Rightarrow> 'e server \<Rightarrow> bool" for ops s0 where
  opens: "sv_state s0 \<noteq> STREAMING \<Longrightarrow> server_step ops ev s0 s \<Longrightarrow> sv_state s = STREAMING \<Longrightarrow> session_run ops s0 [ev] s"
| goes_on: "session_run ops s0 evs s \<Longrightarrow> sv_state s = STREAMING \<Longrightarrow> server_step ops ev s s' \<Longrightarrow>
            session_run ops s0 (evs @ [ev]) s'"

fun is_control_cmd :: "server_event \<Rightarrow> bool" where
  "is_control_cmd (Arrives buf) \<longleftrightarrow> msg_type_of_u8 (ch_msg_type (decode_common_header buf)) = CONTROL_CMD"
| "is_control_cmd _ \<longleftrightarrow> False"

lemma session_inv_init: "fresh_speaker sp \<Longrightarrow> session_inv ops (AudioRouterServer sp config)"
  using fresh_speaker_mark [of sp]
  by (cases sp) (auto simp: session_inv_def AudioRouterServer_def is_currently_silenced_by_us_def)

lemma server_start_cases:
  assumes "server_start res env b fresh s = (ok, s')"
  obtains (same) "sv_config s' = sv_config s" "sv_state s' = sv_state s" "sv_engine s' = sv_engine s"
      "sv_endpoint s' = sv_endpoint s \<or> sv_endpoint s' = snd (sp_init (en_com env) (sv_endpoint s))"
      "sv_active_client s' = sv_active_client s" "sv_is_running s' = sv_is_running s"
  | (started) "\<not> sv_is_running s" "sv_config s' = sv_config s" "sv_state s' = LISTENING" "sv_engine s' = Some fresh"
      "sv_endpoint s' = sv_endpoint s \<or> sv_endpoint s' = snd (sp_init (en_com env) (sv_endpoint s))"
      "sv_active_client s' = sv_active_client s"
  using assms by (auto simp: server_start_def Let_def split: if_splits prod.splits)

lemma endpoint_initialised:
  assumes "e' = e \<or> e' = snd (sp_init a e)"
  shows "sp_is_silenced_by_us e' = sp_is_silenced_by_us e" "sp_bound e \<Longrightarrow> sp_bound e'" "sp_works e' = sp_works e"
    "sp_quiet m e' = sp_quiet m e" "sp_holds m before e \<Longrightarrow> sp_holds m before e'"
  using assms by (auto simp: sp_init_keeps sp_quiet_init)

text \<open>The server after a stop: the disconnected one, its engine stopped, its socket and endpoint released.\<close>

lemma server_stop_frame:
  fixes s :: "'e server" and env :: env
  defines "t \<equiv> disconnect_client env ''Server shutdown'' True (s\<lparr>sv_is_running := False\<rparr>)"
  shows "sv_state (server_stop ops env s) = STOPPED" "sv_config (server_stop ops env s) = sv_config s"
    "\<not> sv_is_running (server_stop ops env s)" "sv_active_client (server_stop ops env s) = sv_active_client t"
    "sv_endpoint (server_stop ops env s) =
       (if sc_auto_mute_pc_speaker (sv_config s) then sp_shutdown (snd (sp_unmute_pc_speaker (sv_endpoint t)))
        else sv_endpoint t)"
  by (simp_all add: server_stop_def t_def Let_def)

lemma session_inv_stop:
  assumes "session_inv ops s"
  shows "session_inv ops (server_stop ops env s)"
proof -
  define t where "t = disconnect_client env ''Server shutdown'' True (s\<lparr>sv_is_running := False\<rparr>)"
  have "session_inv ops (s\<lparr>sv_is_running := False\<rparr>)" using assms by (simp add: session_inv_def)
  then have "session_inv ops t" "sv_state t \<noteq> STREAMING" unfolding t_def by (rule disconnect_client_frame)+
  then have n: "\<not> sp_is_silenced_by_us (sv_endpoint t)" "sp_bound (sv_endpoint t)" by (simp_all add: session_inv_def)
  then have "\<not> sp_is_silenced_by_us (sv_endpoint (server_stop ops env s))" "sp_bound (sv_endpoint (server_stop ops env s))"
    using sp_shutdown_keeps [OF sp_unmute_mark(1)] by (simp_all add: server_stop_frame(5) t_def [symmetric])
  then show ?thesis by (simp add: session_inv_def server_stop_frame(1-3))
qed

lemma session_inv_start:
  assumes "session_inv ops s" and "server_start res env b fresh s = (ok, s')" and "sv_state s = STREAMING \<longrightarrow> sv_is_running s"
  shows "session_inv ops s'"
  using assms(2)
proof (cases rule: server_start_cases)
  case same
  then show ?thesis using assms(1) endpoint_initialised(1,2) [OF same(4)] by (auto simp: session_inv_def)
next
  case started
  then show ?thesis using assms(1,3) endpoint_initialised(1,2) [OF started(5)] by (auto simp: session_inv_def)
qed

lemma session_inv_audio:
  assumes "session_inv ops s" and "on_audio_captured env data n c s = Some s'"
  shows "same_session s s'" and "session_inv ops s'"
proof -
  show ss: "same_session s s'"
    using assms(2)
    by (auto simp: on_audio_captured_def same_session_def Let_def split: if_splits dest!: chunk_loop_session)
  show "session_inv ops s'" using assms(1) ss by (auto simp: same_session_def elim!: session_inv_cong)
qed

lemma connect_config:
  assumes "handle_connect_req ops env sender s = Some s'"
  shows "sv_config s' = sv_config s \<and> sv_is_running s' = sv_is_running s"
  using assms
  by (auto simp: handle_connect_req_unfold Let_def split: if_splits option.splits prod.splits elim: serve_client_frame)

lemma receive_config:
  assumes "receive_datagram ops env buf sender s = Some s'"
  shows "sv_config s' = sv_config s" and "sv_is_running s' = sv_is_running s"
  using assms connect_config [of ops env sender s s']
  by (auto simp: receive_datagram_def handle_discovery_req_def handle_disconnect_req_def handle_heartbeat_ping_def
      handle_control_cmd_def Let_def split: if_splits msg_type.splits prod.splits)

text \<open>All of it, and that the server serves only while it runs.\<close>

lemma step_session_inv:
  assumes "server_step ops ev s s'" and "ops_ok ops" and "session_inv ops s" and "sv_state s = STREAMING \<longrightarrow> sv_is_running s"
  shows "session_inv ops s' \<and> sv_config s' = sv_config s \<and> (sv_state s' = STREAMING \<longrightarrow> sv_is_running s')"
  using assms(1)
proof (cases rule: server_step.cases)
  case (start fresh res env b ok)
  from start(3) show ?thesis
    using session_inv_start [OF assms(3) start(3) assms(4)] assms(4) by (cases rule: server_start_cases) auto
next
  case (stop env)
  then show ?thesis using session_inv_stop [OF assms(3)] by (simp add: server_stop_frame)
next
  case (datagram src env buf)
  have "sa_valid (SocketAddress_raw src)" by (simp add: SocketAddress_raw_def)
  then show ?thesis using datagram session_inv_receive [OF assms(3,2) _ datagram(4)] receive_config [OF datagram(4)] by auto
next
  case (watchdog env)
  then show ?thesis using disconnect_client_frame [OF assms(3)] assms(3,4) by (auto simp: watchdog_tick_def Let_def)
next
  case (audio env data n c)
  then show ?thesis using session_inv_audio [OF assms(3) audio(2)] assms(4) by (auto simp: same_session_def)
next
  case (tunnel env)
  then show ?thesis using disconnect_client_frame [OF assms(3)] assms(3,4) by (auto simp: relay_closed_def)
qed

lemma reach_session_inv:
  assumes "server_reach ops sp config s" and "ops_ok ops"
  shows "session_inv ops s \<and> sv_config s = config \<and> (sv_state s = STREAMING \<longrightarrow> sv_is_running s)"
  using assms(1)
proof (induction rule: server_reach.induct)
  case init
  then show ?case by (simp add: session_inv_init) (simp add: AudioRouterServer_def)
next
  case (step s ev s')
  then show ?case using step_session_inv [OF step(2) assms(2)] by auto
qed

section \<open>The speaker\<close>

lemma speaker_works_step:
  assumes "server_step ops ev s s'" and "sp_works (sv_endpoint s)"
  shows "sp_works (sv_endpoint s')"
  using assms(1)
proof (cases rule: server_step.cases)
  case (start fresh res env b ok)
  from start(3) show ?thesis using assms(2) endpoint_initialised(3) by (cases rule: server_start_cases) metis+
next
  case (datagram src env buf)
  have "sp_works (sv_endpoint s')" if "handle_connect_req ops env sender s = Some s'" for env sender
    using that assms(2) sp_mute_mark(3)
    by (auto simp: handle_connect_req_unfold silence_speaker_def Let_def split: if_splits option.splits prod.splits
        elim!: serve_client_frame)
  then show ?thesis using datagram(4) assms(2)
    by (auto simp: receive_datagram_def handle_discovery_req_def handle_disconnect_req_def disconnect_client_def
        handle_heartbeat_ping_def handle_control_cmd_def Let_def split: if_splits msg_type.splits prod.splits)
next
  case (audio env data n c)
  then show ?thesis using assms(2)
    by (auto simp: on_audio_captured_def same_session_def Let_def split: if_splits dest!: chunk_loop_session)
qed (use assms(2) in \<open>auto simp: server_stop_def watchdog_tick_def relay_closed_def disconnect_client_def Let_def\<close>)

text \<open>A connection that is served makes the speaker silent, and only a command ends that.\<close>

lemma connect_quiet:
  assumes "handle_connect_req ops env sender s = Some s'" and "sv_state s' = STREAMING"
    and "sc_auto_mute_pc_speaker (sv_config s)" and "sp_works (sv_endpoint s)"
    and "sv_state s = STREAMING \<longrightarrow> sp_quiet (sc_mute_method (sv_config s)) (sv_endpoint s)"
  shows "sp_quiet (sc_mute_method (sv_config s)) (sv_endpoint s')"
proof -
  have served: "sp_quiet (sc_mute_method (sv_config s)) (sv_endpoint t')"
    if "serve_client env sender t = Some t'" "sv_config t = sv_config s" "sv_endpoint t = sv_endpoint s" for t t'
    using that assms(3,4) sp_mute_quiet by (auto simp: silence_speaker_def elim!: serve_client_frame)
  show ?thesis using assms(1,2,5)
    by (auto simp: handle_connect_req_unfold Let_def elim!: served split: if_splits option.splits prod.splits)
qed

lemma step_quiet:
  assumes "server_step ops ev s s'" and "\<not> is_control_cmd ev" and "sv_state s' = STREAMING"
    and "sc_auto_mute_pc_speaker (sv_config s)" and "sp_works (sv_endpoint s)"
    and "sv_state s = STREAMING \<longrightarrow> sp_quiet (sc_mute_method (sv_config s)) (sv_endpoint s)"
  shows "sp_quiet (sc_mute_method (sv_config s)) (sv_endpoint s')"
  using assms(1)
proof (cases rule: server_step.cases)
  case (start fresh res env b ok)
  from start(3) show ?thesis using assms(3,6) endpoint_initialised(4)
    by (cases rule: server_start_cases) auto
next
  case (stop env)
  then show ?thesis using assms(3) by (simp add: server_stop_frame)
next
  case (datagram src env buf)
  then show ?thesis using connect_quiet [OF _ assms(3-6)] assms(2,3,6)
    by (auto simp: receive_datagram_def handle_discovery_req_def handle_disconnect_req_def disconnect_client_def
        handle_heartbeat_ping_def Let_def split: if_splits msg_type.splits prod.splits)
next
  case (watchdog env)
  then show ?thesis using assms(3,6) by (auto simp: watchdog_tick_def disconnect_client_def Let_def split: if_splits)
next
  case (audio env data n c)
  then show ?thesis using assms(3,6)
    by (auto simp: on_audio_captured_def same_session_def Let_def split: if_splits dest!: chunk_loop_session)
next
  case (tunnel env)
  then show ?thesis using assms(3,6) by (auto simp: relay_closed_def disconnect_client_def Let_def split: if_splits)
qed

lemma step_config:
  assumes "server_step ops ev s s'"
  shows "sv_config s' = sv_config s"
  using assms
proof (cases rule: server_step.cases)
  case (start fresh res env b ok)
  from start(3) show ?thesis by (cases rule: server_start_cases) auto
next
  case (audio env data n c)
  then show ?thesis
    by (auto simp: on_audio_captured_def same_session_def Let_def split: if_splits dest!: chunk_loop_session)
qed (auto simp: receive_config server_stop_frame watchdog_tick_def relay_closed_def Let_def)

lemma session_config: "session_run ops s0 evs s \<Longrightarrow> sv_config s = sv_config s0"
  by (induction rule: session_run.induct) (simp_all add: step_config)

lemma session_quiet:
  assumes "session_run ops s0 evs s" and "\<forall>ev \<in> set evs. \<not> is_control_cmd ev"
    and "sc_auto_mute_pc_speaker (sv_config s0)" and "sp_works (sv_endpoint s0)"
  shows "sv_config s = sv_config s0 \<and> sp_works (sv_endpoint s) \<and>
         (sv_state s = STREAMING \<longrightarrow> sp_quiet (sc_mute_method (sv_config s0)) (sv_endpoint s))"
  using assms(1,2)
proof (induction rule: session_run.induct)
  case (opens ev s)
  then show ?case using step_quiet [OF opens(2) _ opens(3)] assms(3,4) step_config [OF opens(2)] speaker_works_step [OF opens(2)]
    by simp
next
  case (goes_on evs s ev s')
  then show ?case using step_quiet [OF goes_on(3)] assms(3) step_config [OF goes_on(3)] speaker_works_step [OF goes_on(3)]
    by auto
qed

text \<open>
  Claim C7: in every execution, on either build, the server streams only while it runs, to a valid
  address and with a capturing engine, and its mark that it has silenced the speaker is set exactly
  while a client is served and automatic muting is on. And the speaker really is silent then: in every
  session in which no CONTROL_CMD has arrived, every control that the mute method takes care of (both
  on the dummy device, on Windows those of the method, provided the calls of the endpoint succeed) is
  muted or at volume zero as long as the client is served.
\<close>

theorem server_session_invariant:
  assumes "server_reach ops sp config s" and "ops_ok ops"
  shows "(sv_state s = STREAMING \<longrightarrow> sv_is_running s \<and> sa_valid (sv_active_client s) \<and>
            (\<exists>e. sv_engine s = Some e \<and> co_is_capturing ops e)) \<and>
         (sp_is_silenced_by_us (sv_endpoint s) \<longleftrightarrow>
            sv_state s = STREAMING \<and> sc_auto_mute_pc_speaker config) \<and>
         (\<forall>s0 evs. session_run ops s0 evs s \<and> sp_works (sv_endpoint s0) \<and> (\<forall>ev \<in> set evs. \<not> is_control_cmd ev) \<and>
            sv_state s = STREAMING \<and> sc_auto_mute_pc_speaker config \<longrightarrow>
            sp_quiet (sc_mute_method config) (sv_endpoint s))"
proof -
  note inv = reach_session_inv [OF assms]
  have "sp_quiet (sc_mute_method config) (sv_endpoint s)"
    if "session_run ops s0 evs s" "sp_works (sv_endpoint s0)" "\<forall>ev \<in> set evs. \<not> is_control_cmd ev"
      "sv_state s = STREAMING" "sc_auto_mute_pc_speaker config" for s0 evs
    using session_quiet [OF that(1,3) _ that(2)] session_config [OF that(1)] inv that(4,5) by simp
  then show ?thesis using inv by (auto simp: session_inv_def)
qed

text \<open>
  A session with the test tone: the server starts, a client connects, sets the volume of the PC, and
  the server is stopped.
\<close>

definition tone_ops :: "dummy_capture capture_ops" where
  "tone_ops = \<lparr>co_start = (\<lambda>d a e. dummy_capture_start d e), co_stop = dummy_capture_stop, co_is_capturing = dummy_is_capturing\<rparr>"

lemma tone_ops_ok: "ops_ok tone_ops"
  using tone_engine.start_runs tone_engine.stop_stops by (auto simp: ops_ok_def tone_ops_def)

definition example_resolver :: resolver where
  "example_resolver = \<lparr>inet_pton = (\<lambda>_. Some 1), gethostbyname = (\<lambda>_. None), inet_ntop = (\<lambda>_. None)\<rparr>"

definition bare_request :: "msg_type \<Rightarrow> byte list" where
  "bare_request t = encode_common_header (make_header t 0 0 0 FLAG_NONE)"

definition control_cmd_packet :: "control_cmd_payload \<Rightarrow> byte list" where
  "control_cmd_packet p = encode_common_header (make_header CONTROL_CMD 0 0 (word_of_nat sizeof_control_cmd_payload) FLAG_NONE) @
     encode_control_cmd_payload p"

definition set_volume_cmd :: "byte list" where
  "set_volume_cmd = control_cmd_packet \<lparr>cc_cmd_id = 3, cc_param_float = 0x3F000000, cc_param_int = 0\<rparr>"

definition mute_cmd :: "byte list" where
  "mute_cmd = control_cmd_packet \<lparr>cc_cmd_id = 1, cc_param_float = 0, cc_param_int = 0\<rparr>"

definition started_server :: "speaker \<Rightarrow> dummy_capture server" where
  "started_server sp = snd (server_start example_resolver example_env True (DummyCapture (FFin 440)) (AudioRouterServer sp default_server_config))"

definition connected_server :: "speaker \<Rightarrow> dummy_capture server" where
  "connected_server sp = the (receive_datagram tone_ops example_env (bare_request CONNECT_REQ) example_client (started_server sp))"

lemma server_start_default:
  "server_start example_resolver example_env True (DummyCapture (FFin 440)) (AudioRouterServer sp default_server_config) =
     (True, started_server sp)"
  "sv_state (started_server sp) = LISTENING" "sv_is_running (started_server sp)"
  "sv_engine (started_server sp) = Some (DummyCapture (FFin 440))" "sv_config (started_server sp) = default_server_config"
  "sv_endpoint (started_server sp) = snd (sp_init (en_com example_env) sp)"
  by (simp_all add: started_server_def server_start_def AudioRouterServer_def udp_open_def udp_bind_def udp_is_open_def
      UdpSocket_def example_env_def INVALID_SOCKET_HANDLE_def example_resolver_def SocketAddress_def default_server_config_def Let_def)

lemma bare_request_received:
  assumes "t \<noteq> UNKNOWN"
  shows "receive_datagram ops env (bare_request t) sender s =
     (case t of
        DISCOVERY_REQ \<Rightarrow> Some (handle_discovery_req env sender s)
      | CONNECT_REQ \<Rightarrow> handle_connect_req ops env sender s
      | DISCONNECT_REQ \<Rightarrow> Some (handle_disconnect_req env sender s)
      | HEARTBEAT_PING \<Rightarrow> Some (handle_heartbeat_ping env (make_header t 0 0 0 FLAG_NONE) [] sender s)
      | CONTROL_CMD \<Rightarrow> Some (handle_control_cmd [] sender s)
      | _ \<Rightarrow> Some s)"
proof -
  define h where "h = make_header t 0 0 0 FLAG_NONE"
  have l: "length (bare_request t) = sizeof_common_header" by (simp add: bare_request_def wire_simps)
  have d: "decode_common_header (bare_request t) = h"
    using decode_encode_common_header [of h "[]"] by (simp add: bare_request_def h_def)
  have v: "is_valid_header h sizeof_common_header"
    using assms header_ok_make_header by (simp add: h_def is_valid_header_iff sizeof_defs)
  have "msg_type_of_u8 (ch_msg_type h) = t" by (simp add: h_def make_header_def del: u8_of_msg_type.simps)
  then show ?thesis using l d v by (simp add: receive_datagram_def h_def Let_def)
qed

lemma example_connect:
  assumes "sp = MockSpeaker dummy_new"
  shows "receive_datagram tone_ops example_env (bare_request CONNECT_REQ) example_client (started_server sp) = Some (connected_server sp)"
    and "sv_state (connected_server sp) = STREAMING" and "\<exists>c. sv_endpoint (connected_server sp) = MockSpeaker c"
proof -
  have "\<exists>t. handle_connect_req tone_ops example_env example_client (started_server sp) = Some t \<and> sv_state t = STREAMING \<and>
          (\<exists>c. sv_endpoint t = MockSpeaker c)"
    by (simp add: handle_connect_req_unfold busy_with_other_def server_start_default serve_client_def silence_speaker_def
        tone_ops_def dummy_is_capturing_def DummyCapture_def dummy_capture_start_def default_server_config_def
        accept_client_def assms dummy_init_def dummy_mute_pc_speaker_def Let_def split: prod.split)
  then obtain t where t: "handle_connect_req tone_ops example_env example_client (started_server sp) = Some t" "sv_state t = STREAMING"
    "\<exists>c. sv_endpoint t = MockSpeaker c" by blast
  then show "receive_datagram tone_ops example_env (bare_request CONNECT_REQ) example_client (started_server sp) = Some (connected_server sp)"
    by (simp add: connected_server_def bare_request_received)
  with t show "sv_state (connected_server sp) = STREAMING" "\<exists>c. sv_endpoint (connected_server sp) = MockSpeaker c"
    by (simp_all add: bare_request_received)
qed

lemma example_session:
  assumes "sp = MockSpeaker dummy_new"
  shows "server_reach tone_ops sp default_server_config (started_server sp)"
    and "session_run tone_ops (started_server sp) [Arrives (bare_request CONNECT_REQ)] (connected_server sp)"
    and "server_reach tone_ops sp default_server_config (connected_server sp)"
proof -
  have fresh: "\<not> co_is_capturing tone_ops (DummyCapture (FFin 440))" by (simp add: tone_ops_def dummy_is_capturing_def DummyCapture_def)
  have "server_reach tone_ops sp default_server_config (AudioRouterServer sp default_server_config)"
    using assms by (intro server_reach.init) simp
  then show r: "server_reach tone_ops sp default_server_config (started_server sp)"
    using server_step.start [OF fresh server_start_default(1)] by (rule server_reach.step)
  have c: "server_step tone_ops (Arrives (bare_request CONNECT_REQ)) (started_server sp) (connected_server sp)"
    using example_connect(1) [OF assms] server_start_default(3) unfolding example_client_def
    by (intro server_step.datagram) auto
  show "session_run tone_ops (started_server sp) [Arrives (bare_request CONNECT_REQ)] (connected_server sp)"
    using c example_connect(2) [OF assms] by (intro session_run.opens) (simp_all add: server_start_default)
  show "server_reach tone_ops sp default_server_config (connected_server sp)" using r c by (rule server_reach.step)
qed

theorem server_session_invariant_witness:
  "sp_is_silenced_by_us (sv_endpoint (connected_server (MockSpeaker dummy_new))) \<and>
   sv_is_running (connected_server (MockSpeaker dummy_new)) \<and>
   sp_muted (sv_endpoint (connected_server (MockSpeaker dummy_new))) = Some True \<and>
   sp_volume (sv_endpoint (connected_server (MockSpeaker dummy_new))) = Some (FFin 0)"
proof -
  define sp where "sp = MockSpeaker dummy_new"
  have st: "sv_state (connected_server sp) = STREAMING" by (rule example_connect(2)) (simp add: sp_def)
  have auto: "sc_auto_mute_pc_speaker default_server_config" by (simp add: default_server_config_def)
  have w: "sp_works (sv_endpoint (started_server sp))" by (simp only: server_start_default sp_works_keeps) (simp add: sp_def)
  have nc: "\<forall>ev \<in> set [Arrives (bare_request CONNECT_REQ)]. \<not> is_control_cmd ev"
    using decode_encode_common_header [of "make_header CONNECT_REQ 0 0 0 FLAG_NONE" "[]"]
    by (simp add: bare_request_def make_header_def del: u8_of_msg_type.simps)
  have "\<exists>c. sv_endpoint (connected_server sp) = MockSpeaker c" by (rule example_connect(3)) (simp add: sp_def)
  then have cov: "covers_mute m (sv_endpoint (connected_server sp))" "covers_volume m (sv_endpoint (connected_server sp))" for m by auto
  show ?thesis
    using server_session_invariant [OF example_session(3) tone_ops_ok, of sp] example_session(2) [of sp] st auto w nc cov
    unfolding sp_def [symmetric] sp_quiet_def by blast
qed

text \<open>
  A speaker that is held stays held through every event, except for the commands of a client that is
  taken for the active one although it is not served.
\<close>

lemma holds_disconnect:
  assumes "sp_holds m before (sv_endpoint s)"
  shows "sp_holds m before (sv_endpoint (disconnect_client env reason ack s))"
  using assms by (auto simp: disconnect_client_def sp_holds_unmute Let_def)

lemma holds_connect:
  assumes "handle_connect_req ops env sender s = Some s'" and "sc_mute_method (sv_config s) = m"
    and "sc_auto_mute_pc_speaker (sv_config s)" and "sp_holds m before (sv_endpoint s)"
  shows "sp_holds m before (sv_endpoint s')"
proof -
  have served: "sp_holds m before (sv_endpoint t')"
    if "serve_client env sender t = Some t'" "sv_config t = sv_config s" "sv_endpoint t = sv_endpoint s" for t t'
    using that assms(2-4) sp_holds_mute by (auto simp: silence_speaker_def elim!: serve_client_frame)
  show ?thesis using assms(1,4)
    by (auto simp: handle_connect_req_unfold Let_def elim!: served split: if_splits option.splits prod.splits)
qed

lemma holds_stop:
  assumes "sp_holds m before (sv_endpoint s)" and "session_inv ops s"
  shows "sp_holds m before (sv_endpoint (server_stop ops env s))"
proof -
  define t where "t = disconnect_client env ''Server shutdown'' True (s\<lparr>sv_is_running := False\<rparr>)"
  have "session_inv ops (s\<lparr>sv_is_running := False\<rparr>)" using assms(2) by (simp add: session_inv_def)
  then have "session_inv ops t" unfolding t_def by (rule disconnect_client_frame)
  then have b: "sp_bound (sv_endpoint t)" by (simp add: session_inv_def)
  have h: "sp_holds m before (sv_endpoint t)" unfolding t_def by (rule holds_disconnect) (use assms(1) in simp)
  show ?thesis using sp_shutdown_keeps(3) [OF sp_unmute_mark(1) [OF b] sp_holds_unmute [OF h]] h
    by (simp add: server_stop_frame(5) t_def [symmetric])
qed

lemma holds_step:
  assumes "server_step ops ev s s'" and "session_inv ops s" and "sc_auto_mute_pc_speaker (sv_config s)"
    and "sp_holds m before (sv_endpoint s)" and "sc_mute_method (sv_config s) = m"
    and "sv_state s = STREAMING \<or> sv_state s' = STREAMING \<or> sin_family (sa_addr (sv_active_client s)) \<noteq> AF_INET"
  shows "sp_holds m before (sv_endpoint s')"
  using assms(1)
proof (cases rule: server_step.cases)
  case (start fresh res env b ok)
  from start(3) show ?thesis using assms(4) endpoint_initialised(5) by (cases rule: server_start_cases) metis+
next
  case (stop env)
  then show ?thesis using holds_stop [OF assms(4,2)] by simp
next
  case (datagram src env buf)
  have ctrl: "sp_holds m before (sv_endpoint (handle_control_cmd p (SocketAddress_raw src) s))"
    if "s' = handle_control_cmd p (SocketAddress_raw src) s" for p
  proof (cases "sv_state s = STREAMING")
    case True
    then have "sp_is_silenced_by_us (sv_endpoint s)" using assms(2,3) by (simp add: session_inv_def)
    then show ?thesis using assms(4) by (simp add: handle_control_cmd_def sp_holds_command Let_def)
  next
    case False
    then have "\<not> sa_eq (SocketAddress_raw src) (sv_active_client s)"
      using assms(6) datagram(3) that by (auto simp: sa_eq_def SocketAddress_raw_def handle_control_cmd_def Let_def split: if_splits)
    then show ?thesis using assms(4) by (simp add: handle_control_cmd_def)
  qed
  show ?thesis using datagram(4) assms(4) ctrl holds_connect [OF _ assms(5,3,4)] holds_disconnect [OF assms(4)]
    by (auto simp: receive_datagram_def handle_discovery_req_def handle_disconnect_req_def
        handle_heartbeat_ping_def Let_def split: if_splits msg_type.splits prod.splits)
next
  case (watchdog env)
  then show ?thesis using assms(4) holds_disconnect [OF assms(4)] by (simp add: watchdog_tick_def Let_def)
next
  case (audio env data n c)
  then show ?thesis using assms(4)
    by (auto simp: on_audio_captured_def same_session_def Let_def split: if_splits dest!: chunk_loop_session)
next
  case (tunnel env)
  then show ?thesis using assms(4) holds_disconnect [OF assms(4)] by (simp add: relay_closed_def)
qed

lemma session_reach: "session_run ops s0 evs s \<Longrightarrow> server_reach ops sp config s0 \<Longrightarrow> server_reach ops sp config s"
  by (induction rule: session_run.induct) (blast intro: server_reach.step)+

lemma session_holds:
  assumes "session_run ops s0 evs s" and "server_reach ops sp config s0" and "ops_ok ops" and "sc_auto_mute_pc_speaker config"
    and "sp_works (sv_endpoint s0)"
  shows "sp_holds (sc_mute_method config) (sv_endpoint s0) (sv_endpoint s)"
  using assms(1)
proof (induction rule: session_run.induct)
  case (opens ev s)
  note inv = reach_session_inv [OF assms(2,3)]
  have "\<not> sp_is_silenced_by_us (sv_endpoint s0)" using inv opens(1) by (simp add: session_inv_def)
  then have "sp_holds (sc_mute_method config) (sv_endpoint s0) (sv_endpoint s0)" by (rule sp_holds_start [OF assms(5)])
  then show ?case using inv assms(4) opens(3) by (intro holds_step [OF opens(2)]) auto
next
  case (goes_on evs s ev s')
  have "server_reach ops sp config s" using goes_on(1) assms(2) by (rule session_reach)
  then show ?case using reach_session_inv [of ops sp config s] assms(3,4) goes_on
    by (intro holds_step [OF goes_on(3)]) auto
qed

text \<open>
  Claim C5: with automatic muting, every session gives the speaker of the PC back. Whatever mute and
  volume commands the client sent, whichever of a disconnect, a time-out, a lost tunnel, another client
  that took over or a stop ended it, when no client is served any more every control that the mute
  method takes care of is exactly as it was in the state in which the session began. On the dummy device
  of the other builds those controls are the mute flag and the volume; on Windows, where the calls of
  the endpoint are taken to succeed, the mute flag for EndpointMute, the volume for VolumeZero, and both
  for Both.
\<close>

theorem server_restores_speaker:
  assumes "server_reach ops sp config s0" and "ops_ok ops" and "sc_auto_mute_pc_speaker config"
    and "sp_works (sv_endpoint s0)" and "session_run ops s0 evs s" and "sv_state s \<noteq> STREAMING"
  shows "sp_as_before (sc_mute_method config) (sv_endpoint s0) (sv_endpoint s)"
proof (rule sp_holds_released)
  show "sp_holds (sc_mute_method config) (sv_endpoint s0) (sv_endpoint s)"
    using assms(1-5) by (intro session_holds)
  show "\<not> sp_is_silenced_by_us (sv_endpoint s)"
    using reach_session_inv [OF session_reach [OF assms(5,1)] assms(2)] assms(6) by (simp add: session_inv_def)
qed

text \<open>The client sets the volume while it is served, then the server is stopped.\<close>

definition commanded_server :: "speaker \<Rightarrow> dummy_capture server" where
  "commanded_server sp = the (receive_datagram tone_ops example_env set_volume_cmd example_client (connected_server sp))"

definition stopped_server :: "speaker \<Rightarrow> dummy_capture server" where
  "stopped_server sp = server_stop tone_ops example_env (commanded_server sp)"

lemma control_cmd_received:
  "receive_datagram ops env (control_cmd_packet c) sender s = Some (handle_control_cmd (encode_control_cmd_payload c) sender s)"
proof -
  define h where "h = make_header CONTROL_CMD 0 0 (word_of_nat sizeof_control_cmd_payload) FLAG_NONE"
  define p where "p = encode_control_cmd_payload c"
  have b: "control_cmd_packet c = encode_common_header h @ p" by (simp add: control_cmd_packet_def h_def p_def)
  have l: "length (encode_common_header h) = sizeof_common_header" "length p = sizeof_control_cmd_payload"
    by (simp_all add: p_def wire_simps sizeof_defs)
  have d: "decode_common_header (control_cmd_packet c) = h" by (simp only: b decode_encode_common_header)
  have v: "is_valid_header h (length (control_cmd_packet c))"
    by (simp add: b l) (simp add: is_valid_header_iff h_def header_ok_make_header sizeof_defs protocol_consts)
  have t: "msg_type_of_u8 (ch_msg_type h) = CONTROL_CMD" by (simp add: h_def make_header_def del: u8_of_msg_type.simps)
  have len: "\<not> length (control_cmd_packet c) < sizeof_common_header" by (simp add: b l)
  have dr: "drop sizeof_common_header (control_cmd_packet c) = p" by (simp add: b l)
  show ?thesis unfolding receive_datagram_def by (simp only: len d v t dr p_def Let_def if_False not_True_eq_False msg_type.case)
qed

lemma example_stop:
  assumes "sp = MockSpeaker dummy_new"
  shows "session_run tone_ops (started_server sp) [Arrives (bare_request CONNECT_REQ), Arrives set_volume_cmd, Stops] (stopped_server sp)"
    and "\<exists>c. sv_endpoint (stopped_server sp) = MockSpeaker c"
proof -
  note c = example_connect(2,3) [OF assms]
  have r: "sv_is_running (connected_server sp)"
    using reach_session_inv [OF example_session(3) [OF assms] tone_ops_ok] c(1) by simp
  have cmd: "commanded_server sp =
      handle_control_cmd (encode_control_cmd_payload \<lparr>cc_cmd_id = 3, cc_param_float = 0x3F000000, cc_param_int = 0\<rparr>)
        example_client (connected_server sp)"
    by (simp add: commanded_server_def set_volume_cmd_def control_cmd_received)
  then have st: "sv_state (commanded_server sp) = STREAMING" using c(1) by (simp add: handle_control_cmd_def Let_def)
  have "server_step tone_ops (Arrives set_volume_cmd) (connected_server sp) (commanded_server sp)"
  proof (rule server_step.datagram)
    show "receive_datagram tone_ops example_env set_volume_cmd (SocketAddress_raw \<lparr>sin_family = AF_INET, sin_port = 1, s_addr = 2\<rparr>)
        (connected_server sp) = Some (commanded_server sp)"
      using cmd by (simp add: set_volume_cmd_def control_cmd_received example_client_def)
  qed (use r in simp_all)
  from session_run.goes_on [OF session_run.goes_on [OF example_session(2) [OF assms] c(1) this] st server_step.stop]
  show "session_run tone_ops (started_server sp) [Arrives (bare_request CONNECT_REQ), Arrives set_volume_cmd, Stops] (stopped_server sp)"
    by (simp add: stopped_server_def)
  have "\<exists>x. sv_endpoint (commanded_server sp) = MockSpeaker x" using c(2) cmd
    by (auto simp: handle_control_cmd_def dummy_set_mute_def dummy_set_volume_def Let_def)
  then show "\<exists>c. sv_endpoint (stopped_server sp) = MockSpeaker c"
    by (auto simp: stopped_server_def server_stop_frame disconnect_client_def sp_defs)
qed

theorem server_restores_speaker_witness:
  "sv_state (stopped_server (MockSpeaker dummy_new)) \<noteq> STREAMING \<and>
   sp_muted (sv_endpoint (stopped_server (MockSpeaker dummy_new))) = Some False \<and>
   sp_volume (sv_endpoint (stopped_server (MockSpeaker dummy_new))) = Some (FFin 1)"
proof -
  define sp where "sp = MockSpeaker dummy_new"
  note ex = example_session [of sp, unfolded sp_def, OF refl, folded sp_def] example_stop [of sp, unfolded sp_def, OF refl, folded sp_def]
  have before: "sp_muted (sv_endpoint (started_server sp)) = Some False" "sp_volume (sv_endpoint (started_server sp)) = Some (FFin 1)"
    "sp_works (sv_endpoint (started_server sp))"
    by (simp_all only: server_start_default sp_works_keeps sp_init_keeps)
       (simp_all add: sp_def dummy_is_muted_def dummy_get_volume_def dummy_new_def endpoint_control.defs)
  have st: "sv_state (stopped_server sp) \<noteq> STREAMING" by (simp add: stopped_server_def server_stop_frame)
  have auto: "sc_auto_mute_pc_speaker default_server_config" by (simp add: default_server_config_def)
  have "sp_as_before (sc_mute_method default_server_config) (sv_endpoint (started_server sp)) (sv_endpoint (stopped_server sp))"
    using ex(1) tone_ops_ok auto before(3) ex(4) st by (rule server_restores_speaker)
  then show ?thesis using ex(5) before(1,2) st by (auto simp: sp_def [symmetric] sp_as_before_def)
qed

section \<open>All sessions of a run\<close>

text \<open>
  Between the sessions nobody is taken for the active client, as long as the capture engine starts
  whenever it is asked to.
\<close>

definition ops_reliable :: "'e capture_ops \<Rightarrow> bool" where
  "ops_reliable ops \<longleftrightarrow> (\<forall>d a e. fst (co_start ops d a e))"

definition nobody :: "'e server \<Rightarrow> bool" where
  "nobody s \<longleftrightarrow> (sv_state s \<noteq> STREAMING \<longrightarrow> sin_family (sa_addr (sv_active_client s)) \<noteq> AF_INET)"

lemma nobody_cong: "nobody s \<Longrightarrow> sv_state s' = sv_state s \<Longrightarrow> sv_active_client s' = sv_active_client s \<Longrightarrow> nobody s'"
  by (simp add: nobody_def)

lemma nobody_disconnect: "nobody s \<Longrightarrow> nobody (disconnect_client env reason ack s)"
  by (auto simp: nobody_def disconnect_client_def SocketAddress_empty_def zero_addr_def AF_INET_def Let_def)

lemma nobody_connect:
  assumes "handle_connect_req ops env sender s = Some s'" and "nobody s" and "ops_reliable ops"
  shows "nobody s'"
proof -
  have ok: "\<not> ok \<Longrightarrow> co_start ops d a x \<noteq> (ok, r)" for d a x ok r
    using assms(3) by (metis ops_reliable_def fst_conv)
  have served: "nobody t'" if "serve_client env sender t = Some t'" for t t'
    using that by (rule serve_client_frame) (simp add: nobody_def)
  have sent: "nobody (snd (sv_send env data dest s))" for data dest using assms(2) by (simp add: nobody_def)
  show ?thesis using assms(1) ok sent
    by (auto simp: handle_connect_req_unfold Let_def elim!: served split: if_splits option.splits prod.splits)
qed

lemma nobody_step:
  assumes "server_step ops ev s s'" and "nobody s" and "ops_reliable ops"
    and "sv_state s = STREAMING \<longrightarrow> sv_is_running s \<and> sa_valid (sv_active_client s)"
  shows "nobody s'"
  using assms(1)
proof (cases rule: server_step.cases)
  case (start fresh res env b ok)
  from start(3) show ?thesis using assms(2,4) by (cases rule: server_start_cases) (auto simp: nobody_def)
next
  case (stop env)
  have "nobody (s\<lparr>sv_is_running := False\<rparr>)" using assms(2) by (simp add: nobody_def)
  from nobody_disconnect [OF this, of env "''Server shutdown''" True] show ?thesis
    using stop disconnect_client_def [of env "''Server shutdown''" True "s\<lparr>sv_is_running := False\<rparr>"] assms(2,4)
    by (auto simp: nobody_def server_stop_frame Let_def split: if_splits)
next
  case (datagram src env buf)
  have "nobody (handle_control_cmd p sender s)" "nobody (handle_heartbeat_ping env h p sender s)"
    "nobody (handle_discovery_req env sender s)" for p sender h
    using assms(2) by (auto simp: handle_control_cmd_def handle_heartbeat_ping_def handle_discovery_req_def Let_def elim!: nobody_cong)
  then show ?thesis using datagram(4) assms(2) nobody_connect [OF _ assms(2,3)] nobody_disconnect [OF assms(2)]
    by (auto simp: receive_datagram_def handle_disconnect_req_def Let_def split: if_splits msg_type.splits)
next
  case (watchdog env)
  then show ?thesis using assms(2) nobody_disconnect [OF assms(2)] by (simp add: watchdog_tick_def Let_def)
next
  case (audio env data n c)
  then show ?thesis using assms(2)
    by (auto simp: on_audio_captured_def same_session_def Let_def split: if_splits dest!: chunk_loop_session elim!: nobody_cong)
next
  case (tunnel env)
  then show ?thesis using assms(2) nobody_disconnect [OF assms(2)] by (simp add: relay_closed_def)
qed

lemma reach_speaker_holds:
  assumes "server_reach ops sp config s" and "ops_ok ops" and "ops_reliable ops" and "sc_auto_mute_pc_speaker config"
    and "sp_works sp"
  shows "sp_holds (sc_mute_method config) sp (sv_endpoint s) \<and> nobody s"
  using assms(1)
proof (induction rule: server_reach.induct)
  case init
  then show ?case using sp_holds_start [OF assms(5) fresh_speaker_mark]
    by (simp add: AudioRouterServer_def nobody_def SocketAddress_empty_def zero_addr_def AF_INET_def)
next
  case (step s ev s')
  note inv = reach_session_inv [OF step(1) assms(2)]
  have "sp_holds (sc_mute_method config) sp (sv_endpoint s')"
    using inv assms(4) step(3) by (intro holds_step [OF step(2)]) (auto simp: nobody_def)
  then show ?case using nobody_step [OF step(2) _ assms(3)] inv step(3) by (simp add: session_inv_def)
qed

text \<open>
  Claim C40: a client that is not served can silence the speaker. When the server serves no other client
  and the engine does not start, the client that asked becomes the active one without being served, and
  a MUTE command it sends then mutes the speaker although no session saved how it was: the server keeps its state, and the mark that tells
  \<open>unmute_pc_speaker\<close> to restore anything keeps its value. This is for the speaker of other systems than Windows.
\<close>

theorem refused_client_mutes:
  assumes "\<not> busy_with_other env sender s" and "sv_engine s = Some e" and "\<not> co_is_capturing ops e"
    and "co_start ops (desired_audio_config (sv_config s)) (sv_actual_audio_config s) e = (False, actual, e')"
    and "sv_endpoint s = MockSpeaker c"
  shows "\<exists>s1 s2. handle_connect_req ops env sender s = Some s1 \<and> sv_active_client s1 = sender \<and> sv_state s1 = sv_state s \<and>
     receive_datagram ops env2 mute_cmd sender s1 = Some s2 \<and> sv_state s2 = sv_state s \<and>
     sp_muted (sv_endpoint s2) = Some True \<and> sp_is_silenced_by_us (sv_endpoint s2) = sp_is_silenced_by_us (sv_endpoint s)"
proof -
  define p where "p = encode_control_cmd_payload \<lparr>cc_cmd_id = 1, cc_param_float = 0, cc_param_int = 0\<rparr>"
  define s1 where "s1 = (accept_client env sender s)\<lparr>sv_actual_audio_config := actual, sv_engine := Some e'\<rparr>"
  have "handle_connect_req ops env sender s = Some s1" using assms by (simp add: handle_connect_req_unfold s1_def)
  moreover have "receive_datagram ops env2 mute_cmd sender s1 = Some (s1\<lparr>sv_endpoint := snd (sp_set_mute True (sv_endpoint s1))\<rparr>)"
  proof -
    have "\<not> length p < sizeof_control_cmd_payload" by (simp add: p_def wire_simps sizeof_defs)
    moreover have "cc_cmd_id (decode_control_cmd_payload p) = 1"
      by (simp add: p_def decode_control_cmd_payload_def encode_control_cmd_payload_def)
    ultimately show ?thesis
      by (simp add: mute_cmd_def control_cmd_received p_def [symmetric] handle_control_cmd_def s1_def sa_eq_def)
  qed
  ultimately show ?thesis using assms(5)
    by (simp add: s1_def dummy_set_mute_def dummy_is_muted_def is_currently_silenced_by_us_def)
qed

section \<open>Who is listened to\<close>

text \<open>
  While one client is served and has been heard of within the time-out, a connection
  request from another address changes nothing of the session and is answered only by a refusal to
  that address.
\<close>

theorem busy_server_refuses:
  assumes "sv_state s = STREAMING" and "sa_valid (sv_active_client s)" and "\<not> sa_eq (sv_active_client s) sender"
    and "en_now_ms env - sv_last_client_activity_time_ms s < ucast (sc_client_timeout_ms (sv_config s))"
  shows "\<exists>s'. handle_connect_req ops env sender s = Some s' \<and> same_session s s' \<and>
              sv_sequence_number s' = sv_sequence_number s \<and> sv_chunk_buffer s' = sv_chunk_buffer s \<and>
              logs s s' (nak_packet (en_now_us env)) sender \<and> packet_ok (nak_packet (en_now_us env))"
  using assms by (simp add: handle_connect_req_unfold busy_with_other_def same_session_def sv_send_logs reply_packets_ok)

definition other_client :: socket_address where
  "other_client = SocketAddress_raw \<lparr>sin_family = AF_INET, sin_port = 9, s_addr = 9\<rparr>"

theorem busy_server_refuses_witness:
  "\<exists>s'. handle_connect_req tone_ops example_env other_client example_server = Some s' \<and> same_session example_server s'"
  using busy_server_refuses [of example_server other_client example_env tone_ops]
  by (auto simp: example_client_def other_client_def SocketAddress_raw_def sa_eq_def example_env_def default_server_config_def)

text \<open>
  Pings, control commands and disconnect requests from an address that is not the active
  client's are ignored: no answer, no change of the session or of the speaker.
\<close>

theorem strangers_ignored:
  assumes "\<not> sa_eq sender (sv_active_client s)"
    and "msg_type_of_u8 (ch_msg_type (decode_common_header buf)) \<in> {HEARTBEAT_PING, CONTROL_CMD, DISCONNECT_REQ}"
  shows "receive_datagram ops env buf sender s = Some s"
  using assms
  by (auto simp: receive_datagram_def handle_heartbeat_ping_def handle_control_cmd_def handle_disconnect_req_def Let_def)

theorem strangers_ignored_witness:
  "receive_datagram tone_ops example_env (encode_common_header (make_header DISCONNECT_REQ 0 0 0 FLAG_NONE)) other_client example_server
   = Some example_server"
proof (rule strangers_ignored)
  show "\<not> sa_eq other_client (sv_active_client example_server)"
    by (simp add: other_client_def example_client_def SocketAddress_raw_def sa_eq_def)
  have "decode_common_header (encode_common_header h @ []) = h" for h by (rule decode_encode_common_header)
  then show "msg_type_of_u8 (ch_msg_type (decode_common_header
      (encode_common_header (make_header DISCONNECT_REQ 0 0 0 FLAG_NONE)))) \<in> {HEARTBEAT_PING, CONTROL_CMD, DISCONNECT_REQ}"
    by (simp add: make_header_def del: u8_of_msg_type.simps)
qed

text \<open>
  Claim C37: whatever datagram arrives, the server answers with at most one datagram, to the address
  it came from, and that answer is a well-formed packet of the protocol.
\<close>

theorem server_replies_well_formed:
  fixes s :: "'a server"
  assumes "receive_datagram ops env buf sender s = Some s'"
  shows "\<exists>out. sv_sent s' = sv_sent s @ out \<and> length out \<le> 1 \<and>
               (\<forall>(data, dest) \<in> set out. packet_ok data \<and> sa_eq dest sender)"
proof -
  define good where "good t \<longleftrightarrow> (\<exists>out. sv_sent t = sv_sent s @ out \<and> length out \<le> 1 \<and>
               (\<forall>(data, dest) \<in> set out. packet_ok data \<and> sa_eq dest sender))" for t :: "'a server"
  have sent: "good (snd (sv_send env data dest t))"
    if "sv_sent t = sv_sent s" "packet_ok data" "sa_eq dest sender" for data dest t
    using sv_send_logs [of t env data dest] that by (auto simp: logs_def good_def)
  have keep: "good t" if "sv_sent t = sv_sent s" for t using that by (simp add: good_def)
  have eq: "sa_eq sender sender" by (simp add: sa_eq_def)
  have disc: "good (handle_discovery_req env sender s)"
    unfolding handle_discovery_req_def Let_def
    by (rule sent) (simp_all add: eq discovery_reply_ok)
  have ping: "good (handle_heartbeat_ping env h p sender s)" for h p
    unfolding handle_heartbeat_ping_def Let_def
    by (auto simp: eq pong_ok keep intro!: sent)
  have ctrl: "good (handle_control_cmd p sender s)" for p
    by (rule keep) (simp add: handle_control_cmd_def Let_def)
  have dis: "good (handle_disconnect_req env sender s)"
  proof (cases "sa_eq sender (sv_active_client s) \<and> sv_state s = STREAMING \<and> sa_valid (sv_active_client s)")
    case True
    then have "sa_eq (sv_active_client s) sender" by (simp add: sa_eq_def)
    from sent [OF refl reply_packets_ok(3) this, of "en_now_us env" "''Client disconnected gracefully''"]
    show ?thesis using True by (simp add: handle_disconnect_req_def disconnect_client_def Let_def good_def)
  next
    case False
    then show ?thesis by (intro keep) (auto simp: handle_disconnect_req_def disconnect_client_def)
  qed
  have conn: "good t" if "handle_connect_req ops env sender s = Some t" for t
    using that eq
    by (auto simp: handle_connect_req_unfold serve_client_def Let_def split: if_splits option.splits prod.splits
        intro!: sent reply_packets_ok)
       (auto simp: keep)
  have "good s'"
    using assms disc ping ctrl dis conn keep
    by (auto simp: receive_datagram_def Let_def split: if_splits msg_type.splits)
  then show ?thesis by (simp add: good_def)
qed

theorem server_replies_well_formed_witness:
  "\<exists>s' out. receive_datagram tone_ops example_env [1, 2, 3] other_client example_server = Some s' \<and>
            sv_sent s' = [] @ out \<and> length out \<le> 1"
proof -
  have r: "receive_datagram tone_ops example_env [1, 2, 3] other_client example_server = Some example_server"
    by (simp add: receive_datagram_def sizeof_defs)
  show ?thesis using server_replies_well_formed [OF r] r by auto
qed

section \<open>Time-out\<close>

text \<open>
  The watchdog drops a client exactly when its last sign of life is older than the
  time-out, for clock readings that do not run behind it; the speaker is released with it.
\<close>

theorem watchdog_exact:
  assumes "sv_state s = STREAMING" and "sa_valid (sv_active_client s)"
    and "0 < sv_last_client_activity_time_ms s" and "sv_last_client_activity_time_ms s \<le> en_now_ms env"
  shows "(sv_state (watchdog_tick env s) = LISTENING) =
           (unat (sc_client_timeout_ms (sv_config s)) <
            unat (en_now_ms env) - unat (sv_last_client_activity_time_ms s)) \<and>
         (sv_state (watchdog_tick env s) = STREAMING \<longrightarrow> watchdog_tick env s = s)"
proof -
  have "unat (en_now_ms env - sv_last_client_activity_time_ms s) =
        unat (en_now_ms env) - unat (sv_last_client_activity_time_ms s)"
    using assms(4) by (simp add: unat_sub)
  moreover have "unat (ucast (sc_client_timeout_ms (sv_config s)) :: u64) = unat (sc_client_timeout_ms (sv_config s))"
    using unsigned_less [of "sc_client_timeout_ms (sv_config s)", where ?'a = nat]
    by (simp add: unsigned_ucast_eq take_bit_nat_eq_self)
  ultimately show ?thesis using assms
    by (auto simp: watchdog_tick_def disconnect_client_def word_less_nat_alt Let_def)
qed

theorem watchdog_exact_witness: "sv_state (watchdog_tick example_env example_server) = STREAMING"
proof -
  have "(sv_state (watchdog_tick example_env example_server) = LISTENING) = False"
    using watchdog_exact [of example_server example_env] by (simp add: example_env_def default_server_config_def)
  then show ?thesis by (simp add: watchdog_tick_def example_env_def default_server_config_def Let_def)
qed

text \<open>
  The watchdog reads the clock before the time of the last ping; when a ping is recorded in
  between, the difference wraps and the client that has just been heard of is dropped.
\<close>

theorem watchdog_race_drops_live_client:
  assumes "sv_state s = STREAMING" and "sa_valid (sv_active_client s)"
    and "en_now_ms env < sv_last_client_activity_time_ms s"
    and "unat (sv_last_client_activity_time_ms s) - unat (en_now_ms env) < 2 ^ 63"
  shows "sv_state (watchdog_tick env s) = LISTENING"
proof -
  define last where "last = sv_last_client_activity_time_ms s"
  have lt: "unat (en_now_ms env) < unat last" using assms(3) by (simp add: word_less_nat_alt last_def)
  have "unat (en_now_ms env - last) = 2 ^ 64 + unat (en_now_ms env) - unat last"
    using lt by (simp add: unat_sub_if_size word_size)
  then have "2 ^ 63 < unat (en_now_ms env - last)" using assms(4) by (simp add: last_def)
  moreover have "unat (ucast (sc_client_timeout_ms (sv_config s)) :: u64) < 2 ^ 32"
    using unsigned_less [of "sc_client_timeout_ms (sv_config s)", where ?'a = nat]
    by (simp add: unsigned_ucast_eq take_bit_nat_eq_self)
  ultimately have "en_now_ms env - last > ucast (sc_client_timeout_ms (sv_config s))"
    by (simp add: word_less_nat_alt)
  moreover have "last > 0" using lt by (simp add: word_less_nat_alt)
  ultimately show ?thesis using assms(1,2) by (simp add: watchdog_tick_def disconnect_client_def Let_def last_def)
qed

theorem watchdog_race_drops_live_client_witness:
  "sv_state (watchdog_tick (example_env\<lparr>en_now_ms := 999\<rparr>) example_server) = LISTENING"
  by (rule watchdog_race_drops_live_client) simp_all

section \<open>New sessions\<close>

text \<open>
  A new session starts at sequence number 0 but with the remainder of the previous
  session's audio still in the chunk buffer, which its first packet carries.
\<close>

theorem new_session_keeps_stale_audio:
  assumes "\<not> busy_with_other env sender s" and "sv_engine s = Some e" and "co_is_capturing ops e"
    and "handle_connect_req ops env sender s = Some s'"
  shows "sv_state s' = STREAMING \<and> sv_active_client s' = sender \<and>
         sv_sequence_number s' = 0 \<and> sv_chunk_buffer s' = sv_chunk_buffer s"
  using assms by (auto simp: handle_connect_req_unfold elim: serve_client_frame)

theorem new_session_keeps_stale_audio_witness:
  "\<exists>s'. handle_connect_req tone_ops example_env example_client (example_server\<lparr>sv_chunk_buffer := [1, 2]\<rparr>) = Some s' \<and>
        sv_chunk_buffer s' = [1, 2]"
proof -
  define s where "s = example_server\<lparr>sv_chunk_buffer := [1, 2]\<rparr>"
  have n: "\<not> busy_with_other example_env example_client s" by (simp add: s_def busy_with_other_def sa_eq_def)
  have e: "sv_engine s = Some (DummyCapture (FFin 440)\<lparr>dcap_is_running := True\<rparr>)" by (simp add: s_def example_server_def)
  have r: "co_is_capturing tone_ops (DummyCapture (FFin 440)\<lparr>dcap_is_running := True\<rparr>)"
    by (simp add: tone_ops_def dummy_is_capturing_def)
  have "sv_endpoint s = MockSpeaker (snd (dummy_mute_pc_speaker EndpointMute dummy_new))" by (simp add: s_def example_server_def)
  then have "\<exists>s'. handle_connect_req tone_ops example_env example_client s = Some s'"
    using n e r by (auto simp: handle_connect_req_unfold serve_client_def silence_speaker_def dummy_mute_pc_speaker_def Let_def)
  then obtain s' where "handle_connect_req tone_ops example_env example_client s = Some s'" by blast
  with new_session_keeps_stale_audio [OF n e r this] show ?thesis by (simp add: s_def)
qed

text \<open>
  When the engine fails to start, the client is made the active one but gets no answer at
  all, neither an acknowledgement nor a refusal.
\<close>

theorem capture_failure_is_silent:
  assumes "\<not> busy_with_other env sender s" and "sv_engine s = Some e" and "\<not> co_is_capturing ops e"
    and "co_start ops (desired_audio_config (sv_config s)) (sv_actual_audio_config s) e = (False, actual, e')"
  shows "\<exists>s'. handle_connect_req ops env sender s = Some s' \<and> sv_sent s' = sv_sent s \<and>
              sv_active_client s' = sender \<and> sv_state s' = sv_state s"
  using assms by (simp add: handle_connect_req_unfold)

definition broken_ops :: "dummy_capture capture_ops" where
  "broken_ops = \<lparr>co_start = (\<lambda>d a e. (False, a, e)), co_stop = dummy_capture_stop, co_is_capturing = dummy_is_capturing\<rparr>"

theorem capture_failure_is_silent_witness:
  "\<exists>s'. handle_connect_req broken_ops example_env example_client
          (AudioRouterServer (MockSpeaker dummy_new) default_server_config\<lparr>sv_engine := Some (DummyCapture (FFin 440))\<rparr>) = Some s' \<and>
        sv_sent s' = [] \<and> sv_active_client s' = example_client"
proof -
  define s :: "dummy_capture server" where "s = AudioRouterServer (MockSpeaker dummy_new) default_server_config\<lparr>sv_engine := Some (DummyCapture (FFin 440))\<rparr>"
  have "\<not> busy_with_other example_env example_client s" "sv_engine s = Some (DummyCapture (FFin 440))" "sv_sent s = []"
    by (simp_all add: s_def busy_with_other_def AudioRouterServer_def)
  moreover have "\<not> co_is_capturing broken_ops (DummyCapture (FFin 440))"
    by (simp add: broken_ops_def dummy_is_capturing_def DummyCapture_def)
  moreover have "co_start broken_ops d a e = (False, a, e)" for d a e by (simp add: broken_ops_def)
  ultimately show ?thesis
    using capture_failure_is_silent [of example_env example_client s "DummyCapture (FFin 440)" broken_ops] unfolding s_def by metis
qed

theorem refused_client_mutes_witness:
  "\<exists>s1 s2. handle_connect_req broken_ops example_env example_client
       (AudioRouterServer (MockSpeaker dummy_new) default_server_config\<lparr>sv_engine := Some (DummyCapture (FFin 440))\<rparr>) = Some s1 \<and>
     receive_datagram broken_ops example_env mute_cmd example_client s1 = Some s2 \<and>
     sp_muted (sv_endpoint s2) = Some True \<and> \<not> sp_is_silenced_by_us (sv_endpoint s2)"
proof -
  define s :: "dummy_capture server"
    where "s = AudioRouterServer (MockSpeaker dummy_new) default_server_config\<lparr>sv_engine := Some (DummyCapture (FFin 440))\<rparr>"
  have "\<not> busy_with_other example_env example_client s" "sv_engine s = Some (DummyCapture (FFin 440))" "sv_endpoint s = MockSpeaker dummy_new"
    by (simp_all add: s_def busy_with_other_def AudioRouterServer_def)
  moreover have "\<not> co_is_capturing broken_ops (DummyCapture (FFin 440))"
    by (simp add: broken_ops_def dummy_is_capturing_def DummyCapture_def)
  moreover have "co_start broken_ops d a e = (False, a, e)" for d a e by (simp add: broken_ops_def)
  moreover have "\<not> sp_is_silenced_by_us (MockSpeaker dummy_new)" by (rule fresh_speaker_mark) simp
  ultimately show ?thesis
    using refused_client_mutes [of example_env example_client s "DummyCapture (FFin 440)" broken_ops] unfolding s_def by metis
qed

end
