(* ===== verification/Player.thy ===== *)
theory Player
  imports Audio_Types
begin

text \<open>
  \<^verbatim>\<open>src/client/audio_player.hpp\<close> and \<^verbatim>\<open>dummy_player.{hpp,cpp}\<close>: the interface of the output backends
  and the silent sink. A backend is reached through a record of its operations; the result of the
  system calls an operation makes is fixed when the record is built. The locale states the contract
  the playback thread relies on; every backend of the client interprets it.
\<close>

text \<open>The bytes of a buffer of samples in memory.\<close>

definition pcm_bytes :: "i16 list \<Rightarrow> byte list" where
  "pcm_bytes pcm = concat (map (\<lambda>s. le_encode 2 (unat s)) pcm)"

lemma length_pcm_bytes [simp]: "length (pcm_bytes pcm) = 2 * length pcm"
  by (induction pcm) (simp_all add: pcm_bytes_def)

text \<open>The samples in a run of bytes; a last odd byte is not part of a sample.\<close>

fun bytes_pcm :: "byte list \<Rightarrow> i16 list" where
  "bytes_pcm (a # b # bs) = word_of_nat (le_decode [a, b]) # bytes_pcm bs"
| "bytes_pcm _ = []"

lemma length_bytes_pcm [simp]: "length (bytes_pcm bs) = length bs div 2"
  by (induction bs rule: bytes_pcm.induct) simp_all

lemma bytes_pcm_append: "even (length as) \<Longrightarrow> bytes_pcm (as @ bs) = bytes_pcm as @ bytes_pcm bs"
  by (induction as rule: bytes_pcm.induct) simp_all

record 'p player_ops =
  po_is_open :: "'p \<Rightarrow> bool"
  po_close :: "'p \<Rightarrow> 'p"
  po_write_frames :: "i16 list \<Rightarrow> nat \<Rightarrow> 'p \<Rightarrow> (nat \<times> 'p) option"
  po_get_buffer_delay_frames :: "'p \<Rightarrow> nat"
  po_get_device_name :: "'p \<Rightarrow> string"
  po_needs_playback_pacing :: bool
  po_is_placeholder :: bool

text \<open>
  The contract: a write gives at most the frames it was handed and keeps the backend's invariant, a
  closed backend takes nothing and stays as it is, and closing closes.
\<close>

locale audio_player =
  fixes ops :: "'p player_ops"
    and inv :: "'p \<Rightarrow> bool"
  assumes write_bounded: "inv p \<Longrightarrow> po_write_frames ops pcm n p = Some (k, p') \<Longrightarrow> k \<le> n \<and> inv p'"
    and write_closed: "\<not> po_is_open ops p \<Longrightarrow> po_write_frames ops pcm n p = Some (k, p') \<Longrightarrow> k = 0 \<and> p' = p"
    and close_closes: "\<not> po_is_open ops (po_close ops p)"
    and close_inv: "inv p \<Longrightarrow> inv (po_close ops p)"
begin

lemma write_after_close: "po_write_frames ops pcm n (po_close ops p) = Some (k, q) \<Longrightarrow> k = 0 \<and> q = po_close ops p"
  by (rule write_closed [OF close_closes])

end

text \<open>A playback run writes one buffer after the other and adds up what was taken.\<close>

fun play_all :: "'p player_ops \<Rightarrow> (i16 list \<times> nat) list \<Rightarrow> 'p \<Rightarrow> (nat \<times> 'p) option" where
  "play_all ops [] p = Some (0, p)"
| "play_all ops ((pcm, n) # bs) p =
     (case po_write_frames ops pcm n p of
        None \<Rightarrow> None
      | Some (k, p') \<Rightarrow> map_option (\<lambda>(total, q). (k + total, q)) (play_all ops bs p'))"

context audio_player
begin

lemma play_all_bounded:
  assumes "inv p" and "play_all ops bs p = Some (w, q)"
  shows "w \<le> sum_list (map snd bs) \<and> inv q"
  using assms
proof (induction bs arbitrary: p w)
  case Nil
  then show ?case by simp
next
  case (Cons b bs)
  obtain pcm n where b: "b = (pcm, n)" by (cases b)
  from Cons.prems obtain k p' t where wr: "po_write_frames ops pcm n p = Some (k, p')"
    and r: "play_all ops bs p' = Some (t, q)" and t: "w = k + t"
    by (auto simp: b split: option.splits)
  show ?case using Cons.IH [OF _ r] write_bounded [OF Cons.prems(1) wr] t by (simp add: b)
qed

lemma play_all_closed: "\<not> po_is_open ops p \<Longrightarrow> play_all ops bs p = Some (w, q) \<Longrightarrow> w = 0 \<and> q = p"
proof (induction bs arbitrary: w)
  case Nil
  then show ?case by simp
next
  case (Cons b bs)
  then show ?case by (cases b) (auto split: option.splits dest!: write_closed)
qed

end

section \<open>The dummy sink\<close>

record dummy_player =
  dp_is_open :: bool
  dp_config :: audio_config
  dp_device_name :: string
  dp_total_frames_written :: u64

definition DummyPlayer :: dummy_player where
  "DummyPlayer = \<lparr>dp_is_open = False, dp_config = default_audio_config, dp_device_name = ''dummy'',
                  dp_total_frames_written = 0\<rparr>"

definition dummy_player_open :: "audio_config \<Rightarrow> string \<Rightarrow> dummy_player \<Rightarrow> bool \<times> dummy_player" where
  "dummy_player_open config name p =
     (True, p\<lparr>dp_config := config, dp_device_name := name, dp_is_open := True, dp_total_frames_written := 0\<rparr>)"

definition dummy_player_close :: "dummy_player \<Rightarrow> dummy_player" where
  "dummy_player_close p = p\<lparr>dp_is_open := False\<rparr>"

text \<open>The result also holds the time slept, in microseconds; \<open>None\<close> when no sleep is made.\<close>

definition dummy_player_write :: "nat \<Rightarrow> dummy_player \<Rightarrow> nat \<times> u32 option \<times> dummy_player" where
  "dummy_player_write num_frames p =
     (if \<not> dp_is_open p then (0, None, p)
      else
        (let p = p\<lparr>dp_total_frames_written := dp_total_frames_written p + of_nat num_frames\<rparr>;
             rate = ac_sample_rate (dp_config p)
         in (num_frames,
             if rate > 0 then Some (ucast ((of_nat num_frames * 1000000 :: u64) div ucast rate)) else None, p)))"

definition dummy_player_ops :: "dummy_player player_ops" where
  "dummy_player_ops =
     \<lparr>po_is_open = dp_is_open, po_close = dummy_player_close,
      po_write_frames = (\<lambda>pcm n p. case dummy_player_write n p of (k, _, p') \<Rightarrow> Some (k, p')),
      po_get_buffer_delay_frames = (\<lambda>_. 0), po_get_device_name = dp_device_name,
      po_needs_playback_pacing = False, po_is_placeholder = True\<rparr>"

interpretation dummy_sink: audio_player dummy_player_ops "\<lambda>_. True"
  by unfold_locales
    (auto simp: dummy_player_ops_def dummy_player_write_def dummy_player_close_def Let_def split: if_splits)

text \<open>
  The sink sleeps exactly as long as the audio lasts, rounded down to a microsecond, for every
  period the client can hand it.
\<close>

lemma dummy_sink_real_time:
  assumes "dp_is_open p" and "0 < ac_sample_rate (dp_config p)"
    and "n * 1000000 < 2 ^ 32 * unat (ac_sample_rate (dp_config p))" and "n < 2 ^ 44"
  shows "\<exists>us p'. dummy_player_write n p = (n, Some us, p') \<and>
                 unat us = n * 1000000 div unat (ac_sample_rate (dp_config p))"
proof -
  define r where "r = ac_sample_rate (dp_config p)"
  have r0: "0 < unat r" using assms(2) by (simp add: r_def word_greater_zero_iff unat_gt_0)
  have n64: "unat (of_nat n * 1000000 :: u64) = n * 1000000"
  proof -
    have "n * 1000000 < 2 ^ 64" using assms(4) by simp
    then have "unat (of_nat (n * 1000000) :: u64) = n * 1000000" by (simp only: unat_of_nat) simp
    then show ?thesis by simp
  qed
  have q: "n * 1000000 div unat r < 2 ^ 32"
    using assms(3) r0 by (simp add: r_def less_mult_imp_div_less)
  have "unat ((ucast ((of_nat n * 1000000 :: u64) div ucast r)) :: u32) = n * 1000000 div unat r"
    using q by (subst unat_ucast_narrow) (simp_all add: unat_div_distrib n64)
  then show ?thesis using assms(1,2) by (simp add: dummy_player_write_def Let_def r_def)
qed

end
