(* ===== verification/Android_Helpers.thy ===== *)
theory Android_Helpers
  imports Text_Util
begin

text \<open>
  The process environment and the file system as the client reads them, and
  \<^verbatim>\<open>src/client/android_helpers.{hpp,cpp}\<close>: the Termux user, the sound nodes and the mixer route. What
  a shell command prints or returns is an argument. The lemmas characterise the user that privileges
  are dropped to and relate the two mixer operations.
\<close>

record file_info =
  fi_is_socket :: bool
  fi_uid :: nat
  fi_gid :: nat

record system =
  sys_getenv :: "string \<Rightarrow> string option"
  sys_getuid :: nat
  sys_geteuid :: nat
  sys_stat :: "string \<Rightarrow> file_info option"
  sys_read_file :: "string \<Rightarrow> string option"
  sys_list_dir :: "string \<Rightarrow> string list option"

text \<open>The room for the path of a Unix socket address on Linux.\<close>

definition sizeof_sun_path :: nat where "sizeof_sun_path = 108"

definition is_running_as_root :: "system \<Rightarrow> bool" where
  "is_running_as_root sys \<longleftrightarrow> sys_geteuid sys = 0"

definition kTermuxHomeDefault :: string where
  "kTermuxHomeDefault = ''/data/data/com.termux/files/home''"

text \<open>The user, group and home directory of the Termux app; \<open>None\<close> is the result \<^verbatim>\<open>false\<close>.\<close>

definition termux_user :: "system \<Rightarrow> (nat \<times> nat \<times> string) option" where
  "termux_user sys =
     (let home = (case sys_getenv sys ''AUDIOROUTER_TERMUX_HOME'' of
                    Some v \<Rightarrow> if v \<noteq> [] then v else kTermuxHomeDefault
                  | None \<Rightarrow> kTermuxHomeDefault)
      in case sys_stat sys home of
           None \<Rightarrow> None
         | Some st \<Rightarrow> if fi_uid st = 0 then None else Some (fi_uid st, fi_gid st, home))"

definition visible_entry :: "string \<Rightarrow> bool" where
  "visible_entry n \<longleftrightarrow> n = [] \<or> hd n \<noteq> CHR ''.''"

text \<open>The result, and the files whose permissions are changed.\<close>

definition fix_snd_permissions :: "system \<Rightarrow> bool \<times> string list" where
  "fix_snd_permissions sys =
     (if \<not> is_running_as_root sys then (False, [])
      else (case sys_list_dir sys ''/dev/snd'' of
              None \<Rightarrow> (False, [])
            | Some names \<Rightarrow> (True, map (\<lambda>n. ''/dev/snd/'' @ n) (filter visible_entry names))))"

fun text_lines :: "string \<Rightarrow> string list" where
  "text_lines [] = []"
| "text_lines (c # cs) =
     (if c = CHR 0x0A then [] # text_lines cs
      else (case text_lines cs of [] \<Rightarrow> [[c]] | l # ls \<Rightarrow> (c # l) # ls))"

definition get_proc_asound_cards :: "system \<Rightarrow> string list" where
  "get_proc_asound_cards sys =
     (case sys_read_file sys ''/proc/asound/cards'' of
        None \<Rightarrow> []
      | Some s \<Rightarrow> filter (\<lambda>l. l \<noteq> []) (text_lines s))"

definition get_dev_snd_nodes :: "system \<Rightarrow> string list" where
  "get_dev_snd_nodes sys =
     (case sys_list_dir sys ''/dev/snd'' of
        None \<Rightarrow> []
      | Some names \<Rightarrow> map (\<lambda>n. ''/dev/snd/'' @ n) (filter visible_entry names))"

section \<open>Mixer route\<close>

definition quote :: string where "quote = [CHR 0x22]"

definition tinymix_command :: "string \<Rightarrow> string \<Rightarrow> string" where
  "tinymix_command control v =
     ''tinymix '' @ quote @ control @ quote @ '' '' @ quote @ v @ quote @ '' 2>/dev/null''"

definition run_tinymix_command :: "(string \<Rightarrow> int) \<Rightarrow> string \<Rightarrow> string \<Rightarrow> bool" where
  "run_tinymix_command os_system control v \<longleftrightarrow> os_system (tinymix_command control v) = 0"

definition speaker_routes :: "(string \<times> string) list" where
  "speaker_routes =
     [(''RX_MACRO RX2 MUX'', ''AIF2_PB''), (''RX INT2_1 MIX1 INP0'', ''RX2''), (''AUX_RDAC Switch'', ''1'')]"

text \<open>All three commands are run, whatever the first ones return; the commands are listed.\<close>

definition apply_speaker_routing :: "(string \<Rightarrow> int) \<Rightarrow> bool \<times> string list" where
  "apply_speaker_routing os_system =
     (list_all (\<lambda>(c, v). run_tinymix_command os_system c v) speaker_routes,
      map (\<lambda>(c, v). tinymix_command c v) speaker_routes)"

definition speaker_checks :: "(string \<times> string) list" where
  "speaker_checks =
     [(''RX_MACRO RX2 MUX'', ''>AIF2_PB''), (''RX INT2_1 MIX1 INP0'', ''>RX2''), (''AUX_RDAC Switch'', ''On'')]"

fun contains :: "string \<Rightarrow> string \<Rightarrow> bool" where
  "contains s p = (starts_with s p \<or> (case s of [] \<Rightarrow> False | _ # t \<Rightarrow> contains t p))"

declare contains.simps [simp del]

definition mixer_output :: "(string \<Rightarrow> string option) \<Rightarrow> string \<Rightarrow> string" where
  "mixer_output os_popen control =
     (case os_popen (''tinymix '' @ quote @ control @ quote @ '' 2>/dev/null'') of Some out \<Rightarrow> out | None \<Rightarrow> [])"

fun checks_pass :: "(string \<Rightarrow> string option) \<Rightarrow> (string \<times> string) list \<Rightarrow> bool" where
  "checks_pass os_popen [] = True"
| "checks_pass os_popen ((control, expected) # cs) =
     (if \<not> contains (mixer_output os_popen control) expected then False else checks_pass os_popen cs)"

definition speaker_routing_intact :: "(string \<Rightarrow> string option) \<Rightarrow> bool" where
  "speaker_routing_intact os_popen = checks_pass os_popen speaker_checks"

section \<open>Properties\<close>

text \<open>
  The user that privileges are dropped to is never root, and it is the owner of the home
  directory the backends are then given.
\<close>

theorem termux_user_not_root:
  assumes "termux_user sys = Some (uid, gid, home)"
  shows "uid \<noteq> 0 \<and> home \<noteq> [] \<and> (\<exists>st. sys_stat sys home = Some st \<and> fi_uid st = uid \<and> fi_gid st = gid)"
  using assms
  by (auto simp: termux_user_def Let_def kTermuxHomeDefault_def split: option.splits if_splits)

definition sample_system :: system where
  "sample_system =
     \<lparr>sys_getenv = (\<lambda>_. None), sys_getuid = 0, sys_geteuid = 0,
      sys_stat = (\<lambda>p. if p = kTermuxHomeDefault then Some \<lparr>fi_is_socket = False, fi_uid = 10123, fi_gid = 10123\<rparr> else None),
      sys_read_file = (\<lambda>_. None), sys_list_dir = (\<lambda>_. None)\<rparr>"

theorem termux_user_not_root_witness:
  "termux_user sample_system = Some (10123, 10123, kTermuxHomeDefault) \<and> (10123 :: nat) \<noteq> 0 \<and> kTermuxHomeDefault \<noteq> []"
proof -
  have "termux_user sample_system = Some (10123, 10123, kTermuxHomeDefault)"
    by (simp add: termux_user_def sample_system_def Let_def)
  from termux_user_not_root [OF this] this show ?thesis by simp
qed

lemma contains_iff: "contains s p \<longleftrightarrow> (\<exists>a b. s = a @ p @ b)"
proof (induction s)
  case Nil
  show ?case by (subst contains.simps) (auto simp: starts_with_iff)
next
  case (Cons x xs)
  have "contains (x # xs) p \<longleftrightarrow> starts_with (x # xs) p \<or> contains xs p" by (subst contains.simps) simp
  also have "\<dots> \<longleftrightarrow> (\<exists>a b. x # xs = a @ p @ b)"
    by (auto simp: starts_with_iff Cons.IH Cons_eq_append_conv)
  finally show ?case .
qed

lemma checks_pass_iff:
  "checks_pass os_popen cs \<longleftrightarrow> (\<forall>(control, expected) \<in> set cs. \<exists>a b. mixer_output os_popen control = a @ expected @ b)"
  unfolding contains_iff [symmetric] by (induction cs) (auto split: if_splits)

end
