(* ===== verification/Pulse.thy ===== *)
theory Pulse
  imports Player Android_Helpers "HOL-Library.Multiset"
begin

text \<open>
  \<^verbatim>\<open>src/client/pulse_player.{hpp,cpp}\<close>: the PulseAudio backend. The name parser and the buffer sizing
  are the pure helpers of the namespace \<^verbatim>\<open>pulse\<close>; the search for a daemon reads the environment and
  the file system, which are a record of functions; libpulse is a parameter, one function per entry
  point the code calls. The stream handles that are created and freed are logged. The lemmas show
  what the parser accepts, that the requested buffer can hold a packet, and that no stream leaks.
\<close>

section \<open>Device names\<close>

record device_spec =
  ds_sink :: string
  ds_latency_ms :: u32

definition kMinLatencyMs :: nat where "kMinLatencyMs = 10"
definition kMaxLatencyMs :: nat where "kMaxLatencyMs = 500"
definition kOpenAttemptTimeoutMs :: u32 where "kOpenAttemptTimeoutMs = 8000"
definition kPulsePlayerOpenTimeoutMs :: u32 where "kPulsePlayerOpenTimeoutMs = 9000"

definition pulse_trim :: "string \<Rightarrow> string" where
  "pulse_trim s = trim_by isspace s"

definition is_pulse_device_name :: "string \<Rightarrow> bool" where
  "is_pulse_device_name n \<longleftrightarrow>
     n = ''pulse'' \<or> n = ''pulseaudio'' \<or> n = ''pa'' \<or>
     starts_with n ''pulse:'' \<or> starts_with n ''pulse@'' \<or>
     starts_with n ''pulseaudio:'' \<or> starts_with n ''pulseaudio@'' \<or>
     starts_with n ''pa:'' \<or> starts_with n ''pa@''"

text \<open>What is left behind the first of the three prefixes that matches.\<close>

definition strip_backend :: "string \<Rightarrow> string" where
  "strip_backend n =
     (if starts_with n ''pulseaudio'' then drop 10 n
      else if starts_with n ''pulse'' then drop 5 n
      else if starts_with n ''pa'' then drop 2 n else [])"

definition clamp_latency :: "nat \<Rightarrow> nat" where
  "clamp_latency ms =
     (let ms = (if ms > kMaxLatencyMs then kMaxLatencyMs else ms)
      in if ms \<noteq> 0 \<and> ms < kMinLatencyMs then kMinLatencyMs else ms)"

text \<open>The latency and what is left of the name in front of it.\<close>

definition split_latency :: "string \<Rightarrow> nat \<times> string" where
  "split_latency rest =
     (case rfind_char (CHR ''@'') rest of
        None \<Rightarrow> (0, rest)
      | Some i \<Rightarrow>
          (let tail = pulse_trim (drop (i + 1) rest) in
           if tail \<noteq> [] \<and> list_all isdigit tail
           then (clamp_latency (case stoul_digits tail of Some ms \<Rightarrow> ms | None \<Rightarrow> 0), take i rest)
           else (0, rest)))"

definition parse_device_spec :: "string \<Rightarrow> device_spec" where
  "parse_device_spec n =
     (if \<not> is_pulse_device_name n then \<lparr>ds_sink = [], ds_latency_ms = 0\<rparr>
      else
        (let (ms, rest) = split_latency (strip_backend n);
             sink = (if rest \<noteq> [] \<and> hd rest = CHR '':'' then pulse_trim (tl rest) else []);
             sink = (if sink = ''default'' \<or> sink = ''@DEFAULT_SINK@'' then [] else sink)
         in \<lparr>ds_sink = sink, ds_latency_ms = of_nat ms\<rparr>))"

section \<open>Buffer sizes\<close>

record buffer_attr =
  ba_maxlength :: u32
  ba_tlength :: u32
  ba_prebuf :: u32
  ba_minreq :: u32

definition no_attr :: buffer_attr where
  "no_attr = \<lparr>ba_maxlength = 0, ba_tlength = 0, ba_prebuf = 0, ba_minreq = 0\<rparr>"

definition clamp_u32 :: "u32 \<Rightarrow> u32 \<Rightarrow> u32 \<Rightarrow> u32" where
  "clamp_u32 x lo hi = (if x < lo then lo else if hi < x then hi else x)"

definition compute_buffer_attr :: "u32 \<Rightarrow> u64 \<Rightarrow> u32 \<Rightarrow> u32 \<Rightarrow> buffer_attr" where
  "compute_buffer_attr sample_rate bpf frames_per_packet latency_ms =
     (if sample_rate = 0 \<or> bpf = 0 then no_attr
      else
        (let frames_per_packet = (if frames_per_packet = 0 then 240 else frames_per_packet);
             packet_bytes = ucast frames_per_packet * bpf;
             byte_rate = ucast sample_rate * bpf;
             latency_ms = (if latency_ms = 0
                           then ucast ((packet_bytes * 4 * 1000 + byte_rate - 1) div byte_rate) else latency_ms);
             latency_ms = clamp_u32 latency_ms (of_nat kMinLatencyMs) (of_nat kMaxLatencyMs);
             tlength = (byte_rate * ucast latency_ms) div 1000;
             tlength = max tlength packet_bytes;
             tlength = tlength - tlength mod bpf
         in \<lparr>ba_maxlength = ucast (min (tlength * 2) 0xFFFFFFFF), ba_tlength = ucast tlength,
             ba_prebuf = ucast packet_bytes, ba_minreq = ucast packet_bytes\<rparr>))"

datatype pa_sample_format =
  PA_SAMPLE_S16LE | PA_SAMPLE_FLOAT32LE | PA_SAMPLE_S24LE | PA_SAMPLE_S32LE | PA_SAMPLE_INVALID

fun to_pa_format :: "audio_sample_format \<Rightarrow> pa_sample_format" where
  "to_pa_format PCM_S16LE = PA_SAMPLE_S16LE"
| "to_pa_format PCM_FLOAT32LE = PA_SAMPLE_FLOAT32LE"
| "to_pa_format PCM_S24LE = PA_SAMPLE_S24LE"
| "to_pa_format PCM_S32LE = PA_SAMPLE_S32LE"
| "to_pa_format FORMAT_UNKNOWN = PA_SAMPLE_INVALID"

section \<open>Finding the daemon\<close>

definition env_or_empty :: "system \<Rightarrow> string \<Rightarrow> string" where
  "env_or_empty sys name = (case sys_getenv sys name of Some v \<Rightarrow> v | None \<Rightarrow> [])"

definition path_exists :: "system \<Rightarrow> string \<Rightarrow> bool" where
  "path_exists sys path \<longleftrightarrow> path \<noteq> [] \<and> sys_stat sys path \<noteq> None"

definition unix_socket_is_live :: "system \<Rightarrow> string \<Rightarrow> bool" where
  "unix_socket_is_live sys path =
     (if path = [] \<or> length path \<ge> sizeof_sun_path then False
      else (case sys_stat sys path of None \<Rightarrow> False | Some st \<Rightarrow> fi_is_socket st))"

text \<open>
  \<^verbatim>\<open>fgets\<close> into 64 bytes: the first line with its newline, at most 63 characters, read as a C string;
  trailing newlines, carriage returns and blanks are then removed.
\<close>

definition first_line :: "string \<Rightarrow> string" where
  "first_line s = (let l = takeWhile (\<lambda>c. c \<noteq> CHR 0x0A) s in if length l < length s then l @ [CHR 0x0A] else l)"

definition strip_line_end :: "string \<Rightarrow> string" where
  "strip_line_end s = rev (dropWhile (\<lambda>c. c \<in> {CHR 0x0A, CHR 0x0D, CHR '' ''}) (rev s))"

definition machine_id_line :: "string \<Rightarrow> string" where
  "machine_id_line s = strip_line_end (takeWhile (\<lambda>c. c \<noteq> CHR 0x00) (take 63 (first_line s)))"

fun machine_id :: "system \<Rightarrow> string list \<Rightarrow> string" where
  "machine_id sys [] = []"
| "machine_id sys (f # fs) =
     (case sys_read_file sys f of
        None \<Rightarrow> machine_id sys fs
      | Some s \<Rightarrow> (let i = (if s = [] then [] else machine_id_line s) in if i \<noteq> [] then i else machine_id sys fs))"

definition runtime_dir_sockets :: "system \<Rightarrow> string \<Rightarrow> string list" where
  "runtime_dir_sockets sys rt =
     (rt @ ''/native'') #
     (case sys_list_dir sys rt of
        None \<Rightarrow> []
      | Some names \<Rightarrow>
          List.map_filter
            (\<lambda>rn. if rn = ''.'' \<or> rn = ''..'' \<or> rn = ''native'' then None
                  else (let full = rt @ ''/'' @ rn in
                        case sys_stat sys full of
                          None \<Rightarrow> None
                        | Some st \<Rightarrow> if fi_is_socket st then Some full else None)) names)"

definition base_candidates :: "system \<Rightarrow> string \<Rightarrow> string list" where
  "base_candidates sys base =
     (let mid = machine_id sys [base @ ''/machine-id'', ''/etc/machine-id''] in
      (if mid \<noteq> [] then [base @ ''/'' @ mid @ ''-runtime/native''] else []) @
      (case sys_list_dir sys base of
         None \<Rightarrow> []
       | Some names \<Rightarrow>
           concat (map (runtime_dir_sockets sys)
             (map (\<lambda>n. base @ ''/'' @ n) (filter (\<lambda>n. length n > 8 \<and> ends_with n ''-runtime'') names)))))"

definition socket_candidates :: "system \<Rightarrow> string list" where
  "socket_candidates sys =
     (let xdg = env_or_empty sys ''XDG_RUNTIME_DIR'';
          home = env_or_empty sys ''HOME'';
          prefix = env_or_empty sys ''PREFIX''
      in (if xdg \<noteq> [] then [xdg @ ''/pulse/native''] else []) @
         (if home \<noteq> [] then base_candidates sys (home @ ''/.config/pulse'') @ base_candidates sys (home @ ''/.pulse'')
          else []) @
         [''/run/user/'' @ to_string (sys_getuid sys) @ ''/pulse/native''] @
         (if home \<noteq> [] then [home @ ''/.pulse/native'', home @ ''/.config/pulse/native''] else []) @
         (if prefix \<noteq> [] then [prefix @ ''/var/run/pulse/native''] else []))"

definition usable_socket :: "system \<Rightarrow> string \<Rightarrow> bool" where
  "usable_socket sys c =
     (if \<not> path_exists sys c then False
      else (case sys_stat sys c of
              Some st \<Rightarrow> \<not> (fi_uid st \<noteq> sys_getuid sys \<and> sys_getuid sys = 0) \<and> unix_socket_is_live sys c
            | None \<Rightarrow> unix_socket_is_live sys c))"

definition add_live :: "system \<Rightarrow> string list \<Rightarrow> string \<Rightarrow> string list" where
  "add_live sys live c =
     (if \<not> usable_socket sys c then live
      else (let addr = ''unix:'' @ c in if addr \<in> set live then live else live @ [addr]))"

definition unix_path_of :: "string \<Rightarrow> string" where
  "unix_path_of env_server =
     (if starts_with env_server ''unix:'' then drop 5 env_server
      else if hd env_server = CHR ''/'' then env_server else [])"

definition resolve_server_addresses :: "system \<Rightarrow> string list" where
  "resolve_server_addresses sys =
     (let env_server = env_or_empty sys ''PULSE_SERVER'' in
      if env_server \<noteq> [] \<and> (unix_path_of env_server = [] \<or> unix_socket_is_live sys (unix_path_of env_server))
      then [env_server]
      else foldl (add_live sys) [] (socket_candidates sys))"

definition resolve_server_address :: "system \<Rightarrow> string" where
  "resolve_server_address sys = (let a = resolve_server_addresses sys in if a = [] then [] else hd a)"

definition server_available :: "system \<Rightarrow> bool" where
  "server_available sys \<longleftrightarrow> resolve_server_address sys \<noteq> []"

text \<open>The sink names in the output of \<^verbatim>\<open>pactl list short sinks\<close>: the second tab-separated field.\<close>

definition sink_of_line :: "string \<Rightarrow> string option" where
  "sink_of_line line =
     (case find_char (CHR 0x09) line of
        None \<Rightarrow> None
      | Some t1 \<Rightarrow>
          (let name = takeWhile (\<lambda>c. c \<noteq> CHR 0x09) (drop (t1 + 1) line) in if name \<noteq> [] then Some name else None))"

definition get_available_sinks :: "string \<Rightarrow> string list" where
  "get_available_sinks out = List.map_filter sink_of_line (text_lines out)"

section \<open>The player\<close>

record pa_sample_spec =
  ps_format :: pa_sample_format
  ps_rate :: u32
  ps_channels :: u8

text \<open>
  libpulse, the build flag and the clock, as one operation of the player sees them. \<open>pa_new\<close> gives a
  stream handle or fails; \<open>pa_write\<close> says whether a write succeeds; \<open>pa_latency\<close> is the latency or an
  error.
\<close>

record pulse_env =
  pe_enabled :: bool
  pe_sys :: system
  pe_new :: "string option \<Rightarrow> string option \<Rightarrow> pa_sample_spec \<Rightarrow> buffer_attr \<Rightarrow> nat option"
  pe_write :: "nat \<Rightarrow> bool"
  pe_latency :: "nat \<Rightarrow> u64 option"
  pe_now_ms :: u64
  pe_now_ms2 :: u64

record pulse_player =
  pp_config :: audio_config
  pp_spec :: device_spec
  pp_device_name :: string
  pp_stream :: "nat option"
  pp_is_open :: bool
  pp_effective_latency_ms :: u32
  pp_last_reconnect_ms :: u64
  pp_last_error_log_ms :: u64
  pp_write_failures :: nat
  pp_created :: "nat list"
  pp_freed :: "nat list"

definition PulsePlayer :: pulse_player where
  "PulsePlayer =
     \<lparr>pp_config = default_audio_config, pp_spec = \<lparr>ds_sink = [], ds_latency_ms = 0\<rparr>, pp_device_name = ''pulse'',
      pp_stream = None, pp_is_open = False, pp_effective_latency_ms = 0, pp_last_reconnect_ms = 0,
      pp_last_error_log_ms = 0, pp_write_failures = 0, pp_created = [], pp_freed = []\<rparr>"

definition kReconnectIntervalMs :: u64 where "kReconnectIntervalMs = 2000"
definition kErrorLogIntervalMs :: u64 where "kErrorLogIntervalMs = 5000"
definition kWriteFailuresBeforeReconnect :: nat where "kWriteFailuresBeforeReconnect = 3"

fun try_servers :: "(string \<Rightarrow> nat option) \<Rightarrow> string list \<Rightarrow> nat option" where
  "try_servers new [] = None"
| "try_servers new (s # ss) = (case new s of Some h \<Rightarrow> Some h | None \<Rightarrow> try_servers new ss)"

definition opt_string :: "string \<Rightarrow> string option" where
  "opt_string s = (if s = [] then None else Some s)"

definition or_unset :: "u32 \<Rightarrow> u32" where
  "or_unset x = (if x \<noteq> 0 then x else - 1)"

definition connect_locked :: "pulse_env \<Rightarrow> pulse_player \<Rightarrow> bool \<times> pulse_player" where
  "connect_locked env p =
     (let c = pp_config p; fmt = to_pa_format (ac_format c) in
      if fmt = PA_SAMPLE_INVALID then (False, p)
      else if ac_sample_rate c = 0 \<or> ac_channels c = 0 then (False, p)
      else
        (let ss = \<lparr>ps_format = fmt, ps_rate = ac_sample_rate c, ps_channels = ucast (ac_channels c)\<rparr>;
             bpf = of_nat (bytes_per_frame c) :: u64;
             wanted = compute_buffer_attr (ac_sample_rate c) bpf (ac_frames_per_packet c) (ds_latency_ms (pp_spec p));
             attr = \<lparr>ba_maxlength = or_unset (ba_maxlength wanted), ba_tlength = or_unset (ba_tlength wanted),
                     ba_prebuf = or_unset (ba_prebuf wanted), ba_minreq = or_unset (ba_minreq wanted)\<rparr>;
             p = p\<lparr>pp_effective_latency_ms :=
                     (if bpf \<noteq> 0 \<and> ac_sample_rate c \<noteq> 0 \<and> ba_tlength wanted \<noteq> 0
                      then ucast ((ucast (ba_tlength wanted) * 1000 :: u64) div (ucast (ac_sample_rate c) * bpf)) else 0)\<rparr>;
             servers = resolve_server_addresses (pe_sys env);
             servers = (if servers = [] then [[]] else servers)
         in case try_servers (\<lambda>s. pe_new env (opt_string s) (opt_string (ds_sink (pp_spec p))) ss attr) servers of
              None \<Rightarrow> (False, p)
            | Some h \<Rightarrow> (True, p\<lparr>pp_stream := Some h, pp_created := pp_created p @ [h]\<rparr>)))"

definition disconnect_locked :: "pulse_player \<Rightarrow> pulse_player" where
  "disconnect_locked p =
     (case pp_stream p of None \<Rightarrow> p | Some h \<Rightarrow> p\<lparr>pp_stream := None, pp_freed := pp_freed p @ [h]\<rparr>)"

definition pulse_close :: "pulse_env \<Rightarrow> pulse_player \<Rightarrow> pulse_player" where
  "pulse_close env p =
     (if \<not> pp_is_open p then p
      else (let p = p\<lparr>pp_is_open := False\<rparr> in if pe_enabled env then disconnect_locked p else p))"

definition pulse_open :: "pulse_env \<Rightarrow> audio_config \<Rightarrow> string \<Rightarrow> pulse_player \<Rightarrow> bool \<times> pulse_player" where
  "pulse_open env config name p =
     (let p = pulse_close env p;
          name = (if name = [] then ''pulse'' else name);
          p = p\<lparr>pp_config := config, pp_device_name := name, pp_spec := parse_device_spec name, pp_write_failures := 0\<rparr>
      in if \<not> pe_enabled env then (False, p)
         else if \<not> server_available (pe_sys env) then (False, p)
         else (case connect_locked env p of
                 (ok, p) \<Rightarrow> if \<not> ok then (False, p) else (True, p\<lparr>pp_is_open := True\<rparr>)))"

text \<open>
  \<open>pcm\<close> is what can be read from the pointer, in samples of two bytes; \<open>None\<close> is a read beyond it.
\<close>

definition pulse_write_stream :: "pulse_env \<Rightarrow> nat \<Rightarrow> nat \<Rightarrow> pulse_player \<Rightarrow> nat \<times> pulse_player" where
  "pulse_write_stream env h num_frames p =
     (if \<not> pe_write env h then
        (let p = p\<lparr>pp_write_failures := pp_write_failures p + 1\<rparr>;
             now = pe_now_ms2 env;
             p = (if now - pp_last_error_log_ms p \<ge> kErrorLogIntervalMs then p\<lparr>pp_last_error_log_ms := now\<rparr> else p)
         in (0, if pp_write_failures p \<ge> kWriteFailuresBeforeReconnect
                then (disconnect_locked p)\<lparr>pp_write_failures := 0, pp_last_reconnect_ms := now\<rparr> else p))
      else (num_frames, p\<lparr>pp_write_failures := 0\<rparr>))"

definition pulse_reconnect :: "pulse_env \<Rightarrow> pulse_player \<Rightarrow> bool \<times> pulse_player" where
  "pulse_reconnect env p =
     (if pp_stream p \<noteq> None then (True, p)
      else
        (let now = pe_now_ms env in
         if now - pp_last_reconnect_ms p < kReconnectIntervalMs then (False, p)
         else (case connect_locked env (p\<lparr>pp_last_reconnect_ms := now\<rparr>) of
                 (ok, p) \<Rightarrow> if \<not> ok then (False, p) else (True, p\<lparr>pp_write_failures := 0\<rparr>))))"

definition pulse_write_frames :: "pulse_env \<Rightarrow> i16 list \<Rightarrow> nat \<Rightarrow> pulse_player \<Rightarrow> (nat \<times> pulse_player) option" where
  "pulse_write_frames env pcm num_frames p =
     (if \<not> pp_is_open p \<or> num_frames = 0 then Some (0, p)
      else if \<not> pe_enabled env then Some (0, p)
      else
        (let bpf = bytes_per_frame (pp_config p) in
         if bpf = 0 then Some (0, p)
         else (case pulse_reconnect env p of
                 (ok, p) \<Rightarrow>
                   if \<not> ok then Some (0, p)
                   else (case pp_stream p of
                           None \<Rightarrow> None
                         | Some h \<Rightarrow> if 2 * length pcm < num_frames * bpf then None
                                     else Some (pulse_write_stream env h num_frames p)))))"

definition pulse_get_buffer_delay_frames :: "pulse_env \<Rightarrow> pulse_player \<Rightarrow> nat" where
  "pulse_get_buffer_delay_frames env p =
     (if \<not> pp_is_open p \<or> \<not> pe_enabled env then 0
      else (case pp_stream p of
              None \<Rightarrow> 0
            | Some h \<Rightarrow>
                (case pe_latency env h of
                   None \<Rightarrow> 0
                 | Some us \<Rightarrow> if us = - 1 then 0 else unat (us * ucast (ac_sample_rate (pp_config p)) div 1000000))))"

definition pulse_get_device_name :: "pulse_player \<Rightarrow> string" where
  "pulse_get_device_name p = (if ds_sink (pp_spec p) = [] then ''pulse'' else ''pulse:'' @ ds_sink (pp_spec p))"

definition pulse_ops :: "pulse_env \<Rightarrow> pulse_player player_ops" where
  "pulse_ops env =
     \<lparr>po_is_open = pp_is_open, po_close = pulse_close env, po_write_frames = pulse_write_frames env,
      po_get_buffer_delay_frames = pulse_get_buffer_delay_frames env, po_get_device_name = pulse_get_device_name,
      po_needs_playback_pacing = False, po_is_placeholder = False\<rparr>"

section \<open>Names\<close>

lemma strip_backend_pulse: "strip_backend (''pulse:'' @ r) = CHR '':'' # r"
  by (simp add: strip_backend_def starts_with_def)

lemma clamp_latency_range: "clamp_latency ms = 0 \<or> kMinLatencyMs \<le> clamp_latency ms \<and> clamp_latency ms \<le> kMaxLatencyMs"
  by (simp add: clamp_latency_def kMinLatencyMs_def kMaxLatencyMs_def Let_def)

lemma split_latency_range:
  "fst (split_latency r) = 0 \<or> kMinLatencyMs \<le> fst (split_latency r) \<and> fst (split_latency r) \<le> kMaxLatencyMs"
  using clamp_latency_range by (auto simp: split_latency_def Let_def split: option.splits)

lemma digit_not_at: "CHR ''@'' \<notin> set (to_string n)"
  using to_string_digits [of n] by (auto simp: isdigit_def)

lemma split_latency_number:
  assumes "kMinLatencyMs \<le> ms" and "ms \<le> kMaxLatencyMs"
  shows "split_latency (r @ CHR ''@'' # to_string ms) = (ms, r)"
proof -
  have d: "list_all isdigit (to_string ms)" using to_string_digits by (simp add: list_all_iff)
  have "stoul_digits (to_string ms) = Some ms"
    using assms by (simp add: stoul_digits_def SIZE_MAX_value kMaxLatencyMs_def)
  then show ?thesis using assms
    by (simp add: split_latency_def rfind_char_last [OF digit_not_at] pulse_trim_def d clamp_latency_def
        kMinLatencyMs_def kMaxLatencyMs_def)
qed

lemma parse_latency_range:
  "ds_latency_ms (parse_device_spec n) = 0 \<or>
   kMinLatencyMs \<le> unat (ds_latency_ms (parse_device_spec n)) \<and> unat (ds_latency_ms (parse_device_spec n)) \<le> kMaxLatencyMs"
proof -
  have "unat (of_nat m :: u32) = m" if "m \<le> kMaxLatencyMs" for m
    using that by (simp add: unat_of_nat kMaxLatencyMs_def)
  then show ?thesis using split_latency_range [of "strip_backend n"]
    by (auto simp: parse_device_spec_def Let_def split: prod.splits)
qed

text \<open>
  A sink name with an explicit latency inside the limits is read back as written, for every
  name that has no blanks at its ends and is not one of the two spellings of the default sink; and
  whatever name is given, the latency is either unset or inside the limits.
\<close>

theorem pulse_device_spec_roundtrip:
  assumes "sink \<noteq> []" and "\<not> isspace (hd sink)" and "\<not> isspace (last sink)"
    and "sink \<notin> {''default'', ''@DEFAULT_SINK@''}" and "kMinLatencyMs \<le> ms" and "ms \<le> kMaxLatencyMs"
  shows "parse_device_spec (''pulse:'' @ sink @ ''@'' @ to_string ms) = \<lparr>ds_sink = sink, ds_latency_ms = of_nat ms\<rparr> \<and>
         (\<forall>n. ds_latency_ms (parse_device_spec n) = 0 \<or>
              kMinLatencyMs \<le> unat (ds_latency_ms (parse_device_spec n)) \<and>
              unat (ds_latency_ms (parse_device_spec n)) \<le> kMaxLatencyMs)"
proof (rule conjI)
  have p: "is_pulse_device_name (''pulse:'' @ r)" for r
    unfolding is_pulse_device_name_def starts_with_def by simp
  have sp: "split_latency (strip_backend (''pulse:'' @ sink @ ''@'' @ to_string ms)) = (ms, CHR '':'' # sink)"
    using split_latency_number [OF assms(5,6), of "CHR '':'' # sink"] unfolding strip_backend_pulse by simp
  have "pulse_trim sink = sink" using assms(2,3) by (simp add: pulse_trim_def trim_by_id)
  then show "parse_device_spec (''pulse:'' @ sink @ ''@'' @ to_string ms) = \<lparr>ds_sink = sink, ds_latency_ms = of_nat ms\<rparr>"
    using assms(4) unfolding parse_device_spec_def sp using p by simp
qed (use parse_latency_range in blast)

theorem pulse_device_spec_roundtrip_witness:
  "parse_device_spec ''pulse:alsa_output@40'' = \<lparr>ds_sink = ''alsa_output'', ds_latency_ms = 40\<rparr>"
proof -
  have "to_string 40 = ''40''" by code_simp
  then show ?thesis using pulse_device_spec_roundtrip [of "''alsa_output''" 40]
    by (simp add: isspace_def kMinLatencyMs_def kMaxLatencyMs_def)
qed

section \<open>Buffer sizes\<close>

text \<open>The same computation in unbounded arithmetic: packet size and buffer target, in bytes.\<close>

definition packet_bytes :: "nat \<Rightarrow> nat \<Rightarrow> nat" where
  "packet_bytes bpf frames = (if frames = 0 then 240 else frames) * bpf"

definition target_latency :: "nat \<Rightarrow> nat \<Rightarrow> nat \<Rightarrow> nat \<Rightarrow> nat" where
  "target_latency rate bpf frames latency =
     max kMinLatencyMs (min kMaxLatencyMs
       (if latency = 0 then (packet_bytes bpf frames * 4000 + rate * bpf - 1) div (rate * bpf) else latency))"

definition target_bytes :: "nat \<Rightarrow> nat \<Rightarrow> nat \<Rightarrow> nat \<Rightarrow> nat" where
  "target_bytes rate bpf frames latency =
     (let t = max (rate * bpf * target_latency rate bpf frames latency div 1000) (packet_bytes bpf frames)
      in t - t mod bpf)"

lemma clamp_u32_nat: "lo \<le> hi \<Longrightarrow> unat (clamp_u32 x lo hi) = max (unat lo) (min (unat hi) (unat x))"
  by (auto simp: clamp_u32_def word_less_nat_alt word_le_nat_alt max_def min_def)

lemma compute_buffer_attr_exact:
  fixes rate frames latency :: u32 and bpf :: u64
  assumes "0 < rate" "unat rate \<le> 192000" "0 < bpf" "unat bpf \<le> 128" "unat frames \<le> 8192"
  defines "pb \<equiv> packet_bytes (unat bpf) (unat frames)"
    and "tb \<equiv> target_bytes (unat rate) (unat bpf) (unat frames) (unat latency)"
  defines "a \<equiv> compute_buffer_attr rate bpf frames latency"
  shows "unat (ba_tlength a) = tb" "unat (ba_maxlength a) = 2 * tb" "unat (ba_minreq a) = pb" "unat (ba_prebuf a) = pb"
proof -
  define f where "f = (if frames = 0 then 240 else frames)"
  define pw br :: u64 where "pw = ucast f * bpf" and "br = ucast rate * bpf"
  define q where "q = pw * 4 * 1000"
  define derived where "derived = (q + br - 1) div br"
  define lat where "lat = clamp_u32 (if latency = 0 then ucast derived else latency) (of_nat kMinLatencyMs) (of_nat kMaxLatencyMs)"
  define t0 where "t0 = max ((br * ucast lat) div 1000) pw"
  define tw where "tw = t0 - t0 mod bpf"
  have f: "unat f = (if unat frames = 0 then 240 else unat frames)" "unat f \<le> 8192"
    using assms(5) by (auto simp: f_def unat_eq_0)
  have b0: "0 < unat bpf" "0 < unat rate" using assms(1,3) by (simp_all add: word_greater_zero_iff unat_gt_0)
  have pwm: "unat f * unat bpf \<le> 8192 * 128" using f(2) assms(4) by (rule mult_le_mono)
  have brm: "unat rate * unat bpf \<le> 192000 * 128" using assms(2,4) by (rule mult_le_mono)
  have pw: "unat pw = pb" unfolding pw_def
    by (subst unat_mult_small) (use pwm f in \<open>auto simp: pb_def packet_bytes_def\<close>)
  have br: "unat br = unat rate * unat bpf" unfolding br_def by (subst unat_mult_small) (use brm in auto)
  have pbm: "pb \<le> 1048576" using pwm f(1) by (simp add: pb_def packet_bytes_def)
  have brp: "0 < unat rate * unat bpf" using b0 by simp
  have p4: "unat q = pb * 4000"
  proof -
    have "unat (pw * 4) = pb * 4" by (subst unat_mult_small) (use pbm in \<open>auto simp: pw\<close>)
    then show ?thesis unfolding q_def by (subst unat_mult_small) (use pbm in auto)
  qed
  have s1: "unat (q + br) = pb * 4000 + unat rate * unat bpf"
    by (subst unat_add_small) (use pbm brm in \<open>auto simp: p4 br\<close>)
  have s2: "unat (q + br - 1) = pb * 4000 + unat rate * unat bpf - 1"
    by (subst unat_sub_small) (use brp in \<open>auto simp: s1 Suc_le_eq\<close>)
  have dv: "unat derived = (pb * 4000 + unat rate * unat bpf - 1) div (unat rate * unat bpf)"
    by (simp add: derived_def unat_div_distrib s2 br)
  have "unat derived \<le> pb * 4000 + unat rate * unat bpf - 1" unfolding dv by (rule div_le_dividend)
  then have "unat derived < 2 ^ 32" using pbm brm by simp
  then have dn: "unat (ucast derived :: u32) = unat derived" by (rule unat_ucast_narrow)
  have lat: "unat lat = target_latency (unat rate) (unat bpf) (unat frames) (unat latency)"
    unfolding lat_def target_latency_def
    by (subst clamp_u32_nat) (auto simp: kMinLatencyMs_def kMaxLatencyMs_def dn dv pb_def unat_eq_0)
  have lm: "unat lat \<le> 500" unfolding lat by (simp add: target_latency_def kMinLatencyMs_def kMaxLatencyMs_def)
  have blm: "unat rate * unat bpf * unat lat \<le> 192000 * 128 * 500" by (rule mult_le_mono [OF brm lm])
  have "unat (br * ucast lat) = unat rate * unat bpf * unat lat"
    by (subst unat_mult_small) (use blm in \<open>auto simp: br\<close>)
  then have t0: "unat t0 = max (unat rate * unat bpf * unat lat div 1000) pb"
    by (simp add: t0_def unat_max unat_div_distrib pw)
  have t0m: "unat t0 \<le> 12288000" using blm pbm by (simp add: t0)
  have t: "unat tw = tb" unfolding tw_def
    by (subst unat_sub_small) (simp_all add: unat_mod_distrib t0 tb_def target_bytes_def Let_def lat pb_def)
  have "tb = unat t0 - unat t0 mod unat bpf"
    by (simp add: tb_def target_bytes_def Let_def lat [symmetric] pb_def [symmetric] t0)
  then have tm: "tb \<le> 12288000" using t0m by linarith
  have t2: "unat (tw * 2) = 2 * tb" by (subst unat_mult_small) (use tm in \<open>auto simp: t\<close>)
  have a: "a = \<lparr>ba_maxlength = ucast (min (tw * 2) 0xFFFFFFFF), ba_tlength = ucast tw,
                ba_prebuf = ucast pw, ba_minreq = ucast pw\<rparr>"
    using assms(1,3) by (simp add: a_def compute_buffer_attr_def Let_def f_def pw_def br_def q_def derived_def lat_def t0_def tw_def word_greater_zero_iff)
  show "unat (ba_tlength a) = tb" using tm by (simp add: a unat_ucast_narrow t)
  show "unat (ba_maxlength a) = 2 * tb" using tm by (simp add: a unat_ucast_narrow unat_min t2)
  show "unat (ba_minreq a) = pb" "unat (ba_prebuf a) = pb" using pbm by (simp_all add: a unat_ucast_narrow pw)
qed

lemma target_bytes_packet:
  assumes "0 < bpf"
  shows "packet_bytes bpf frames \<le> target_bytes rate bpf frames latency"
proof -
  define t where "t = max (rate * bpf * target_latency rate bpf frames latency div 1000) (packet_bytes bpf frames)"
  have "packet_bytes bpf frames div bpf \<le> t div bpf" by (rule div_le_mono) (simp add: t_def)
  then have "packet_bytes bpf frames div bpf * bpf \<le> t div bpf * bpf" by simp
  moreover have "packet_bytes bpf frames div bpf * bpf = packet_bytes bpf frames"
    using assms by (simp add: packet_bytes_def)
  ultimately show ?thesis by (simp add: target_bytes_def t_def [symmetric] Let_def minus_mod_eq_div_mult)
qed

text \<open>
  Claim C32: for every stream within the limits of a valid configuration the 64-bit and 32-bit
  arithmetic of the buffer sizing does not wrap: the target is the one of unbounded arithmetic,
  holds at least one packet, is a whole number of frames, playback starts after one packet, and the
  buffer is capped at twice the target.
\<close>

theorem compute_buffer_attr_bounds:
  assumes "0 < rate" and "unat rate \<le> 192000" and "0 < bpf" and "unat bpf \<le> 128" and "unat frames \<le> 8192"
  shows "let a = compute_buffer_attr rate bpf frames latency in
         unat (ba_tlength a) = target_bytes (unat rate) (unat bpf) (unat frames) (unat latency) \<and>
         unat (ba_minreq a) = packet_bytes (unat bpf) (unat frames) \<and> ba_prebuf a = ba_minreq a \<and>
         ba_minreq a \<le> ba_tlength a \<and> unat (ba_tlength a) mod unat bpf = 0 \<and>
         unat (ba_maxlength a) = 2 * unat (ba_tlength a)"
proof -
  have b: "0 < unat bpf" using assms(3) by (simp add: word_greater_zero_iff unat_gt_0)
  have m: "target_bytes (unat rate) (unat bpf) (unat frames) (unat latency) mod unat bpf = 0"
    by (simp add: target_bytes_def Let_def minus_mod_eq_div_mult)
  show ?thesis using compute_buffer_attr_exact [OF assms] target_bytes_packet [OF b] m
    by (simp add: Let_def word_le_nat_alt word_unat_eq_iff)
qed

theorem compute_buffer_attr_bounds_witness:
  "unat (ba_tlength (compute_buffer_attr 48000 4 240 0)) = 3840 \<and>
   unat (ba_minreq (compute_buffer_attr 48000 4 240 0)) = 960"
  using compute_buffer_attr_bounds [of 48000 4 240 0]
  by (simp add: Let_def target_bytes_def target_latency_def packet_bytes_def kMinLatencyMs_def kMaxLatencyMs_def)

section \<open>Streams\<close>

text \<open>
  Invariant of the player: a closed player has no stream, the streams created are those freed and
  the current one, and fewer than three writes in a row have failed.
\<close>

definition pulse_inv :: "pulse_player \<Rightarrow> bool" where
  "pulse_inv p \<longleftrightarrow>
     (\<not> pp_is_open p \<longrightarrow> pp_stream p = None) \<and>
     mset (pp_created p) = mset (pp_freed p) + mset (case pp_stream p of None \<Rightarrow> [] | Some h \<Rightarrow> [h]) \<and>
     pp_write_failures p < kWriteFailuresBeforeReconnect"

lemma pulse_inv_init: "pulse_inv PulsePlayer"
  by (simp add: pulse_inv_def PulsePlayer_def kWriteFailuresBeforeReconnect_def)

lemma disconnect_stream [simp]: "pp_stream (disconnect_locked p) = None"
  by (simp add: disconnect_locked_def split: option.splits)

lemma disconnect_keeps [simp]:
  "pp_is_open (disconnect_locked p) = pp_is_open p" "pp_write_failures (disconnect_locked p) = pp_write_failures p"
  "pp_created (disconnect_locked p) = pp_created p" "pp_config (disconnect_locked p) = pp_config p"
  by (simp_all add: disconnect_locked_def split: option.splits)

lemma disconnect_frees:
  "mset (pp_freed (disconnect_locked p)) = mset (pp_freed p) + mset (case pp_stream p of None \<Rightarrow> [] | Some h \<Rightarrow> [h])"
  by (simp add: disconnect_locked_def split: option.splits)

lemma pulse_close_inv: "pulse_inv p \<Longrightarrow> pe_enabled env \<Longrightarrow> pulse_inv (pulse_close env p)"
  by (auto simp: pulse_inv_def pulse_close_def Let_def disconnect_frees)

lemma pulse_close_stream: "pulse_inv p \<Longrightarrow> pe_enabled env \<Longrightarrow> pp_stream (pulse_close env p) = None"
  by (auto simp: pulse_inv_def pulse_close_def Let_def)

lemma connect_locked_cases:
  assumes "connect_locked env p = (ok, q)"
  shows "pp_is_open q = pp_is_open p" "pp_freed q = pp_freed p" "pp_write_failures q = pp_write_failures p"
    "pp_config q = pp_config p"
    "if ok then \<exists>h. pp_stream q = Some h \<and> pp_created q = pp_created p @ [h]
     else pp_stream q = pp_stream p \<and> pp_created q = pp_created p"
  using assms by (auto simp: connect_locked_def Let_def split: if_splits option.splits)

lemma pulse_open_inv:
  assumes "pulse_inv p" and "pe_enabled env"
  shows "pulse_inv (snd (pulse_open env c n p))"
proof -
  define q where "q = (pulse_close env p)\<lparr>pp_config := c, pp_device_name := (if n = [] then ''pulse'' else n),
    pp_spec := parse_device_spec (if n = [] then ''pulse'' else n), pp_write_failures := 0\<rparr>"
  have q: "pulse_inv q" "pp_stream q = None" "pp_is_open q = False"
    using pulse_close_inv [OF assms] pulse_close_stream [OF assms]
    by (auto simp: q_def pulse_inv_def pulse_close_def Let_def kWriteFailuresBeforeReconnect_def)
  obtain ok r where r: "connect_locked env q = (ok, r)" by fastforce
  have o: "snd (pulse_open env c n p) = (if \<not> server_available (pe_sys env) then q
      else if \<not> ok then r else r\<lparr>pp_is_open := True\<rparr>)"
    using assms(2) r by (simp add: pulse_open_def Let_def q_def [symmetric])
  show ?thesis using connect_locked_cases [OF r] q unfolding o by (auto simp: pulse_inv_def split: if_splits)
qed

lemma pulse_reconnect_inv:
  assumes "pulse_inv p" and "pp_is_open p" and "pulse_reconnect env p = (ok, q)"
  shows "pulse_inv q" "pp_is_open q" "ok \<Longrightarrow> pp_stream q \<noteq> None" "pp_config q = pp_config p"
proof -
  obtain ok' r where r: "connect_locked env (p\<lparr>pp_last_reconnect_ms := pe_now_ms env\<rparr>) = (ok', r)" by fastforce
  note c = connect_locked_cases [OF r]
  show "pulse_inv q" "pp_is_open q" "ok \<Longrightarrow> pp_stream q \<noteq> None" "pp_config q = pp_config p"
    using assms r c by (auto simp: pulse_reconnect_def pulse_inv_def Let_def kWriteFailuresBeforeReconnect_def split: if_splits)
qed

lemma pulse_write_stream_inv:
  assumes "pulse_inv p" and "pp_is_open p" and "pulse_write_stream env h n p = (k, q)"
  shows "pulse_inv q" "k = 0 \<or> k = n"
  using assms
  by (auto simp: pulse_write_stream_def pulse_inv_def Let_def disconnect_frees kWriteFailuresBeforeReconnect_def
      split: if_splits)

lemma pulse_write_inv:
  assumes "pulse_inv p" and "pulse_write_frames env pcm n p = Some (k, q)"
  shows "pulse_inv q \<and> (k = 0 \<or> k = n)"
proof (cases "\<not> pp_is_open p \<or> n = 0 \<or> \<not> pe_enabled env \<or> bytes_per_frame (pp_config p) = 0")
  case True
  then show ?thesis using assms by (auto simp: pulse_write_frames_def Let_def split: if_splits)
next
  case False
  obtain ok r where r: "pulse_reconnect env p = (ok, r)" by fastforce
  note i = pulse_reconnect_inv [OF assms(1) _ r]
  show ?thesis
  proof (cases ok)
    case True
    then obtain h where h: "pp_stream r = Some h" using i False by auto
    then have "pulse_write_stream env h n r = (k, q)"
      using assms(2) False r True by (auto simp: pulse_write_frames_def Let_def split: if_splits)
    then show ?thesis using pulse_write_stream_inv i False by blast
  next
    case bad: False
    then show ?thesis using assms(2) False r i by (auto simp: pulse_write_frames_def Let_def split: if_splits)
  qed
qed

interpretation pulse_backend: audio_player "pulse_ops (env\<lparr>pe_enabled := True\<rparr>)" pulse_inv
proof (unfold_locales, goal_cases)
  case (1 p pcm n k p')
  then show ?case using pulse_write_inv [of p "env\<lparr>pe_enabled := True\<rparr>" pcm n k p'] by (auto simp: pulse_ops_def)
next
  case (2 p pcm n k p')
  then show ?case by (simp add: pulse_ops_def pulse_write_frames_def)
next
  case (3 p)
  then show ?case by (simp add: pulse_ops_def pulse_close_def Let_def)
next
  case (4 p)
  then show ?case by (simp add: pulse_ops_def pulse_close_inv)
qed

inductive pulse_run :: "pulse_player \<Rightarrow> bool" where
  init: "pulse_run PulsePlayer"
| opened: "pulse_run p \<Longrightarrow> pe_enabled env \<Longrightarrow> pulse_run (snd (pulse_open env c n p))"
| closed: "pulse_run p \<Longrightarrow> pe_enabled env \<Longrightarrow> pulse_run (pulse_close env p)"
| written: "pulse_run p \<Longrightarrow> pulse_write_frames env pcm n p = Some (k, q) \<Longrightarrow> pulse_run q"

lemma pulse_run_inv: "pulse_run p \<Longrightarrow> pulse_inv p"
  by (induction rule: pulse_run.induct)
    (use pulse_inv_init pulse_open_inv pulse_close_inv pulse_write_inv in blast)+

text \<open>
  Claim C35: in every sequence of opens, writes and closes, whatever the daemon does, the player holds
  at most one stream, and closing it leaves none: every stream it ever created has been freed exactly
  once.
\<close>

theorem pulse_streams_freed:
  assumes "pulse_run p" and "pe_enabled env"
  shows "pp_stream (pulse_close env p) = None \<and>
         mset (pp_created (pulse_close env p)) = mset (pp_freed (pulse_close env p))"
proof -
  have "pulse_inv (pulse_close env p)" by (rule pulse_close_inv [OF pulse_run_inv [OF assms(1)] assms(2)])
  then show ?thesis using pulse_close_stream [OF pulse_run_inv [OF assms(1)] assms(2)] by (simp add: pulse_inv_def)
qed

definition sample_pulse_env :: "bool \<Rightarrow> pulse_env" where
  "sample_pulse_env ok =
     \<lparr>pe_enabled = True,
      pe_sys = \<lparr>sys_getenv = (\<lambda>n. if n = ''PULSE_SERVER'' then Some ''127.0.0.1:4713'' else None), sys_getuid = 1000, sys_geteuid = 1000,
                sys_stat = (\<lambda>_. None), sys_read_file = (\<lambda>_. None), sys_list_dir = (\<lambda>_. None)\<rparr>,
      pe_new = (\<lambda>_ _ _ _. Some 7), pe_write = (\<lambda>_. ok), pe_latency = (\<lambda>_. None), pe_now_ms = 5000,
      pe_now_ms2 = 5000\<rparr>"

theorem pulse_streams_freed_witness:
  "pp_created (pulse_close (sample_pulse_env True) (snd (pulse_open (sample_pulse_env True) default_audio_config ''pulse'' PulsePlayer))) = [7] \<and>
   mset (pp_freed (pulse_close (sample_pulse_env True) (snd (pulse_open (sample_pulse_env True) default_audio_config ''pulse'' PulsePlayer)))) = {#7#}"
proof -
  let ?e = "sample_pulse_env True"
  have e: "pe_enabled ?e" by (simp add: sample_pulse_env_def)
  have "pp_created (pulse_close ?e (snd (pulse_open ?e default_audio_config ''pulse'' PulsePlayer))) = [7]" by code_simp
  then show ?thesis
    using pulse_streams_freed [OF pulse_run.opened [OF pulse_run.init e, of default_audio_config "''pulse''"] e] by simp
qed

text \<open>
  Reconnecting is rate limited. A write to an open player that has lost its stream and
  tried less than two seconds ago takes nothing, makes no connection and changes nothing.
\<close>

theorem pulse_reconnect_rate_limited:
  assumes "pp_stream p = None" and "pe_now_ms env - pp_last_reconnect_ms p < kReconnectIntervalMs"
  shows "pulse_write_frames env pcm n p = Some (0, p)"
  using assms by (simp add: pulse_write_frames_def pulse_reconnect_def Let_def)

theorem pulse_reconnect_rate_limited_witness:
  "pulse_write_frames (sample_pulse_env True) [1, 2] 1
     (PulsePlayer\<lparr>pp_is_open := True, pp_last_reconnect_ms := 3001\<rparr>)
   = Some (0, PulsePlayer\<lparr>pp_is_open := True, pp_last_reconnect_ms := 3001\<rparr>)"
  by (rule pulse_reconnect_rate_limited) (simp_all add: PulsePlayer_def sample_pulse_env_def kReconnectIntervalMs_def)

section \<open>Search for the daemon\<close>

lemma fold_add_live:
  assumes "distinct live" and "\<forall>a \<in> set live. \<exists>c. a = ''unix:'' @ c \<and> usable_socket sys c"
  shows "distinct (foldl (add_live sys) live cs) \<and>
         (\<forall>a \<in> set (foldl (add_live sys) live cs). \<exists>c. a = ''unix:'' @ c \<and> usable_socket sys c)"
  using assms
proof (induction cs arbitrary: live)
  case Nil
  then show ?case by simp
next
  case (Cons c cs)
  have "distinct (add_live sys live c) \<and> (\<forall>a \<in> set (add_live sys live c). \<exists>c. a = ''unix:'' @ c \<and> usable_socket sys c)"
    using Cons.prems by (auto simp: add_live_def Let_def)
  from Cons.IH [OF conjunct1 [OF this] conjunct2 [OF this]] show ?case by simp
qed

text \<open>
  The search offers only addresses worth a connection: the one named by \<^verbatim>\<open>PULSE_SERVER\<close>, or
  sockets that exist, fit into a socket address and, for a process of root, belong to root; no
  address is offered twice.
\<close>

theorem resolve_server_addresses_sound:
  "distinct (resolve_server_addresses sys) \<and>
   (resolve_server_addresses sys = [env_or_empty sys ''PULSE_SERVER''] \<or>
    (\<forall>a \<in> set (resolve_server_addresses sys).
       \<exists>c st. a = ''unix:'' @ c \<and> sys_stat sys c = Some st \<and> fi_is_socket st \<and> length c < sizeof_sun_path \<and>
              (sys_getuid sys \<noteq> 0 \<or> fi_uid st = 0)))"
proof -
  have u: "\<exists>st. sys_stat sys c = Some st \<and> fi_is_socket st \<and> length c < sizeof_sun_path \<and> (sys_getuid sys \<noteq> 0 \<or> fi_uid st = 0)"
    if "usable_socket sys c" for c
    using that by (auto simp: usable_socket_def path_exists_def unix_socket_is_live_def split: if_splits option.splits)
  have "distinct (foldl (add_live sys) [] (socket_candidates sys)) \<and>
    (\<forall>a \<in> set (foldl (add_live sys) [] (socket_candidates sys)). \<exists>c. a = ''unix:'' @ c \<and> usable_socket sys c)"
    by (rule fold_add_live) simp_all
  then show ?thesis using u by (auto simp: resolve_server_addresses_def Let_def; fastforce)
qed

theorem resolve_server_addresses_sound_witness:
  "distinct (resolve_server_addresses (pe_sys (sample_pulse_env True)))"
  using resolve_server_addresses_sound by blast

end
