(* ===== verification/Direct_Alsa.thy ===== *)
theory Direct_Alsa
  imports Player Text_Util "HOL-Library.List_Lexorder" "HOL-Library.Char_ord"
begin

text \<open>
  \<^verbatim>\<open>src/client/direct_alsa.{hpp,cpp}\<close>: playback straight to a kernel PCM node. The parameter structure
  of \<^verbatim>\<open>SNDRV_PCM_IOCTL_HW_PARAMS\<close> is modelled with the numbering of the kernel's interface; the kernel's
  answers are arguments. \<^verbatim>\<open>unsigned long\<close> has 64 bits. The lemmas show that opening a node whose
  hardware parameters are accepted never returns, and what the write loop does to the staged samples.
\<close>

section \<open>Hardware parameters\<close>

record interval =
  iv_min :: u32
  iv_max :: u32
  iv_openmin :: bool
  iv_openmax :: bool
  iv_integer :: bool
  iv_empty :: bool

record hw_params =
  hp_masks :: "u32 list list"
  hp_intervals :: "interval list"

definition FIRST_MASK :: nat where "FIRST_MASK = 0"
definition LAST_MASK :: nat where "LAST_MASK = 2"
definition FIRST_INTERVAL :: nat where "FIRST_INTERVAL = 8"
definition LAST_INTERVAL :: nat where "LAST_INTERVAL = 19"
definition MASK_WORDS :: nat where "MASK_WORDS = 8"
definition HW_PARAM_ACCESS :: nat where "HW_PARAM_ACCESS = 0"
definition HW_PARAM_FORMAT :: nat where "HW_PARAM_FORMAT = 1"
definition HW_PARAM_CHANNELS :: nat where "HW_PARAM_CHANNELS = 10"
definition HW_PARAM_RATE :: nat where "HW_PARAM_RATE = 11"
definition HW_PARAM_PERIOD_SIZE :: nat where "HW_PARAM_PERIOD_SIZE = 13"
definition HW_PARAM_BUFFER_SIZE :: nat where "HW_PARAM_BUFFER_SIZE = 17"
definition ACCESS_RW_INTERLEAVED :: u32 where "ACCESS_RW_INTERLEAVED = 3"
definition FORMAT_S16_LE :: u32 where "FORMAT_S16_LE = 2"

lemmas hw_param_defs =
  FIRST_MASK_def LAST_MASK_def FIRST_INTERVAL_def LAST_INTERVAL_def MASK_WORDS_def HW_PARAM_ACCESS_def
  HW_PARAM_FORMAT_def HW_PARAM_CHANNELS_def HW_PARAM_RATE_def HW_PARAM_PERIOD_SIZE_def
  HW_PARAM_BUFFER_SIZE_def ACCESS_RW_INTERLEAVED_def FORMAT_S16_LE_def

definition init_any_params :: hw_params where
  "init_any_params =
     \<lparr>hp_masks = replicate (LAST_MASK - FIRST_MASK + 1) (replicate MASK_WORDS 0xFFFFFFFF),
      hp_intervals = replicate (LAST_INTERVAL - FIRST_INTERVAL + 1)
        \<lparr>iv_min = 0, iv_max = 0xFFFFFFFF, iv_openmin = False, iv_openmax = False, iv_integer = False, iv_empty = False\<rparr>\<rparr>"

definition set_param_value :: "nat \<Rightarrow> u32 \<Rightarrow> hw_params \<Rightarrow> hw_params" where
  "set_param_value param v p =
     (if FIRST_MASK \<le> param \<and> param \<le> LAST_MASK
      then p\<lparr>hp_masks := (hp_masks p)[param - FIRST_MASK :=
               (replicate MASK_WORDS 0)[unat (v div 32) := push_bit (unat (v mod 32)) 1]]\<rparr>
      else if FIRST_INTERVAL \<le> param \<and> param \<le> LAST_INTERVAL
      then (let iv = hp_intervals p ! (param - FIRST_INTERVAL)
            in p\<lparr>hp_intervals := (hp_intervals p)[param - FIRST_INTERVAL := iv\<lparr>iv_min := v, iv_max := v\<rparr>]\<rparr>)
      else p)"

definition set_interval :: "nat \<Rightarrow> u32 \<Rightarrow> u32 \<Rightarrow> hw_params \<Rightarrow> hw_params" where
  "set_interval param lo hi p =
     (let iv = hp_intervals p ! (param - FIRST_INTERVAL)
      in p\<lparr>hp_intervals := (hp_intervals p)[param - FIRST_INTERVAL := iv\<lparr>iv_min := lo, iv_max := hi\<rparr>]\<rparr>)"

definition interval_min :: "nat \<Rightarrow> hw_params \<Rightarrow> u32" where
  "interval_min param p = iv_min (hp_intervals p ! (param - FIRST_INTERVAL))"

text \<open>The request with the period and buffer limits, and the relaxed one of the second attempt.\<close>

definition relaxed_params :: "audio_config \<Rightarrow> hw_params" where
  "relaxed_params c =
     set_param_value HW_PARAM_RATE (ac_sample_rate c)
       (set_param_value HW_PARAM_CHANNELS (ucast (ac_channels c))
         (set_param_value HW_PARAM_FORMAT FORMAT_S16_LE
           (set_param_value HW_PARAM_ACCESS ACCESS_RW_INTERLEAVED init_any_params)))"

definition constrained_params :: "audio_config \<Rightarrow> hw_params" where
  "constrained_params c =
     (let period_req = (if ac_frames_per_packet c > 0 then ac_frames_per_packet c else 240);
          buffer_req = period_req * 4
      in set_interval HW_PARAM_BUFFER_SIZE buffer_req (buffer_req * 4)
           (set_interval HW_PARAM_PERIOD_SIZE period_req (period_req * 2) (relaxed_params c)))"

section \<open>The player\<close>

record direct_player =
  da_fd :: int
  da_config :: audio_config
  da_device_path :: string
  da_period_size_frames :: nat
  da_buffer_size_frames :: nat
  da_staging_buffer :: "i16 list"
  da_is_open :: bool
  da_closed_fds :: "int list"

definition DirectAlsaPlayer :: direct_player where
  "DirectAlsaPlayer =
     \<lparr>da_fd = - 1, da_config = default_audio_config, da_device_path = [], da_period_size_frames = 240,
      da_buffer_size_frames = 960, da_staging_buffer = [], da_is_open = False, da_closed_fds = []\<rparr>"

text \<open>
  The kernel as one open sees it: the listing of \<^verbatim>\<open>/dev/snd\<close>, the result of \<^verbatim>\<open>open\<close> for a path, the
  parameters chosen for a request (\<open>None\<close> when it is refused), and whether \<^verbatim>\<open>PREPARE\<close> succeeds.
\<close>

record kernel =
  kn_dev_snd :: "string list option"
  kn_open :: "string \<Rightarrow> int"
  kn_hw_params :: "hw_params \<Rightarrow> hw_params option"
  kn_prepare :: bool

definition enumerate_kernel_pcm_devices :: "kernel \<Rightarrow> string list" where
  "enumerate_kernel_pcm_devices k =
     (case kn_dev_snd k of
        None \<Rightarrow> []
      | Some names \<Rightarrow>
          sort (map (\<lambda>n. ''/dev/snd/'' @ n) (filter (\<lambda>n. starts_with n ''pcmC'' \<and> last n = CHR ''p'') names)))"

text \<open>
  The doubling of \<^verbatim>\<open>swparams.boundary\<close>: \<^verbatim>\<open>while (boundary * 2 <= ULONG_MAX - size) boundary *= 2\<close>.
\<close>

partial_function (option) boundary_loop :: "u64 \<Rightarrow> u64 \<Rightarrow> u64 option" where
  "boundary_loop sz boundary =
     (if boundary * 2 \<le> - 1 - sz then boundary_loop sz (boundary * 2) else Some boundary)"

record sw_params =
  sw_avail_min :: nat
  sw_start_threshold :: nat
  sw_stop_threshold :: nat
  sw_boundary :: u64

definition sw_params_for :: "nat \<Rightarrow> nat \<Rightarrow> sw_params option" where
  "sw_params_for period buffer =
     (let period = (if period > 0 then period else 240);
          sz = (if buffer > 0 then buffer else 4096)
      in map_option (\<lambda>b. \<lparr>sw_avail_min = period, sw_start_threshold = period, sw_stop_threshold = sz, sw_boundary = b\<rparr>)
           (boundary_loop (of_nat sz) (of_nat sz)))"

text \<open>\<open>None\<close> is an attempt that never returns.\<close>

definition try_open_candidate :: "kernel \<Rightarrow> string \<Rightarrow> direct_player \<Rightarrow> (bool \<times> direct_player) option" where
  "try_open_candidate k candidate p =
     (let fd = kn_open k candidate in
      if fd < 0 then Some (False, p)
      else
        (let res = (case kn_hw_params k (constrained_params (da_config p)) of
                      Some r \<Rightarrow> Some r
                    | None \<Rightarrow> kn_hw_params k (relaxed_params (da_config p)))
         in case res of
              None \<Rightarrow> Some (False, p\<lparr>da_closed_fds := da_closed_fds p @ [fd]\<rparr>)
            | Some params \<Rightarrow>
                (let p = p\<lparr>da_period_size_frames := unat (interval_min HW_PARAM_PERIOD_SIZE params),
                           da_buffer_size_frames := unat (interval_min HW_PARAM_BUFFER_SIZE params)\<rparr>
                 in case sw_params_for (da_period_size_frames p) (da_buffer_size_frames p) of
                      None \<Rightarrow> None
                    | Some sw \<Rightarrow>
                        if \<not> kn_prepare k then Some (False, p\<lparr>da_closed_fds := da_closed_fds p @ [fd]\<rparr>)
                        else Some (True, p\<lparr>da_fd := fd, da_device_path := candidate\<rparr>))))"

definition direct_close :: "direct_player \<Rightarrow> direct_player" where
  "direct_close p =
     (let old_fd = da_fd p;
          p = p\<lparr>da_is_open := False, da_fd := - 1\<rparr>;
          p = (if old_fd \<ge> 0 then p\<lparr>da_closed_fds := da_closed_fds p @ [old_fd]\<rparr> else p)
      in p\<lparr>da_staging_buffer := []\<rparr>)"

definition add_new :: "string list \<Rightarrow> string \<Rightarrow> string list" where
  "add_new cs dev = (if dev \<in> set cs then cs else cs @ [dev])"

definition direct_candidates :: "kernel \<Rightarrow> string \<Rightarrow> string list" where
  "direct_candidates k device_name =
     (let primary = (if device_name = [] then ''/dev/snd/pcmC0D0p'' else device_name);
          cs = (if primary \<noteq> ''/dev/snd/pcmC0D0p'' then [primary, ''/dev/snd/pcmC0D0p''] else [primary])
      in foldl add_new cs (enumerate_kernel_pcm_devices k))"

fun try_candidates :: "kernel \<Rightarrow> string list \<Rightarrow> direct_player \<Rightarrow> (bool \<times> direct_player) option" where
  "try_candidates k [] p = Some (False, p)"
| "try_candidates k (c # cs) p =
     (case try_open_candidate k c p of
        None \<Rightarrow> None
      | Some (ok, p) \<Rightarrow> if ok then Some (True, p) else try_candidates k cs p)"

definition direct_open :: "kernel \<Rightarrow> audio_config \<Rightarrow> string \<Rightarrow> direct_player \<Rightarrow> (bool \<times> direct_player) option" where
  "direct_open k config device_name p =
     (let p = (if da_is_open p then direct_close p else p);
          p = p\<lparr>da_config := config, da_staging_buffer := [],
                da_device_path := (if device_name = [] then ''/dev/snd/pcmC0D0p'' else device_name)\<rparr>
      in case try_candidates k (direct_candidates k device_name) p of
           None \<Rightarrow> None
         | Some (ok, p) \<Rightarrow> if ok then Some (True, p\<lparr>da_is_open := True\<rparr>) else Some (False, p))"

definition open_candidate_only :: "kernel \<Rightarrow> audio_config \<Rightarrow> string \<Rightarrow> direct_player \<Rightarrow> (bool \<times> direct_player) option" where
  "open_candidate_only k config candidate p =
     (if candidate = [] then Some (False, p)
      else
        (let p = (if da_is_open p then direct_close p else p);
             p = p\<lparr>da_config := config, da_staging_buffer := [], da_device_path := candidate\<rparr>
         in case try_open_candidate k candidate p of
              None \<Rightarrow> None
            | Some (ok, p) \<Rightarrow> if ok then Some (True, p\<lparr>da_is_open := True\<rparr>) else Some (False, p)))"

section \<open>Writing\<close>

text \<open>
  One turn of the write loop: \<open>poll\<close> timed out, was interrupted or failed; or the node was ready, and
  the first and, after a failure and \<^verbatim>\<open>PREPARE\<close>, the second \<^verbatim>\<open>WRITEI_FRAMES\<close> gave the number of frames
  or failed.
\<close>

datatype xfer_event = PollTimeout | PollInterrupted | PollError | Transfer "int option" "int option"

text \<open>\<open>out\<close> collects the samples handed over; \<open>None\<close> means that the events do not reach the end.\<close>

fun xfer_loop ::
    "nat \<Rightarrow> nat \<Rightarrow> xfer_event list \<Rightarrow> i16 list \<Rightarrow> i16 list \<Rightarrow> (i16 list \<times> i16 list) option" where
  "xfer_loop channels chunk [] staging out =
     (if length staging \<ge> chunk * channels then None else Some (staging, out))"
| "xfer_loop channels chunk (e # es) staging out =
     (if length staging \<ge> chunk * channels then
        (case e of
           PollTimeout \<Rightarrow> Some (staging, out)
         | PollInterrupted \<Rightarrow> xfer_loop channels chunk es staging out
         | PollError \<Rightarrow> Some (staging, out)
         | Transfer a b \<Rightarrow>
             (case (case a of Some r \<Rightarrow> Some r | None \<Rightarrow> b) of
                None \<Rightarrow> Some ([], out)
              | Some r \<Rightarrow>
                  (let written_frames = (if r > 0 then nat r else chunk);
                       written = min (written_frames * channels) (length staging)
                   in xfer_loop channels chunk es (drop written staging) (out @ take written staging))))
      else Some (staging, out))"

definition direct_channels :: "direct_player \<Rightarrow> nat" where
  "direct_channels p = (if ac_channels (da_config p) > 0 then unat (ac_channels (da_config p)) else 2)"

text \<open>The frames reported, the samples the node took, and the player.\<close>

definition direct_write ::
    "xfer_event list \<Rightarrow> i16 list \<Rightarrow> nat \<Rightarrow> direct_player \<Rightarrow> (nat \<times> i16 list \<times> direct_player) option" where
  "direct_write es pcm num_frames p =
     (if \<not> da_is_open p \<or> num_frames = 0 then Some (0, [], p)
      else if da_fd p < 0 then Some (0, [], p)
      else
        (let channels = direct_channels p;
             chunk = (if da_period_size_frames p > 0 then da_period_size_frames p else num_frames)
         in if length pcm < num_frames * channels then None
            else map_option (\<lambda>(staging, out). (num_frames, out, p\<lparr>da_staging_buffer := staging\<rparr>))
                   (xfer_loop channels chunk es (da_staging_buffer p @ take (num_frames * channels) pcm) [])))"

definition direct_get_buffer_delay_frames :: "int option \<Rightarrow> direct_player \<Rightarrow> nat" where
  "direct_get_buffer_delay_frames delay p =
     (if \<not> da_is_open p then 0
      else if da_fd p < 0 then 0
      else (case delay of Some d \<Rightarrow> if d > 0 then nat d else 0 | None \<Rightarrow> 0))"

definition direct_flush :: "direct_player \<Rightarrow> direct_player" where
  "direct_flush p = (if \<not> da_is_open p then p else p\<lparr>da_staging_buffer := []\<rparr>)"

definition direct_ops :: "xfer_event list \<Rightarrow> int option \<Rightarrow> direct_player player_ops" where
  "direct_ops es delay =
     \<lparr>po_is_open = da_is_open, po_close = direct_close,
      po_write_frames = (\<lambda>pcm n p. map_option (\<lambda>(k, _, q). (k, q)) (direct_write es pcm n p)),
      po_get_buffer_delay_frames = direct_get_buffer_delay_frames delay, po_get_device_name = da_device_path,
      po_needs_playback_pacing = False, po_is_placeholder = False\<rparr>"

interpretation direct_backend: audio_player "direct_ops es delay" "\<lambda>_. True"
  by unfold_locales (auto simp: direct_ops_def direct_write_def direct_close_def Let_def split: if_splits)

section \<open>The boundary loop\<close>

text \<open>
  The values the loop goes through are \<open>sz * 2 ^ j\<close> in 64 bits. Below \<open>2 ^ 32\<close> no such value, wrapped or
  not, lies in the last \<open>sz\<close> numbers of the type, so that the condition never fails.
\<close>

lemma doubled_size_small:
  assumes "0 < s" and "s < 2 ^ 32"
  shows "(s * 2 ^ j) mod 2 ^ 64 \<le> 2 ^ 64 - 1 - (s :: nat)"
proof (rule ccontr)
  assume n: "\<not> (s * 2 ^ j) mod 2 ^ 64 \<le> 2 ^ 64 - 1 - s"
  define v where "v = (s * 2 ^ j) mod (2 ^ 64)"
  have v: "v < 2 ^ 64" "2 ^ 64 - v \<le> s" using n by (simp_all add: v_def)
  show False
  proof (cases "j \<le> 32")
    case True
    then have "(2 :: nat) ^ j \<le> 2 ^ 32" by (rule power_increasing) simp
    moreover have "s \<le> 2 ^ 32 - 1" using assms(2) by simp
    ultimately have "s * 2 ^ j \<le> (2 ^ 32 - 1) * 2 ^ 32" by (rule mult_le_mono [rotated])
    then have "v \<le> (2 ^ 32 - 1) * 2 ^ 32" unfolding v_def by (metis le_trans mod_less_eq_dividend)
    with v(2) assms(2) show False by simp
  next
    case False
    then obtain i where i: "j = 32 + i" using le_Suc_ex nat_le_linear by blast
    have "2 ^ 32 dvd s * (2 ^ j :: nat)" by (simp add: i power_add)
    then have "(2 ^ 32 :: nat) dvd v" unfolding v_def by (subst dvd_mod_iff) (simp_all add: le_imp_power_dvd)
    moreover have "(2 ^ 32 :: nat) dvd 2 ^ 64" by (simp add: le_imp_power_dvd)
    ultimately have "(2 ^ 32 :: nat) dvd 2 ^ 64 - v" using v(1) by (simp add: dvd_diff_nat)
    then have "(2 ^ 32 :: nat) \<le> 2 ^ 64 - v" by (rule dvd_imp_le) (use v(1) in simp)
    with v(2) assms(2) show False by simp
  qed
qed

lemma doubled_size_word:
  assumes "0 < s" and "s < 2 ^ 32"
  shows "(of_nat s * 2 ^ j :: u64) \<le> - 1 - of_nat s"
proof -
  have u: "unat (of_nat s * 2 ^ j :: u64) = (s * 2 ^ j) mod 2 ^ 64"
  proof -
    have "(of_nat s * 2 ^ j :: u64) = of_nat (s * 2 ^ j)" by simp
    then show ?thesis by (simp only: unat_of_nat) simp
  qed
  have s: "unat (of_nat s :: u64) = s" using assms(2) by (simp add: unat_of_nat)
  have m: "unat (- 1 :: u64) = 2 ^ 64 - 1" by (simp add: unsigned_minus_1_eq_mask mask_eq_exp_minus_1)
  have "unat (- 1 - of_nat s :: u64) = 2 ^ 64 - 1 - s"
    by (subst unat_sub_small) (use assms(2) in \<open>simp_all add: m s\<close>)
  then show ?thesis using doubled_size_small [OF assms, of j] by (simp add: word_le_nat_alt u)
qed

lemma boundary_loop_diverges:
  assumes "0 < s" and "s < 2 ^ 32"
  shows "boundary_loop (of_nat s) (of_nat s * 2 ^ j) = None"
proof (rule ccontr)
  assume "boundary_loop (of_nat s) (of_nat s * 2 ^ j) \<noteq> None"
  then obtain b where b: "boundary_loop (of_nat s) (of_nat s * 2 ^ j) = Some b" by auto
  have "\<forall>i. sz = of_nat s \<longrightarrow> x \<noteq> of_nat s * 2 ^ i" if h: "boundary_loop sz x = Some y" for sz x y
  proof (rule boundary_loop.raw_induct [OF _ h, of "\<lambda>sz x y. \<forall>i. sz = of_nat s \<longrightarrow> x \<noteq> of_nat s * 2 ^ i"], goal_cases)
    case (1 f sz x y)
    show ?case
    proof (intro allI impI notI)
      fix i assume e: "sz = of_nat s" "x = of_nat s * 2 ^ i"
      have d: "x * 2 = of_nat s * 2 ^ Suc i" by (simp add: e mult.assoc mult.commute)
      have "x * 2 \<le> - 1 - sz" unfolding d e(1) by (rule doubled_size_word [OF assms])
      then have "f sz (x * 2) = Some y" using 1(2) by simp
      from 1(1) [OF this] show False using d e(1) by blast
    qed
  qed
  from this [OF b] show False by blast
qed

lemma sw_params_diverge: "sw_params_for period (unat (n :: u32)) = None"
proof -
  define s where "s = (if unat n > 0 then unat n else 4096)"
  have "0 < s" "s < 2 ^ 32" using unat_u32_less [of n] by (auto simp: s_def)
  from boundary_loop_diverges [OF this, of 0] show ?thesis by (simp add: sw_params_for_def Let_def s_def)
qed

lemma try_open_hangs:
  assumes "0 \<le> kn_open k c" and "kn_hw_params k (constrained_params (da_config p)) = Some params"
  shows "try_open_candidate k c p = None"
  using assms sw_params_diverge by (simp add: try_open_candidate_def Let_def)

text \<open>
  Claim C38: opening a kernel PCM node never returns. If the node can be opened and the kernel accepts
  the hardware parameters, the loop that computes the software boundary runs forever: its condition
  compares the doubled value in 64 bits, where it wraps to zero, with a limit it can then never exceed.
\<close>

theorem direct_open_never_returns:
  assumes "0 \<le> kn_open k candidate" and "kn_hw_params k (constrained_params (da_config p)) = Some params"
  shows "try_open_candidate k candidate p = None"
  using try_open_hangs [OF assms] .

theorem direct_open_never_returns_witness:
  "try_open_candidate \<lparr>kn_dev_snd = None, kn_open = (\<lambda>_. 5), kn_hw_params = Some, kn_prepare = True\<rparr>
     ''/dev/snd/pcmC0D0p'' DirectAlsaPlayer = None"
  by (rule direct_open_never_returns) simp_all

section \<open>The write loop\<close>

lemma xfer_loop_order:
  "xfer_loop ch chunk es staging out = Some (staging', out') \<Longrightarrow>
   out' @ staging' = out @ staging \<or> staging' = [] \<and> (\<exists>rest. out' @ rest = out @ staging)"
proof (induction ch chunk es staging out arbitrary: staging' out' rule: xfer_loop.induct)
  case (1 ch chunk staging out)
  then show ?case by (auto split: if_splits)
next
  case (2 ch chunk e es staging out)
  show ?case
  proof (cases "length staging \<ge> chunk * ch")
    case False
    then show ?thesis using 2(3) by simp
  next
    case True
    show ?thesis
    proof (cases e)
      case (Transfer a b)
      define res where "res = (case a of Some r \<Rightarrow> Some r | None \<Rightarrow> b)"
      show ?thesis
      proof (cases res)
        case None
        then show ?thesis using 2(3) True Transfer by (simp add: res_def)
      next
        case (Some r)
        define w where "w = min ((if r > 0 then nat r else chunk) * ch) (length staging)"
        have "xfer_loop ch chunk es (drop w staging) (out @ take w staging) = Some (staging', out')"
          using 2(3) True Transfer Some by (simp add: res_def w_def Let_def)
        from 2(2) [OF True Transfer Some [unfolded res_def] refl w_def this] show ?thesis by simp
      qed
    next
      case PollInterrupted
      from 2(1) [OF True this] 2(3) True PollInterrupted show ?thesis by simp
    qed (use 2(3) True in auto)
  qed
qed

text \<open>
  A write to an open node loses nothing and reorders nothing as long as the kernel accepts
  what it is given: the samples the node took, followed by those still staged, are the staged samples
  followed by the new ones. After a failed transfer the rest is discarded; what was taken before it is
  still the beginning of that sequence.
\<close>

theorem direct_write_in_order:
  assumes "direct_write es pcm n p = Some (k, out, q)" and "0 < k"
  shows "k = n \<and>
         (out @ da_staging_buffer q = da_staging_buffer p @ take (n * direct_channels p) pcm \<or>
          da_staging_buffer q = [] \<and> (\<exists>rest. out @ rest = da_staging_buffer p @ take (n * direct_channels p) pcm))"
proof -
  obtain chunk staging where "k = n" "q = p\<lparr>da_staging_buffer := staging\<rparr>" and
    l: "xfer_loop (direct_channels p) chunk es (da_staging_buffer p @ take (n * direct_channels p) pcm) [] = Some (staging, out)"
    using assms by (auto simp: direct_write_def Let_def split: if_splits)
  then show ?thesis using xfer_loop_order [OF l] by auto
qed

definition open_direct_player :: direct_player where
  "open_direct_player = DirectAlsaPlayer\<lparr>da_is_open := True, da_fd := 5, da_period_size_frames := 2\<rparr>"

theorem direct_write_in_order_witness:
  "\<exists>q. direct_write [Transfer None (Some 1), PollTimeout] [1, 2, 3, 4, 5, 6] 3 open_direct_player = Some (3, [1, 2], q) \<and>
       [1, 2] @ da_staging_buffer q = [1, 2, 3, 4, 5, 6]"
proof -
  obtain q where q: "direct_write [Transfer None (Some 1), PollTimeout] [1, 2, 3, 4, 5, 6] 3 open_direct_player
      = Some (3, [1, 2], q)" and s: "da_staging_buffer q \<noteq> []" by (simp add: direct_write_def open_direct_player_def DirectAlsaPlayer_def direct_channels_def default_audio_config_def Let_def)
  from direct_write_in_order [OF q] q s show ?thesis
    by (simp add: open_direct_player_def DirectAlsaPlayer_def direct_channels_def default_audio_config_def)
qed

text \<open>
  A stalled node exerts no back-pressure. While it never becomes ready, every write is
  reported as complete and its samples are appended to the staging buffer, which grows without limit.
\<close>

theorem direct_stalled_node_stages_everything:
  assumes "da_is_open p" and "0 \<le> da_fd p"
    and "\<forall>(pcm, n) \<in> set bs. 0 < n \<and> length pcm = n * direct_channels p"
  shows "play_all (direct_ops [PollTimeout] delay) bs p
         = Some (sum_list (map snd bs), p\<lparr>da_staging_buffer := da_staging_buffer p @ concat (map fst bs)\<rparr>)"
  using assms
proof (induction bs arbitrary: p)
  case Nil
  then show ?case by simp
next
  case (Cons b bs)
  obtain pcm n where b: "b = (pcm, n)" by (cases b)
  define q where "q = p\<lparr>da_staging_buffer := da_staging_buffer p @ pcm\<rparr>"
  have t: "xfer_loop ch chunk [PollTimeout] st [] = Some (st, [])" for ch chunk st by simp
  have "direct_write [PollTimeout] pcm n p = Some (n, [], q)"
    using Cons.prems by (simp add: direct_write_def b Let_def t q_def del: xfer_loop.simps)
  moreover have "play_all (direct_ops [PollTimeout] delay) bs q
      = Some (sum_list (map snd bs), q\<lparr>da_staging_buffer := da_staging_buffer q @ concat (map fst bs)\<rparr>)"
    by (rule Cons.IH) (use Cons.prems in \<open>auto simp: q_def direct_channels_def\<close>)
  ultimately show ?case by (simp add: b direct_ops_def q_def)
qed

theorem direct_stalled_node_stages_everything_witness:
  "play_all (direct_ops [PollTimeout] None) (replicate 50 (replicate 480 0, 240)) open_direct_player
   = Some (12000, open_direct_player\<lparr>da_staging_buffer := replicate 24000 0\<rparr>)"
proof -
  have "concat (replicate m (replicate k x)) = replicate (m * k) x" for m k and x :: i16
    by (induction m) (auto simp: replicate_add)
  then have "concat (replicate 50 (replicate 480 (0 :: i16))) = replicate 24000 0" by simp
  then show ?thesis
    using direct_stalled_node_stages_everything [of open_direct_player "replicate 50 (replicate 480 0, 240)" None]
    by (simp add: open_direct_player_def DirectAlsaPlayer_def direct_channels_def default_audio_config_def sum_list_replicate)
qed

end
