(* ===== verification/Device_Open.thy ===== *)
theory Device_Open
  imports Pulse Direct_Alsa
begin

text \<open>
  \<^verbatim>\<open>src/client/client.cpp\<close>, lines 26 to 412: how the client gets an output device. A supervisor
  thread goes through a list of strategies and starts one attempt thread at a time; an attempt that
  hangs is abandoned and may still finish later and put its device into the slot the playback thread
  reads. The threads are modelled as interleaved steps on the shared state; a step is what a thread
  does between two points where another thread can see the difference. The lemmas show that a device
  that plays is never replaced, that at most one device is left open, when the supervisor ends, and
  two cases the code leaves open.
\<close>

section \<open>Device names\<close>

definition is_node_based_device :: "string \<Rightarrow> bool" where
  "is_node_based_device n \<longleftrightarrow> starts_with n ''direct:'' \<or> starts_with n ''/dev/''"

definition is_agm_device :: "string \<Rightarrow> bool" where
  "is_agm_device n \<longleftrightarrow> starts_with n ''agm:'' \<or> n = ''agm''"

definition is_aaudio_device :: "string \<Rightarrow> bool" where
  "is_aaudio_device n \<longleftrightarrow> starts_with n ''aaudio:'' \<or> n = ''aaudio''"

definition is_termux_device :: "string \<Rightarrow> bool" where
  "is_termux_device n \<longleftrightarrow> starts_with n ''termux:'' \<or> n = ''termux'' \<or> n = ''termux-api''"

definition is_pulse_device :: "string \<Rightarrow> bool" where
  "is_pulse_device n = is_pulse_device_name n"

definition pulse_worth_trying :: "bool \<Rightarrow> system \<Rightarrow> bool" where
  "pulse_worth_trying supported sys \<longleftrightarrow> supported \<and> server_available sys"

definition build_node_candidates :: "kernel \<Rightarrow> string \<Rightarrow> string list" where
  "build_node_candidates k device_name =
     (let primary = (if starts_with device_name ''direct:'' then drop 7 device_name
                     else if starts_with device_name ''/dev/'' then device_name
                     else ''/dev/snd/pcmC0D0p'');
          primary = (if primary = [] then ''/dev/snd/pcmC0D0p'' else primary)
      in foldl add_new [primary, ''/dev/snd/pcmC0D0p''] (enumerate_kernel_pcm_devices k))"

datatype OpenStrategy = PULSE | AAUDIO | TERMUXAPI | AGM | NODES | LEGACY

definition build_open_strategies :: "bool \<Rightarrow> string \<Rightarrow> OpenStrategy list" where
  "build_open_strategies worth_trying n =
     (if is_pulse_device n then [PULSE, AAUDIO, TERMUXAPI, AGM, NODES, LEGACY]
      else if is_aaudio_device n then [AAUDIO, TERMUXAPI, AGM, NODES, LEGACY]
      else if is_termux_device n then [TERMUXAPI, AAUDIO, AGM, NODES, LEGACY]
      else if is_agm_device n then [AGM, NODES, LEGACY]
      else if is_node_based_device n then [NODES]
      else if worth_trying then [PULSE, AAUDIO, TERMUXAPI, LEGACY]
      else [LEGACY])"

definition kDeviceAttemptTimeoutMs :: u32 where "kDeviceAttemptTimeoutMs = 20000"
definition kDeviceAttemptPollMs :: u32 where "kDeviceAttemptPollMs = 100"
definition kDeviceRetryBackoffMs :: u32 where "kDeviceRetryBackoffMs = 3000"
definition kDeviceRetryMaxBackoffMs :: u32 where "kDeviceRetryMaxBackoffMs = 30000"

fun max_attempts :: "OpenStrategy \<Rightarrow> nat" where
  "max_attempts PULSE = 2"
| "max_attempts AAUDIO = 2"
| "max_attempts TERMUXAPI = 2"
| "max_attempts AGM = 2"
| "max_attempts NODES = 8"
| "max_attempts LEGACY = 2 ^ 64 - 1"

definition attempt_timeout_ms :: "OpenStrategy \<Rightarrow> u32" where
  "attempt_timeout_ms s = (if s = PULSE then kOpenAttemptTimeoutMs else kDeviceAttemptTimeoutMs)"

section \<open>Shared state\<close>

text \<open>
  A device is known by its place in the list of all devices made so far; \<open>pd_strategy = None\<close> is the
  dummy sink. \<open>pd_candidate\<close> is the node for \<open>open_candidate_only\<close>, empty for \<open>open\<close>.
\<close>

record pdevice =
  pd_strategy :: "OpenStrategy option"
  pd_candidate :: string
  pd_open :: bool

text \<open>Where an attempt thread stands in \<open>attempt_device_open\<close>.\<close>

datatype attempt_phase =
    AtStart | InOpen | Opened | Locking | Discarding | RacedShutdown | Displacing "nat option" | Failing | Finished

record attempt =
  at_device :: nat
  at_phase :: attempt_phase

datatype supervisor_phase = StrategyHead | AttemptHead | Waiting | Checking | Backoff | Exited

text \<open>
  \<open>su_attempt\<close> is the \<^verbatim>\<open>int\<close> that numbers the attempts in the log, kept at its 32 bits; it is only printed.
  C++ leaves its increment past the largest \<^verbatim>\<open>int\<close> undefined, here it wraps.
\<close>

record supervisor =
  su_phase :: supervisor_phase
  su_index :: nat
  su_backoff_ms :: u32
  su_attempt :: "32 word"
  su_in_strategy :: nat
  su_candidates :: "string list"
  su_candidate_index :: nat
  su_waited :: u32
  su_current :: nat

record device_open_shared =
  do_pending :: bool
  do_result :: bool
  do_shutdown :: bool
  do_player :: "nat option"
  do_devices :: "pdevice list"
  do_attempts :: "attempt list"
  do_sup :: supervisor

definition live_device :: "device_open_shared \<Rightarrow> nat \<Rightarrow> bool" where
  "live_device s d \<longleftrightarrow> d < length (do_devices s) \<and> pd_open (do_devices s ! d) \<and> pd_strategy (do_devices s ! d) \<noteq> None"

definition slot_live :: "device_open_shared \<Rightarrow> bool" where
  "slot_live s \<longleftrightarrow> (case do_player s of None \<Rightarrow> False | Some d \<Rightarrow> live_device s d)"

definition set_open :: "nat \<Rightarrow> bool \<Rightarrow> device_open_shared \<Rightarrow> device_open_shared" where
  "set_open d b s =
     (if d < length (do_devices s) then s\<lparr>do_devices := (do_devices s)[d := (do_devices s ! d)\<lparr>pd_open := b\<rparr>]\<rparr> else s)"

definition set_phase :: "nat \<Rightarrow> attempt_phase \<Rightarrow> device_open_shared \<Rightarrow> device_open_shared" where
  "set_phase i ph s = s\<lparr>do_attempts := (do_attempts s)[i := (do_attempts s ! i)\<lparr>at_phase := ph\<rparr>]\<rparr>"

text \<open>The state when \<open>open_player_with_timeout\<close> starts the supervisor.\<close>

definition start_open :: device_open_shared where
  "start_open =
     \<lparr>do_pending = True, do_result = False, do_shutdown = False, do_player = None, do_devices = [], do_attempts = [],
      do_sup = \<lparr>su_phase = StrategyHead, su_index = 0, su_backoff_ms = kDeviceRetryBackoffMs, su_attempt = 1,
                su_in_strategy = 0, su_candidates = [], su_candidate_index = 0, su_waited = 0, su_current = 0\<rparr>\<rparr>"

section \<open>The threads\<close>

text \<open>One step of attempt \<open>i\<close>; \<open>r\<close> is what the open function returns if the step is its return.\<close>

definition attempt_device_open :: "bool \<Rightarrow> nat \<Rightarrow> device_open_shared \<Rightarrow> device_open_shared" where
  "attempt_device_open r i s =
     (let d = at_device (do_attempts s ! i)
      in case at_phase (do_attempts s ! i) of
           AtStart \<Rightarrow> set_phase i (if do_shutdown s then Failing else InOpen) s
         | InOpen \<Rightarrow> set_phase i (if r then Opened else Failing) (set_open d r s)
         | Opened \<Rightarrow> set_phase i (if do_shutdown s then RacedShutdown else Locking) s
         | Locking \<Rightarrow>
             if slot_live s then set_phase i Discarding s
             else set_phase i (Displacing (do_player s)) (s\<lparr>do_player := Some d, do_result := True, do_pending := False\<rparr>)
         | Discarding \<Rightarrow> set_phase i Failing (set_open d False s)
         | RacedShutdown \<Rightarrow> set_phase i Failing (set_open d False s)
         | Displacing None \<Rightarrow> set_phase i Finished s
         | Displacing (Some e) \<Rightarrow> set_phase i Finished (set_open e False s)
         | Failing \<Rightarrow> set_phase i Finished (s\<lparr>do_result := False, do_pending := False\<rparr>)
         | Finished \<Rightarrow> s)"

definition new_attempt :: "OpenStrategy \<Rightarrow> device_open_shared \<Rightarrow> device_open_shared" where
  "new_attempt strategy s =
     (let su = do_sup s;
          candidate = (if strategy = NODES then su_candidates su ! (su_candidate_index su mod length (su_candidates su)) else []);
          d = length (do_devices s)
      in s\<lparr>do_devices := do_devices s @ [\<lparr>pd_strategy = Some strategy, pd_candidate = candidate, pd_open = False\<rparr>],
           do_attempts := do_attempts s @ [\<lparr>at_device = d, at_phase = AtStart\<rparr>],
           do_sup := su\<lparr>su_phase := Waiting, su_in_strategy := su_in_strategy su + 1, su_waited := 0,
                        su_candidate_index := su_candidate_index su + (if strategy = NODES then 1 else 0),
                        su_current := length (do_attempts s)\<rparr>\<rparr>)"

text \<open>One step of the supervisor; in \<open>Waiting\<close> and \<open>Backoff\<close> a step is one poll of 100 ms.\<close>

definition device_open_supervisor :: "string list \<Rightarrow> OpenStrategy list \<Rightarrow> device_open_shared \<Rightarrow> device_open_shared" where
  "device_open_supervisor nodes strategies s =
     (let su = do_sup s;
          strategy = strategies ! su_index su;
          finished = (at_phase (do_attempts s ! su_current su) = Finished)
      in case su_phase su of
           StrategyHead \<Rightarrow>
             if do_shutdown s \<or> su_index su \<ge> length strategies then s\<lparr>do_sup := su\<lparr>su_phase := Exited\<rparr>\<rparr>
             else s\<lparr>do_sup := su\<lparr>su_phase := AttemptHead, su_candidates := (if strategy = NODES then nodes else []),
                                  su_candidate_index := 0, su_in_strategy := 0,
                                  su_backoff_ms := (if su_index su > 0 then kDeviceRetryBackoffMs else su_backoff_ms su)\<rparr>\<rparr>
         | AttemptHead \<Rightarrow>
             if do_shutdown s then s\<lparr>do_sup := su\<lparr>su_phase := StrategyHead\<rparr>\<rparr>
             else if su_in_strategy su \<ge> max_attempts strategy
             then s\<lparr>do_sup := su\<lparr>su_phase := StrategyHead, su_index := su_index su + 1\<rparr>\<rparr>
             else if slot_live s then s\<lparr>do_sup := su\<lparr>su_phase := Exited\<rparr>\<rparr>
             else new_attempt strategy s
         | Waiting \<Rightarrow>
             if su_waited su < attempt_timeout_ms strategy \<and> \<not> do_shutdown s \<and> \<not> finished
             then s\<lparr>do_sup := su\<lparr>su_waited := su_waited su + kDeviceAttemptPollMs\<rparr>\<rparr>
             else s\<lparr>do_sup := su\<lparr>su_phase := Checking\<rparr>\<rparr>
         | Checking \<Rightarrow>
             if do_shutdown s then s\<lparr>do_sup := su\<lparr>su_phase := StrategyHead\<rparr>\<rparr>
             else if finished \<and> do_result s then s\<lparr>do_sup := su\<lparr>su_phase := Exited\<rparr>\<rparr>
             else s\<lparr>do_sup := su\<lparr>su_phase := Backoff, su_attempt := su_attempt su + 1, su_waited := 0\<rparr>\<rparr>
         | Backoff \<Rightarrow>
             if su_waited su < su_backoff_ms su \<and> \<not> do_shutdown s
             then s\<lparr>do_sup := su\<lparr>su_waited := su_waited su + kDeviceAttemptPollMs\<rparr>\<rparr>
             else s\<lparr>do_sup := su\<lparr>su_phase := AttemptHead, su_backoff_ms := min (su_backoff_ms su * 2) kDeviceRetryMaxBackoffMs\<rparr>\<rparr>
         | Exited \<Rightarrow> s)"

text \<open>
  What can happen next: a step of the supervisor or of an attempt; \<open>stop\<close> raises the shutdown flag and
  later closes the device in the slot; the device in the slot closes itself, as the AAudio backend
  does when it gives up.
\<close>

datatype move = Supervise | Attempt nat bool | RaiseShutdown | ClosePlayer | BackendDies

fun enabled :: "move \<Rightarrow> device_open_shared \<Rightarrow> bool" where
  "enabled Supervise s \<longleftrightarrow> su_phase (do_sup s) \<noteq> Exited"
| "enabled (Attempt i r) s \<longleftrightarrow> i < length (do_attempts s) \<and> at_phase (do_attempts s ! i) \<noteq> Finished"
| "enabled RaiseShutdown s \<longleftrightarrow> True"
| "enabled ClosePlayer s \<longleftrightarrow> do_shutdown s"
| "enabled BackendDies s \<longleftrightarrow> slot_live s"

definition close_slot :: "device_open_shared \<Rightarrow> device_open_shared" where
  "close_slot s = (case do_player s of None \<Rightarrow> s | Some d \<Rightarrow> set_open d False s)"

fun do_move :: "string list \<Rightarrow> OpenStrategy list \<Rightarrow> move \<Rightarrow> device_open_shared \<Rightarrow> device_open_shared" where
  "do_move nodes sts Supervise s = device_open_supervisor nodes sts s"
| "do_move nodes sts (Attempt i r) s = attempt_device_open r i s"
| "do_move nodes sts RaiseShutdown s = s\<lparr>do_shutdown := True\<rparr>"
| "do_move nodes sts ClosePlayer s = close_slot s"
| "do_move nodes sts BackendDies s = close_slot s"

inductive open_reachable :: "string list \<Rightarrow> OpenStrategy list \<Rightarrow> device_open_shared \<Rightarrow> bool"
  for nodes :: "string list" and sts :: "OpenStrategy list"
where
  start: "open_reachable nodes sts start_open"
| move: "open_reachable nodes sts s \<Longrightarrow> enabled m s \<Longrightarrow> open_reachable nodes sts (do_move nodes sts m s)"

text \<open>A run of given moves; \<open>None\<close> when one of them cannot happen.\<close>

fun run_moves :: "string list \<Rightarrow> OpenStrategy list \<Rightarrow> move list \<Rightarrow> device_open_shared \<Rightarrow> device_open_shared option" where
  "run_moves nodes sts [] s = Some s"
| "run_moves nodes sts (m # ms) s = (if enabled m s then run_moves nodes sts ms (do_move nodes sts m s) else None)"

section \<open>The invariant\<close>

fun holding :: "attempt_phase \<Rightarrow> bool" where
  "holding Opened = True"
| "holding Locking = True"
| "holding Discarding = True"
| "holding RacedShutdown = True"
| "holding _ = False"

fun swapped :: "attempt_phase \<Rightarrow> bool" where
  "swapped (Displacing e) = True"
| "swapped Finished = True"
| "swapped _ = False"

abbreviation phase_of :: "device_open_shared \<Rightarrow> nat \<Rightarrow> attempt_phase" where
  "phase_of s i \<equiv> at_phase (do_attempts s ! i)"

text \<open>
  Attempt \<open>i\<close> made device \<open>i\<close>. The device in the slot belongs to an attempt that is past its swap; any
  other open device is still in the hands of its attempt. A device that is being displaced was not
  playing and is no longer in the slot.
\<close>

fun displaced_ok :: "nat option \<Rightarrow> attempt list \<Rightarrow> attempt_phase \<Rightarrow> bool" where
  "displaced_ok p as (Displacing (Some e)) \<longleftrightarrow> e < length as \<and> swapped (at_phase (as ! e)) \<and> p \<noteq> Some e"
| "displaced_ok p as _ \<longleftrightarrow> True"

definition slot_inv :: "device_open_shared \<Rightarrow> bool" where
  "slot_inv s \<longleftrightarrow>
     length (do_devices s) = length (do_attempts s) \<and>
     (\<forall>i < length (do_attempts s). at_device (do_attempts s ! i) = i \<and> pd_strategy (do_devices s ! i) \<noteq> None) \<and>
     (\<forall>d. do_player s = Some d \<longrightarrow> d < length (do_attempts s) \<and> swapped (phase_of s d)) \<and>
     (\<forall>i < length (do_attempts s). pd_open (do_devices s ! i) \<longrightarrow> do_player s = Some i \<or> holding (phase_of s i)) \<and>
     (\<forall>i < length (do_attempts s). displaced_ok (do_player s) (do_attempts s) (phase_of s i)) \<and>
     (do_result s \<longrightarrow> do_player s \<noteq> None)"

lemma slot_invI:
  assumes "length (do_devices s) = length (do_attempts s)"
    and "\<And>i. i < length (do_attempts s) \<Longrightarrow> at_device (do_attempts s ! i) = i \<and> pd_strategy (do_devices s ! i) \<noteq> None"
    and "\<And>d. do_player s = Some d \<Longrightarrow> d < length (do_attempts s) \<and> swapped (phase_of s d)"
    and "\<And>i. i < length (do_attempts s) \<Longrightarrow> pd_open (do_devices s ! i) \<Longrightarrow> do_player s = Some i \<or> holding (phase_of s i)"
    and "\<And>i. i < length (do_attempts s) \<Longrightarrow> displaced_ok (do_player s) (do_attempts s) (phase_of s i)"
    and "do_result s \<Longrightarrow> do_player s \<noteq> None"
  shows "slot_inv s"
  using assms unfolding slot_inv_def by blast

lemma slot_invD:
  assumes "slot_inv s"
  shows "length (do_devices s) = length (do_attempts s)"
    and "i < length (do_attempts s) \<Longrightarrow> at_device (do_attempts s ! i) = i"
    and "i < length (do_attempts s) \<Longrightarrow> pd_strategy (do_devices s ! i) \<noteq> None"
    and "do_player s = Some d \<Longrightarrow> d < length (do_attempts s)"
    and "do_player s = Some d \<Longrightarrow> swapped (phase_of s d)"
    and "i < length (do_attempts s) \<Longrightarrow> pd_open (do_devices s ! i) \<Longrightarrow> do_player s = Some i \<or> holding (phase_of s i)"
    and "i < length (do_attempts s) \<Longrightarrow> displaced_ok (do_player s) (do_attempts s) (phase_of s i)"
    and "do_result s \<Longrightarrow> do_player s \<noteq> None"
  using assms unfolding slot_inv_def by blast+

lemma displaced_ok_mono:
  assumes "displaced_ok p as ph" and "length as \<le> length bs"
    and "\<And>e. e < length as \<Longrightarrow> swapped (at_phase (as ! e)) \<Longrightarrow> swapped (at_phase (bs ! e))"
    and "\<And>e. q = Some e \<Longrightarrow> p = Some e \<or> length as \<le> e \<or> \<not> swapped (at_phase (as ! e))"
  shows "displaced_ok q bs ph"
proof (cases "\<exists>e. ph = Displacing (Some e)")
  case True
  then obtain e where "ph = Displacing (Some e)" by blast
  with assms show ?thesis by fastforce
next
  case False
  then show ?thesis by (cases "(q, bs, ph)" rule: displaced_ok.cases) auto
qed

lemma set_open_simps [simp]:
  "do_player (set_open d b s) = do_player s" "do_attempts (set_open d b s) = do_attempts s"
  "do_result (set_open d b s) = do_result s" "do_shutdown (set_open d b s) = do_shutdown s"
  "do_sup (set_open d b s) = do_sup s" "length (do_devices (set_open d b s)) = length (do_devices s)"
  "d < length (do_devices s) \<Longrightarrow> do_devices (set_open d b s) = (do_devices s)[d := (do_devices s ! d)\<lparr>pd_open := b\<rparr>]"
  by (simp_all add: set_open_def)

lemma set_open_strategy [simp]: "i < length (do_devices s) \<Longrightarrow> pd_strategy (do_devices (set_open d b s) ! i) = pd_strategy (do_devices s ! i)"
  by (simp add: set_open_def nth_list_update)

lemma set_open_closed: "pd_open (do_devices (set_open d False s) ! i) \<Longrightarrow> i < length (do_devices s) \<Longrightarrow> i \<noteq> d \<and> pd_open (do_devices s ! i)"
  by (auto simp: set_open_def nth_list_update split: if_splits)

lemma set_open_other [simp]: "i \<noteq> d \<Longrightarrow> do_devices (set_open d b s) ! i = do_devices s ! i"
  by (simp add: set_open_def)

lemma set_phase_simps [simp]:
  "do_player (set_phase i ph s) = do_player s" "do_devices (set_phase i ph s) = do_devices s"
  "do_result (set_phase i ph s) = do_result s" "do_shutdown (set_phase i ph s) = do_shutdown s"
  "do_sup (set_phase i ph s) = do_sup s" "length (do_attempts (set_phase i ph s)) = length (do_attempts s)"
  by (simp_all add: set_phase_def)

lemma set_phase_device [simp]:
  "j < length (do_attempts s) \<Longrightarrow> at_device (do_attempts (set_phase i ph s) ! j) = at_device (do_attempts s ! j)"
  by (cases "i = j") (simp_all add: set_phase_def)

lemma set_phase_phase [simp]:
  "j < length (do_attempts s) \<Longrightarrow> phase_of (set_phase i ph s) j = (if j = i then ph else phase_of s j)"
  by (simp add: set_phase_def nth_list_update)

lemma slot_live_iff:
  assumes "slot_inv s"
  shows "slot_live s \<longleftrightarrow> (\<exists>d. do_player s = Some d \<and> pd_open (do_devices s ! d))"
  using slot_invD(1,3,4) [OF assms] by (cases "do_player s") (auto simp: slot_live_def live_device_def)

text \<open>The next phase of an attempt that has not swapped, and of one that has.\<close>

lemma slot_inv_set_phase:
  assumes inv: "slot_inv s" and i: "i < length (do_attempts s)"
    and sw: "swapped (phase_of s i) \<Longrightarrow> swapped ph"
    and op: "pd_open (do_devices s ! i) \<Longrightarrow> do_player s = Some i \<or> holding ph"
    and dis: "displaced_ok (do_player s) (do_attempts s) ph"
  shows "slot_inv (set_phase i ph s)"
proof (rule slot_invI)
  fix j assume j: "j < length (do_attempts (set_phase i ph s))"
  have "displaced_ok (do_player s) (do_attempts s) (if j = i then ph else phase_of s j)"
    using dis slot_invD(7) [OF inv, of j] j by simp
  then show "displaced_ok (do_player (set_phase i ph s)) (do_attempts (set_phase i ph s)) (phase_of (set_phase i ph s) j)"
    using j sw by (auto elim!: displaced_ok_mono)
  show "pd_open (do_devices (set_phase i ph s) ! j) \<Longrightarrow> do_player (set_phase i ph s) = Some j \<or> holding (phase_of (set_phase i ph s) j)"
    using slot_invD(6) [OF inv, of j] j op by auto
  show "at_device (do_attempts (set_phase i ph s) ! j) = j \<and> pd_strategy (do_devices (set_phase i ph s) ! j) \<noteq> None"
    using slot_invD(2,3) [OF inv, of j] j by simp
next
  fix d assume "do_player (set_phase i ph s) = Some d"
  then show "d < length (do_attempts (set_phase i ph s)) \<and> swapped (phase_of (set_phase i ph s) d)"
    using slot_invD(4,5) [OF inv, of d] sw by auto
qed (use slot_invD(1,8) [OF inv] in simp_all)

lemma slot_inv_close:
  assumes "slot_inv s"
  shows "slot_inv (set_open d False s)"
proof (rule slot_invI)
  fix i assume i: "i < length (do_attempts (set_open d False s))"
  show "pd_open (do_devices (set_open d False s) ! i) \<Longrightarrow> do_player (set_open d False s) = Some i \<or> holding (phase_of (set_open d False s) i)"
    using slot_invD(1,6) [OF assms] set_open_closed [of d s i] i by simp
qed (use slot_invD [OF assms] in \<open>simp_all del: set_open_simps(7)\<close>)

lemma slot_inv_opened:
  assumes "slot_inv s" and "i < length (do_attempts s)" and "phase_of s i = InOpen"
  shows "slot_inv (set_phase i Opened (set_open i True s))"
proof (rule slot_invI)
  fix j assume j: "j < length (do_attempts (set_phase i Opened (set_open i True s)))"
  show "pd_open (do_devices (set_phase i Opened (set_open i True s)) ! j) \<Longrightarrow>
    do_player (set_phase i Opened (set_open i True s)) = Some j \<or> holding (phase_of (set_phase i Opened (set_open i True s)) j)"
    using slot_invD(1,6) [OF assms(1)] j by (cases "i = j") simp_all
  show "displaced_ok (do_player (set_phase i Opened (set_open i True s))) (do_attempts (set_phase i Opened (set_open i True s)))
     (phase_of (set_phase i Opened (set_open i True s)) j)"
    using slot_invD(7) [OF assms(1), of j] j assms(3) by (auto elim!: displaced_ok_mono)
next
  fix d assume "do_player (set_phase i Opened (set_open i True s)) = Some d"
  then show "d < length (do_attempts (set_phase i Opened (set_open i True s))) \<and> swapped (phase_of (set_phase i Opened (set_open i True s)) d)"
    using slot_invD(4,5) [OF assms(1), of d] assms(3) by auto
qed (use slot_invD(1-3,8) [OF assms(1)] in \<open>simp_all del: set_open_simps(7)\<close>)

lemma slot_inv_swap:
  assumes inv: "slot_inv s" and i: "i < length (do_attempts s)" and ph: "phase_of s i = Locking" and idle: "\<not> slot_live s"
  shows "slot_inv (set_phase i (Displacing (do_player s)) (s\<lparr>do_player := Some i, do_result := True, do_pending := False\<rparr>))"
    (is "slot_inv ?t")
proof (rule slot_invI)
  have len: "length (do_attempts ?t) = length (do_attempts s)" by (simp add: set_phase_def)
  have phs: "phase_of ?t j = (if j = i then Displacing (do_player s) else phase_of s j)" if "j < length (do_attempts s)" for j
    using that by (simp add: set_phase_def nth_list_update)
  fix j assume "j < length (do_attempts ?t)"
  then have j: "j < length (do_attempts s)" by (simp add: len)
  show "pd_open (do_devices ?t ! j) \<Longrightarrow> do_player ?t = Some j \<or> holding (phase_of ?t j)"
    using slot_invD(6) [OF inv j] slot_live_iff [OF inv] idle by (auto simp: phs [OF j])
  have "displaced_ok (Some i) (do_attempts ?t) (phase_of s j)"
    using slot_invD(7) [OF inv j] ph by (auto elim!: displaced_ok_mono simp: len phs)
  moreover have "displaced_ok (Some i) (do_attempts ?t) (Displacing (do_player s))"
    using slot_invD(4,5) [OF inv] ph by (cases "do_player s") (auto simp: len phs)
  ultimately show "displaced_ok (do_player ?t) (do_attempts ?t) (phase_of ?t j)" by (simp add: phs [OF j])
  show "at_device (do_attempts ?t ! j) = j \<and> pd_strategy (do_devices ?t ! j) \<noteq> None"
    using slot_invD(2,3) [OF inv j] j by (cases "i = j") (simp_all add: set_phase_def)
qed (use slot_invD(1) [OF inv] i in \<open>auto simp: set_phase_def\<close>)

lemma slot_inv_attempt:
  assumes inv: "slot_inv s" and i: "i < length (do_attempts s)" and "phase_of s i \<noteq> Finished"
  shows "slot_inv (attempt_device_open r i s)"
proof -
  note d = slot_invD(2) [OF inv i]
  have own: "pd_open (do_devices s ! i) \<Longrightarrow> do_player s = Some i \<or> holding (phase_of s i)" by (rule slot_invD(6) [OF inv i])
  have player: "do_player s = Some i \<Longrightarrow> swapped (phase_of s i)" by (rule slot_invD(5) [OF inv])
  have closing: "slot_inv (set_phase i Failing (set_open i False s))" if "\<not> swapped (phase_of s i)"
    by (rule slot_inv_set_phase [OF slot_inv_close [OF inv]]) (use that i slot_invD(1) [OF inv] in simp_all)
  show ?thesis
  proof (cases "phase_of s i")
    case Locking
    then show ?thesis using slot_inv_set_phase [OF inv i, of Discarding] slot_inv_swap [OF inv i]
      by (simp add: attempt_device_open_def d Let_def)
  next
    case (Displacing e)
    have "slot_inv (set_phase i Finished s')" if "slot_inv s'" "i < length (do_attempts s')" "phase_of s' i = Displacing e" for s'
      by (rule slot_inv_set_phase [OF that(1,2)]) (use slot_invD(6) [OF that(1,2)] that(3) in auto)
    then show ?thesis using Displacing inv i slot_inv_close [OF inv]
      by (cases e) (simp_all add: attempt_device_open_def Let_def)
  next
    case Failing
    have "slot_inv (s\<lparr>do_result := False, do_pending := False\<rparr>)" using inv by (simp add: slot_inv_def)
    from slot_inv_set_phase [OF this, of i Finished] show ?thesis
      using i own Failing by (simp add: attempt_device_open_def Let_def)
  qed (use assms own player closing slot_inv_set_phase [OF inv i] slot_inv_opened [OF inv i] in
      \<open>auto simp: attempt_device_open_def d Let_def\<close>)
qed

lemma slot_inv_sup [simp]: "slot_inv (s\<lparr>do_sup := su\<rparr>) = slot_inv s" "slot_inv (s\<lparr>do_shutdown := b\<rparr>) = slot_inv s"
  by (simp_all add: slot_inv_def)

lemma slot_inv_new_attempt: "slot_inv s \<Longrightarrow> slot_inv (new_attempt strategy s)"
proof (rule slot_invI)
  assume inv: "slot_inv s"
  let ?t = "new_attempt strategy s"
  have t: "do_player ?t = do_player s" "do_result ?t = do_result s"
    "do_attempts ?t = do_attempts s @ [\<lparr>at_device = length (do_devices s), at_phase = AtStart\<rparr>]"
    "\<exists>c. do_devices ?t = do_devices s @ [\<lparr>pd_strategy = Some strategy, pd_candidate = c, pd_open = False\<rparr>]"
    by (simp_all add: new_attempt_def Let_def)
  from t(4) obtain c where c: "do_devices ?t = do_devices s @ [\<lparr>pd_strategy = Some strategy, pd_candidate = c, pd_open = False\<rparr>]" ..
  note inv' = slot_invD [OF inv]
  fix i assume "i < length (do_attempts ?t)"
  then consider (old) "i < length (do_attempts s)" | (fresh) "i = length (do_attempts s)"
    by (auto simp: t less_Suc_eq)
  note i = this
  show "at_device (do_attempts ?t ! i) = i \<and> pd_strategy (do_devices ?t ! i) \<noteq> None"
    using i by cases (use inv'(1-3) in \<open>auto simp: t c nth_append\<close>)
  show "pd_open (do_devices ?t ! i) \<Longrightarrow> do_player ?t = Some i \<or> holding (phase_of ?t i)"
    using i by cases (use inv'(1,6) in \<open>auto simp: t c nth_append\<close>)
  show "displaced_ok (do_player ?t) (do_attempts ?t) (phase_of ?t i)"
    using i
  proof cases
    case old
    then show ?thesis using inv'(7) [OF old] by (auto simp: t nth_append elim!: displaced_ok_mono)
  qed (simp add: t nth_append)
next
  assume inv: "slot_inv s"
  let ?t = "new_attempt strategy s"
  show "length (do_devices ?t) = length (do_attempts ?t)" using slot_invD(1) [OF inv] by (simp add: new_attempt_def Let_def)
  show "do_player ?t = Some d \<Longrightarrow> d < length (do_attempts ?t) \<and> swapped (phase_of ?t d)" for d
    using slot_invD(4,5) [OF inv, of d] by (auto simp: new_attempt_def Let_def nth_append)
  show "do_result ?t \<Longrightarrow> do_player ?t \<noteq> None" using slot_invD(8) [OF inv] by (simp add: new_attempt_def Let_def)
qed

lemma slot_inv_supervisor: "slot_inv s \<Longrightarrow> slot_inv (device_open_supervisor nodes sts s)"
  by (simp add: device_open_supervisor_def Let_def slot_inv_new_attempt split: supervisor_phase.splits)

lemma slot_inv_close_slot: "slot_inv s \<Longrightarrow> slot_inv (close_slot s)"
  by (simp add: close_slot_def slot_inv_close split: option.splits)

lemma slot_inv_move: "slot_inv s \<Longrightarrow> enabled m s \<Longrightarrow> slot_inv (do_move nodes sts m s)"
  by (cases m) (simp_all add: slot_inv_attempt slot_inv_supervisor slot_inv_close_slot)

lemma reachable_slot_inv: "open_reachable nodes sts s \<Longrightarrow> slot_inv s"
  by (induction rule: open_reachable.induct) (simp add: start_open_def slot_inv_def, rule slot_inv_move)

section \<open>What the playback thread gets\<close>

text \<open>
  Claim C3: however the attempts interleave, once every attempt has run to its end at most one device
  is open, and it is the one in the slot the playback thread reads: an abandoned attempt that finishes
  late never leaves a second engine feeding the audio system.
\<close>

theorem no_second_engine:
  assumes "open_reachable nodes sts s" and "\<forall>a \<in> set (do_attempts s). at_phase a = Finished" and "live_device s d"
  shows "do_player s = Some d"
proof -
  note inv = reachable_slot_inv [OF assms(1)]
  have d: "d < length (do_attempts s)" "pd_open (do_devices s ! d)"
    using assms(3) slot_invD(1) [OF inv] by (simp_all add: live_device_def)
  then have "phase_of s d = Finished" using assms(2) by (simp add: all_set_conv_all_nth)
  with slot_invD(6) [OF inv d] show ?thesis by simp
qed

lemma live_attempt_kept:
  assumes inv: "slot_inv s" and i: "i < length (do_attempts s)" and p: "do_player s = Some d" and live: "live_device s d"
  shows "do_player (attempt_device_open r i s) = Some d \<and> live_device (attempt_device_open r i s) d"
proof -
  note i' = slot_invD(2) [OF inv i]
  have other: "i \<noteq> d" if "\<not> swapped (phase_of s i)" using slot_invD(5) [OF inv p] that by auto
  have e: "e \<noteq> d" if "phase_of s i = Displacing (Some e)" for e using slot_invD(7) [OF inv i] that p by auto
  have "slot_live s" using p live by (simp add: slot_live_def)
  then show ?thesis using p live other e i'
    by (cases "phase_of s i") (auto simp: attempt_device_open_def Let_def live_device_def simp del: set_open_simps(7) split: option.splits)
qed

lemma live_supervisor_kept:
  assumes "do_player s = Some d" and "live_device s d"
  shows "do_player (device_open_supervisor nodes sts s) = Some d \<and> live_device (device_open_supervisor nodes sts s) d"
proof -
  have "do_player (new_attempt st s) = Some d \<and> live_device (new_attempt st s) d" for st
    using assms by (auto simp: new_attempt_def live_device_def nth_append Let_def)
  then show ?thesis using assms
    by (simp add: device_open_supervisor_def live_device_def Let_def split: supervisor_phase.splits)
qed

text \<open>
  Claim C12: A backend that plays is never taken out of the slot and never closed by the threads that
  open devices; only \<open>stop\<close> or the backend itself ends it.
\<close>

theorem live_backend_kept:
  assumes "open_reachable nodes sts s" and "enabled m s" and "m \<noteq> ClosePlayer" and "m \<noteq> BackendDies"
    and "do_player s = Some d" and "live_device s d"
  shows "do_player (do_move nodes sts m s) = Some d \<and> live_device (do_move nodes sts m s) d"
proof (cases m)
  case (Attempt i r)
  then show ?thesis using live_attempt_kept [OF reachable_slot_inv [OF assms(1)] _ assms(5,6), of i r] assms(2) by simp
next
  case Supervise
  then show ?thesis using live_supervisor_kept [OF assms(5,6)] by simp
qed (use assms in \<open>auto simp: live_device_def\<close>)

text \<open>Moves that take a device from the start of the supervisor into the slot.\<close>

abbreviation open_moves :: "nat \<Rightarrow> move list" where
  "open_moves i \<equiv> [Attempt i True, Attempt i True, Attempt i True, Attempt i True, Attempt i True]"

lemma reachable_run:
  "open_reachable nodes sts s \<Longrightarrow> run_moves nodes sts ms s = Some t \<Longrightarrow> open_reachable nodes sts t"
  by (induction ms arbitrary: s) (auto split: if_splits intro: open_reachable.move)

text \<open>The polls of the supervisor in one go.\<close>

abbreviation set_waited :: "u32 \<Rightarrow> device_open_shared \<Rightarrow> device_open_shared" where
  "set_waited w s \<equiv> s\<lparr>do_sup := (do_sup s)\<lparr>su_waited := w\<rparr>\<rparr>"

lemma reachable_polls:
  assumes "open_reachable nodes sts s" and "\<not> do_shutdown s" and "su_waited (do_sup s) = 0"
    and "su_phase (do_sup s) = Waiting \<and> \<not> at_phase (do_attempts s ! su_current (do_sup s)) = Finished \<and>
           limit = attempt_timeout_ms (sts ! su_index (do_sup s)) \<or>
         su_phase (do_sup s) = Backoff \<and> limit = su_backoff_ms (do_sup s)"
  shows "k * 100 < unat limit + 100 \<Longrightarrow> open_reachable nodes sts (set_waited (of_nat k * 100) s)"
proof (induction k)
  case 0
  have "set_waited 0 s = s" using assms(3) by simp
  then show ?case using assms(1) by simp
next
  case (Suc k)
  let ?t = "set_waited (of_nat k * 100) s"
  have r: "open_reachable nodes sts ?t" using Suc by simp
  have "enabled Supervise ?t" using assms(4) by auto
  from open_reachable.move [OF r this]
  have nextr: "open_reachable nodes sts (device_open_supervisor nodes sts ?t)" by (simp only: do_move.simps)
  have "unat (of_nat (k * 100) :: u32) = k * 100"
    using Suc.prems unat_u32_less [of limit] by (simp only: unat_of_nat) simp
  then have lt: "(of_nat k * 100 :: u32) < limit" using Suc.prems by (simp add: word_less_nat_alt)
  have nxt: "of_nat (Suc k) * 100 = (of_nat k * 100 + 100 :: u32)" by (simp only: of_nat_Suc distrib_right) simp
  have "device_open_supervisor nodes sts ?t = set_waited (of_nat (Suc k) * 100) s"
    using assms(4)
  proof (elim disjE conjE)
    assume "su_phase (do_sup s) = Waiting" "\<not> at_phase (do_attempts s ! su_current (do_sup s)) = Finished"
      "limit = attempt_timeout_ms (sts ! su_index (do_sup s))"
    then show ?thesis using assms(2) lt by (simp add: nxt device_open_supervisor_def kDeviceAttemptPollMs_def Let_def)
  next
    assume "su_phase (do_sup s) = Backoff" "limit = su_backoff_ms (do_sup s)"
    then show ?thesis using assms(2) lt by (simp add: nxt device_open_supervisor_def kDeviceAttemptPollMs_def Let_def)
  qed
  then show ?case using nextr by (simp only:)
qed

text \<open>
  A run for \<^verbatim>\<open>-d aaudio\<close>: the first AAudio attempt hangs and is abandoned, the second one opens, and
  then the first one gets its device.
\<close>

abbreviation aaudio_run :: "move list \<Rightarrow> device_open_shared \<Rightarrow> device_open_shared option" where
  "aaudio_run \<equiv> run_moves [] [AAUDIO, TERMUXAPI, AGM, NODES, LEGACY]"

abbreviation aaudio_reachable :: "device_open_shared \<Rightarrow> bool" where
  "aaudio_reachable \<equiv> open_reachable [] [AAUDIO, TERMUXAPI, AGM, NODES, LEGACY]"

definition first_hangs :: device_open_shared where
  "first_hangs = the (aaudio_run [Supervise, Supervise, Attempt 0 True] start_open)"

definition first_abandoned :: device_open_shared where
  "first_abandoned = the (aaudio_run [Supervise, Supervise] (set_waited 20000 first_hangs))"

definition late_state :: device_open_shared where
  "late_state = the (aaudio_run ([Supervise, Supervise] @ open_moves 1 @ [Attempt 0 True, Attempt 0 True]) (set_waited 3000 first_abandoned))"

lemma aaudio_run_reachable:
  assumes "aaudio_reachable s" and "aaudio_run ms s \<noteq> None"
  shows "aaudio_reachable (the (aaudio_run ms s))"
proof -
  from assms(2) obtain t where "aaudio_run ms s = Some t" by blast
  with reachable_run [OF assms(1) this] show ?thesis by simp
qed

lemma late_state_reachable: "aaudio_reachable late_state"
proof -
  have 1: "aaudio_reachable first_hangs"
    unfolding first_hangs_def by (rule aaudio_run_reachable [OF open_reachable.start]) code_simp
  have "\<not> do_shutdown first_hangs \<and> su_waited (do_sup first_hangs) = 0 \<and> su_phase (do_sup first_hangs) = Waiting \<and>
    \<not> at_phase (do_attempts first_hangs ! su_current (do_sup first_hangs)) = Finished \<and> su_index (do_sup first_hangs) = 0" by code_simp
  then have 2: "aaudio_reachable (set_waited 20000 first_hangs)"
    using reachable_polls [OF 1, of 20000 200] by (simp add: attempt_timeout_ms_def kDeviceAttemptTimeoutMs_def)
  have 3: "aaudio_reachable first_abandoned"
    unfolding first_abandoned_def by (rule aaudio_run_reachable [OF 2]) code_simp
  have "\<not> do_shutdown first_abandoned \<and> su_waited (do_sup first_abandoned) = 0 \<and> su_phase (do_sup first_abandoned) = Backoff \<and>
    su_backoff_ms (do_sup first_abandoned) = 3000" by code_simp
  then have 4: "aaudio_reachable (set_waited 3000 first_abandoned)"
    using reachable_polls [OF 3, of 3000 30] by simp
  show ?thesis unfolding late_state_def by (rule aaudio_run_reachable [OF 4]) code_simp
qed

theorem live_backend_kept_witness:
  "do_player (do_move [] [AAUDIO, TERMUXAPI, AGM, NODES, LEGACY] (Attempt 0 True) late_state) = Some 1 \<and>
   phase_of late_state 0 = Locking \<and>
   live_device (do_move [] [AAUDIO, TERMUXAPI, AGM, NODES, LEGACY] (Attempt 0 True) late_state) 1"
proof -
  have e: "enabled (Attempt 0 True) late_state" by code_simp
  have p: "do_player late_state = Some 1" by code_simp
  have l: "live_device late_state 1" by code_simp
  have "phase_of late_state 0 = Locking" by code_simp
  then show ?thesis using live_backend_kept [OF late_state_reachable e _ _ p l] by simp
qed

text \<open>The end of the same run: the first attempt discards its device.\<close>

definition settled_state :: device_open_shared where
  "settled_state = the (aaudio_run (replicate 2 Supervise @ replicate 3 (Attempt 0 True)) late_state)"

lemma settled_state_reachable: "aaudio_reachable settled_state"
  unfolding settled_state_def by (rule aaudio_run_reachable [OF late_state_reachable]) code_simp

theorem no_second_engine_witness:
  "length (do_attempts settled_state) = 2 \<and> live_device settled_state 1 \<and> do_player settled_state = Some 1"
proof -
  have l: "length (do_attempts settled_state) = 2" by code_simp
  have f: "\<forall>a \<in> set (do_attempts settled_state). at_phase a = Finished" by code_simp
  have d: "live_device settled_state 1" by code_simp
  from no_second_engine [OF settled_state_reachable f d] l d show ?thesis by simp
qed

section \<open>After the first success\<close>

lemma run_moves_induct:
  assumes "run_moves nodes sts ms s = Some t" and "P s"
    and "\<And>m s. P s \<Longrightarrow> enabled m s \<Longrightarrow> P (do_move nodes sts m s)"
  shows "P t"
  using assms(1,2) by (induction ms arbitrary: s) (auto split: if_splits intro: assms(3))

text \<open>
  When the AAudio backend gives up, its log promises that the client falls back to another
  backend. The client does not: the supervisor ended when the device opened, so that from then on, in
  every continuation, no further attempt is made and the slot keeps a closed device.
\<close>

theorem no_fallback_after_success:
  assumes "su_phase (do_sup s) = Exited" and "\<forall>a \<in> set (do_attempts s). at_phase a = Finished"
    and "\<not> slot_live s" and "run_moves nodes sts ms s = Some t"
  shows "do_attempts t = do_attempts s \<and> do_player t = do_player s \<and> \<not> slot_live t"
proof -
  define P where "P u \<longleftrightarrow> do_attempts u = do_attempts s \<and> do_player u = do_player s \<and> \<not> slot_live u \<and> su_phase (do_sup u) = Exited" for u
  have "P t" using assms(4)
  proof (rule run_moves_induct)
    show "P s" using assms(1,3) by (simp add: P_def)
  next
    fix m u assume u: "P u" "enabled m u"
    then show "P (do_move nodes sts m u)"
    proof (cases m)
      case (Attempt i r)
      then show ?thesis using u assms(2) by (auto simp: P_def)
    next
      case ClosePlayer
      have "\<not> slot_live (close_slot u)"
        using u(1) by (auto simp: P_def slot_live_def close_slot_def live_device_def set_open_def split: option.splits)
      then show ?thesis using u(1) ClosePlayer by (auto simp: P_def close_slot_def split: option.splits)
    qed (auto simp: P_def slot_live_def live_device_def split: option.splits)
  qed
  then show ?thesis by (simp add: P_def)
qed

theorem no_fallback_after_success_witness:
  "\<exists>s. aaudio_run [BackendDies] settled_state = Some s \<and> \<not> slot_live s \<and>
       (\<forall>ms t. aaudio_run ms s = Some t \<longrightarrow> length (do_attempts t) = 2 \<and> \<not> slot_live t)"
proof -
  define s where "s = the (aaudio_run [BackendDies] settled_state)"
  have r: "aaudio_run [BackendDies] settled_state \<noteq> None" by code_simp
  have e: "su_phase (do_sup s) = Exited" unfolding s_def by code_simp
  have f: "\<forall>a \<in> set (do_attempts s). at_phase a = Finished" unfolding s_def by code_simp
  have l: "\<not> slot_live s" unfolding s_def by code_simp
  have n: "length (do_attempts s) = 2" unfolding s_def by code_simp
  have "aaudio_run [BackendDies] settled_state = Some s" using r by (simp add: s_def)
  moreover have "length (do_attempts t) = 2 \<and> \<not> slot_live t" if "aaudio_run ms s = Some t" for ms t
    using no_fallback_after_success [OF e f l that] n by simp
  ultimately show ?thesis using l by blast
qed

text \<open>
  \<open>stop\<close> does not close a device that is about to enter the slot. An attempt that has looked
  at the shutdown flag before \<open>stop\<close> raised it puts its device into the slot after \<open>stop\<close> closed the
  slot's device; all threads end and the device is still open.
\<close>

theorem stop_can_miss_a_device:
  "case aaudio_run
     ([Supervise, Supervise, Attempt 0 True, Attempt 0 True, Attempt 0 True, RaiseShutdown, ClosePlayer,
       Attempt 0 True, Attempt 0 True] @ replicate 3 Supervise) start_open of
     None \<Rightarrow> False
   | Some s \<Rightarrow> do_shutdown s \<and> su_phase (do_sup s) = Exited \<and> list_all (\<lambda>a. at_phase a = Finished) (do_attempts s) \<and> live_device s 0"
  by code_simp

section \<open>The supervisor ends\<close>

definition strategy_cost :: "OpenStrategy \<Rightarrow> nat" where
  "strategy_cost st = max_attempts st * 510 + 2"

definition supervisor_budget :: "OpenStrategy list \<Rightarrow> nat" where
  "supervisor_budget sts = sum_list (map strategy_cost sts) + 6"

text \<open>Steps the supervisor has left at most.\<close>

definition polls :: "u32 \<Rightarrow> u32 \<Rightarrow> nat" where
  "polls limit waited = (unat limit - unat waited + 99) div 100"

definition steps_left :: "OpenStrategy list \<Rightarrow> device_open_shared \<Rightarrow> nat" where
  "steps_left sts s =
     (let su = do_sup s;
          st = sts ! su_index su;
          later = supervisor_budget (drop (su_index su + 1) sts) + (max_attempts st - su_in_strategy su) * 510 + 1
      in if do_shutdown s
         then (case su_phase su of Exited \<Rightarrow> 0 | StrategyHead \<Rightarrow> 1 | AttemptHead \<Rightarrow> 2 | Checking \<Rightarrow> 2 | Backoff \<Rightarrow> 3 | Waiting \<Rightarrow> 3)
         else (case su_phase su of
                 Exited \<Rightarrow> 0
               | StrategyHead \<Rightarrow> supervisor_budget (drop (su_index su) sts)
               | AttemptHead \<Rightarrow> later
               | Backoff \<Rightarrow> later + 1 + polls (su_backoff_ms su) (su_waited su)
               | Checking \<Rightarrow> later + 302
               | Waiting \<Rightarrow> later + 303 + polls (attempt_timeout_ms st) (su_waited su)))"

lemma polls_next: "w < limit \<Longrightarrow> unat limit \<le> 30000 \<Longrightarrow> polls limit (w + 100) < polls limit w"
proof -
  assume a: "w < limit" "unat limit \<le> 30000"
  then have w: "unat w < unat limit" by (simp add: word_less_nat_alt)
  have "unat (w + 100) = unat w + 100" using unat_add_small [of w 100] w a(2) by simp
  moreover have "(d - 100 + 99) div 100 < (d + 99) div 100" if "0 < d" for d :: nat
  proof (cases "d \<le> 100")
    case False
    then have "d + 99 = d - 100 + 99 + 100" by simp
    then show ?thesis by (simp only: div_add_self2)
  qed (use that in simp)
  from this [of "unat limit - unat w"] w have "(unat limit - (unat w + 100) + 99) div 100 < (unat limit - unat w + 99) div 100"
    by (simp add: diff_diff_left)
  ultimately show ?thesis by (simp add: polls_def)
qed

lemma polls_bound: "unat limit \<le> 100 * n \<Longrightarrow> polls limit w \<le> n"
  unfolding polls_def by simp

lemma budget_drop: "i < length sts \<Longrightarrow> supervisor_budget (drop i sts) = strategy_cost (sts ! i) + supervisor_budget (drop (i + 1) sts)"
  by (simp add: supervisor_budget_def Cons_nth_drop_Suc [symmetric])

definition backoff_ok :: "device_open_shared \<Rightarrow> bool" where
  "backoff_ok s \<longleftrightarrow> su_backoff_ms (do_sup s) \<le> kDeviceRetryMaxBackoffMs"

lemma attempt_keeps_supervisor [simp]:
  "do_sup (attempt_device_open r i s) = do_sup s" "do_shutdown (attempt_device_open r i s) = do_shutdown s"
  by (simp_all add: attempt_device_open_def Let_def split: attempt_phase.splits option.splits)

lemma close_slot_keeps_supervisor [simp]: "do_sup (close_slot s) = do_sup s" "do_shutdown (close_slot s) = do_shutdown s"
  by (simp_all add: close_slot_def split: option.splits)

lemma backoff_ok_supervisor: "backoff_ok s \<Longrightarrow> backoff_ok (device_open_supervisor nodes sts s)"
  by (simp add: backoff_ok_def device_open_supervisor_def new_attempt_def Let_def kDeviceRetryMaxBackoffMs_def
      kDeviceRetryBackoffMs_def split: supervisor_phase.splits)

lemma backoff_ok_move: "backoff_ok s \<Longrightarrow> backoff_ok (do_move nodes sts m s)"
  using backoff_ok_supervisor by (cases m) (auto simp: backoff_ok_def)

lemma supervisor_step_counts:
  assumes "su_phase (do_sup s) \<noteq> Exited" and "backoff_ok s"
  shows "steps_left sts (device_open_supervisor nodes sts s) < steps_left sts s"
proof (cases "do_shutdown s")
  case True
  then show ?thesis using assms(1)
    by (cases "su_phase (do_sup s)") (simp_all add: steps_left_def device_open_supervisor_def Let_def)
next
  case False
  have b: "unat (su_backoff_ms (do_sup s)) \<le> 30000"
    using assms(2) by (simp add: backoff_ok_def kDeviceRetryMaxBackoffMs_def word_le_nat_alt)
  have t: "unat (attempt_timeout_ms st) \<le> 20000" "unat (attempt_timeout_ms st) \<le> 30000" for st
    by (simp_all add: attempt_timeout_ms_def kOpenAttemptTimeoutMs_def kDeviceAttemptTimeoutMs_def)
  show ?thesis
  proof (cases "su_phase (do_sup s)")
    case StrategyHead
    then show ?thesis using False budget_drop [of "su_index (do_sup s)" sts]
      by (auto simp: steps_left_def device_open_supervisor_def Let_def strategy_cost_def supervisor_budget_def)
  next
    case AttemptHead
    let ?st = "sts ! su_index (do_sup s)"
    have "(max_attempts ?st - (su_in_strategy (do_sup s) + 1)) * 510 + 510 = (max_attempts ?st - su_in_strategy (do_sup s)) * 510"
      if "su_in_strategy (do_sup s) < max_attempts ?st"
      using that by (metis Suc_diff_Suc Suc_eq_plus1 add.commute mult_Suc)
    then show ?thesis using False AttemptHead polls_bound [of "attempt_timeout_ms ?st" 200 0] t(1) [of ?st]
      by (auto simp: steps_left_def device_open_supervisor_def new_attempt_def Let_def not_le)
  next
    case Waiting
    then show ?thesis using False polls_next [of "su_waited (do_sup s)" "attempt_timeout_ms (sts ! su_index (do_sup s))"] t(2)
      by (auto simp: steps_left_def device_open_supervisor_def Let_def kDeviceAttemptPollMs_def)
  next
    case Checking
    then show ?thesis using False polls_bound [of "su_backoff_ms (do_sup s)" 300 0] b
      by (auto simp: steps_left_def device_open_supervisor_def Let_def)
  next
    case Backoff
    then show ?thesis using False polls_next [of "su_waited (do_sup s)" "su_backoff_ms (do_sup s)"] b
      by (auto simp: steps_left_def device_open_supervisor_def Let_def kDeviceAttemptPollMs_def)
  qed (use assms(1) in simp)
qed

lemma steps_left_shutdown: "steps_left sts (s\<lparr>do_shutdown := True\<rparr>) \<le> steps_left sts s"
  by (simp add: steps_left_def Let_def supervisor_budget_def split: supervisor_phase.splits)

lemma steps_left_cong: "do_sup t = do_sup s \<Longrightarrow> do_shutdown t = do_shutdown s \<Longrightarrow> steps_left sts t = steps_left sts s"
  by (simp add: steps_left_def)

lemma run_counts:
  "run_moves nodes sts ms s = Some t \<Longrightarrow> backoff_ok s \<Longrightarrow>
   length (filter (\<lambda>m. m = Supervise) ms) + steps_left sts t \<le> steps_left sts s"
proof (induction ms arbitrary: s)
  case (Cons m ms)
  then have e: "enabled m s" and r: "run_moves nodes sts ms (do_move nodes sts m s) = Some t" by (auto split: if_splits)
  have b: "backoff_ok (do_move nodes sts m s)" using Cons.prems(2) by (rule backoff_ok_move)
  have "(if m = Supervise then 1 else 0) + steps_left sts (do_move nodes sts m s) \<le> steps_left sts s"
  proof (cases m)
    case Supervise
    then show ?thesis using supervisor_step_counts [of s sts nodes] e Cons.prems(2) by simp
  qed (simp_all add: steps_left_shutdown steps_left_cong [of "attempt_device_open r i s" s for r i] steps_left_cong [of "close_slot s" s])
  with Cons.IH [OF r b] show ?case by (auto split: if_splits)
qed simp

text \<open>The strategies with a bounded number of attempts, and the steps of the supervisor among the moves.\<close>

definition bounded_strategies :: "OpenStrategy list \<Rightarrow> OpenStrategy list" where
  "bounded_strategies sts = takeWhile (\<lambda>st. st \<noteq> LEGACY) sts"

definition supervisor_steps :: "move list \<Rightarrow> nat" where
  "supervisor_steps ms = length (filter (\<lambda>m. m = Supervise) ms)"

lemma start_open_backoff: "backoff_ok start_open"
  by (simp add: backoff_ok_def start_open_def kDeviceRetryBackoffMs_def kDeviceRetryMaxBackoffMs_def)

lemma run_budget: "run_moves nodes sts ms start_open = Some t \<Longrightarrow> supervisor_steps ms \<le> supervisor_budget sts"
  using run_counts [OF _ start_open_backoff, of nodes sts ms t] by (simp add: supervisor_steps_def steps_left_def start_open_def)

lemma supervisor_index_mono: "su_index (do_sup s) \<le> su_index (do_sup (do_move nodes sts m s))"
  by (cases m) (simp_all add: device_open_supervisor_def new_attempt_def Let_def split: supervisor_phase.splits)

lemma run_index_mono: "run_moves nodes sts ms s = Some t \<Longrightarrow> su_index (do_sup s) \<le> su_index (do_sup t)"
proof (induction ms arbitrary: s)
  case (Cons m ms)
  then show ?case using supervisor_index_mono [of s nodes sts m] by (fastforce split: if_splits)
qed simp

text \<open>As long as the supervisor is busy with the first strategies, it does not look at the others.\<close>

lemma run_prefix:
  "run_moves nodes (pre @ rest) ms s = Some t \<Longrightarrow> su_index (do_sup t) < length pre \<Longrightarrow> run_moves nodes pre ms s = Some t"
proof (induction ms arbitrary: s)
  case (Cons m ms)
  then have e: "enabled m s" and r: "run_moves nodes (pre @ rest) ms (do_move nodes (pre @ rest) m s) = Some t" by (auto split: if_splits)
  have "su_index (do_sup s) < length pre" using run_index_mono [OF Cons.prems(1)] Cons.prems(2) by simp
  then have "do_move nodes (pre @ rest) m s = do_move nodes pre m s"
    by (cases m) (simp_all add: device_open_supervisor_def nth_append Let_def)
  then show ?case using Cons.IH [OF r Cons.prems(2)] e by simp
qed simp

lemma run_after_shutdown:
  assumes "run_moves nodes sts (ms1 @ RaiseShutdown # ms2) start_open = Some t"
  shows "supervisor_steps ms2 \<le> 3"
proof -
  have split: "\<exists>u. run_moves nodes sts xs s = Some u \<and> run_moves nodes sts ys u = Some t"
    if "run_moves nodes sts (xs @ ys) s = Some t" for xs ys s
    using that by (induction xs arbitrary: s) (auto split: if_splits)
  obtain u where u: "run_moves nodes sts ms1 start_open = Some u" "run_moves nodes sts ms2 (u\<lparr>do_shutdown := True\<rparr>) = Some t"
    using split [OF assms] by (auto split: if_splits)
  have "backoff_ok u" using u(1) start_open_backoff by (rule run_moves_induct) (rule backoff_ok_move)
  then have "backoff_ok (u\<lparr>do_shutdown := True\<rparr>)" by (simp add: backoff_ok_def)
  from run_counts [OF u(2) this] have "supervisor_steps ms2 \<le> steps_left sts (u\<lparr>do_shutdown := True\<rparr>)" by (simp add: supervisor_steps_def)
  also have "\<dots> \<le> 3" by (simp add: steps_left_def Let_def split: supervisor_phase.splits)
  finally show ?thesis .
qed

lemma run_attempt_number:
  "run_moves nodes sts ms s = Some t \<Longrightarrow> unat (su_attempt (do_sup t)) \<le> unat (su_attempt (do_sup s)) + supervisor_steps ms"
proof (induction ms arbitrary: s)
  case (Cons m ms)
  then have r: "run_moves nodes sts ms (do_move nodes sts m s) = Some t" by (auto split: if_splits)
  have "unat (su_attempt (do_sup (device_open_supervisor nodes sts s))) \<le> unat (su_attempt (do_sup s)) + 1"
    by (simp add: device_open_supervisor_def new_attempt_def unat_word_ariths Let_def split: supervisor_phase.splits)
  then have "unat (su_attempt (do_sup (do_move nodes sts m s))) \<le> unat (su_attempt (do_sup s)) + (if m = Supervise then 1 else 0)"
    by (cases m) simp_all
  with Cons.IH [OF r] show ?case by (simp add: supervisor_steps_def split: if_splits)
qed (simp add: supervisor_steps_def)

text \<open>
  Claim C11: every backend but the ALSA one (\<open>LEGACY\<close>) gets a bounded number of attempts, and one that
  hangs costs a bounded wait. In any interleaving with attempts that hang, fail or succeed, after at most
  \<open>supervisor_budget\<close> steps (each a poll of 100 ms or a decision) of the strategies before \<open>LEGACY\<close> the
  supervisor has ended or has come to \<open>LEGACY\<close>; for the lists the client builds these are at most 8176
  steps. A list without \<open>LEGACY\<close>, as for a device named by its kernel node, ends for good within its
  budget, and if this is below \<open>2 ^ 31 - 1\<close> the number of the attempt stays below \<open>2 ^ 31\<close>, an \<^verbatim>\<open>int\<close>. With
  \<open>LEGACY\<close>, which retries until a device opens, what ends the supervisor is \<open>stop\<close>: after the shutdown flag
  is raised it takes at most three more steps.
\<close>

theorem supervisor_terminates:
  assumes "run_moves nodes sts ms start_open = Some t"
  shows "(supervisor_budget (bounded_strategies sts) < supervisor_steps ms \<longrightarrow>
            su_phase (do_sup t) = Exited \<or> length (bounded_strategies sts) \<le> su_index (do_sup t)) \<and>
         (sts = build_open_strategies w n \<longrightarrow> supervisor_budget (bounded_strategies sts) \<le> 8176) \<and>
         (LEGACY \<notin> set sts \<longrightarrow> supervisor_steps ms \<le> supervisor_budget sts \<and>
            (supervisor_budget sts < 2 ^ 31 - 1 \<longrightarrow> unat (su_attempt (do_sup t)) < 2 ^ 31)) \<and>
         (\<forall>ms1 ms2. ms = ms1 @ RaiseShutdown # ms2 \<longrightarrow> supervisor_steps ms2 \<le> 3)"
proof -
  have sts: "sts = bounded_strategies sts @ dropWhile (\<lambda>st. st \<noteq> LEGACY) sts" by (simp add: bounded_strategies_def)
  have "supervisor_steps ms \<le> supervisor_budget (bounded_strategies sts)" if "su_index (do_sup t) < length (bounded_strategies sts)"
    using run_budget [OF run_prefix [OF _ that]] assms sts by metis
  moreover have "supervisor_budget (bounded_strategies (build_open_strategies w n)) \<le> 8176"
    by (simp add: build_open_strategies_def bounded_strategies_def supervisor_budget_def strategy_cost_def)
  moreover have "unat (su_attempt (do_sup t)) \<le> 1 + supervisor_steps ms"
    using run_attempt_number [OF assms] by (simp add: start_open_def)
  ultimately show ?thesis using run_budget [OF assms] run_after_shutdown [of nodes sts _ _ t] assms by fastforce
qed

text \<open>The client is told to use AAudio, the attempt hangs, and the client is stopped.\<close>

theorem supervisor_terminates_witness:
  "\<exists>t. run_moves [] (build_open_strategies True ''aaudio'')
         ([Supervise, Supervise, Attempt 0 True, Supervise] @ RaiseShutdown # [Supervise, Supervise, Supervise]) start_open = Some t \<and>
       su_phase (do_sup t) = Exited \<and> supervisor_steps [Supervise, Supervise, Supervise] \<le> 3 \<and>
       supervisor_budget (bounded_strategies (build_open_strategies True ''aaudio'')) \<le> 8176"
proof -
  define ms where "ms = [Supervise, Supervise, Attempt 0 True, Supervise] @ RaiseShutdown # [Supervise, Supervise, Supervise]"
  define t where "t = the (run_moves [] (build_open_strategies True ''aaudio'') ms start_open)"
  have "run_moves [] (build_open_strategies True ''aaudio'') ms start_open \<noteq> None" unfolding ms_def by code_simp
  then have r: "run_moves [] (build_open_strategies True ''aaudio'') ms start_open = Some t" by (auto simp: t_def)
  have "su_phase (do_sup t) = Exited" unfolding t_def ms_def by code_simp
  then show ?thesis using supervisor_terminates [OF r, of True "''aaudio''"] r unfolding ms_def by blast
qed

section \<open>Strategies\<close>

lemma device_classes:
  "is_pulse_device n \<Longrightarrow> n \<noteq> [] \<and> hd n = CHR ''p''"
  "is_termux_device n \<Longrightarrow> n \<noteq> [] \<and> hd n = CHR ''t''"
  "is_aaudio_device n \<Longrightarrow> n \<noteq> [] \<and> hd n = CHR ''a'' \<and> n ! 1 = CHR ''a''"
  "is_agm_device n \<Longrightarrow> n \<noteq> [] \<and> hd n = CHR ''a'' \<and> n ! 1 = CHR ''g''"
  "is_node_based_device n \<Longrightarrow> n \<noteq> [] \<and> hd n \<in> {CHR ''d'', CHR ''/''}"
  unfolding is_pulse_device_def is_pulse_device_name_def is_termux_device_def is_aaudio_device_def is_agm_device_def
    is_node_based_device_def starts_with_iff by auto

lemma device_classes_disjoint:
  "is_aaudio_device n \<Longrightarrow> \<not> is_pulse_device n"
  "is_termux_device n \<Longrightarrow> \<not> is_pulse_device n \<and> \<not> is_aaudio_device n"
  "is_agm_device n \<Longrightarrow> \<not> is_pulse_device n \<and> \<not> is_aaudio_device n \<and> \<not> is_termux_device n"
  "is_node_based_device n \<Longrightarrow> \<not> is_pulse_device n \<and> \<not> is_aaudio_device n \<and> \<not> is_termux_device n \<and> \<not> is_agm_device n"
  using device_classes [of n] by auto

definition needs_root :: "OpenStrategy \<Rightarrow> bool" where
  "needs_root s \<longleftrightarrow> s = AGM \<or> s = NODES \<or> s = LEGACY"

text \<open>
  The list of strategies is what the name asks for. It is never empty and has no repetition;
  a name of one of the five kinds starts with its own backend, only names of kernel nodes end without
  the ALSA backend, and no backend that needs root is tried before one that does not.
\<close>

theorem open_strategies_sound:
  "distinct (build_open_strategies w n) \<and> build_open_strategies w n \<noteq> [] \<and>
   sorted (map needs_root (build_open_strategies w n)) \<and>
   (last (build_open_strategies w n) = LEGACY \<or> is_node_based_device n \<and> build_open_strategies w n = [NODES]) \<and>
   (is_pulse_device n \<longrightarrow> hd (build_open_strategies w n) = PULSE) \<and>
   (is_aaudio_device n \<longrightarrow> hd (build_open_strategies w n) = AAUDIO) \<and>
   (is_termux_device n \<longrightarrow> hd (build_open_strategies w n) = TERMUXAPI) \<and>
   (is_agm_device n \<longrightarrow> hd (build_open_strategies w n) = AGM) \<and>
   (is_node_based_device n \<longrightarrow> build_open_strategies w n = [NODES])"
  using device_classes_disjoint [of n] by (simp add: build_open_strategies_def needs_root_def)

theorem open_strategies_sound_witness:
  "is_aaudio_device ''aaudio:deep'' \<and> hd (build_open_strategies True ''aaudio:deep'') = AAUDIO"
proof -
  have "is_aaudio_device ''aaudio:deep''" by code_simp
  then show ?thesis using open_strategies_sound [of True "''aaudio:deep''"] by simp
qed

lemma build_node_candidates_primary:
  "\<exists>cs. build_node_candidates k (''direct:'' @ node) = (if node = [] then ''/dev/snd/pcmC0D0p'' else node) # cs"
proof -
  have "\<exists>cs. foldl add_new (x # xs) ys = x # cs" for x xs ys
    by (induction ys arbitrary: xs) (auto simp: add_new_def)
  then show ?thesis by (auto simp: build_node_candidates_def starts_with_def Let_def)
qed

end
