(* ===== verification/Client.thy ===== *)
theory Client
  imports Device_Open Jitter_Playout Protocol Socket_Util Usb_Tunnel
begin

text \<open>
  \<^verbatim>\<open>src/client/client.{hpp,cpp}\<close> from line 414 on: the client engine. The members of the class are a
  record; one step is one turn of a thread's loop or one call of a public operation. The datagrams
  that are sent are logged. Clocks, results of socket calls and received datagrams are arguments;
  \<open>None\<close> is an access behind the end of a buffer. The player is reached through the operations of
  \<^verbatim>\<open>IAudioPlayer\<close>. The lemmas cover the handshake, the receive loop, playback, the watchdog, the USB
  relay and the end of a session.
\<close>

section \<open>State\<close>

record client_config =
  cf_server_ip :: string
  cf_server_port :: u16
  cf_device_name :: string
  cf_target_latency_ms :: u32
  cf_auto_discover :: bool
  cf_use_dummy_player :: bool
  cf_reconnect_timeout_ms :: u32
  cf_bind_iface :: string
  cf_termux_segment_ms :: u32
  cf_usb_mode :: bool

definition default_client_config :: client_config where
  "default_client_config =
     \<lparr>cf_server_ip = ''127.0.0.1'', cf_server_port = DEFAULT_PORT, cf_device_name = ''default'',
      cf_target_latency_ms = 35, cf_auto_discover = False, cf_use_dummy_player = False,
      cf_reconnect_timeout_ms = 5000, cf_bind_iface = [], cf_termux_segment_ms = 0, cf_usb_mode = False\<rparr>"

datatype client_state = CL_STOPPED | DISCOVERING | CONNECTING | CL_STREAMING | DISCONNECTED

record client_stats =
  cs_packets_received :: u64
  cs_bytes_received :: u64
  cs_frames_played :: u64
  cs_round_trip_time_us :: u32
  cs_audio_backend_delay_ms :: u32
  cs_jitter_stats :: jitter_stats

text \<open>
  \<open>cl_player\<close> is the player in the shared slot, \<open>cl_recv_buf\<close> the buffer of the receive thread.
\<close>

record 'p client =
  cl_config :: client_config
  cl_is_running :: bool
  cl_stop_requested :: bool
  cl_state :: client_state
  cl_socket :: udp_socket
  cl_server_addr :: socket_address
  cl_audio_config :: audio_config
  cl_player :: "'p option"
  cl_shutdown :: bool
  cl_jitter :: jitter_buffer
  cl_last_packet_time_ms :: u64
  cl_last_rtt_us :: u32
  cl_stats :: client_stats
  cl_recv_buf :: "byte list"
  cl_usb_udp :: udp_socket
  cl_sent :: "(byte list \<times> socket_address) list"

definition AudioRouterClient :: "client_config \<Rightarrow> 'p client" where
  "AudioRouterClient config =
     \<lparr>cl_config = config, cl_is_running = False, cl_stop_requested = False, cl_state = CL_STOPPED, cl_socket = UdpSocket,
      cl_server_addr = SocketAddress_empty, cl_audio_config = default_audio_config, cl_player = None, cl_shutdown = False,
      cl_jitter = JitterBuffer (cf_target_latency_ms config), cl_last_packet_time_ms = 0, cl_last_rtt_us = 0,
      cl_stats = \<lparr>cs_packets_received = 0, cs_bytes_received = 0, cs_frames_played = 0, cs_round_trip_time_us = 0,
                  cs_audio_backend_delay_ms = 0, cs_jitter_stats = empty_stats\<rparr>,
      cl_recv_buf = replicate 65536 0, cl_usb_udp = UdpSocket, cl_sent = []\<rparr>"

text \<open>What the system gives a step: clocks, the handle of a new socket, the results of sends.\<close>

record client_env =
  ce_now_us :: u64
  ce_now_ms :: u64
  ce_now_ms2 :: u64
  ce_socket :: int
  ce_sendto :: "byte list \<Rightarrow> int"

definition cl_send :: "client_env \<Rightarrow> byte list \<Rightarrow> socket_address \<Rightarrow> 'p client \<Rightarrow> int \<times> 'p client" where
  "cl_send env data dest c =
     (case udp_send_to (ce_socket env) (ce_sendto env data) data dest (cl_socket c) of
        (r, out, sock) \<Rightarrow>
          (r, c\<lparr>cl_socket := sock, cl_sent := cl_sent c @ (case out of None \<Rightarrow> [] | Some d \<Rightarrow> [d])\<rparr>))"

section \<open>Discovery and handshake\<close>

definition discovery_packet :: "u64 \<Rightarrow> byte list" where
  "discovery_packet now_us =
     encode_common_header (make_header DISCOVERY_REQ 0 now_us (word_of_nat sizeof_discovery_req_payload) FLAG_NONE) @
     encode_discovery_req_payload
       \<lparr>dq_client_name = strncpy_field 32 ''AudioRouter-Android'', dq_client_version = ucast CURRENT_VERSION\<rparr>"

definition probe_ips :: "string list" where
  "probe_ips = [''255.255.255.255'', ''192.168.43.1'', ''192.168.137.1'', ''192.168.1.1'', ''192.168.0.1'', ''127.0.0.1'']"

text \<open>The result of one \<open>receive_from\<close>: the count, the bytes, and the sender the system reports.\<close>

type_synonym recv_event = "int \<times> byte list \<times> sockaddr_in"

definition cl_receive_from :: "recv_event \<Rightarrow> 'p client \<Rightarrow> int \<times> byte list \<times> socket_address" where
  "cl_receive_from ev c = udp_receive_from ev SocketAddress_empty (cl_socket c)"

definition discovery_response :: "recv_event \<Rightarrow> 'p client \<Rightarrow> socket_address option" where
  "discovery_response ev c =
     (case cl_receive_from ev c of
        (n, buf, responder) \<Rightarrow>
          if n \<ge> int (sizeof_common_header + sizeof_discovery_resp_payload) \<and>
             is_valid_header (decode_common_header buf) (nat n) \<and>
             ch_msg_type (decode_common_header buf) = u8_of_msg_type DISCOVERY_RESP
          then Some responder else None)"

definition send_probes :: "resolver \<Rightarrow> client_env \<Rightarrow> 'p client \<Rightarrow> 'p client" where
  "send_probes res env c =
     fold (\<lambda>ip c. snd (cl_send env (discovery_packet (ce_now_us env)) (SocketAddress res ip (cf_server_port (cl_config c))) c))
       probe_ips c"

fun discover_loop :: "resolver \<Rightarrow> client_env \<Rightarrow> nat \<Rightarrow> (nat \<Rightarrow> recv_event) \<Rightarrow> 'p client \<Rightarrow> socket_address option \<times> 'p client" where
  "discover_loop res env 0 evs c = (None, c)"
| "discover_loop res env (Suc k) evs c =
     (let c = send_probes res env c
      in case discovery_response (evs k) c of
           Some a \<Rightarrow> (Some a, c)
         | None \<Rightarrow> discover_loop res env k evs c)"

definition discover_server :: "resolver \<Rightarrow> client_env \<Rightarrow> (nat \<Rightarrow> recv_event) \<Rightarrow> 'p client \<Rightarrow> socket_address option \<times> 'p client" where
  "discover_server res env evs c = discover_loop res env 3 evs c"

definition connect_req_packet :: "u64 \<Rightarrow> client_config \<Rightarrow> byte list" where
  "connect_req_packet now_us config =
     encode_common_header (make_header CONNECT_REQ 0 now_us (word_of_nat sizeof_connect_req_payload) FLAG_NONE) @
     encode_connect_req_payload
       \<lparr>cr_client_name = strncpy_field 32 ''AudioRouter-Android-Termux'', cr_preferred_sample_rate = 48000,
        cr_preferred_channels = 2, cr_preferred_format = u8_of_format PCM_S16LE,
        cr_target_latency_ms = ucast (cf_target_latency_ms config)\<rparr>"

text \<open>What a try of the handshake makes of the datagram it got.\<close>

datatype handshake_reply = Accepted audio_config | Rejected | Ignored

definition handshake_reply :: "int \<Rightarrow> byte list \<Rightarrow> audio_config \<Rightarrow> handshake_reply" where
  "handshake_reply n buf c =
     (if n \<ge> int sizeof_common_header then
        (let hdr = decode_common_header buf in
         if \<not> is_valid_header hdr (nat n) then Ignored
         else if ch_msg_type hdr = u8_of_msg_type CONNECT_ACK then
           (if n \<ge> int (sizeof_common_header + sizeof_connect_ack_payload) then
              (let ack = decode_connect_ack_payload (drop sizeof_common_header buf)
               in Accepted (c\<lparr>ac_sample_rate := ca_sample_rate ack, ac_channels := ca_channels ack,
                              ac_format := format_of_u8 (ca_format ack),
                              ac_frames_per_packet := ucast (ca_frames_per_packet ack)\<rparr>))
            else Ignored)
         else if ch_msg_type hdr = u8_of_msg_type CONNECT_NAK then
           (if n \<ge> int (sizeof_common_header + sizeof_connect_nak_payload) then Rejected else Ignored)
         else Ignored)
      else Ignored)"

text \<open>The tries of the handshake; each sees the stop flag and the outcome of its receive.\<close>

fun handshake_loop :: "client_env \<Rightarrow> nat \<Rightarrow> (nat \<Rightarrow> bool \<times> recv_event) \<Rightarrow> 'p client \<Rightarrow> bool \<times> 'p client" where
  "handshake_loop env 0 evs c = (False, c)"
| "handshake_loop env (Suc k) evs c =
     (let (stop, ev) = evs k in
      if stop then (False, c)
      else
        (let c = snd (cl_send env (connect_req_packet (ce_now_us env) (cl_config c)) (cl_server_addr c) c)
         in case cl_receive_from ev c of
              (n, buf, from) \<Rightarrow>
                (case handshake_reply n buf (cl_audio_config c) of
                   Accepted a \<Rightarrow> (True, c\<lparr>cl_audio_config := a\<rparr>)
                 | Rejected \<Rightarrow> (False, c)
                 | Ignored \<Rightarrow> handshake_loop env k evs c)))"

definition perform_handshake :: "client_env \<Rightarrow> (nat \<Rightarrow> bool \<times> recv_event) \<Rightarrow> 'p client \<Rightarrow> bool \<times> 'p client" where
  "perform_handshake env evs c =
     (if cl_stop_requested c then (False, c) else handshake_loop env 5 evs c)"

section \<open>Start and stop\<close>

definition kPlayerOpenTimeoutMs :: u32 where "kPlayerOpenTimeoutMs = 3000"
definition kTermuxPlayerOpenTimeoutMs :: u32 where "kTermuxPlayerOpenTimeoutMs = 8000"

definition device_for_start :: "client_config \<Rightarrow> string" where
  "device_for_start config =
     (if cf_termux_segment_ms config \<noteq> 0 \<and> is_termux_device (cf_device_name config)
      then ''termux:'' @ to_string (unat (cf_termux_segment_ms config)) else cf_device_name config)"

text \<open>The user the process becomes, and whether \<^verbatim>\<open>XDG_RUNTIME_DIR\<close> is cleared; \<open>None\<close> when it stays as it is.\<close>

definition drop_privileges :: "system \<Rightarrow> bool \<Rightarrow> string \<Rightarrow> (nat \<times> nat \<times> string \<times> bool) option" where
  "drop_privileges sys set_ok device =
     (let pulse_needs_drop = (is_pulse_device device \<and> is_running_as_root sys) in
      if (is_termux_device device \<or> pulse_needs_drop) \<and> is_running_as_root sys
      then (case termux_user sys of
              None \<Rightarrow> None
            | Some (uid, gid, home) \<Rightarrow> if set_ok then Some (uid, gid, home, pulse_needs_drop) else None)
      else None)"

definition open_timeout_ms :: "string \<Rightarrow> u32" where
  "open_timeout_ms device =
     (if is_termux_device device then kTermuxPlayerOpenTimeoutMs
      else if is_pulse_device device then kPulsePlayerOpenTimeoutMs else kPlayerOpenTimeoutMs)"

text \<open>Whether the codec is routed to the speaker before a device is opened.\<close>

definition routes_speaker :: "bool \<Rightarrow> string \<Rightarrow> bool" where
  "routes_speaker worth_trying device \<longleftrightarrow>
     \<not> is_aaudio_device device \<and> \<not> is_termux_device device \<and> \<not> is_pulse_device device \<and> \<not> worth_trying"

text \<open>
  What \<open>start\<close> meets: the relay's socket and address, the interfaces, whether pinning works, and the
  datagrams of the discovery and of the handshake; the closed dummy sink, and how it opens.
\<close>

record 'p start_env =
  st_resolver :: resolver
  st_relay_socket :: int
  st_relay_bind_ok :: bool
  st_relay_addr :: "sockaddr_in option"
  st_interfaces :: "network_interface list"
  st_pin_ok :: "byte list \<Rightarrow> bool"
  st_discovery :: "nat \<Rightarrow> recv_event"
  st_handshake :: "nat \<Rightarrow> bool \<times> recv_event"
  st_dummy :: 'p
  st_dummy_open :: "audio_config \<Rightarrow> string \<Rightarrow> 'p \<Rightarrow> 'p"

definition close_socket :: "'p client \<Rightarrow> 'p client" where
  "close_socket c = c\<lparr>cl_socket := snd (udp_close (cl_socket c))\<rparr>"

text \<open>The address of the server over USB: the loopback address of the relay.\<close>

definition usb_target :: "'p start_env \<Rightarrow> 'p client \<Rightarrow> bool \<times> 'p client" where
  "usb_target st c =
     (let (opened, rs) = udp_open (st_relay_socket st) (cl_usb_udp c); c = c\<lparr>cl_usb_udp := rs\<rparr> in
      if \<not> opened then (False, close_socket c)
      else
        (let (bound, rs) = udp_bind (st_resolver st) (st_relay_socket st) (st_relay_bind_ok st) 0 ''127.0.0.1'' (cl_usb_udp c);
             c = c\<lparr>cl_usb_udp := rs\<rparr>
         in if \<not> bound then (False, close_socket c)
            else
              (let c = c\<lparr>cl_server_addr := udp_get_local_address (st_relay_addr st) (cl_usb_udp c)\<rparr>
               in if sa_valid (cl_server_addr c) then (True, c) else (False, close_socket c))))"

definition pin_interface :: "client_env \<Rightarrow> 'p start_env \<Rightarrow> 'p client \<Rightarrow> 'p client" where
  "pin_interface env st c =
     (if cf_bind_iface (cl_config c) \<noteq> [] then
        (let iface = (if cf_bind_iface (cl_config c) = ''auto'' then pick_physical_interface (st_interfaces st)
                      else cf_bind_iface (cl_config c))
         in if iface \<noteq> [] then c\<lparr>cl_socket := snd (udp_bind_to_interface (ce_socket env) (st_pin_ok st) iface (cl_socket c))\<rparr> else c)
      else c)"

definition lan_target :: "client_env \<Rightarrow> 'p start_env \<Rightarrow> 'p client \<Rightarrow> bool \<times> 'p client" where
  "lan_target env st c =
     (let c = pin_interface env st c in
      if cf_auto_discover (cl_config c) then
        (let c = c\<lparr>cl_state := DISCOVERING\<rparr>
         in case discover_server (st_resolver st) env (st_discovery st) c of
              (Some a, c) \<Rightarrow> (True, c\<lparr>cl_server_addr := a\<rparr>)
            | (None, c) \<Rightarrow> (False, close_socket c))
      else
        (let c = c\<lparr>cl_server_addr := SocketAddress (st_resolver st) (cf_server_ip (cl_config c)) (cf_server_port (cl_config c))\<rparr>
         in if sa_valid (cl_server_addr c) then (True, c) else (False, close_socket c)))"

text \<open>The end of \<open>start\<close>: after the handshake, the handshake, and the whole.\<close>

definition begin_streaming :: "client_env \<Rightarrow> 'p start_env \<Rightarrow> 'p client \<Rightarrow> 'p client" where
  "begin_streaming env st c =
     (let c = c\<lparr>cl_jitter := jb_configure (cl_audio_config c) (cf_target_latency_ms (cl_config c)) (cl_jitter c),
                cl_is_running := True, cl_state := CL_STREAMING, cl_last_packet_time_ms := ce_now_ms env,
                cl_recv_buf := replicate 65536 0\<rparr>
      in c\<lparr>cl_player := (if cf_use_dummy_player (cl_config c)
                          then map_option (st_dummy_open st (cl_audio_config c) (cf_device_name (cl_config c))) (cl_player c)
                          else cl_player c)\<rparr>)"

definition connect_to_server :: "client_env \<Rightarrow> 'p start_env \<Rightarrow> 'p client \<Rightarrow> bool \<times> 'p client" where
  "connect_to_server env st c =
     (let c = c\<lparr>cl_player := (if cf_use_dummy_player (cl_config c) then Some (st_dummy st) else None), cl_state := CONNECTING\<rparr>;
          (ok, c) = perform_handshake env (st_handshake st) c
      in if \<not> ok then (False, close_socket c) else (True, begin_streaming env st c))"

definition client_start :: "client_env \<Rightarrow> 'p start_env \<Rightarrow> 'p client \<Rightarrow> bool \<times> 'p client" where
  "client_start env st c =
     (if cl_is_running c then (True, c)
      else
        (let c = c\<lparr>cl_config := (cl_config c)\<lparr>cf_device_name := device_for_start (cl_config c)\<rparr>\<rparr>;
             (opened, sock) = udp_open (ce_socket env) (cl_socket c);
             c = c\<lparr>cl_socket := sock\<rparr>
         in if \<not> opened then (False, c)
            else
              (let (found, c) = (if cf_usb_mode (cl_config c) then usb_target st c else lan_target env st c)
               in if \<not> found then (False, c) else connect_to_server env st c)))"

definition disconnect_req_packet :: "u64 \<Rightarrow> byte list" where
  "disconnect_req_packet now_us =
     encode_common_header (make_header DISCONNECT_REQ 0 now_us (word_of_nat sizeof_disconnect_payload) FLAG_NONE) @
     encode_disconnect_payload \<lparr>dc_reason_code = 0, dc_reason = strncpy_field 64 ''Client closed''\<rparr>"

definition client_stop :: "'p player_ops \<Rightarrow> client_env \<Rightarrow> 'p client \<Rightarrow> 'p client" where
  "client_stop ops env c =
     (if cl_state c = CL_STOPPED \<and> \<not> cl_is_running c then c
      else
        (let c = c\<lparr>cl_stop_requested := True, cl_is_running := False, cl_shutdown := True\<rparr>;
             c = (if sa_valid (cl_server_addr c) \<and> udp_is_open (cl_socket c)
                  then snd (cl_send env (disconnect_req_packet (ce_now_us env)) (cl_server_addr c) c) else c);
             c = close_socket c;
             c = c\<lparr>cl_player := map_option (po_close ops) (cl_player c)\<rparr>
         in c\<lparr>cl_state := CL_STOPPED\<rparr>))"

definition client_get_stats :: "'p client \<Rightarrow> client_stats" where
  "client_get_stats c =
     (cl_stats c)\<lparr>cs_jitter_stats := get_stats (cl_jitter c), cs_round_trip_time_us := cl_last_rtt_us c\<rparr>"

section \<open>Receiving\<close>

text \<open>One turn of the receive loop.\<close>

definition handle_audio_data :: "client_env \<Rightarrow> nat \<Rightarrow> 'p client \<Rightarrow> 'p client option" where
  "handle_audio_data env n c =
     (if n \<ge> sizeof_audio_packet_header then
        (let ah = decode_audio_packet_header (cl_recv_buf c) in
         if validate_audio_header ah n = Inr ()
         then map_option (\<lambda>(_, j). c\<lparr>cl_jitter := j\<rparr>)
                (push_packet (ce_now_us env) (ce_now_ms env) (ch_seq_num (ah_common ah)) (ch_timestamp_us (ah_common ah))
                   (Some (bytes_pcm (drop sizeof_audio_packet_header (cl_recv_buf c)))) (unat (ah_num_frames ah)) (cl_jitter c))
         else Some c)
      else Some c)"

definition handle_heartbeat_pong :: "client_env \<Rightarrow> nat \<Rightarrow> 'p client \<Rightarrow> 'p client" where
  "handle_heartbeat_pong env n c =
     (if n \<ge> sizeof_common_header + sizeof_heartbeat_payload then
        (let pong = decode_heartbeat_payload (drop sizeof_common_header (cl_recv_buf c))
         in if ce_now_us env > hb_orig_timestamp_us pong
            then c\<lparr>cl_last_rtt_us := ucast (ce_now_us env - hb_orig_timestamp_us pong)\<rparr> else c)
      else c)"

definition client_receive :: "client_env \<Rightarrow> recv_event \<Rightarrow> 'p client \<Rightarrow> 'p client option" where
  "client_receive env ev c =
     (if \<not> cl_is_running c \<or> cl_stop_requested c then Some c
      else
        (case cl_receive_from ev c of
           (bytes, buf, sender) \<Rightarrow>
             if bytes \<le> 0 then Some c
             else
               (let n = nat bytes; c = c\<lparr>cl_recv_buf := blit (cl_recv_buf c) 0 (take n buf)\<rparr> in
                if n < sizeof_common_header then Some c
                else
                  (let hdr = decode_common_header (cl_recv_buf c) in
                   if \<not> is_valid_header hdr n then Some c
                   else
                     (let st = cl_stats c;
                          c = c\<lparr>cl_last_packet_time_ms := ce_now_ms env,
                                cl_stats := st\<lparr>cs_packets_received := cs_packets_received st + 1,
                                               cs_bytes_received := cs_bytes_received st + of_nat n\<rparr>\<rparr>
                      in case msg_type_of_u8 (ch_msg_type hdr) of
                           AUDIO_DATA \<Rightarrow> handle_audio_data env n c
                         | HEARTBEAT_PONG \<Rightarrow> Some (handle_heartbeat_pong env n c)
                         | DISCONNECT_ACK \<Rightarrow> Some (c\<lparr>cl_is_running := False\<rparr>)
                         | DISCONNECT_REQ \<Rightarrow> Some (c\<lparr>cl_is_running := False\<rparr>)
                         | _ \<Rightarrow> Some c)))))"

section \<open>Playback\<close>

definition period_frames :: "audio_config \<Rightarrow> nat" where
  "period_frames a = (if ac_frames_per_packet a > 0 then unat (ac_frames_per_packet a) else 240)"

definition rate_or_default :: "audio_config \<Rightarrow> u32" where
  "rate_or_default a = (if ac_sample_rate a > 0 then ac_sample_rate a else 48000)"

definition fallback_sleep_ms :: "audio_config \<Rightarrow> u32" where
  "fallback_sleep_ms a =
     (let d = word_of_nat (period_frames a * 1000 div unat (rate_or_default a)) :: u32 in if d > 0 then d else 2)"

text \<open>
  One turn of the playback loop: the time slept, the period buffer and the client. \<open>a\<close> is the audio
  configuration the thread read when it started.
\<close>

definition playback_turn ::
    "'p player_ops \<Rightarrow> client_env \<Rightarrow> audio_config \<Rightarrow> i16 list \<Rightarrow> 'p client \<Rightarrow> (u32 \<times> i16 list \<times> 'p client) option" where
  "playback_turn ops env a play_buffer c =
     (if \<not> cl_is_running c then Some (0, play_buffer, c)
      else
        (case pop_frames (ce_now_ms env) (Some play_buffer) (period_frames a) (cl_jitter c) of
           Some (frames, Some buf, j) \<Rightarrow>
             (let c = c\<lparr>cl_jitter := j\<rparr> in
              case cl_player c of
                Some p \<Rightarrow>
                  if frames > 0 \<and> po_is_open ops p then
                    (case po_write_frames ops buf frames p of
                       None \<Rightarrow> None
                     | Some (written, p) \<Rightarrow>
                         (let c = c\<lparr>cl_player := Some p\<rparr> in
                          if written > 0 then
                            (let st = cl_stats c;
                                 backend_ms = ucast ((of_nat (po_get_buffer_delay_frames ops p) * 1000 :: u64) div
                                                     ucast (rate_or_default (cl_audio_config c)));
                                 c = c\<lparr>cl_stats := st\<lparr>cs_frames_played := cs_frames_played st + of_nat written,
                                                       cs_audio_backend_delay_ms := backend_ms\<rparr>\<rparr>
                             in Some (if backend_ms > 60 \<and> po_needs_playback_pacing ops then backend_ms - 40 else 0, buf, c))
                          else Some (fallback_sleep_ms a, buf, c)))
                  else Some (fallback_sleep_ms a, buf, c)
              | None \<Rightarrow> Some (fallback_sleep_ms a, buf, c))
         | _ \<Rightarrow> None))"

section \<open>Heartbeat and commands\<close>

definition ping_packet :: "client_env \<Rightarrow> 'p client \<Rightarrow> byte list" where
  "ping_packet env c =
     (let js = get_stats (cl_jitter c) in
      encode_common_header (make_header HEARTBEAT_PING 0 (ce_now_us env) (word_of_nat sizeof_heartbeat_payload) FLAG_NONE) @
      encode_heartbeat_payload
        \<lparr>hb_orig_timestamp_us = ce_now_us env, hb_client_buffer_level_frames = word_of_nat (available_frames (cl_jitter c)),
         hb_packets_received = ucast (cs_packets_received (cl_stats c)), hb_packets_lost = ucast (js_packets_lost js),
         hb_buffer_underruns = ucast (js_underruns js), hb_buffer_overruns = ucast (js_overruns js)\<rparr>)"

definition heartbeat_turn :: "client_env \<Rightarrow> (nat \<Rightarrow> bool \<times> recv_event) \<Rightarrow> 'p client \<Rightarrow> 'p client" where
  "heartbeat_turn env evs c =
     (if \<not> cl_is_running c \<or> cl_stop_requested c then c
      else
        (let c = snd (cl_send env (ping_packet env c) (cl_server_addr c) c);
             last_packet = cl_last_packet_time_ms c
         in if last_packet > 0 \<and> ce_now_ms env - last_packet > ucast (cf_reconnect_timeout_ms (cl_config c))
            then (snd (perform_handshake env evs c))\<lparr>cl_last_packet_time_ms := ce_now_ms2 env\<rparr>
            else c))"

definition control_packet :: "u64 \<Rightarrow> u8 \<Rightarrow> u32 \<Rightarrow> byte list" where
  "control_packet now_us cmd param_float =
     encode_common_header (make_header CONTROL_CMD 0 now_us (word_of_nat sizeof_control_cmd_payload) FLAG_NONE) @
     encode_control_cmd_payload \<lparr>cc_cmd_id = cmd, cc_param_float = param_float, cc_param_int = 0\<rparr>"

definition send_pc_mute_command :: "client_env \<Rightarrow> bool \<Rightarrow> 'p client \<Rightarrow> bool \<times> 'p client" where
  "send_pc_mute_command env mute c =
     (if \<not> sa_valid (cl_server_addr c) then (False, c)
      else (case cl_send env (control_packet (ce_now_us env) (if mute then 1 else 2) 0) (cl_server_addr c) c of
              (r, c) \<Rightarrow> (r > 0, c)))"

text \<open>The volume is given by the bits of its \<^verbatim>\<open>float\<close>.\<close>

definition send_pc_volume_command :: "client_env \<Rightarrow> u32 \<Rightarrow> 'p client \<Rightarrow> bool \<times> 'p client" where
  "send_pc_volume_command env volume_bits c =
     (if \<not> sa_valid (cl_server_addr c) then (False, c)
      else (case cl_send env (control_packet (ce_now_us env) 3 volume_bits) (cl_server_addr c) c of
              (r, c) \<Rightarrow> (r > 0, c)))"

section \<open>USB relay\<close>

record usb_relay =
  ur_tcp_open :: bool
  ur_rx_buf :: "byte list"
  ur_engine_peer :: socket_address
  ur_connected :: bool

definition usb_relay_init :: usb_relay where
  "usb_relay_init = \<lparr>ur_tcp_open = False, ur_rx_buf = [], ur_engine_peer = SocketAddress_empty, ur_connected = False\<rparr>"

definition usb_connect :: "bool \<Rightarrow> usb_relay \<Rightarrow> usb_relay" where
  "usb_connect ok r =
     (if ur_tcp_open r then r
      else if ok then r\<lparr>ur_tcp_open := True, ur_rx_buf := [], ur_connected := True\<rparr>
      else r\<lparr>ur_connected := False\<rparr>)"

definition usb_close_tunnel :: "usb_relay \<Rightarrow> usb_relay" where
  "usb_close_tunnel r = r\<lparr>ur_tcp_open := False, ur_connected := False\<rparr>"

text \<open>The datagram for the engine with its destination, and the new state.\<close>

definition usb_from_tunnel ::
    "recv_outcome list \<Rightarrow> usb_relay \<Rightarrow> ((byte list \<times> socket_address) option \<times> usb_relay) option" where
  "usb_from_tunnel outs r =
     (case read_frame (ur_rx_buf r) outs of
        None \<Rightarrow> None
      | Some (res, rx, frame, _) \<Rightarrow>
          (let r = r\<lparr>ur_rx_buf := rx\<rparr> in
           if res = Frame then Some (if sa_valid (ur_engine_peer r) then Some (frame, ur_engine_peer r) else None, r)
           else if res = Closed \<or> res = RecvError then Some (None, usb_close_tunnel r)
           else Some (None, r)))"

text \<open>The bytes for the tunnel; a closed socket takes none and fails.\<close>

definition usb_to_tunnel ::
    "int \<times> byte list \<times> socket_address \<Rightarrow> send_outcome list \<Rightarrow> usb_relay \<Rightarrow> (byte list \<times> usb_relay) option" where
  "usb_to_tunnel ev outs r =
     (case ev of
        (n, buf, from) \<Rightarrow>
          if n > 0 then
            (let r = r\<lparr>ur_engine_peer := from\<rparr> in
             case write_frame (take (nat n) buf) (if ur_tcp_open r then outs else [SendFailed]) of
               None \<Rightarrow> None
             | Some (ok, bytes, _) \<Rightarrow> Some (bytes, if ok then r else usb_close_tunnel r))
          else Some ([], r))"

definition usb_relay_turn ::
    "bool \<Rightarrow> int \<Rightarrow> recv_outcome list \<Rightarrow> int \<times> byte list \<times> socket_address \<Rightarrow> send_outcome list \<Rightarrow> usb_relay \<Rightarrow>
     ((byte list \<times> socket_address) option \<times> byte list \<times> usb_relay) option" where
  "usb_relay_turn connect_ok m routs ev souts r =
     (let r = usb_connect connect_ok r in
      if \<not> ur_tcp_open r then Some (None, [], r)
      else
        (case (if m AND 1 \<noteq> 0 then usb_from_tunnel routs r else Some (None, r)) of
           None \<Rightarrow> None
         | Some (out, r) \<Rightarrow>
             (case (if m AND 2 \<noteq> 0 then usb_to_tunnel ev souts r else Some ([], r)) of
                None \<Rightarrow> None
              | Some (bytes, r) \<Rightarrow> Some (out, bytes, r))))"

end
