(* ===== verification/Client_Session.thy ===== *)
theory Client_Session
  imports Client
begin

text \<open>
  The lemmas about \<^verbatim>\<open>Client\<close>: what a handshake does, the invariant of a running client and the
  packets it sends, what the receive loop hands to the jitter buffer, playback, the watchdog, the end
  of a session, and the relay.
\<close>

lemma cl_send_simps [simp]:
  "cl_config (snd (cl_send env d a c)) = cl_config c" "cl_is_running (snd (cl_send env d a c)) = cl_is_running c"
  "cl_stop_requested (snd (cl_send env d a c)) = cl_stop_requested c" "cl_state (snd (cl_send env d a c)) = cl_state c"
  "cl_server_addr (snd (cl_send env d a c)) = cl_server_addr c" "cl_audio_config (snd (cl_send env d a c)) = cl_audio_config c"
  "cl_player (snd (cl_send env d a c)) = cl_player c" "cl_jitter (snd (cl_send env d a c)) = cl_jitter c"
  "cl_last_packet_time_ms (snd (cl_send env d a c)) = cl_last_packet_time_ms c" "cl_stats (snd (cl_send env d a c)) = cl_stats c"
  "cl_recv_buf (snd (cl_send env d a c)) = cl_recv_buf c" "cl_shutdown (snd (cl_send env d a c)) = cl_shutdown c"
  by (simp_all add: cl_send_def split: prod.splits)

lemma cl_send_log: "cl_sent (snd (cl_send env d a c)) = cl_sent c \<or> cl_sent (snd (cl_send env d a c)) = cl_sent c @ [(d, a)]"
  by (auto simp: cl_send_def udp_send_to_def split: prod.splits if_splits)

lemma cl_send_open:
  assumes "udp_is_open (cl_socket c)" and "sa_valid a"
  shows "cl_send env d a c = (ce_sendto env d, c\<lparr>cl_sent := cl_sent c @ [(d, a)]\<rparr>)"
  using assms by (simp add: cl_send_def udp_send_to_def)

section \<open>Handshake\<close>

text \<open>A handshake touches the socket, the log and, when it succeeds, the audio configuration.\<close>

definition same_but_config :: "'p client \<Rightarrow> 'p client \<Rightarrow> bool" where
  "same_but_config c c' \<longleftrightarrow>
     cl_config c' = cl_config c \<and> cl_is_running c' = cl_is_running c \<and> cl_stop_requested c' = cl_stop_requested c \<and>
     cl_state c' = cl_state c \<and> cl_server_addr c' = cl_server_addr c \<and> cl_player c' = cl_player c \<and> cl_jitter c' = cl_jitter c \<and>
     cl_stats c' = cl_stats c \<and> cl_recv_buf c' = cl_recv_buf c \<and> cl_last_packet_time_ms c' = cl_last_packet_time_ms c"

lemma handshake_loop_result:
  assumes "handshake_loop env k evs c = (ok, c')"
  shows "same_but_config c c' \<and>
         (\<exists>m \<le> k. cl_sent c' = cl_sent c @ replicate m (connect_req_packet (ce_now_us env) (cl_config c), cl_server_addr c)) \<and>
         (if ok then \<exists>i < k. \<exists>n buf src. evs i = (False, n, buf, src) \<and> handshake_reply n buf (cl_audio_config c) = Accepted (cl_audio_config c')
          else cl_audio_config c' = cl_audio_config c)"
  using assms
proof (induction k arbitrary: c)
  case 0
  then show ?case by (simp add: same_but_config_def)
next
  case (Suc k)
  obtain stop ev where ev: "evs k = (stop, ev)" by (cases "evs k")
  show ?case
  proof (cases stop)
    case True
    then show ?thesis using Suc.prems ev by (auto simp: same_but_config_def)
  next
    case False
    define req where "req = connect_req_packet (ce_now_us env) (cl_config c)"
    define d where "d = snd (cl_send env req (cl_server_addr c) c)"
    obtain n buf sndr where r: "cl_receive_from ev d = (n, buf, sndr)" by (metis prod.exhaust)
    have d: "same_but_config c d" "cl_audio_config d = cl_audio_config c" by (simp_all add: d_def same_but_config_def)
    obtain m0 where m0: "m0 \<le> 1" "cl_sent d = cl_sent c @ replicate m0 (req, cl_server_addr c)"
      using cl_send_log [of env req "cl_server_addr c" c] unfolding d_def by (metis One_nat_def append_Nil2 le_numeral_extra(4) replicate_0 replicate_Suc zero_le)
    show ?thesis
    proof (cases "handshake_reply n buf (cl_audio_config c)")
      case (Accepted a)
      then have "ok" "c' = d\<lparr>cl_audio_config := a\<rparr>"
        using Suc.prems ev False r d by (simp_all add: req_def [symmetric] d_def [symmetric] Let_def)
      moreover obtain src where "ev = (n, buf, src)"
        using r Accepted by (cases ev) (auto simp: cl_receive_from_def udp_receive_from_def handshake_reply_def split: if_splits)
      ultimately show ?thesis using d m0 Accepted ev False
        by (auto simp: same_but_config_def req_def intro!: exI [of _ m0] exI [of _ k])
    next
      case Rejected
      then have "\<not> ok" "c' = d"
        using Suc.prems ev False r d by (simp_all add: req_def [symmetric] d_def [symmetric] Let_def)
      then show ?thesis using d m0 by (auto simp: req_def intro!: exI [of _ m0])
    next
      case Ignored
      then have "handshake_loop env k evs d = (ok, c')"
        using Suc.prems ev False r d by (simp add: req_def [symmetric] d_def [symmetric] Let_def)
      from Suc.IH [OF this] obtain m where "m \<le> k" and
        m: "cl_sent c' = cl_sent d @ replicate m (connect_req_packet (ce_now_us env) (cl_config d), cl_server_addr d)" and
        IH: "same_but_config d c'" "if ok then \<exists>i < k. \<exists>n buf src. evs i = (False, n, buf, src) \<and> handshake_reply n buf (cl_audio_config d) = Accepted (cl_audio_config c')
          else cl_audio_config c' = cl_audio_config d" by blast
      have "cl_sent c' = cl_sent c @ replicate (m0 + m) (req, cl_server_addr c)"
        using m m0(2) d(1) by (simp add: replicate_add same_but_config_def req_def)
      moreover have "m0 + m \<le> Suc k" using m0(1) \<open>m \<le> k\<close> by simp
      moreover have "same_but_config c c'" using IH(1) d(1) by (simp add: same_but_config_def)
      moreover have "if ok then \<exists>i < Suc k. \<exists>n buf src. evs i = (False, n, buf, src) \<and> handshake_reply n buf (cl_audio_config c) = Accepted (cl_audio_config c')
          else cl_audio_config c' = cl_audio_config c"
        using IH(2) d(2) by (cases ok) (simp_all, meson less_SucI)
      ultimately show ?thesis by (metis req_def)
    qed
  qed
qed

lemma handshake_outcome_basic:
  assumes "perform_handshake env evs c = (ok, c')"
  shows "same_but_config c c' \<and>
         (\<exists>m \<le> 5. cl_sent c' = cl_sent c @ replicate m (connect_req_packet (ce_now_us env) (cl_config c), cl_server_addr c)) \<and>
         (if ok then \<exists>i < 5. \<exists>n buf src. evs i = (False, n, buf, src) \<and> handshake_reply n buf (cl_audio_config c) = Accepted (cl_audio_config c')
          else cl_audio_config c' = cl_audio_config c)"
proof (cases "cl_stop_requested c")
  case True
  then show ?thesis using assms by (auto simp: perform_handshake_def same_but_config_def)
next
  case False
  then have "handshake_loop env 5 evs c = (ok, c')" using assms by (simp only: perform_handshake_def if_False)
  then show ?thesis by (rule handshake_loop_result)
qed

text \<open>
  Claim C25: A handshake always ends after at most five requests to the server's address, all the same.
  It succeeds only on a well-formed CONNECT_ACK, whose stream format it takes over; when it fails the
  format is as before. Nothing else of the client changes.
\<close>

theorem handshake_outcome:
  assumes "perform_handshake env evs c = (ok, c')"
  shows "same_but_config c c' \<and>
         (\<exists>m \<le> 5. cl_sent c' = cl_sent c @ replicate m (connect_req_packet (ce_now_us env) (cl_config c), cl_server_addr c)) \<and>
         (if ok then \<exists>i < 5. \<exists>n buf src. evs i = (False, n, buf, src) \<and> handshake_reply n buf (cl_audio_config c) = Accepted (cl_audio_config c')
          else cl_audio_config c' = cl_audio_config c)"
  by (rule handshake_outcome_basic [OF assms])

definition ack_event :: recv_event where
  "ack_event =
     (99, encode_common_header (make_header CONNECT_ACK 0 7 75 FLAG_NONE) @
          encode_connect_ack_payload
            \<lparr>ca_status_code = 0, ca_sample_rate = 44100, ca_channels = 1, ca_format = 1, ca_frames_per_packet = 441,
             ca_pc_speaker_muted = 1, ca_status_msg = replicate 64 0\<rparr>,
      \<lparr>sin_family = AF_INET, sin_port = 9, s_addr = 9\<rparr>)"

definition sample_addr :: socket_address where
  "sample_addr = SocketAddress_raw \<lparr>sin_family = AF_INET, sin_port = 1, s_addr = 2\<rparr>"

definition sample_client :: "dummy_player client" where
  "sample_client = (AudioRouterClient default_client_config)\<lparr>cl_socket := UdpSocket\<lparr>us_handle := 4\<rparr>,
     cl_server_addr := sample_addr, cl_is_running := True, cl_state := CL_STREAMING, cl_last_packet_time_ms := 1000\<rparr>"

definition sample_cenv :: client_env where
  "sample_cenv = \<lparr>ce_now_us = 2000000, ce_now_ms = 2000, ce_now_ms2 = 2001, ce_socket = 4, ce_sendto = (\<lambda>d. int (length d))\<rparr>"

lemma handshake_reply_ack:
  assumes "length (ca_status_msg p) = 64"
  shows "handshake_reply 99 (encode_common_header (make_header CONNECT_ACK seq ts 75 FLAG_NONE) @ encode_connect_ack_payload p) c =
         Accepted (c\<lparr>ac_sample_rate := ca_sample_rate p, ac_channels := ca_channels p, ac_format := format_of_u8 (ca_format p),
                     ac_frames_per_packet := ucast (ca_frames_per_packet p)\<rparr>)"
proof -
  have "is_valid_header (make_header CONNECT_ACK seq ts 75 FLAG_NONE) 99"
    by (simp add: is_valid_header_iff header_ok_make_header protocol_consts sizeof_defs)
  moreover have "ch_msg_type (make_header CONNECT_ACK seq ts 75 FLAG_NONE) = u8_of_msg_type CONNECT_ACK" by (simp add: make_header_def)
  moreover have "drop sizeof_common_header (encode_common_header h @ b) = b" for h b by simp
  moreover have "decode_connect_ack_payload (encode_connect_ack_payload p) = p"
    using decode_encode_connect_ack_payload [of p "[]"] assms by simp
  ultimately show ?thesis by (simp add: handshake_reply_def sizeof_common_header_def sizeof_connect_ack_payload_def Let_def del: drop_append)
qed

text \<open>One try over an open socket.\<close>

lemma handshake_try:
  assumes "udp_is_open (cl_socket c)" and "sa_valid (cl_server_addr c)" and "evs k = (False, n, buf, src)"
  shows "handshake_loop env (Suc k) evs c =
           (let d = c\<lparr>cl_sent := cl_sent c @ [(connect_req_packet (ce_now_us env) (cl_config c), cl_server_addr c)]\<rparr>
            in case handshake_reply n buf (cl_audio_config c) of
                 Accepted a \<Rightarrow> (True, d\<lparr>cl_audio_config := a\<rparr>)
               | Rejected \<Rightarrow> (False, d)
               | Ignored \<Rightarrow> handshake_loop env k evs d)"
  using assms by (simp add: cl_send_open cl_receive_from_def udp_receive_from_def Let_def)

lemma sample_client_open [simp]:
  "udp_is_open (cl_socket sample_client)" "cl_server_addr sample_client = sample_addr" "sa_valid sample_addr"
  "\<not> cl_stop_requested sample_client" "cl_is_running sample_client"
  by (simp_all add: sample_client_def AudioRouterClient_def udp_is_open_def INVALID_SOCKET_HANDLE_def UdpSocket_def
      sample_addr_def SocketAddress_raw_def)

theorem handshake_outcome_witness:
  "\<exists>c'. perform_handshake sample_cenv (\<lambda>i. (False, if i = 3 then ack_event else (- 1, [], zero_addr))) sample_client = (True, c') \<and>
        same_but_config sample_client c' \<and> ac_sample_rate (cl_audio_config c') = 44100"
proof -
  define evs :: "nat \<Rightarrow> bool \<times> recv_event" where "evs = (\<lambda>i. (False, if i = 3 then ack_event else (- 1, [], zero_addr)))"
  obtain pkt src where ev: "evs 4 = (False, - 1, [], zero_addr)" "evs 3 = (False, 99, pkt, src)"
    and pkt: "\<exists>a. handshake_reply 99 pkt (cl_audio_config sample_client) = Accepted a \<and> ac_sample_rate a = 44100"
    by (auto simp: evs_def ack_event_def handshake_reply_ack)
  have no: "handshake_reply (- 1) buf a = Ignored" for buf a by (simp add: handshake_reply_def)
  have "\<exists>c'. handshake_loop sample_cenv (Suc 4) evs sample_client = (True, c') \<and> ac_sample_rate (cl_audio_config c') = 44100"
    using handshake_try [of sample_client evs 4 "- 1" "[]" zero_addr sample_cenv]
      handshake_try [of "sample_client\<lparr>cl_sent := s\<rparr>" evs 3 99 pkt src sample_cenv for s] ev pkt
    by (auto simp: no Let_def)
  then obtain c' where c': "perform_handshake sample_cenv evs sample_client = (True, c')" "ac_sample_rate (cl_audio_config c') = 44100"
    by (auto simp: perform_handshake_def)
  from handshake_outcome [OF c'(1)] c' show ?thesis by (auto simp: evs_def)
qed

section \<open>Packets the client sends\<close>

lemma client_packets_ok:
  "packet_ok (discovery_packet now)" "packet_ok (connect_req_packet now cfg)" "packet_ok (disconnect_req_packet now)"
  "packet_ok (ping_packet env c)" "packet_ok (control_packet now cmd v)"
  unfolding discovery_packet_def connect_req_packet_def disconnect_req_packet_def ping_packet_def control_packet_def Let_def
  by (rule packet_ok_reply; simp add: wire_simps sizeof_defs)+

definition sent_ok :: "'p client \<Rightarrow> bool" where
  "sent_ok c \<longleftrightarrow> (\<forall>d \<in> set (cl_sent c). packet_ok (fst d))"

lemma sent_ok_send: "sent_ok c \<Longrightarrow> packet_ok d \<Longrightarrow> sent_ok (snd (cl_send env d a c))"
  using cl_send_log [of env d a c] by (auto simp: sent_ok_def)

lemma sent_ok_probes: "sent_ok c \<Longrightarrow> sent_ok (send_probes res env c)"
proof -
  have "sent_ok (fold (\<lambda>ip c. snd (cl_send env (discovery_packet (ce_now_us env)) (SocketAddress res ip (cf_server_port (cl_config c))) c)) ips c)"
    if "sent_ok c" for ips c
    using that by (induction ips arbitrary: c) (simp_all add: sent_ok_send client_packets_ok)
  then show "sent_ok c \<Longrightarrow> sent_ok (send_probes res env c)" by (simp add: send_probes_def)
qed

lemma sent_ok_handshake:
  assumes "sent_ok c" and "perform_handshake env evs c = (ok, c')"
  shows "sent_ok c'"
  using handshake_outcome_basic [OF assms(2)] assms(1) client_packets_ok(2) by (auto simp: sent_ok_def)

section \<open>Invariant\<close>

text \<open>
  The jitter buffer keeps its invariant and the receive buffer its size; a running client streams, was
  not asked to stop and has a server; every datagram it ever sent passes the server's header check.
\<close>

definition client_inv :: "'p client \<Rightarrow> bool" where
  "client_inv c \<longleftrightarrow>
     jb_inv (cl_jitter c) \<and> length (cl_recv_buf c) = 65536 \<and> sent_ok c \<and>
     (cl_is_running c \<longrightarrow> cl_state c = CL_STREAMING \<and> \<not> cl_stop_requested c \<and> sa_valid (cl_server_addr c))"

lemma probes_frame:
  "cl_jitter (send_probes res env c) = cl_jitter c \<and> cl_recv_buf (send_probes res env c) = cl_recv_buf c \<and>
   cl_is_running (send_probes res env c) = cl_is_running c \<and> cl_stop_requested (send_probes res env c) = cl_stop_requested c"
proof -
  define f where "f = (\<lambda>ip (c :: 'a client). snd (cl_send env (discovery_packet (ce_now_us env)) (SocketAddress res ip (cf_server_port (cl_config c))) c))"
  have "cl_jitter (fold f ips c) = cl_jitter c \<and> cl_recv_buf (fold f ips c) = cl_recv_buf c \<and>
        cl_is_running (fold f ips c) = cl_is_running c \<and> cl_stop_requested (fold f ips c) = cl_stop_requested c" for ips c
    by (induction ips arbitrary: c) (simp_all add: f_def)
  then show ?thesis by (simp add: send_probes_def f_def)
qed

lemma discover_frame:
  assumes "discover_loop res env k evs c = (a, c')" and "sent_ok c"
  shows "cl_jitter c' = cl_jitter c \<and> cl_recv_buf c' = cl_recv_buf c \<and> cl_is_running c' = cl_is_running c \<and>
         cl_stop_requested c' = cl_stop_requested c \<and> sent_ok c' \<and> (\<forall>x. a = Some x \<longrightarrow> sa_valid x)"
  using assms
proof (induction k arbitrary: c)
  case (Suc k)
  have v: "discovery_response ev d = Some x \<Longrightarrow> sa_valid x" for ev and d :: "'a client" and x
    by (auto simp: discovery_response_def cl_receive_from_def udp_receive_from_def sizeof_defs SocketAddress_raw_def
        split: prod.splits if_splits)
  show ?case
  proof (cases "discovery_response (evs k) (send_probes res env c)")
    case None
    then show ?thesis using Suc.IH [of "send_probes res env c"] Suc.prems sent_ok_probes [OF Suc.prems(2)] probes_frame [of res env c]
      by (simp add: Let_def)
  next
    case (Some x)
    then show ?thesis using Suc.prems sent_ok_probes [OF Suc.prems(2)] probes_frame [of res env c] v [OF Some] by (auto simp: Let_def)
  qed
qed simp

text \<open>What finding the server leaves alone.\<close>

definition target_found :: "'p client \<Rightarrow> bool \<times> 'p client \<Rightarrow> bool" where
  "target_found c r \<longleftrightarrow>
     cl_jitter (snd r) = cl_jitter c \<and> cl_recv_buf (snd r) = cl_recv_buf c \<and> cl_is_running (snd r) = cl_is_running c \<and>
     cl_stop_requested (snd r) = cl_stop_requested c \<and> (sent_ok c \<longrightarrow> sent_ok (snd r)) \<and> (fst r \<longrightarrow> sa_valid (cl_server_addr (snd r)))"

lemma usb_target_found: "target_found c (usb_target st c)"
  by (auto simp: target_found_def usb_target_def close_socket_def sent_ok_def Let_def split: prod.splits)

lemma pin_frame [simp]:
  "cl_jitter (pin_interface env st c) = cl_jitter c" "cl_recv_buf (pin_interface env st c) = cl_recv_buf c"
  "cl_is_running (pin_interface env st c) = cl_is_running c" "cl_stop_requested (pin_interface env st c) = cl_stop_requested c"
  "cl_sent (pin_interface env st c) = cl_sent c"
  by (simp_all add: pin_interface_def Let_def)

lemma lan_target_found:
  assumes "sent_ok c"
  shows "target_found c (lan_target env st c)"
proof (cases "cf_auto_discover (cl_config (pin_interface env st c))")
  case True
  define d where "d = (pin_interface env st c)\<lparr>cl_state := DISCOVERING\<rparr>"
  obtain a e where e: "discover_server (st_resolver st) env (st_discovery st) d = (a, e)" by fastforce
  have "sent_ok d" using assms by (simp add: d_def sent_ok_def)
  note df = discover_frame [OF e [unfolded discover_server_def] this]
  have "lan_target env st c = (case a of Some x \<Rightarrow> (True, e\<lparr>cl_server_addr := x\<rparr>) | None \<Rightarrow> (False, close_socket e))"
    using True e by (simp add: lan_target_def d_def [symmetric] Let_def split: option.splits)
  moreover have "cl_jitter d = cl_jitter c" "cl_recv_buf d = cl_recv_buf c" "cl_is_running d = cl_is_running c"
    "cl_stop_requested d = cl_stop_requested c" by (simp_all add: d_def)
  ultimately show ?thesis using df by (cases a) (simp_all add: target_found_def close_socket_def sent_ok_def)
next
  case False
  then show ?thesis using assms by (auto simp: lan_target_def target_found_def close_socket_def sent_ok_def Let_def)
qed

definition idle_inv :: "'p client \<Rightarrow> bool" where
  "idle_inv c \<longleftrightarrow> jb_inv (cl_jitter c) \<and> length (cl_recv_buf c) = 65536 \<and> sent_ok c \<and> \<not> cl_is_running c"

lemma idle_client_inv: "idle_inv c \<Longrightarrow> client_inv c"
  by (simp add: idle_inv_def client_inv_def)

lemma idle_close [simp]: "idle_inv (close_socket c) = idle_inv c"
  by (simp add: idle_inv_def close_socket_def sent_ok_def)

lemma idle_target: "idle_inv c \<Longrightarrow> target_found c r \<Longrightarrow> idle_inv (snd r)"
  by (simp add: idle_inv_def target_found_def)

lemma client_inv_begin_streaming:
  assumes "idle_inv c" and "\<not> cl_stop_requested c" and "sa_valid (cl_server_addr c)"
  shows "client_inv (begin_streaming env st c)"
  using assms jb_inv_configure by (simp add: client_inv_def begin_streaming_def idle_inv_def sent_ok_def Let_def)

lemma client_inv_connect:
  assumes "idle_inv c" and "sa_valid (cl_server_addr c)"
  shows "client_inv (snd (connect_to_server env st c))"
proof -
  define g where "g = c\<lparr>cl_player := (if cf_use_dummy_player (cl_config c) then Some (st_dummy st) else None), cl_state := CONNECTING\<rparr>"
  obtain ok h where h: "perform_handshake env (st_handshake st) g = (ok, h)" by fastforce
  have g: "idle_inv g" "sent_ok g" using assms(1) by (simp_all add: g_def idle_inv_def sent_ok_def)
  have h': "idle_inv h" "sa_valid (cl_server_addr h)"
    using sent_ok_handshake [OF g(2) h] handshake_outcome_basic [OF h] g(1) assms(2) by (simp_all add: idle_inv_def same_but_config_def g_def)
  have "ok \<Longrightarrow> \<not> cl_stop_requested g" using h by (auto simp: perform_handshake_def split: if_splits)
  then have hs: "ok \<Longrightarrow> \<not> cl_stop_requested h" using handshake_outcome_basic [OF h] by (simp add: same_but_config_def)
  have "connect_to_server env st c = (if \<not> ok then (False, close_socket h) else (True, begin_streaming env st h))"
    by (simp add: connect_to_server_def g_def [symmetric] h Let_def)
  then show ?thesis using h' hs by (auto simp: client_inv_begin_streaming idle_client_inv)
qed

lemma client_inv_start:
  assumes "client_inv c" and "client_start env st c = (ok, c')"
  shows "client_inv c'"
proof (cases "cl_is_running c")
  case True
  then show ?thesis using assms by (simp add: client_start_def)
next
  case run: False
  define d where "d = c\<lparr>cl_config := (cl_config c)\<lparr>cf_device_name := device_for_start (cl_config c)\<rparr>,
    cl_socket := snd (udp_open (ce_socket env) (cl_socket c))\<rparr>"
  define r where "r = (if cf_usb_mode (cl_config d) then usb_target st d else lan_target env st d)"
  have d: "idle_inv d" using assms(1) run by (simp add: d_def client_inv_def idle_inv_def sent_ok_def)
  then have "target_found d r" by (simp add: r_def idle_inv_def usb_target_found lan_target_found)
  then have r: "idle_inv (snd r)" "fst r \<Longrightarrow> sa_valid (cl_server_addr (snd r))"
    using idle_target [OF d] by (simp_all add: target_found_def)
  have "client_start env st c =
    (if \<not> fst (udp_open (ce_socket env) (cl_socket c)) then (False, d) else if \<not> fst r then (False, snd r)
     else connect_to_server env st (snd r))"
    using run by (cases "cf_usb_mode (cl_config d)") (simp_all add: client_start_def d_def [symmetric] r_def case_prod_unfold Let_def)
  then show ?thesis using assms(2) d r client_inv_connect [OF r(1), of env st]
    by (auto simp: idle_client_inv split: if_splits) (metis snd_conv)
qed

lemma client_inv_stop:
  assumes "client_inv c"
  shows "client_inv (client_stop ops env c)"
proof -
  define d where "d = c\<lparr>cl_stop_requested := True, cl_is_running := False, cl_shutdown := True\<rparr>"
  define e where "e = (if sa_valid (cl_server_addr d) \<and> udp_is_open (cl_socket d)
                  then snd (cl_send env (disconnect_req_packet (ce_now_us env)) (cl_server_addr d) d) else d)"
  have "idle_inv d" using assms by (simp add: d_def client_inv_def idle_inv_def sent_ok_def)
  then have "idle_inv e" by (simp add: e_def idle_inv_def sent_ok_send client_packets_ok)
  then have "client_inv ((close_socket e)\<lparr>cl_player := p, cl_state := s\<rparr>)" for p s
    by (simp add: idle_inv_def client_inv_def close_socket_def sent_ok_def)
  then show ?thesis using assms by (simp add: client_stop_def d_def [symmetric] e_def [symmetric] Let_def)
qed

lemma client_inv_audio:
  assumes "client_inv c" and "handle_audio_data env n c = Some c'"
  shows "client_inv c'"
  using assms push_packet_inv by (fastforce simp: handle_audio_data_def client_inv_def sent_ok_def Let_def split: if_splits)

lemma client_inv_receive:
  assumes inv: "client_inv c" and r: "client_receive env (n, buf, src) c = Some c'" and len: "nat n \<le> 65536" "length buf = nat n"
  shows "client_inv c'"
proof (cases "cl_is_running c \<and> \<not> cl_stop_requested c \<and> udp_is_open (cl_socket c) \<and> 0 < n")
  case False
  then show ?thesis using inv r by (auto simp: client_receive_def cl_receive_from_def udp_receive_from_def split: if_splits)
next
  case True
  define d where "d = c\<lparr>cl_recv_buf := blit (cl_recv_buf c) 0 (take (nat n) buf)\<rparr>"
  have d: "client_inv d" using inv len by (simp add: d_def client_inv_def sent_ok_def)
  have upd: "client_inv (d\<lparr>cl_last_packet_time_ms := t, cl_stats := st\<rparr>)" "client_inv (d\<lparr>cl_last_packet_time_ms := t, cl_stats := st, cl_is_running := False\<rparr>)"
    for t st using d by (simp_all add: client_inv_def sent_ok_def)
  have pong: "client_inv (handle_heartbeat_pong env m e)" if "client_inv e" for m and e :: "'a client"
    using that by (simp add: handle_heartbeat_pong_def client_inv_def sent_ok_def Let_def)
  define e where "e = d\<lparr>cl_last_packet_time_ms := ce_now_ms env,
      cl_stats := (cl_stats d)\<lparr>cs_packets_received := cs_packets_received (cl_stats d) + 1, cs_bytes_received := cs_bytes_received (cl_stats d) + word_of_int n\<rparr>\<rparr>"
  have e: "client_inv e" "client_inv (e\<lparr>cl_is_running := False\<rparr>)" using upd by (simp_all add: e_def)
  consider "c' = d" | "c' = e" | "c' = e\<lparr>cl_is_running := False\<rparr>" | "c' = handle_heartbeat_pong env (nat n) e" | "handle_audio_data env (nat n) e = Some c'"
    using True r by (simp add: client_receive_def cl_receive_from_def udp_receive_from_def d_def [symmetric] e_def [symmetric] Let_def
        split: if_splits msg_type.splits)
  then show ?thesis using d e pong client_inv_audio [OF e(1)] by cases simp_all
qed

lemma client_inv_playback:
  assumes "client_inv c" and "playback_turn ops env a buf c = Some (t, buf', c')"
  shows "client_inv c'"
proof (cases "cl_is_running c")
  case False
  then show ?thesis using assms by (simp add: playback_turn_def)
next
  case True
  then obtain frames b j where p: "pop_frames (ce_now_ms env) (Some buf) (period_frames a) (cl_jitter c) = Some (frames, Some b, j)"
    using assms(2) by (auto simp: playback_turn_def split: option.splits prod.splits)
  have "jb_inv j" using pop_frames_inv [OF _ p] assms(1) by (simp add: client_inv_def)
  then have upd: "client_inv (c\<lparr>cl_jitter := j\<rparr>)" "client_inv (c\<lparr>cl_jitter := j, cl_player := q\<rparr>)"
    "client_inv (c\<lparr>cl_jitter := j, cl_player := q, cl_stats := st\<rparr>)" for q st
    using assms(1) by (simp_all add: client_inv_def sent_ok_def)
  show ?thesis using assms(2) True p upd by (auto simp: playback_turn_def Let_def split: option.splits if_splits)
qed

lemma client_inv_heartbeat: "client_inv c \<Longrightarrow> client_inv (heartbeat_turn env evs c)"
proof -
  assume inv: "client_inv c"
  define d where "d = snd (cl_send env (ping_packet env c) (cl_server_addr c) c)"
  have d: "client_inv d" using inv by (simp add: d_def client_inv_def sent_ok_send client_packets_ok)
  obtain ok h where h: "perform_handshake env evs d = (ok, h)" by fastforce
  have "client_inv (h\<lparr>cl_last_packet_time_ms := t\<rparr>)" for t
    using sent_ok_handshake [OF _ h] handshake_outcome_basic [OF h] d by (simp add: client_inv_def same_but_config_def sent_ok_def)
  then show ?thesis using inv d h by (simp add: heartbeat_turn_def d_def [symmetric] Let_def)
qed

text \<open>
  The life of a client: the operations of its interface, turns of its threads in any order, and a
  device that the open threads put into the slot.
\<close>

inductive client_reach :: "'p player_ops \<Rightarrow> client_config \<Rightarrow> 'p client \<Rightarrow> bool" for ops config where
  init: "client_reach ops config (AudioRouterClient config)"
| start: "client_reach ops config c \<Longrightarrow> client_start env st c = (ok, c') \<Longrightarrow> client_reach ops config c'"
| stop: "client_reach ops config c \<Longrightarrow> client_reach ops config (client_stop ops env c)"
| receive: "client_reach ops config c \<Longrightarrow> client_receive env (n, buf, src) c = Some c' \<Longrightarrow> nat n \<le> 65536 \<Longrightarrow> length buf = nat n \<Longrightarrow>
    client_reach ops config c'"
| playback: "client_reach ops config c \<Longrightarrow> playback_turn ops env a buf c = Some (t, buf', c') \<Longrightarrow> client_reach ops config c'"
| heartbeat: "client_reach ops config c \<Longrightarrow> client_reach ops config (heartbeat_turn env evs c)"
| mute: "client_reach ops config c \<Longrightarrow> client_reach ops config (snd (send_pc_mute_command env m c))"
| volume: "client_reach ops config c \<Longrightarrow> client_reach ops config (snd (send_pc_volume_command env v c))"
| swap: "client_reach ops config c \<Longrightarrow> client_reach ops config (c\<lparr>cl_player := Some p\<rparr>)"

lemma client_inv_command: "client_inv c \<Longrightarrow> client_inv (snd (cl_send env (control_packet now cmd v) a c))"
  by (simp add: client_inv_def sent_ok_send client_packets_ok)

lemma client_reach_inv: "client_reach ops config c \<Longrightarrow> client_inv c"
proof (induction rule: client_reach.induct)
  case init
  then show ?case by (simp add: client_inv_def AudioRouterClient_def sent_ok_def jb_inv_JitterBuffer)
next
  case (mute c env m)
  then show ?case by (simp add: send_pc_mute_command_def case_prod_unfold client_inv_command)
next
  case (volume c env v)
  then show ?case by (simp add: send_pc_volume_command_def case_prod_unfold client_inv_command)
next
  case (swap c p)
  then show ?case by (simp add: client_inv_def sent_ok_def)
qed (auto intro: client_inv_start client_inv_stop client_inv_receive client_inv_playback client_inv_heartbeat)

text \<open>
  Claim C6: in every state a client can reach, whatever the network delivers and in whatever order its
  threads run, the jitter buffer is consistent, a running client streams from a valid server address
  and was not asked to stop, and every datagram it has sent passes the header check of the server.
\<close>

theorem client_invariant:
  assumes "client_reach ops config c"
  shows "jb_inv (cl_jitter c) \<and> length (cl_recv_buf c) = 65536 \<and> (\<forall>d \<in> set (cl_sent c). packet_ok (fst d)) \<and>
         (cl_is_running c \<longrightarrow> cl_state c = CL_STREAMING \<and> \<not> cl_stop_requested c \<and> sa_valid (cl_server_addr c))"
  using client_reach_inv [OF assms] by (simp add: client_inv_def sent_ok_def)

theorem client_invariant_witness:
  "jb_inv (cl_jitter (client_stop dummy_player_ops sample_cenv (AudioRouterClient default_client_config)))"
  using client_invariant [OF client_reach.stop [OF client_reach.init [of dummy_player_ops default_client_config]], of sample_cenv]
  by (rule conjunct1)

section \<open>Audio from the network\<close>

lemma push_packet_prefix:
  assumes "n * jb_channels j \<le> length pcm"
  shows "push_packet t1 t2 seq ts (Some (pcm @ rest)) n j = push_packet t1 t2 seq ts (Some pcm) n j"
proof (cases "update_jitter t1 ts j")
  case (Some i)
  have "jb_config i = jb_config j" using update_jitter_frame [OF Some] by simp
  then have "jb_channels i = jb_channels j" by simp
  then show ?thesis using assms Some by (simp add: push_packet_def store_packet_def first_packet_def resync_def Let_def)
qed (simp add: push_packet_def)

text \<open>The header of an audio packet, and what the receive loop makes of an accepted one.\<close>

definition audio_accepted :: "audio_packet_header \<Rightarrow> byte list \<Rightarrow> bool" where
  "audio_accepted h pcm \<longleftrightarrow> audio_header_ok h (sizeof_audio_packet_header + length pcm)"

lemma client_receive_audio:
  assumes "cl_is_running c" "\<not> cl_stop_requested c" "udp_is_open (cl_socket c)" "length (cl_recv_buf c) = 65536"
    and "audio_accepted h pcm" and "length pcm \<le> 65500"
  shows "\<exists>d. cl_jitter d = cl_jitter c \<and> same_but_config (d\<lparr>cl_last_packet_time_ms := cl_last_packet_time_ms c, cl_stats := cl_stats c, cl_recv_buf := cl_recv_buf c\<rparr>) c \<and>
    cl_audio_config d = cl_audio_config c \<and> cl_socket d = cl_socket c \<and> cl_sent d = cl_sent c \<and> length (cl_recv_buf d) = 65536 \<and>
    client_receive env (36 + int (length pcm), encode_audio_packet_header h @ pcm, src) c =
    map_option (\<lambda>(_, j). d\<lparr>cl_jitter := j\<rparr>)
      (push_packet (ce_now_us env) (ce_now_ms env) (ch_seq_num (ah_common h)) (ch_timestamp_us (ah_common h))
         (Some (bytes_pcm (pcm @ drop (36 + length pcm) (cl_recv_buf c)))) (unat (ah_num_frames h)) (cl_jitter c))"
proof -
  define n where "n = 36 + length pcm"
  define buf where "buf = blit (cl_recv_buf c) 0 (encode_audio_packet_header h @ pcm)"
  define rest where "rest = drop n (cl_recv_buf c)"
  have buf: "buf = encode_audio_packet_header h @ pcm @ rest"
    by (simp add: buf_def blit_def rest_def n_def sizeof_audio_packet_header_def)
  have len: "length buf = 65536" using assms(4,6) by (simp add: buf rest_def n_def sizeof_audio_packet_header_def)
  have hdr: "decode_common_header buf = ah_common h"
    by (simp add: buf encode_audio_packet_header_def)
  have ok: "header_ok (ah_common h) n" "validate_audio_header h n = Inr ()"
    using assms(5) by (simp_all add: audio_accepted_def audio_header_ok_def validate_audio_header_iff n_def sizeof_audio_packet_header_def)
  have mt: "msg_type_of_u8 (ch_msg_type (ah_common h)) = AUDIO_DATA"
    using assms(5) msg_type_roundtrip [of AUDIO_DATA] by (simp add: audio_accepted_def audio_header_ok_def)
  define d where "d = c\<lparr>cl_recv_buf := buf, cl_last_packet_time_ms := ce_now_ms env,
    cl_stats := (cl_stats c)\<lparr>cs_packets_received := cs_packets_received (cl_stats c) + 1, cs_bytes_received := cs_bytes_received (cl_stats c) + word_of_nat n\<rparr>\<rparr>"
  have ev: "cl_receive_from (int n, encode_audio_packet_header h @ pcm, src) c = (int n, encode_audio_packet_header h @ pcm, SocketAddress_raw src)"
    using assms(3) by (simp add: cl_receive_from_def udp_receive_from_def)
  have tk: "take n (encode_audio_packet_header h @ pcm) = encode_audio_packet_header h @ pcm"
    by (simp add: n_def sizeof_audio_packet_header_def)
  have "client_receive env (int n, encode_audio_packet_header h @ pcm, src) c = handle_audio_data env n d"
    using assms(1,2) ok(1) mt hdr ev tk
    by (simp add: client_receive_def buf_def [symmetric] d_def is_valid_header_iff Let_def)
       (simp add: n_def sizeof_common_header_def)
  also have "\<dots> = map_option (\<lambda>(_, j). d\<lparr>cl_jitter := j\<rparr>)
      (push_packet (ce_now_us env) (ce_now_ms env) (ch_seq_num (ah_common h)) (ch_timestamp_us (ah_common h))
         (Some (bytes_pcm (pcm @ rest))) (unat (ah_num_frames h)) (cl_jitter c))"
    using ok(2) by (simp add: handle_audio_data_def d_def buf Let_def) (simp add: n_def sizeof_audio_packet_header_def)
  finally show ?thesis using len by (auto simp: n_def rest_def d_def same_but_config_def intro!: exI [of _ d])
qed

end
