(* ===== verification/Client_Stream.thy ===== *)
theory Client_Stream
  imports Client_Session
begin

text \<open>
  What the client makes of the packets it receives and how a session ends: audio on its way to the
  jitter buffer and to the player, two packets the checks let through, the watchdog, \<open>stop\<close>, and the
  USB relay.
\<close>

section \<open>Packets that match the stream\<close>

lemma client_receive_exact:
  assumes "cl_is_running c" "\<not> cl_stop_requested c" "udp_is_open (cl_socket c)" "length (cl_recv_buf c) = 65536"
    and "audio_accepted h pcm" and "length pcm = 2 * (unat (ah_num_frames h) * jb_channels (cl_jitter c))" and "length pcm \<le> 65500"
  shows "\<exists>d. cl_audio_config d = cl_audio_config c \<and> cl_is_running d \<and> \<not> cl_stop_requested d \<and> cl_socket d = cl_socket c \<and> length (cl_recv_buf d) = 65536 \<and>
    client_receive env (36 + int (length pcm), encode_audio_packet_header h @ pcm, src) c =
    map_option (\<lambda>(_, j). d\<lparr>cl_jitter := j\<rparr>)
      (push_packet (ce_now_us env) (ce_now_ms env) (ch_seq_num (ah_common h)) (ch_timestamp_us (ah_common h))
         (Some (bytes_pcm pcm)) (unat (ah_num_frames h)) (cl_jitter c))"
proof -
  have "bytes_pcm (pcm @ drop (36 + length pcm) (cl_recv_buf c)) = bytes_pcm pcm @ bytes_pcm (drop (36 + length pcm) (cl_recv_buf c))"
    by (rule bytes_pcm_append) (simp add: assms(6))
  moreover have "unat (ah_num_frames h) * jb_channels (cl_jitter c) \<le> length (bytes_pcm pcm)" using assms(6) by simp
  ultimately show ?thesis
    using client_receive_audio [OF assms(1-5,7), of env src] push_packet_prefix assms(1,2) by (fastforce simp: same_but_config_def)
qed

section \<open>Packets that do not\<close>

lemma fresh_push:
  assumes "jb_inv j0" and "0 < n" and "length pcm = n * unat (ac_channels config)" and "unat now_us < 2 ^ 62" and "unat ts < 2 ^ 62"
  shows "\<exists>ok j. push_packet now_us now_ms seq ts (Some pcm) n (jb_configure config target j0) = Some (ok, j) \<and> jb_stream j = pcm"
  using configured_push_all [OF assms(1), of "[(now_us, now_ms, ts, pcm, n)]" config seq target] assms(2-5)
  by (auto simp: MAX_SLOTS_def split: option.splits)

text \<open>
  Claim C39: the receive loop checks a packet against its own channel count and stores it with the
  stream's. A well-formed one-channel packet in a two-channel session is accepted, and the second half
  of what is played for it is not audio of the packet but whatever an earlier datagram left in the
  receive buffer.
\<close>

theorem mono_packet_plays_stale_memory:
  assumes "cl_is_running c" "\<not> cl_stop_requested c" "udp_is_open (cl_socket c)" "length (cl_recv_buf c) = 65536"
    and "cl_jitter c = jb_configure config target j0" and "jb_inv j0" and "ac_channels config = 2"
    and "audio_accepted h pcm" and "length pcm = 2 * unat (ah_num_frames h)"
    and "unat (ce_now_us env) < 2 ^ 62" and "unat (ch_timestamp_us (ah_common h)) < 2 ^ 62"
  shows "\<exists>c'. client_receive env (36 + int (length pcm), encode_audio_packet_header h @ pcm, src) c = Some c' \<and>
    jb_stream (cl_jitter c') = bytes_pcm pcm @ take (unat (ah_num_frames h)) (bytes_pcm (drop (36 + length pcm) (cl_recv_buf c)))"
proof -
  define f where "f = unat (ah_num_frames h)"
  define old where "old = bytes_pcm (drop (36 + length pcm) (cl_recv_buf c))"
  have f: "0 < f" "f \<le> 8192" using assms(8)
    by (simp_all add: f_def audio_accepted_def audio_header_ok_def word_less_nat_alt word_le_nat_alt)
  have ch: "jb_channels (cl_jitter c) = 2" using assms(5,7) by (simp add: jb_configure_def jb_reset_def Let_def)
  have old: "length old = 32750 - f" using assms(4,9) by (simp add: old_def f_def)
  have split: "bytes_pcm (pcm @ drop (36 + length pcm) (cl_recv_buf c)) = (bytes_pcm pcm @ take f old) @ drop f old"
    using assms(9) by (simp add: bytes_pcm_append old_def)
  have len: "length (bytes_pcm pcm @ take f old) = f * 2" using old f assms(9) by (simp add: f_def)
  obtain ok j where j: "push_packet (ce_now_us env) (ce_now_ms env) (ch_seq_num (ah_common h)) (ch_timestamp_us (ah_common h))
      (Some (bytes_pcm pcm @ take f old)) f (cl_jitter c) = Some (ok, j)" "jb_stream j = bytes_pcm pcm @ take f old"
    using fresh_push [OF assms(6) f(1), of "bytes_pcm pcm @ take f old" config "ce_now_us env" "ch_timestamp_us (ah_common h)"] len assms(5,7,10,11)
    by fastforce
  have "f * jb_channels (cl_jitter c) \<le> length (bytes_pcm pcm @ take f old)" using len ch by simp
  from push_packet_prefix [OF this, of _ _ _ _ "drop f old"] j(1)
  have "push_packet (ce_now_us env) (ce_now_ms env) (ch_seq_num (ah_common h)) (ch_timestamp_us (ah_common h))
      (Some (bytes_pcm (pcm @ drop (36 + length pcm) (cl_recv_buf c)))) f (cl_jitter c) = Some (ok, j)"
    by (simp add: split)
  moreover have "length pcm \<le> 65500" using f assms(9) by (simp add: f_def)
  ultimately show ?thesis using client_receive_audio [OF assms(1-4,8), of env src] j(2) by (auto simp: f_def old_def)
qed

definition stereo_client :: "dummy_player client" where
  "stereo_client = sample_client\<lparr>cl_jitter := jb_configure default_audio_config 35 (JitterBuffer 35), cl_recv_buf := replicate 65536 7\<rparr>"

definition mono_header :: audio_packet_header where
  "mono_header = \<lparr>ah_common = make_header AUDIO_DATA 5 1000 14 FLAG_NONE, ah_sample_rate = 48000, ah_channels = 1, ah_format = 1,
     ah_reserved = 0, ah_num_frames = 1\<rparr>"

theorem mono_packet_plays_stale_memory_witness:
  "\<exists>c'. client_receive sample_cenv (38, encode_audio_packet_header mono_header @ [1, 2], zero_addr) stereo_client = Some c' \<and>
        jb_stream (cl_jitter c') = [0x0201, 0x0707]"
proof -
  have h: "audio_accepted mono_header [1, 2]"
    by (simp add: audio_accepted_def audio_header_ok_def mono_header_def header_ok_make_header protocol_consts sizeof_defs)
       (simp add: make_header_def)
  have c: "cl_is_running stereo_client" "\<not> cl_stop_requested stereo_client" "udp_is_open (cl_socket stereo_client)"
    "length (cl_recv_buf stereo_client) = 65536" "cl_jitter stereo_client = jb_configure default_audio_config 35 (JitterBuffer 35)"
    "ac_channels default_audio_config = 2" "length [1, 2 :: byte] = 2 * unat (ah_num_frames mono_header)"
    "unat (ce_now_us sample_cenv) < 2 ^ 62" "unat (ch_timestamp_us (ah_common mono_header)) < 2 ^ 62"
    by (simp_all add: stereo_client_def default_audio_config_def mono_header_def sample_cenv_def make_header_def)
  have d: "replicate 65498 (7 :: byte) = 7 # 7 # replicate 65496 7"
    using replicate_add [of 2 65496 "7 :: byte"] by (simp add: numeral_2_eq_2)
  from mono_packet_plays_stale_memory [OF c(1-5) jb_inv_JitterBuffer c(6) h c(7-9), of zero_addr] show ?thesis
    by (simp add: stereo_client_def mono_header_def d)
qed

text \<open>
  The channel count of a CONNECT_ACK is not checked. When it is so large that the frames of a
  packet do not fit into the receive buffer any more, a well-formed audio packet makes the client read
  behind the end of that buffer.
\<close>

theorem unchecked_channels_overread:
  assumes "cl_is_running c" "\<not> cl_stop_requested c" "udp_is_open (cl_socket c)" "length (cl_recv_buf c) = 65536"
    and "cl_jitter c = jb_configure config target j0" and "jb_inv j0"
    and "audio_accepted h pcm" and "even (length pcm)" and "length pcm \<le> 65500"
    and "32750 < unat (ah_num_frames h) * unat (ac_channels config)"
  shows "client_receive env (36 + int (length pcm), encode_audio_packet_header h @ pcm, src) c = None"
proof -
  define j where "j = cl_jitter c"
  have j: "jb_inv j" "\<not> jb_has_first_packet j" "jb_config j = config" "jb_last_arrival_timestamp_us j = 0"
    using assms(5) jb_inv_configure [OF assms(6)] by (simp_all add: j_def jb_configure_def jb_reset_def Let_def)
  define i where "i = j\<lparr>jb_last_arrival_timestamp_us := ce_now_us env\<rparr>"
  have i: "update_jitter (ce_now_us env) ts j = Some i" for ts using j(4) by (simp add: update_jitter_def i_def)
  have n: "unat (ah_num_frames h) \<noteq> 0" using assms(10) by (cases "unat (ah_num_frames h)") auto
  define seq where "seq = ch_seq_num (ah_common h)"
  have q: "jb_next_play_seq (arrived seq i) = seq" using j(2) by (simp add: arrived_def first_packet_def i_def)
  have nh: "\<not> holds_seq seq (arrived seq i)"
    using j(1,2) by (simp add: jb_inv_def holds_seq_def i_def Let_def)
  have len: "length (bytes_pcm (pcm @ drop (36 + length pcm) (cl_recv_buf c))) = 32750"
    using assms(4,8,9) by simp
  have "push_packet (ce_now_us env) (ce_now_ms env) seq ts (Some (bytes_pcm (pcm @ drop (36 + length pcm) (cl_recv_buf c))))
      (unat (ah_num_frames h)) j = None" for ts
    using push_packet_unfold [OF i n] q nh len assms(10) j(3) by (simp add: is_late_def window_for_def Let_def i_def)
  then show ?thesis using client_receive_audio [OF assms(1-4,7,9), of env src] by (auto simp: j_def seq_def)
qed

theorem unchecked_channels_overread_witness:
  "\<exists>pcm. client_receive sample_cenv (38, encode_audio_packet_header mono_header @ pcm, zero_addr)
     (sample_client\<lparr>cl_jitter := jb_configure (default_audio_config\<lparr>ac_channels := 40000\<rparr>) 35 (JitterBuffer 35)\<rparr>) = None"
proof -
  define c where "c = sample_client\<lparr>cl_jitter := jb_configure (default_audio_config\<lparr>ac_channels := 40000\<rparr>) 35 (JitterBuffer 35)\<rparr>"
  have h: "audio_accepted mono_header [1, 2]"
    by (simp add: audio_accepted_def audio_header_ok_def mono_header_def header_ok_make_header protocol_consts sizeof_defs)
       (simp add: make_header_def)
  have c: "cl_is_running c" "\<not> cl_stop_requested c" "udp_is_open (cl_socket c)" "length (cl_recv_buf c) = 65536"
    "cl_jitter c = jb_configure (default_audio_config\<lparr>ac_channels := 40000\<rparr>) 35 (JitterBuffer 35)"
    "32750 < unat (ah_num_frames mono_header) * unat (ac_channels (default_audio_config\<lparr>ac_channels := 40000\<rparr>))"
    "even (length [1, 2 :: byte])" "length [1, 2 :: byte] \<le> 65500"
    by (simp_all add: c_def mono_header_def) (simp add: sample_client_def AudioRouterClient_def)
  from unchecked_channels_overread [OF c(1-5) jb_inv_JitterBuffer h c(7,8,6), of sample_cenv zero_addr] show ?thesis
    by (auto simp: c_def intro!: exI [of _ "[1, 2]"])
qed

section \<open>The end of a session\<close>

lemma client_receive_valid:
  assumes "cl_is_running c" "\<not> cl_stop_requested c" "udp_is_open (cl_socket c)"
    and "header_ok hdr (24 + length body)" and "t = msg_type_of_u8 (ch_msg_type hdr)"
    and "t \<noteq> AUDIO_DATA" "t \<noteq> HEARTBEAT_PONG"
  shows "\<exists>c'. client_receive env (24 + int (length body), encode_common_header hdr @ body, src) c = Some c' \<and>
              cl_is_running c' = (t \<noteq> DISCONNECT_ACK \<and> t \<noteq> DISCONNECT_REQ) \<and> cl_audio_config c' = cl_audio_config c \<and>
              cl_jitter c' = cl_jitter c \<and> cl_state c' = cl_state c \<and> cl_last_packet_time_ms c' = ce_now_ms env"
proof -
  define n where "n = 24 + length body"
  define pkt where "pkt = encode_common_header hdr @ body"
  have tk: "take n pkt = pkt" by (simp add: n_def pkt_def sizeof_common_header_def)
  have dec: "decode_common_header (blit b 0 pkt) = hdr" for b by (simp add: blit_def pkt_def)
  have ev: "cl_receive_from (int n, pkt, src) c = (int n, pkt, SocketAddress_raw src)"
    using assms(3) by (simp add: cl_receive_from_def udp_receive_from_def)
  have n': "\<not> n < sizeof_common_header" "\<not> int n \<le> 0" by (simp_all add: n_def sizeof_common_header_def)
  have "\<exists>c'. client_receive env (int n, pkt, src) c = Some c' \<and>
              cl_is_running c' = (t \<noteq> DISCONNECT_ACK \<and> t \<noteq> DISCONNECT_REQ) \<and> cl_audio_config c' = cl_audio_config c \<and>
              cl_jitter c' = cl_jitter c \<and> cl_state c' = cl_state c \<and> cl_last_packet_time_ms c' = ce_now_ms env"
    using assms(1,2,4-7) n' unfolding client_receive_def
    by (cases t) (simp_all add: ev tk dec is_valid_header_iff n_def [symmetric] Let_def)
  then show ?thesis by (simp add: n_def pkt_def)
qed

text \<open>
  The client does not look at who sends a DISCONNECT. Any well-formed disconnect datagram,
  from whatever address, ends a running session.
\<close>

theorem stranger_ends_session:
  assumes "cl_is_running c" "\<not> cl_stop_requested c" "udp_is_open (cl_socket c)"
    and "header_ok hdr (24 + length body)" and "msg_type_of_u8 (ch_msg_type hdr) = DISCONNECT_REQ"
  shows "\<exists>c'. client_receive env (24 + int (length body), encode_common_header hdr @ body, src) c = Some c' \<and> \<not> cl_is_running c'"
  using client_receive_valid [OF assms(1-4) refl, of env src] assms(5) by auto

theorem stranger_ends_session_witness:
  "\<exists>c'. client_receive sample_cenv (24, encode_common_header (make_header DISCONNECT_REQ 0 0 0 FLAG_NONE) @ [],
          \<lparr>sin_family = AF_INET, sin_port = 666, s_addr = 666\<rparr>) sample_client = Some c' \<and> \<not> cl_is_running c'"
proof -
  have h: "header_ok (make_header DISCONNECT_REQ 0 0 0 FLAG_NONE) (24 + length ([] :: byte list))"
    by (simp add: header_ok_make_header protocol_consts sizeof_defs)
  have t: "msg_type_of_u8 (ch_msg_type (make_header DISCONNECT_REQ 0 0 0 FLAG_NONE)) = DISCONNECT_REQ"
    using msg_type_roundtrip [of DISCONNECT_REQ] by (simp add: make_header_def)
  from stranger_ends_session [OF _ _ _ h t, of sample_client sample_cenv "\<lparr>sin_family = AF_INET, sin_port = 666, s_addr = 666\<rparr>"]
  show ?thesis by simp
qed

text \<open>
  \<open>stop\<close> tells the server with exactly one DISCONNECT_REQ, closes the socket and the player,
  and leaves a client that \<open>stop\<close> does not change any more.
\<close>

theorem client_stop_complete:
  assumes "audio_player ops good" and "cl_is_running c" and "udp_is_open (cl_socket c)" and "sa_valid (cl_server_addr c)"
  shows "let d = client_stop ops env c in
         cl_sent d = cl_sent c @ [(disconnect_req_packet (ce_now_us env), cl_server_addr c)] \<and> \<not> udp_is_open (cl_socket d) \<and>
         \<not> cl_is_running d \<and> cl_shutdown d \<and> (\<forall>p. cl_player d = Some p \<longrightarrow> \<not> po_is_open ops p) \<and> client_stop ops env2 d = d"
  using assms audio_player.close_closes [OF assms(1)]
  by (auto simp: client_stop_def close_socket_def cl_send_open udp_close_def udp_is_open_def Let_def)

theorem client_stop_complete_witness:
  "cl_sent (client_stop dummy_player_ops sample_cenv sample_client) = [(disconnect_req_packet 2000000, sample_addr)] \<and>
   \<not> udp_is_open (cl_socket (client_stop dummy_player_ops sample_cenv sample_client))"
proof -
  have "cl_sent sample_client = []" by (simp add: sample_client_def AudioRouterClient_def)
  then show ?thesis using client_stop_complete [OF dummy_sink.audio_player_axioms, of sample_client sample_cenv sample_cenv]
    by (simp add: Let_def sample_cenv_def)
qed

lemma start_after_stop_request:
  assumes "cl_stop_requested c" and "\<not> cl_is_running c" and "sent_ok c"
  shows "\<not> fst (client_start env st c)"
proof -
  define d where "d = c\<lparr>cl_config := (cl_config c)\<lparr>cf_device_name := device_for_start (cl_config c)\<rparr>,
    cl_socket := snd (udp_open (ce_socket env) (cl_socket c))\<rparr>"
  define r where "r = (if cf_usb_mode (cl_config d) then usb_target st d else lan_target env st d)"
  have "sent_ok d" "cl_stop_requested d" using assms by (simp_all add: d_def sent_ok_def)
  then have "target_found d r" by (simp add: r_def usb_target_found lan_target_found)
  then have "cl_stop_requested (snd r)" using \<open>cl_stop_requested d\<close> by (simp add: target_found_def)
  then have "\<not> fst (connect_to_server env st (snd r))" by (simp add: connect_to_server_def perform_handshake_def Let_def)
  then show ?thesis using assms(2)
    by (cases "cf_usb_mode (cl_config d)") (auto simp: client_start_def d_def [symmetric] r_def case_prod_unfold Let_def)
qed

text \<open>
  A client that was stopped cannot be started again: the stop flag is never cleared, so that
  every later \<open>start\<close> fails in its handshake.
\<close>

theorem stopped_client_never_restarts:
  assumes "client_reach ops config c" and "cl_is_running c \<or> cl_state c \<noteq> CL_STOPPED"
  shows "\<not> fst (client_start env st (client_stop ops env2 c))"
proof (rule start_after_stop_request)
  have "client_inv (client_stop ops env2 c)" by (rule client_inv_stop [OF client_reach_inv [OF assms(1)]])
  then show "sent_ok (client_stop ops env2 c)" by (simp add: client_inv_def)
qed (use assms(2) in \<open>auto simp: client_stop_def close_socket_def Let_def\<close>)

definition sample_start_env :: "dummy_player start_env" where
  "sample_start_env =
     \<lparr>st_resolver = \<lparr>inet_pton = (\<lambda>_. Some 16777343), gethostbyname = (\<lambda>_. None), inet_ntop = (\<lambda>_. None)\<rparr>,
      st_relay_socket = 5, st_relay_bind_ok = True, st_relay_addr = None, st_interfaces = [], st_pin_ok = (\<lambda>_. True),
      st_discovery = (\<lambda>_. (- 1, [], zero_addr)), st_handshake = (\<lambda>_. (False, ack_event)), st_dummy = DummyPlayer,
      st_dummy_open = (\<lambda>a n p. snd (dummy_player_open a n p))\<rparr>"

theorem stopped_client_never_restarts_witness:
  "\<exists>c. client_start sample_cenv sample_start_env (AudioRouterClient default_client_config) = (True, c) \<and>
       \<not> fst (client_start sample_cenv sample_start_env (client_stop dummy_player_ops sample_cenv c))"
proof -
  define c0 :: "dummy_player client" where "c0 = (AudioRouterClient default_client_config)
    \<lparr>cl_socket := UdpSocket\<lparr>us_handle := 4\<rparr>, cl_server_addr := SocketAddress (st_resolver sample_start_env) ''127.0.0.1'' DEFAULT_PORT,
     cl_player := None, cl_state := CONNECTING\<rparr>"
  have v: "sa_valid (cl_server_addr c0)" "udp_is_open (cl_socket c0)" "\<not> cl_stop_requested c0"
    by (simp_all add: c0_def sample_start_env_def SocketAddress_def udp_is_open_def UdpSocket_def INVALID_SOCKET_HANDLE_def AudioRouterClient_def Let_def)
  obtain pkt src a where ack: "ack_event = (99, pkt, src)" "handshake_reply 99 pkt (cl_audio_config c0) = Accepted a"
    by (auto simp: ack_event_def handshake_reply_ack)
  have "\<exists>h. perform_handshake sample_cenv (\<lambda>_. (False, ack_event)) c0 = (True, h)"
    using handshake_try [OF v(2,1), of "\<lambda>_. (False, ack_event)" 4 99 pkt src sample_cenv] ack v(3)
    by (simp add: perform_handshake_def Let_def)
  then obtain h where h: "perform_handshake sample_cenv (\<lambda>_. (False, ack_event)) c0 = (True, h)" ..
  define c where "c = begin_streaming sample_cenv sample_start_env h"
  have "client_start sample_cenv sample_start_env (AudioRouterClient default_client_config) = (True, c)"
    using h v by (simp add: client_start_def device_for_start_def lan_target_def pin_interface_def connect_to_server_def c_def
        c0_def udp_open_def AudioRouterClient_def default_client_config_def UdpSocket_def udp_is_open_def INVALID_SOCKET_HANDLE_def
        sample_cenv_def Let_def) (simp add: sample_start_env_def)
  moreover from client_reach.start [OF client_reach.init this] have "client_reach dummy_player_ops default_client_config c" .
  moreover have "cl_is_running c" by (simp add: c_def begin_streaming_def Let_def)
  ultimately show ?thesis using stopped_client_never_restarts by blast
qed

section \<open>Watchdog\<close>

text \<open>
  The watchdog of the heartbeat thread reads the clock before it reads the time of the last
  packet. When a packet arrives between the two, the difference wraps around and a session that is
  alive goes through a new handshake.
\<close>

theorem client_watchdog_race:
  assumes "cl_is_running c" "\<not> cl_stop_requested c" and "ce_now_ms env < cl_last_packet_time_ms c"
    and "unat (cl_last_packet_time_ms c) - unat (ce_now_ms env) < 2 ^ 63"
  shows "heartbeat_turn env evs c =
         (snd (perform_handshake env evs (snd (cl_send env (ping_packet env c) (cl_server_addr c) c))))\<lparr>cl_last_packet_time_ms := ce_now_ms2 env\<rparr>"
proof -
  define l where "l = cl_last_packet_time_ms c"
  define t where "t = ce_now_ms env"
  have lt: "unat t < unat l" using assms(3) by (simp add: t_def l_def word_less_nat_alt)
  have "unat (t - l) = unat t + 2 ^ 64 - unat l" using lt unat_sub_if' [of t l] by simp
  then have "2 ^ 63 < unat (t - l)" using assms(4) lt by (simp add: t_def [symmetric] l_def [symmetric])
  moreover have "unat (ucast (cf_reconnect_timeout_ms (cl_config c)) :: u64) < 2 ^ 32" using unat_u32_less by simp
  ultimately have "ucast (cf_reconnect_timeout_ms (cl_config c)) < t - l" by (simp add: word_less_nat_alt)
  moreover have "0 < l" using lt by (simp add: word_less_nat_alt)
  ultimately show ?thesis using assms(1,2) by (simp add: heartbeat_turn_def l_def t_def Let_def)
qed

theorem client_watchdog_race_witness:
  "cl_last_packet_time_ms (heartbeat_turn (sample_cenv\<lparr>ce_now_ms := 999\<rparr>) (\<lambda>_. (True, - 1, [], zero_addr)) sample_client) = 2001"
proof -
  have "ce_now_ms (sample_cenv\<lparr>ce_now_ms := 999\<rparr>) < cl_last_packet_time_ms sample_client"
    "unat (cl_last_packet_time_ms sample_client) - unat (ce_now_ms (sample_cenv\<lparr>ce_now_ms := 999\<rparr>)) < 2 ^ 63"
    by (simp_all add: sample_client_def)
  from client_watchdog_race [OF _ _ this] show ?thesis by (simp add: sample_cenv_def)
qed

section \<open>Playback\<close>

lemma period_frames_pos: "0 < period_frames a"
  by (simp add: period_frames_def word_less_nat_alt)

text \<open>
  Claim C26: A turn of the playback thread takes one full period out of the jitter buffer, hands exactly
  that period to the open player, and counts exactly the frames the player took, never more than the
  period; it sleeps only when the player took nothing or, for a backend that must be paced, when more
  than 60 ms are queued, and then so that 40 ms are left.
\<close>

theorem playback_turn_exact:
  assumes "audio_player ops good" and "good p" and "cl_is_running c" and "cl_player c = Some p" and "po_is_open ops p"
    and "jb_inv (cl_jitter c)" and "length buf = period_frames a * jb_channels (cl_jitter c)"
    and "\<And>b. length b = length buf \<Longrightarrow> \<exists>w q. po_write_frames ops b (period_frames a) p = Some (w, q)"
  shows "\<exists>out j w q t c'.
     pop_frames (ce_now_ms env) (Some buf) (period_frames a) (cl_jitter c) = Some (period_frames a, Some out, j) \<and>
     po_write_frames ops out (period_frames a) p = Some (w, q) \<and> w \<le> period_frames a \<and> good q \<and>
     playback_turn ops env a buf c = Some (t, out, c') \<and> cl_jitter c' = j \<and> jb_inv j \<and> cl_player c' = Some q \<and>
     cs_frames_played (cl_stats c') = cs_frames_played (cl_stats c) + of_nat w \<and>
     t = (if w = 0 then fallback_sleep_ms a
          else if cs_audio_backend_delay_ms (cl_stats c') > 60 \<and> po_needs_playback_pacing ops
          then cs_audio_backend_delay_ms (cl_stats c') - 40 else 0)"
proof -
  obtain out j where pop: "pop_frames (ce_now_ms env) (Some buf) (period_frames a) (cl_jitter c) = Some (period_frames a, Some out, j)"
    and out: "length out = length buf" "jb_inv j"
    using pop_frames_defined [OF assms(6), of "period_frames a" buf "ce_now_ms env"] assms(7) by auto
  obtain w q where wr: "po_write_frames ops out (period_frames a) p = Some (w, q)" using assms(8) [OF out(1)] by blast
  have b: "w \<le> period_frames a" "good q" using audio_player.write_bounded [OF assms(1,2) wr] by simp_all
  show ?thesis using pop wr b out(2) assms(3-5) period_frames_pos [of a]
    by (cases "w = 0") (simp_all add: playback_turn_def Let_def)
qed

theorem playback_turn_exact_witness:
  "\<exists>t out c'. playback_turn dummy_player_ops sample_cenv default_audio_config (replicate 960 0)
     (sample_client\<lparr>cl_player := Some (DummyPlayer\<lparr>dp_is_open := True\<rparr>)\<rparr>) = Some (t, out, c') \<and> cs_frames_played (cl_stats c') = 480"
proof -
  define c where "c = sample_client\<lparr>cl_player := Some (DummyPlayer\<lparr>dp_is_open := True\<rparr>)\<rparr>"
  have j: "cl_jitter c = JitterBuffer 35"
    by (simp add: c_def sample_client_def AudioRouterClient_def default_client_config_def)
  have c: "cl_is_running c" "cl_player c = Some (DummyPlayer\<lparr>dp_is_open := True\<rparr>)" "po_is_open dummy_player_ops (DummyPlayer\<lparr>dp_is_open := True\<rparr>)"
    by (simp_all add: c_def dummy_player_ops_def)
  have inv: "jb_inv (cl_jitter c)" by (simp add: j jb_inv_JitterBuffer)
  have per: "period_frames default_audio_config = 480" by (simp add: period_frames_def default_audio_config_def)
  have len: "length (replicate 960 (0 :: i16)) = period_frames default_audio_config * jb_channels (cl_jitter c)"
    by (simp add: j per JitterBuffer_def) (simp add: default_audio_config_def)
  have played: "cs_frames_played (cl_stats c) = 0" by (simp add: c_def sample_client_def AudioRouterClient_def)
  have w: "po_write_frames dummy_player_ops b n (DummyPlayer\<lparr>dp_is_open := True\<rparr>) = Some (k, q) \<Longrightarrow> k = n"
    "\<exists>k q. po_write_frames dummy_player_ops b n (DummyPlayer\<lparr>dp_is_open := True\<rparr>) = Some (k, q)" for b n k q
    by (auto simp: dummy_player_ops_def dummy_player_write_def Let_def)
  from playback_turn_exact [OF dummy_sink.audio_player_axioms TrueI c inv len, of sample_cenv] w(2)
  obtain out j' w' q t c' where "po_write_frames dummy_player_ops out (period_frames default_audio_config) (DummyPlayer\<lparr>dp_is_open := True\<rparr>) = Some (w', q)"
    "playback_turn dummy_player_ops sample_cenv default_audio_config (replicate 960 0) c = Some (t, out, c')"
    "cs_frames_played (cl_stats c') = cs_frames_played (cl_stats c) + of_nat w'" by blast
  moreover from this(1) have "w' = 480" using w(1) per by simp
  ultimately show ?thesis using played by (auto simp: c_def)
qed

section \<open>USB relay\<close>

lemma read_one_of_two:
  assumes "length p \<le> kMaxFramePayload"
  shows "read_frame [] [Received (frame_bytes p @ rest)] = Some (Frame, rest, p, [])"
  using read_frame_received [of "[]" "frame_bytes p @ rest" "[]"] extract_frame_whole [OF assms, of rest]
  by (simp add: extract_frame_def kFrameHeaderSize_def read_frame.simps [of "frame_bytes p @ rest"])

text \<open>
  The relay reads one frame for each time the tunnel is readable. When two datagrams arrive
  in one piece, the first is delivered and the second stays in the reassembly buffer, complete, for as
  long as no further bytes arrive on the tunnel.
\<close>

theorem relay_holds_back_frame:
  assumes "ur_tcp_open r" and "ur_rx_buf r = []" and "sa_valid (ur_engine_peer r)"
    and "length p \<le> kMaxFramePayload" and "length q \<le> kMaxFramePayload" and "length (frame_bytes p @ frame_bytes q) \<le> 4096"
  shows "\<exists>r'. usb_relay_turn ok 1 [Received (frame_bytes p @ frame_bytes q)] ev outs r = Some (Some (p, ur_engine_peer r), [], r') \<and>
              extract_frame (ur_rx_buf r') = Some (Frame, [], q) \<and>
              (\<forall>ok' routs ev' souts. usb_relay_turn ok' 0 routs ev' souts r' = Some (None, [], r'))"
proof -
  define r' where "r' = r\<lparr>ur_rx_buf := frame_bytes q\<rparr>"
  have "usb_relay_turn ok 1 [Received (frame_bytes p @ frame_bytes q)] ev outs r = Some (Some (p, ur_engine_peer r), [], r')"
    using assms(1-3) read_one_of_two [OF assms(4)] by (simp add: usb_relay_turn_def usb_connect_def usb_from_tunnel_def r'_def Let_def)
  moreover have "extract_frame (ur_rx_buf r') = Some (Frame, [], q)" using extract_frame_whole [OF assms(5), of "[]"] by (simp add: r'_def)
  moreover have "usb_relay_turn ok' 0 routs ev' souts r' = Some (None, [], r')" for ok' routs ev' souts
    using assms(1) by (simp add: usb_relay_turn_def usb_connect_def r'_def Let_def)
  ultimately show ?thesis by blast
qed

theorem relay_holds_back_frame_witness:
  "\<exists>r'. usb_relay_turn True 1 [Received (frame_bytes [1] @ frame_bytes [2, 3])] (0, [], sample_addr) []
          (usb_relay_init\<lparr>ur_tcp_open := True, ur_engine_peer := sample_addr\<rparr>) = Some (Some ([1], sample_addr), [], r') \<and>
        usb_relay_turn True 0 [] (0, [], sample_addr) [] r' = Some (None, [], r')"
proof -
  let ?r = "usb_relay_init\<lparr>ur_tcp_open := True, ur_engine_peer := sample_addr\<rparr>"
  have "ur_tcp_open ?r" "ur_rx_buf ?r = []" "sa_valid (ur_engine_peer ?r)" "length [1 :: byte] \<le> kMaxFramePayload"
    "length [2, 3 :: byte] \<le> kMaxFramePayload" "length (frame_bytes [1] @ frame_bytes [2, 3]) \<le> 4096"
    by (simp_all add: usb_relay_init_def kMaxFramePayload_def frame_bytes_def kFrameHeaderSize_def)
  from relay_holds_back_frame [OF this, of True "(0, [], sample_addr)" "[]"] show ?thesis by auto
qed

end
