(* ===== verification/End_To_End.thy ===== *)
theory End_To_End
  imports Server_Session Client_Stream
begin

text \<open>
  The server and the client together: the format agreed in a handshake, audio from the capture
  callback into the jitter buffer, heartbeats, commands, the end of a session, and the two relays over
  one tunnel. Every datagram one side builds is fed into the handler of the other.
\<close>

section \<open>Handshake\<close>

lemma ack_packet_accepted:
  assumes "unat (ac_frames_per_packet a) < 2 ^ 16" and "ac_format a = format_of_u8 k"
  shows "handshake_reply (int (length (ack_packet now a muted))) (ack_packet now a muted) b = Accepted a"
proof -
  have w: "word_of_nat sizeof_connect_ack_payload = (75 :: u32)" by (simp add: sizeof_connect_ack_payload_def)
  have l: "int (length (ack_packet now a muted)) = 99" by (simp add: ack_packet_def wire_simps sizeof_defs)
  have "unat (ucast (ac_frames_per_packet a) :: u16) = unat (ac_frames_per_packet a)"
    using assms(1) by (simp add: unsigned_ucast_eq take_bit_nat_eq_self)
  then have f: "ucast (ucast (ac_frames_per_packet a) :: u16) = ac_frames_per_packet a" by (simp add: word_unat_eq_iff)
  have "format_of_u8 (u8_of_format (ac_format a)) = ac_format a" by (simp add: assms(2))
  then show ?thesis unfolding l unfolding ack_packet_def w by (subst handshake_reply_ack) (simp_all add: f)
qed

lemma reply_types:
  "ch_msg_type (decode_common_header (nak_packet now)) = u8_of_msg_type CONNECT_NAK"
  "ch_msg_type (decode_common_header (ack_packet now a m)) = u8_of_msg_type CONNECT_ACK"
  "ch_msg_type (decode_common_header (disconnect_packet now reason)) = u8_of_msg_type DISCONNECT_ACK"
  by (simp_all add: nak_packet_def ack_packet_def disconnect_packet_def make_header_def del: u8_of_msg_type.simps)

text \<open>
  Claim C9: a CONNECT_ACK that the server answers a connection request with goes to the client that asked,
  and the client that gets it takes over exactly the stream format of the server: the rate, the channels,
  the sample format (any value of its byte) and the packet size, provided this size fits the 16-bit field
  of the message.
\<close>

theorem stream_format_agreed:
  assumes "handle_connect_req ops env sender s = Some s'" and "sv_sent s' = sv_sent s @ [(pkt, dest)]"
    and "ch_msg_type (decode_common_header pkt) = u8_of_msg_type CONNECT_ACK"
    and "ac_format (sv_actual_audio_config s') = format_of_u8 k"
    and "unat (ac_frames_per_packet (sv_actual_audio_config s')) < 2 ^ 16"
  shows "dest = sender \<and> handshake_reply (int (length pkt)) pkt b = Accepted (sv_actual_audio_config s')"
proof -
  have served: "dest = sender \<and> (\<exists>m. pkt = ack_packet (en_now_us env) (sv_actual_audio_config s') m)"
    if "serve_client env sender t = Some s'" "sv_sent t = sv_sent s" for t
    using that(1) by (rule serve_client_frame) (use that(2) assms(2) in \<open>auto simp: logs_def\<close>)
  have nak: False if "s' = snd (sv_send env (nak_packet (en_now_us env)) sender s)"
  proof -
    have "pkt = nak_packet (en_now_us env)" using sv_send_logs [of s env "nak_packet (en_now_us env)" sender] assms(2) that by (auto simp: logs_def)
    then show False using assms(3) reply_types(1) by simp
  qed
  have "dest = sender \<and> (\<exists>m. pkt = ack_packet (en_now_us env) (sv_actual_audio_config s') m)"
    using assms(1,2) served nak
    by (auto simp: handle_connect_req_unfold Let_def split: if_splits option.splits prod.splits)
  then show ?thesis using ack_packet_accepted [OF assms(5,4)] by auto
qed

text \<open>The client of the example session ends up with the format of the test tone.\<close>

lemma connected_example:
  defines "s' \<equiv> connected_server (MockSpeaker dummy_new)"
  shows "\<exists>m. sv_sent s' = [(ack_packet (en_now_us example_env) (sv_actual_audio_config s') m, example_client)]"
    and "sv_active_client s' = example_client" and "udp_is_open (sv_socket s')"
    and "ac_format (sv_actual_audio_config s') = format_of_u8 1" and "unat (ac_frames_per_packet (sv_actual_audio_config s')) < 2 ^ 16"
    and "handle_connect_req tone_ops example_env example_client (started_server (MockSpeaker dummy_new)) = Some s'"
    and "sv_sent (started_server (MockSpeaker dummy_new)) = []"
proof -
  define s where "s = started_server (MockSpeaker dummy_new)"
  have c: "handle_connect_req tone_ops example_env example_client s = Some s'"
    using example_connect(1) [of "MockSpeaker dummy_new"] by (simp add: s_def s'_def bare_request_received)
  then show "handle_connect_req tone_ops example_env example_client (started_server (MockSpeaker dummy_new)) = Some s'" by (simp add: s_def)
  have e: "sv_engine s = Some (DummyCapture (FFin 440))" "sv_state s = LISTENING" "sv_config s = default_server_config"
    "udp_is_open (sv_socket s)" "sv_sent s = []"
    by (simp_all add: s_def server_start_default)
       (simp_all add: started_server_def server_start_def AudioRouterServer_def udp_open_def udp_bind_def udp_is_open_def
        UdpSocket_def example_env_def INVALID_SOCKET_HANDLE_def example_resolver_def SocketAddress_def default_server_config_def Let_def)
  then show "sv_sent (started_server (MockSpeaker dummy_new)) = []" by (simp add: s_def)
  have ok: "dummy_capture_start d x \<noteq> (False, r)" for d x r by (simp add: dummy_capture_start_def Let_def)
  obtain t m sp where t: "s' = snd (sv_send example_env (ack_packet (en_now_us example_env) (sv_actual_audio_config t) m) example_client
        (t\<lparr>sv_endpoint := sp, sv_state := STREAMING\<rparr>))" "sv_sent t = []" "udp_is_open (sv_socket t)" "sv_active_client t = example_client"
      "sv_actual_audio_config t = fst (snd (dummy_capture_start (desired_audio_config default_server_config) (DummyCapture (FFin 440))))"
    using c ok by (auto simp: handle_connect_req_unfold busy_with_other_def e serve_client_def accept_client_def tone_ops_def dummy_is_capturing_def
        DummyCapture_def Let_def split: option.splits prod.splits if_splits)
  then show "\<exists>m. sv_sent s' = [(ack_packet (en_now_us example_env) (sv_actual_audio_config s') m, example_client)]"
    "sv_active_client s' = example_client" "udp_is_open (sv_socket s')"
    by (auto simp: sv_send_open)
  show "ac_format (sv_actual_audio_config s') = format_of_u8 1" "unat (ac_frames_per_packet (sv_actual_audio_config s')) < 2 ^ 16"
    by (simp_all add: t(1,5) dummy_capture_start_def dummy_capture_config_def DummyCapture_def desired_audio_config_def
        default_server_config_def format_of_u8_def Let_def)
qed

theorem stream_format_agreed_witness:
  "\<exists>pkt. sv_sent (connected_server (MockSpeaker dummy_new)) = [(pkt, example_client)] \<and>
         handshake_reply (int (length pkt)) pkt (default_audio_config\<lparr>ac_channels := 7\<rparr>) =
           Accepted (sv_actual_audio_config (connected_server (MockSpeaker dummy_new)))"
proof -
  note ex = connected_example
  obtain m where m: "sv_sent (connected_server (MockSpeaker dummy_new)) = sv_sent (started_server (MockSpeaker dummy_new)) @
      [(ack_packet (en_now_us example_env) (sv_actual_audio_config (connected_server (MockSpeaker dummy_new))) m, example_client)]"
    using ex(1,7) by auto
  from stream_format_agreed [OF ex(6) m reply_types(2) ex(4,5)] show ?thesis using m ex(7) by simp
qed

section \<open>Audio\<close>

lemma push_packet_config:
  assumes "push_packet now_us now_ms seq ts (Some pcm) n j = Some (ok, j')"
  shows "jb_config j' = jb_config j"
proof (cases "n = 0")
  case True
  then show ?thesis using assms by (simp add: push_packet_def)
next
  case False
  then obtain i where i: "update_jitter now_us ts j = Some i"
    using assms by (cases "update_jitter now_us ts j") (simp_all add: push_packet_def)
  show ?thesis using assms update_jitter_frame [OF i]
    by (auto simp: push_packet_unfold [OF i False] store_packet_def Let_def split: if_splits)
qed

text \<open>Packets with consecutive numbers as the client receives them, and a run of the receive loop.\<close>

type_synonym chunk = "u64 \<times> client_env \<times> sockaddr_in \<times> byte list"

fun chunk_events :: "u32 \<Rightarrow> audio_config \<Rightarrow> nat \<Rightarrow> chunk list \<Rightarrow> (client_env \<times> recv_event) list" where
  "chunk_events seq a frames [] = []"
| "chunk_events seq a frames ((ts, env, src, pcm) # cs) =
     (let pkt = audio_packet seq ts a frames pcm
      in (env, int (length pkt), pkt, src) # chunk_events (seq + 1) a frames cs)"

fun receive_all :: "(client_env \<times> recv_event) list \<Rightarrow> 'p client \<Rightarrow> 'p client option" where
  "receive_all [] c = Some c"
| "receive_all ((env, ev) # evs) c = (case client_receive env ev c of None \<Rightarrow> None | Some c' \<Rightarrow> receive_all evs c')"

fun chunk_pcm :: "chunk \<Rightarrow> byte list" where
  "chunk_pcm (ts, env, src, pcm) = pcm"

fun chunk_arrival :: "nat \<Rightarrow> chunk \<Rightarrow> arrival" where
  "chunk_arrival frames (ts, env, src, pcm) = (ce_now_us env, ce_now_ms env, ts, bytes_pcm pcm, frames)"

fun chunk_ok :: "audio_config \<Rightarrow> nat \<Rightarrow> chunk \<Rightarrow> bool" where
  "chunk_ok a frames (ts, env, src, pcm) \<longleftrightarrow>
     length pcm = frames * bytes_per_frame a \<and> unat ts < 2 ^ 62 \<and> unat (ce_now_us env) < 2 ^ 62"

text \<open>The formats the protocol carries in one packet.\<close>

definition stream_ok :: "audio_config \<Rightarrow> nat \<Rightarrow> bool" where
  "stream_ok a frames \<longleftrightarrow>
     0 < ac_sample_rate a \<and> ac_sample_rate a \<le> 192000 \<and> 0 < ac_channels a \<and> ac_channels a \<le> 32 \<and> ac_format a = PCM_S16LE \<and>
     0 < frames \<and> frames \<le> 8192 \<and> 36 + frames * bytes_per_frame a \<le> MAX_UDP_PACKET_SIZE"

lemma receive_chunks:
  assumes "stream_ok a frames" and "\<forall>x \<in> set cs. chunk_ok a frames x"
    and "cl_is_running c" "\<not> cl_stop_requested c" "udp_is_open (cl_socket c)" "length (cl_recv_buf c) = 65536"
    and "jb_channels (cl_jitter c) = unat (ac_channels a)" and "push_all seq (map (chunk_arrival frames) cs) (cl_jitter c) = Some j"
  shows "\<exists>c'. receive_all (chunk_events seq a frames cs) c = Some c' \<and> cl_jitter c' = j \<and> cl_is_running c'"
  using assms(2-)
proof (induction cs arbitrary: c seq)
  case Nil
  then show ?case by simp
next
  case (Cons x cs)
  obtain ts env src pcm where x: "x = (ts, env, src, pcm)" by (cases x) auto
  have len: "length pcm = frames * bytes_per_frame a" using Cons.prems(1) by (simp add: x)
  have bpf: "bytes_per_frame a = 2 * unat (ac_channels a)"
    using assms(1) by (simp add: stream_ok_def bytes_per_frame_def bytes_per_sample_def)
  define h where "h = packet_header seq ts a frames (length pcm)"
  have st: "0 < ac_sample_rate a" "ac_sample_rate a \<le> 192000" "0 < ac_channels a" "ac_channels a \<le> 32" "ac_format a = PCM_S16LE"
    "0 < frames" "frames \<le> 8192" "12 + length pcm \<le> MAX_UDP_PACKET_SIZE" "length pcm \<le> 65500"
    using assms(1) len by (simp_all add: stream_ok_def MAX_UDP_PACKET_SIZE_def)
  note ok = packet_header_ok [OF st(1-7) len st(8)]
  have acc: "audio_accepted h pcm" using ok(1) by (simp add: audio_accepted_def h_def)
  have nf: "unat (ah_num_frames h) = frames" using ok(2) by (simp add: h_def)
  have l2: "length pcm = 2 * (unat (ah_num_frames h) * jb_channels (cl_jitter c))" using len bpf nf Cons.prems(6) by simp
  from client_receive_exact [OF Cons.prems(2-5) acc l2 st(9), of env src]
  obtain d where d: "cl_is_running d" "\<not> cl_stop_requested d" "cl_socket d = cl_socket c" "length (cl_recv_buf d) = 65536"
    and r: "client_receive env (36 + int (length pcm), encode_audio_packet_header h @ pcm, src) c =
      map_option (\<lambda>(_, j). d\<lparr>cl_jitter := j\<rparr>) (push_packet (ce_now_us env) (ce_now_ms env) seq ts (Some (bytes_pcm pcm)) frames (cl_jitter c))"
    by (auto simp: h_def ok(2))
  from Cons.prems(7) obtain p k where p: "push_packet (ce_now_us env) (ce_now_ms env) seq ts (Some (bytes_pcm pcm)) frames (cl_jitter c) = Some (p, k)"
    and rest: "push_all (seq + 1) (map (chunk_arrival frames) cs) k = Some j" by (auto simp: x split: option.splits)
  have k: "jb_channels k = unat (ac_channels a)" using push_packet_config [OF p] Cons.prems(6) by simp
  have IH: "\<exists>c'. receive_all (chunk_events (seq + 1) a frames cs) (d\<lparr>cl_jitter := k\<rparr>) = Some c' \<and> cl_jitter c' = j \<and> cl_is_running c'"
    by (rule Cons.IH) (use Cons.prems(1,4) d k rest in auto)
  have "int (length (audio_packet seq ts a frames pcm)) = 36 + int (length pcm)"
    by (simp add: audio_packet_split sizeof_audio_packet_header_def)
  then show ?case using IH r p by (simp add: x audio_packet_split h_def sizeof_audio_packet_header_def Let_def)
qed

text \<open>
  Claim C2: what the server captures is what the client plays. Up to 256 audio packets that the server
  builds for a 16-bit stream, with consecutive sequence numbers that may wrap, received in order by a
  client that has just configured its jitter buffer for the same stream, leave exactly the captured
  samples, in order and without a gap, in the jitter buffer.
\<close>

theorem captured_audio_reaches_playout:
  assumes "stream_ok a frames" and "\<forall>x \<in> set cs. chunk_ok a frames x" and "length cs \<le> MAX_SLOTS"
    and "cl_is_running c" "\<not> cl_stop_requested c" "udp_is_open (cl_socket c)" "length (cl_recv_buf c) = 65536"
    and "cl_jitter c = jb_configure a target j0" and "jb_inv j0"
  shows "\<exists>c'. receive_all (chunk_events seq a frames cs) c = Some c' \<and> cl_is_running c' \<and>
              jb_stream (cl_jitter c') = bytes_pcm (concat (map chunk_pcm cs))"
proof -
  have bpf: "bytes_per_frame a = 2 * unat (ac_channels a)" "0 < frames"
    using assms(1) by (simp_all add: stream_ok_def bytes_per_frame_def bytes_per_sample_def)
  have "\<forall>x \<in> set (map (chunk_arrival frames) cs). arrival_ok (unat (ac_channels a)) x"
    using assms(2) bpf by auto
  from configured_push_all [OF assms(9) _ this, of seq target] assms(3)
  obtain j where j: "push_all seq (map (chunk_arrival frames) cs) (cl_jitter c) = Some j"
    and st: "jb_stream j = concat (map arrival_pcm (map (chunk_arrival frames) cs))" using assms(8) by auto
  have ch: "jb_channels (cl_jitter c) = unat (ac_channels a)" using assms(8) by (simp add: jb_configure_def jb_reset_def Let_def)
  have "concat (map arrival_pcm (map (chunk_arrival frames) xs)) = bytes_pcm (concat (map chunk_pcm xs))"
    if "\<forall>x \<in> set xs. chunk_ok a frames x" for xs
    using that
  proof (induction xs)
    case (Cons x xs)
    then show ?case using bpf by (cases x) (simp add: bytes_pcm_append)
  qed simp
  with receive_chunks [OF assms(1,2,4-7) ch j] st assms(2) show ?thesis by auto
qed

theorem captured_audio_reaches_playout_witness:
  "\<exists>c'. receive_all (chunk_events 0xFFFFFFFF default_audio_config 1
          [(1000, sample_cenv, zero_addr, [1, 0, 2, 0]), (6000, sample_cenv, zero_addr, [3, 0, 4, 0])])
          (sample_client\<lparr>cl_jitter := jb_configure default_audio_config 35 (JitterBuffer 35)\<rparr>) = Some c' \<and>
        jb_stream (cl_jitter c') = [1, 2, 3, 4]"
proof -
  define c where "c = sample_client\<lparr>cl_jitter := jb_configure default_audio_config 35 (JitterBuffer 35)\<rparr>"
  define cs :: "chunk list" where "cs = [(1000, sample_cenv, zero_addr, [1, 0, 2, 0]), (6000, sample_cenv, zero_addr, [3, 0, 4, 0])]"
  have "stream_ok default_audio_config 1" "\<forall>x \<in> set cs. chunk_ok default_audio_config 1 x" "length cs \<le> MAX_SLOTS"
    by (simp_all add: stream_ok_def cs_def default_audio_config_def bytes_per_frame_def bytes_per_sample_def MAX_UDP_PACKET_SIZE_def
        MAX_SLOTS_def sample_cenv_def)
  moreover have "cl_is_running c" "\<not> cl_stop_requested c" "udp_is_open (cl_socket c)" "length (cl_recv_buf c) = 65536"
    "cl_jitter c = jb_configure default_audio_config 35 (JitterBuffer 35)"
    by (simp_all add: c_def) (simp add: sample_client_def AudioRouterClient_def)
  moreover have "bytes_pcm (concat (map chunk_pcm cs)) = [1, 2, 3, 4]" by (simp add: cs_def)
  ultimately have "\<exists>c'. receive_all (chunk_events 0xFFFFFFFF default_audio_config 1 cs) c = Some c' \<and> jb_stream (cl_jitter c') = [1, 2, 3, 4]"
    using captured_audio_reaches_playout [of default_audio_config 1 cs c 35 "JitterBuffer 35" "0xFFFFFFFF"] jb_inv_JitterBuffer by fastforce
  then show ?thesis by (simp only: c_def cs_def)
qed

section \<open>The end of a session\<close>

lemma packet_header_type: "msg_type_of_u8 (ch_msg_type (make_header t seq ts sz fl)) = t"
  by (simp add: make_header_def)

lemma server_receives:
  assumes "header_ok hdr (24 + length body)"
  shows "receive_datagram ops env (encode_common_header hdr @ body) sender s =
     (case msg_type_of_u8 (ch_msg_type hdr) of
        DISCOVERY_REQ \<Rightarrow> Some (handle_discovery_req env sender s)
      | CONNECT_REQ \<Rightarrow> handle_connect_req ops env sender s
      | DISCONNECT_REQ \<Rightarrow> Some (handle_disconnect_req env sender s)
      | HEARTBEAT_PING \<Rightarrow> Some (handle_heartbeat_ping env hdr body sender s)
      | CONTROL_CMD \<Rightarrow> Some (handle_control_cmd body sender s)
      | _ \<Rightarrow> Some s)"
  using assms by (simp add: receive_datagram_def is_valid_header_iff sizeof_common_header_def Let_def)

lemma small_header_ok:
  assumes "t \<noteq> UNKNOWN" and "length body = n" and "n \<le> 1000"
  shows "header_ok (make_header t seq ts (word_of_nat n) FLAG_NONE) (24 + length body)"
proof -
  have "unat (word_of_nat n :: u32) = n" using assms(3) by (simp add: unat_of_nat)
  then show ?thesis using assms by (simp add: header_ok_make_header protocol_consts(3) sizeof_common_header_def)
qed

lemma disconnect_req_received:
  "receive_datagram ops env (disconnect_req_packet now) sender s = Some (handle_disconnect_req env sender s)"
proof -
  define body where "body = encode_disconnect_payload \<lparr>dc_reason_code = 0, dc_reason = strncpy_field 64 ''Client closed''\<rparr>"
  have lb: "length body = sizeof_disconnect_payload" by (simp add: body_def wire_simps sizeof_disconnect_payload_def)
  have "header_ok (make_header DISCONNECT_REQ 0 now (word_of_nat sizeof_disconnect_payload) FLAG_NONE) (24 + length body)"
    by (rule small_header_ok) (simp_all add: lb sizeof_disconnect_payload_def)
  from server_receives [OF this, of ops env sender s] show ?thesis
    by (simp add: disconnect_req_packet_def body_def [symmetric] packet_header_type)
qed

lemma disconnect_ack_ends_client:
  assumes "cl_is_running c" "\<not> cl_stop_requested c" "udp_is_open (cl_socket c)"
  shows "\<exists>c'. client_receive cenv (int (length (disconnect_packet now reason)), disconnect_packet now reason, src) c = Some c' \<and>
              \<not> cl_is_running c'"
proof -
  define d where "d = disconnect_packet now reason"
  define b2 where "b2 = encode_disconnect_payload \<lparr>dc_reason_code = 0, dc_reason = strncpy_field 64 reason\<rparr>"
  have l2: "length b2 = sizeof_disconnect_payload" by (simp add: b2_def wire_simps sizeof_disconnect_payload_def)
  have h2: "header_ok (make_header DISCONNECT_ACK 0 now (word_of_nat sizeof_disconnect_payload) FLAG_NONE) (24 + length b2)"
    by (rule small_header_ok) (simp_all add: l2 sizeof_disconnect_payload_def)
  have d: "d = encode_common_header (make_header DISCONNECT_ACK 0 now (word_of_nat sizeof_disconnect_payload) FLAG_NONE) @ b2"
    by (simp add: d_def disconnect_packet_def b2_def)
  have "int (length d) = 24 + int (length b2)" by (simp add: d sizeof_common_header_def)
  then have "\<exists>c'. client_receive cenv (int (length d), d, src) c = Some c' \<and> \<not> cl_is_running c'"
    using client_receive_valid [OF assms h2 refl, of cenv src] by (auto simp: d packet_header_type sizeof_common_header_def)
  then show ?thesis by (simp add: d_def)
qed

lemma client_stop_sends:
  assumes "cl_state c \<noteq> CL_STOPPED \<or> cl_is_running c" and "sa_valid (cl_server_addr c)" and "udp_is_open (cl_socket c)"
  shows "cl_sent (client_stop pops cenv c) = cl_sent c @ [(disconnect_req_packet (ce_now_us cenv), cl_server_addr c)]"
    and "\<not> udp_is_open (cl_socket (client_stop pops cenv c))" and "\<not> cl_is_running (client_stop pops cenv c)"
  using assms by (auto simp: client_stop_def cl_send_open close_socket_def udp_close_def udp_is_open_def Let_def)

text \<open>
  Claim C10: stopping a client frees the server. When a client that has not been stopped, with a valid
  server address and an open socket, is stopped, it sends exactly one datagram, to the server, before it
  closes its socket. When this datagram reaches a server that has served this client since some state
  \<open>s0\<close> of a run and whose socket is open, the server sends one answer, a DISCONNECT_ACK to the client,
  forgets the client and listens again. With automatic muting (and endpoint calls that succeed, on
  Windows) the controls of the speaker that the mute method takes care of are back to what they were in
  \<open>s0\<close>; without it the speaker is not touched. A client that still listens ends when it gets the answer.
\<close>

theorem client_stop_frees_server:
  fixes s :: "'e server" and c :: "'p client"
  assumes "cl_state c \<noteq> CL_STOPPED \<or> cl_is_running c" and "sa_valid (cl_server_addr c)" and "udp_is_open (cl_socket c)"
    and "server_reach ops sp config s0" and "ops_ok ops" and "session_run ops s0 evs s" and "sv_state s = STREAMING"
    and "udp_is_open (sv_socket s)" and "sa_eq sender (sv_active_client s)"
  shows "\<exists>req s' ack. cl_sent (client_stop pops cenv c) = cl_sent c @ [(req, cl_server_addr c)] \<and>
     \<not> udp_is_open (cl_socket (client_stop pops cenv c)) \<and> \<not> cl_is_running (client_stop pops cenv c) \<and>
     receive_datagram ops env req sender s = Some s' \<and>
     sv_sent s' = sv_sent s @ [(ack, sv_active_client s)] \<and> packet_ok ack \<and>
     ch_msg_type (decode_common_header ack) = u8_of_msg_type DISCONNECT_ACK \<and>
     sv_state s' = LISTENING \<and> \<not> sa_valid (sv_active_client s') \<and>
     (if sc_auto_mute_pc_speaker config
      then sp_works (sv_endpoint s0) \<longrightarrow> sp_as_before (sc_mute_method config) (sv_endpoint s0) (sv_endpoint s')
      else sv_endpoint s' = sv_endpoint s) \<and>
     (\<forall>(e :: 'p client) src cenv2. cl_is_running e \<and> \<not> cl_stop_requested e \<and> udp_is_open (cl_socket e) \<longrightarrow>
        (\<exists>e'. client_receive cenv2 (int (length ack), ack, src) e = Some e' \<and> \<not> cl_is_running e'))"
proof -
  define s' where "s' = handle_disconnect_req env sender s"
  define ack where "ack = disconnect_packet (en_now_us env) ''Client disconnected gracefully''"
  note inv = reach_session_inv [OF session_reach [OF assms(6,4)] assms(5)]
  have v: "sa_valid (sv_active_client s)" using inv assms(7) by (simp add: session_inv_def)
  have d: "s' = disconnect_client env ''Client disconnected gracefully'' True s" using assms(9) by (simp add: s'_def handle_disconnect_req_def)
  have s': "sv_sent s' = sv_sent s @ [(ack, sv_active_client s)]" "sv_state s' = LISTENING" "\<not> sa_valid (sv_active_client s')"
    "\<not> sc_auto_mute_pc_speaker config \<longrightarrow> sv_endpoint s' = sv_endpoint s"
    using assms(7,8) v inv by (simp_all add: d disconnect_client_def sv_send_open ack_def SocketAddress_empty_def Let_def)
  have "\<not> sp_is_silenced_by_us (sv_endpoint s')"
    using disconnect_client_frame [of ops s env "''Client disconnected gracefully''" True] inv by (simp add: d session_inv_def)
  then have "sp_as_before (sc_mute_method config) (sv_endpoint s0) (sv_endpoint s')"
    if "sc_auto_mute_pc_speaker config" "sp_works (sv_endpoint s0)"
    using holds_disconnect [OF session_holds [OF assms(6,4,5) that]] unfolding d by (rule sp_holds_released [rotated])
  then show ?thesis
    using client_stop_sends [OF assms(1-3), of pops cenv] disconnect_req_received [of ops env "ce_now_us cenv" sender s] s'
      reply_types(3) [of "en_now_us env" "''Client disconnected gracefully''"] reply_packets_ok(3) [of "en_now_us env" "''Client disconnected gracefully''"]
      disconnect_ack_ends_client [where 'a = 'p and now = "en_now_us env" and reason = "''Client disconnected gracefully''"]
    by (intro exI [of _ "disconnect_req_packet (ce_now_us cenv)"] exI [of _ s'] exI [of _ ack]) (simp add: s'_def ack_def)
qed

theorem client_stop_frees_server_witness:
  "\<exists>req s'. cl_sent (client_stop dummy_player_ops sample_cenv sample_client) = cl_sent sample_client @ [(req, sample_addr)] \<and>
     receive_datagram tone_ops example_env req example_client (connected_server (MockSpeaker dummy_new)) = Some s' \<and>
     sv_state s' = LISTENING"
proof -
  define sp where "sp = MockSpeaker dummy_new"
  note ex = example_session [of sp, OF sp_def] example_connect [of sp, OF sp_def]
  have "sv_active_client (connected_server sp) = example_client \<and> udp_is_open (sv_socket (connected_server sp))"
    using connected_example(2,3) by (simp add: sp_def)
  then have "\<exists>req s' ack. cl_sent (client_stop dummy_player_ops sample_cenv sample_client) = cl_sent sample_client @ [(req, cl_server_addr sample_client)] \<and>
     receive_datagram tone_ops example_env req example_client (connected_server sp) = Some s' \<and> sv_state s' = LISTENING"
    using client_stop_frees_server [of sample_client tone_ops sp default_server_config "started_server sp"
        "[Arrives (bare_request CONNECT_REQ)]" "connected_server sp" example_client dummy_player_ops sample_cenv example_env] ex tone_ops_ok
    by (simp add: sa_eq_def) blast
  then show ?thesis by (simp add: sp_def)
qed

section \<open>Heartbeat\<close>

text \<open>
  A heartbeat measures the round trip. The server takes the client's ping as a sign of life and
  answers it with a pong that carries the ping's own time; the client that gets the pong takes the time
  that has passed since it sent the ping as its round-trip time.
\<close>

theorem heartbeat_measures_round_trip:
  assumes "sa_eq sender (sv_active_client s)" and "sa_valid sender" and "udp_is_open (sv_socket s)"
    and "cl_is_running c" "\<not> cl_stop_requested c" "udp_is_open (cl_socket c)" and "ce_now_us cenv < ce_now_us cenv2"
  shows "\<exists>s' pong c'. receive_datagram ops env (ping_packet cenv c0) sender s = Some s' \<and>
     sv_last_client_activity_time_ms s' = en_now_ms env \<and> sv_sent s' = sv_sent s @ [(pong, sender)] \<and>
     client_receive cenv2 (int (length pong), pong, src) c = Some c' \<and> cl_last_rtt_us c' = ucast (ce_now_us cenv2 - ce_now_us cenv)"
proof -
  define js where "js = get_stats (cl_jitter c0)"
  define p where "p = \<lparr>hb_orig_timestamp_us = ce_now_us cenv, hb_client_buffer_level_frames = word_of_nat (available_frames (cl_jitter c0)),
         hb_packets_received = ucast (cs_packets_received (cl_stats c0)), hb_packets_lost = ucast (js_packets_lost js),
         hb_buffer_underruns = ucast (js_underruns js), hb_buffer_overruns = ucast (js_overruns js)\<rparr>"
  define hdr where "hdr = make_header HEARTBEAT_PING 0 (ce_now_us cenv) (word_of_nat sizeof_heartbeat_payload) FLAG_NONE"
  have ping: "ping_packet cenv c0 = encode_common_header hdr @ encode_heartbeat_payload p"
    by (simp add: ping_packet_def hdr_def p_def js_def Let_def)
  have lp: "length (encode_heartbeat_payload q) = sizeof_heartbeat_payload" for q by (simp add: wire_simps)
  have "header_ok hdr (24 + length (encode_heartbeat_payload p))"
    unfolding hdr_def by (rule small_header_ok) (simp_all add: lp sizeof_heartbeat_payload_def)
  from server_receives [OF this, of ops env sender s]
  have r: "receive_datagram ops env (ping_packet cenv c0) sender s = Some (handle_heartbeat_ping env hdr (encode_heartbeat_payload p) sender s)"
    by (simp add: ping packet_header_type hdr_def)
  have dp: "decode_heartbeat_payload (encode_heartbeat_payload q) = q" for q using decode_encode_heartbeat_payload [of q "[]"] by simp
  define q where "q = \<lparr>hb_orig_timestamp_us = ce_now_us cenv, hb_client_buffer_level_frames = 0,
       hb_packets_received = ucast (ss_packets_sent (sv_stats s)), hb_packets_lost = 0, hb_buffer_underruns = 0, hb_buffer_overruns = 0\<rparr>"
  define h2 where "h2 = make_header HEARTBEAT_PONG 0 (en_now_us env) (word_of_nat sizeof_heartbeat_payload) FLAG_NONE"
  define pong where "pong = encode_common_header h2 @ encode_heartbeat_payload q"
  have sv: "sv_last_client_activity_time_ms (handle_heartbeat_ping env hdr (encode_heartbeat_payload p) sender s) = en_now_ms env"
    "sv_sent (handle_heartbeat_ping env hdr (encode_heartbeat_payload p) sender s) = sv_sent s @ [(pong, sender)]"
    using assms(1-3)
    by (simp_all add: handle_heartbeat_ping_def sv_send_def udp_send_to_def dp lp pong_def h2_def q_def hdr_def make_header_def p_def Let_def)
  have ok2: "header_ok h2 52" using small_header_ok [of HEARTBEAT_PONG "encode_heartbeat_payload q" sizeof_heartbeat_payload]
    by (simp add: h2_def lp sizeof_heartbeat_payload_def)
  have len: "length pong = 52" by (simp add: pong_def lp sizeof_common_header_def sizeof_heartbeat_payload_def)
  have buf: "blit b 0 pong = encode_common_header h2 @ encode_heartbeat_payload q @ drop 52 b" for b using len by (simp add: blit_def pong_def)
  have "\<exists>c'. client_receive cenv2 (52, pong, src) c = Some c' \<and> cl_last_rtt_us c' = ucast (ce_now_us cenv2 - ce_now_us cenv)"
    using assms(4-7) ok2 len
    by (simp add: client_receive_def cl_receive_from_def udp_receive_from_def buf is_valid_header_iff packet_header_type h2_def [symmetric]
        handle_heartbeat_pong_def sizeof_common_header_def sizeof_heartbeat_payload_def Let_def)
       (simp add: h2_def packet_header_type q_def handle_heartbeat_pong_def sizeof_common_header_def sizeof_heartbeat_payload_def Let_def)
  then show ?thesis using r sv len by auto
qed

theorem heartbeat_measures_round_trip_witness:
  "\<exists>s' pong c'. receive_datagram tone_ops example_env (ping_packet sample_cenv sample_client) example_client example_server = Some s' \<and>
     client_receive (sample_cenv\<lparr>ce_now_us := 2004500\<rparr>) (int (length pong), pong, zero_addr) sample_client = Some c' \<and>
     cl_last_rtt_us c' = 4500"
proof -
  have "sa_eq example_client (sv_active_client example_server)" "sa_valid example_client" "udp_is_open (sv_socket example_server)"
    by (simp_all add: example_server_def example_client_def AudioRouterServer_def SocketAddress_raw_def sa_eq_def udp_is_open_def
        INVALID_SOCKET_HANDLE_def UdpSocket_def)
  moreover have "ce_now_us sample_cenv < ce_now_us (sample_cenv\<lparr>ce_now_us := 2004500\<rparr>)" by (simp add: sample_cenv_def)
  ultimately obtain s' pong c' where "receive_datagram tone_ops example_env (ping_packet sample_cenv sample_client) example_client example_server = Some s'"
    "client_receive (sample_cenv\<lparr>ce_now_us := 2004500\<rparr>) (int (length pong), pong, zero_addr) sample_client = Some c'"
    "cl_last_rtt_us c' = ucast (ce_now_us (sample_cenv\<lparr>ce_now_us := 2004500\<rparr>) - ce_now_us sample_cenv)"
    using heartbeat_measures_round_trip [of example_client example_server sample_client sample_cenv "sample_cenv\<lparr>ce_now_us := 2004500\<rparr>"
        tone_ops example_env sample_client zero_addr] by auto
  moreover have "ucast (ce_now_us (sample_cenv\<lparr>ce_now_us := 2004500\<rparr>) - ce_now_us sample_cenv) = (4500 :: u32)"
    by (simp add: sample_cenv_def)
  ultimately show ?thesis by metis
qed

section \<open>The tunnel\<close>

text \<open>
  Claim C19: A datagram of the client's engine crosses the USB cable unchanged. If the client's relay
  reports success, then however the bytes are cut into pieces on the way, the server's relay hands the
  same datagram to the server, and waits for the next one with nothing left over.
\<close>

theorem tunnel_carries_datagrams:
  assumes "usb_to_tunnel (int (length data), data, peer) outs r = Some (bytes, r')" and "data \<noteq> []" and "ur_tcp_open r" and "ur_tcp_open r'"
    and "healthy routs" and "delivered routs = bytes" and "rl_rx t = []"
  shows "\<exists>t' rest. relay_from_tunnel routs t = Some (Some data, t', rest) \<and> rl_rx t' @ delivered rest = [] \<and>
                    rl_tunnel_closed t' = rl_tunnel_closed t"
proof -
  obtain ok outs' where w: "write_frame data outs = Some (ok, bytes, outs')" and ok: "ok"
    using assms(1-4) by (auto simp: usb_to_tunnel_def usb_close_tunnel_def Let_def split: option.splits if_splits)
  have len: "length data \<le> kMaxFramePayload" and bytes: "bytes = frame_bytes data"
    using write_frame_result [OF w] ok by simp_all
  from read_frame_step [OF len assms(5), of "[]" "[]"] assms(6) bytes
  obtain rx' rest where "read_frame [] routs = Some (Frame, rx', data, rest)" "rx' @ delivered rest = []" by auto
  then show ?thesis using assms(7) by (auto simp: relay_from_tunnel_def)
qed

theorem tunnel_carries_datagrams_witness:
  "\<exists>t' rest. relay_from_tunnel [Received [2, 0], RecvWouldBlock 1, Received [0, 0, 7, 8]] relay_accept = Some (Some [7, 8], t', rest)"
proof -
  define r where "r = usb_relay_init\<lparr>ur_tcp_open := True\<rparr>"
  have f: "frame_header 2 = [2, 0, 0, 0]" by (simp add: frame_header_def and_255 drop_bit_eq_div)
  have w: "usb_to_tunnel (int (length [7, 8 :: byte]), [7, 8], sample_addr) [Sent 4, Sent 2] r = Some ([2, 0, 0, 0, 7, 8], r\<lparr>ur_engine_peer := sample_addr\<rparr>)"
    by (simp add: usb_to_tunnel_def r_def write_frame_def kMaxFramePayload_def f [unfolded numeral_2_eq_2] send_fully.simps Let_def)
  have "healthy [Received [2, 0], RecvWouldBlock 1, Received [0, 0, 7, 8]]" by simp
  moreover have "delivered [Received [2, 0], RecvWouldBlock 1, Received [0, 0, 7, 8]] = [2, 0, 0, 0, 7, 8]" by simp
  ultimately show ?thesis
    using tunnel_carries_datagrams [OF w, of "[Received [2, 0], RecvWouldBlock 1, Received [0, 0, 7, 8]]" relay_accept]
    by (auto simp: r_def relay_accept_def)
qed

end
