(* ===== verification/Aaudio.thy ===== *)
theory Aaudio
  imports Player Android_Helpers
begin

text \<open>
  \<^verbatim>\<open>src/client/aaudio_player.{hpp,cpp}\<close> on Android: the playback thread writes into a FIFO and a pump
  thread moves whole frames from the FIFO into the AAudio stream, with a watchdog that recreates a
  stalled stream. The contents of the pipe and the pump's buffer are part of the state; every write
  to a stream is logged with the handle it used, and so are the handles that were closed. libaaudio
  and the pipe are arguments of a step; a step of the pump is one turn of its loop. The lemmas show
  that audio reaches the stream in order while writes succeed, that the watchdog gives up, and three
  ways in which the pump goes wrong after a failure.
\<close>

section \<open>State\<close>

definition kBufferCapacityFrames :: int where "kBufferCapacityFrames = 1920"
definition kFifoSizeBytes :: nat where "kFifoSizeBytes = 65536"
definition kMinRebuildIntervalMs :: u64 where "kMinRebuildIntervalMs = 1000"
definition kStallRebuildThreshold :: nat where "kStallRebuildThreshold = 20"
definition kMaxStallRebuilds :: nat where "kMaxStallRebuilds = 3"
definition kNeverRenderThresholdMs :: u64 where "kNeverRenderThresholdMs = 1500"

datatype stream_state = ST_STARTING | ST_STARTED | ST_PAUSED | ST_STOPPED | ST_DISCONNECTED | ST_OTHER

definition AAUDIO_ERROR_DISCONNECTED :: int where "AAUDIO_ERROR_DISCONNECTED = - 899"

record aaudio_player =
  aa_config :: audio_config
  aa_mode :: string
  aa_device_name :: string
  aa_fifo_fd :: int
  aa_fifo :: "byte list"
  aa_stream :: "nat option"
  aa_is_open :: bool
  aa_pump_running :: bool
  aa_buffer :: "byte list"
  aa_residual :: nat
  aa_frames_in_flight :: int
  aa_last_rebuild_ms :: u64
  aa_last_write_warn_ms :: u64
  aa_write_failures :: nat
  aa_stall_rebuilds :: nat
  aa_deep_retry :: bool
  aa_stream_opened_ms :: u64
  aa_writes :: "(nat \<times> byte list) list"
  aa_closed_streams :: "nat list"

definition AaudioFifoPlayer :: aaudio_player where
  "AaudioFifoPlayer =
     \<lparr>aa_config = default_audio_config, aa_mode = ''lowlatency'', aa_device_name = ''aaudio'', aa_fifo_fd = - 1,
      aa_fifo = [], aa_stream = None, aa_is_open = False, aa_pump_running = False, aa_buffer = [], aa_residual = 0,
      aa_frames_in_flight = 0, aa_last_rebuild_ms = 0, aa_last_write_warn_ms = 0, aa_write_failures = 0,
      aa_stall_rebuilds = 0, aa_deep_retry = False, aa_stream_opened_ms = 0, aa_writes = [], aa_closed_streams = []\<rparr>"

definition aaudio_fifo_path :: "system \<Rightarrow> string" where
  "aaudio_fifo_path sys =
     (if sys_getuid sys = 0 then ''/data/local/tmp/audiorouter_aaudio.fifo''
      else (case sys_getenv sys ''HOME'' of
              Some home \<Rightarrow> if home \<noteq> [] \<and> home \<noteq> ''/'' then home @ ''/audiorouter_aaudio.fifo''
                           else (case termux_user sys of
                                   Some (uid, gid, thome) \<Rightarrow>
                                     if sys_getuid sys = uid then thome @ ''/audiorouter_aaudio.fifo''
                                     else ''/data/local/tmp/audiorouter_aaudio.fifo''
                                 | None \<Rightarrow> ''/data/local/tmp/audiorouter_aaudio.fifo'')
            | None \<Rightarrow> (case termux_user sys of
                         Some (uid, gid, thome) \<Rightarrow>
                           if sys_getuid sys = uid then thome @ ''/audiorouter_aaudio.fifo''
                           else ''/data/local/tmp/audiorouter_aaudio.fifo''
                       | None \<Rightarrow> ''/data/local/tmp/audiorouter_aaudio.fifo'')))"

section \<open>Builder\<close>

datatype aaudio_format = AAUDIO_FORMAT_PCM_I16 | AAUDIO_FORMAT_PCM_FLOAT

datatype performance_mode = PERFORMANCE_MODE_NONE | PERFORMANCE_MODE_LOW_LATENCY

record stream_builder =
  sb_sample_rate :: u32
  sb_channel_count :: u16
  sb_format :: aaudio_format
  sb_performance_mode :: performance_mode
  sb_buffer_capacity :: "int option"

definition configure_builder :: "aaudio_player \<Rightarrow> stream_builder" where
  "configure_builder p =
     (let deep = aa_deep_retry p \<or> aa_mode p = ''deep''
      in \<lparr>sb_sample_rate = ac_sample_rate (aa_config p), sb_channel_count = ac_channels (aa_config p),
          sb_format = (if ac_format (aa_config p) = PCM_FLOAT32LE then AAUDIO_FORMAT_PCM_FLOAT else AAUDIO_FORMAT_PCM_I16),
          sb_performance_mode = (if deep then PERFORMANCE_MODE_NONE else PERFORMANCE_MODE_LOW_LATENCY),
          sb_buffer_capacity = (if deep then None else Some kBufferCapacityFrames)\<rparr>)"

text \<open>
  What one turn of the pump sees: the result of \<open>poll\<close> and \<open>read\<close> (the number of bytes), the state of
  the stream before and after the write, the handle a rebuild gives, the result of the write, the
  counters of the stream and the clock readings.
\<close>

record pump_env =
  pv_poll :: int
  pv_poll_eintr :: bool
  pv_pollin :: bool
  pv_read :: nat
  pv_state :: stream_state
  pv_state2 :: stream_state
  pv_build :: "stream_builder \<Rightarrow> nat option"
  pv_write :: int
  pv_frames_written :: int
  pv_frames_read :: int
  pv_now1 :: u64
  pv_now2 :: u64
  pv_now_opened :: u64

definition close_stream :: "aaudio_player \<Rightarrow> aaudio_player" where
  "close_stream p =
     (case aa_stream p of
        None \<Rightarrow> p
      | Some h \<Rightarrow> p\<lparr>aa_stream := None, aa_closed_streams := aa_closed_streams p @ [h]\<rparr>)"

definition rebuild_stream_locked :: "pump_env \<Rightarrow> aaudio_player \<Rightarrow> aaudio_player" where
  "rebuild_stream_locked env p =
     (let p = (close_stream p)\<lparr>aa_frames_in_flight := 0, aa_write_failures := 0\<rparr>
      in case pv_build env (configure_builder p) of
           None \<Rightarrow> p
         | Some h \<Rightarrow> p\<lparr>aa_stream := Some h, aa_stream_opened_ms := pv_now_opened env\<rparr>)"

definition ensure_stream_started_locked :: "pump_env \<Rightarrow> aaudio_player \<Rightarrow> bool \<times> aaudio_player" where
  "ensure_stream_started_locked env p =
     (if aa_stream p = None then (False, p)
      else if pv_state env = ST_DISCONNECTED
      then (let p = (if pv_now1 env - aa_last_rebuild_ms p \<ge> kMinRebuildIntervalMs
                     then rebuild_stream_locked env (p\<lparr>aa_last_rebuild_ms := pv_now1 env\<rparr>) else p)
            in (aa_stream p \<noteq> None, p))
      else (True, p))"

text \<open>64 reads of at most 4096 bytes.\<close>

definition drain_fifo :: "aaudio_player \<Rightarrow> aaudio_player" where
  "drain_fifo p = (if aa_fifo_fd p < 0 then p else p\<lparr>aa_fifo := drop (64 * 4096) (aa_fifo p)\<rparr>)"

section \<open>Open and close\<close>

record aaudio_open_env =
  ov_mkfifo :: bool
  ov_open_fd :: int
  ov_build :: "stream_builder \<Rightarrow> nat option"
  ov_now :: u64

definition pump_chunk_frames :: "audio_config \<Rightarrow> nat" where
  "pump_chunk_frames c = (if ac_sample_rate c div 50 > 0 then unat (ac_sample_rate c div 50) else 1)"

definition aaudio_mode_of :: "string \<Rightarrow> string" where
  "aaudio_mode_of name =
     (if starts_with name ''aaudio:''
      then (let mode = drop 7 name in if mode \<in> {''deep'', ''voip'', ''lowlatency''} then mode else ''lowlatency'')
      else ''lowlatency'')"

definition create_fifo :: "aaudio_open_env \<Rightarrow> aaudio_player \<Rightarrow> bool \<times> aaudio_player" where
  "create_fifo env p =
     (if \<not> ov_mkfifo env then (False, p)
      else (let p = p\<lparr>aa_fifo_fd := ov_open_fd env, aa_fifo := []\<rparr>
            in if aa_fifo_fd p < 0 then (False, p) else (True, p)))"

definition destroy_fifo :: "aaudio_player \<Rightarrow> aaudio_player" where
  "destroy_fifo p = (if aa_fifo_fd p \<ge> 0 then p\<lparr>aa_fifo_fd := - 1, aa_fifo := []\<rparr> else p)"

definition aaudio_close :: "aaudio_player \<Rightarrow> aaudio_player" where
  "aaudio_close p =
     (destroy_fifo (close_stream (p\<lparr>aa_pump_running := False\<rparr>)))\<lparr>aa_frames_in_flight := 0, aa_is_open := False\<rparr>"

definition aaudio_open :: "aaudio_open_env \<Rightarrow> audio_config \<Rightarrow> string \<Rightarrow> aaudio_player \<Rightarrow> bool \<times> aaudio_player" where
  "aaudio_open env config device_name p =
     (let p = (if aa_is_open p then aaudio_close p else p);
          config = (if ac_sample_rate config = 0 then config\<lparr>ac_sample_rate := 48000\<rparr> else config);
          config = (if ac_channels config = 0 then config\<lparr>ac_channels := 2\<rparr> else config);
          name = (if device_name = [] then ''aaudio'' else device_name);
          p = p\<lparr>aa_write_failures := 0, aa_stall_rebuilds := 0, aa_deep_retry := False, aa_config := config,
                aa_mode := aaudio_mode_of name, aa_device_name := name\<rparr>
      in case create_fifo env p of
           (ok, p) \<Rightarrow>
             if \<not> ok then (False, p)
             else (case ov_build env (configure_builder p) of
                     None \<Rightarrow> (False, destroy_fifo p)
                   | Some h \<Rightarrow>
                       (True, p\<lparr>aa_stream := Some h, aa_stream_opened_ms := ov_now env, aa_is_open := True,
                                aa_pump_running := (bytes_per_frame config \<noteq> 0),
                                aa_buffer := replicate (pump_chunk_frames config * bytes_per_frame config) 0,
                                aa_residual := 0\<rparr>)))"

section \<open>The playback side\<close>

text \<open>One \<open>write\<close> on the pipe: it took some bytes, was interrupted, found the pipe full, or failed.\<close>

datatype fifo_event = FifoTook nat | FifoEintr | FifoFull | FifoFailed

fun fifo_write :: "fifo_event list \<Rightarrow> byte list \<Rightarrow> byte list \<Rightarrow> (nat \<times> byte list) option" where
  "fifo_write es [] fifo = Some (0, fifo)"
| "fifo_write [] (b # bs) fifo = None"
| "fifo_write (e # es) (b # bs) fifo =
     (case e of
        FifoTook n \<Rightarrow>
          if n = 0 then Some (0, fifo)
          else map_option (\<lambda>(w, f). (min n (length (b # bs)) + w, f))
                 (fifo_write es (drop n (b # bs)) (fifo @ take n (b # bs)))
      | FifoEintr \<Rightarrow> fifo_write es (b # bs) fifo
      | FifoFull \<Rightarrow> fifo_write es (b # bs) fifo
      | FifoFailed \<Rightarrow> Some (0, fifo))"

definition aaudio_write :: "fifo_event list \<Rightarrow> i16 list \<Rightarrow> nat \<Rightarrow> aaudio_player \<Rightarrow> (nat \<times> aaudio_player) option" where
  "aaudio_write es pcm num_frames p =
     (let bpf = bytes_per_frame (aa_config p) in
      if num_frames = 0 \<or> bpf = 0 then Some (0, p)
      else if \<not> aa_is_open p \<or> aa_fifo_fd p < 0 then Some (0, p)
      else if length (pcm_bytes pcm) < num_frames * bpf then None
      else map_option (\<lambda>(w, f). (w div bpf, p\<lparr>aa_fifo := f\<rparr>))
             (fifo_write es (take (num_frames * bpf) (pcm_bytes pcm)) (aa_fifo p)))"

definition aaudio_get_buffer_delay_frames :: "int \<Rightarrow> int option \<Rightarrow> aaudio_player \<Rightarrow> nat" where
  "aaudio_get_buffer_delay_frames fionread counters p =
     (if \<not> aa_is_open p then 0
      else
        (let bpf = bytes_per_frame (aa_config p);
             fifo_bytes = (if aa_fifo_fd p \<ge> 0 then fionread else 0);
             fifo_frames = (if bpf > 0 \<and> fifo_bytes > 0 then nat fifo_bytes div bpf else 0);
             in_flight = (case counters of Some d \<Rightarrow> if aa_stream p \<noteq> None then d else aa_frames_in_flight p
                          | None \<Rightarrow> aa_frames_in_flight p)
         in fifo_frames + nat (max 0 in_flight)))"

section \<open>The pump\<close>

text \<open>The branch of a failed or incomplete write; \<open>w\<close> is its result.\<close>

definition pump_write_failed :: "pump_env \<Rightarrow> int \<Rightarrow> aaudio_player \<Rightarrow> aaudio_player" where
  "pump_write_failed env w p =
     (let p = p\<lparr>aa_write_failures := aa_write_failures p + 1\<rparr>;
          now_ms = pv_now2 env;
          p = (if now_ms - aa_last_write_warn_ms p \<ge> 5000 then p\<lparr>aa_last_write_warn_ms := now_ms\<rparr> else p);
          disconnected = (w = AAUDIO_ERROR_DISCONNECTED \<or> pv_state2 env = ST_DISCONNECTED)
      in if aa_stream p = None then p\<lparr>aa_pump_running := False\<rparr>
         else
           (let p = (if \<not> disconnected \<and> pv_frames_read env = 0 \<and> now_ms - aa_stream_opened_ms p \<ge> kNeverRenderThresholdMs
                     then p\<lparr>aa_deep_retry := True, aa_write_failures := max (aa_write_failures p) kStallRebuildThreshold\<rparr>
                     else p)
            in if disconnected then
                 (if now_ms - aa_last_rebuild_ms p \<ge> kMinRebuildIntervalMs
                  then drain_fifo (rebuild_stream_locked env (p\<lparr>aa_last_rebuild_ms := now_ms\<rparr>)) else p)
               else if aa_write_failures p \<ge> kStallRebuildThreshold then
                 (if now_ms - aa_last_rebuild_ms p \<ge> kMinRebuildIntervalMs then
                    (let p = p\<lparr>aa_last_rebuild_ms := now_ms, aa_stall_rebuilds := aa_stall_rebuilds p + 1\<rparr>;
                         p = (if aa_stall_rebuilds p > 1 \<and> \<not> aa_deep_retry p then p\<lparr>aa_deep_retry := True\<rparr> else p)
                     in if aa_stall_rebuilds p > kMaxStallRebuilds
                        then (close_stream p)\<lparr>aa_frames_in_flight := 0, aa_is_open := False, aa_pump_running := False\<rparr>
                        else drain_fifo (rebuild_stream_locked env p))
                  else p)
               else p))"

definition pump_write_done :: "pump_env \<Rightarrow> aaudio_player \<Rightarrow> aaudio_player" where
  "pump_write_done env p =
     (let was_stalled = (aa_write_failures p > 0);
          p = p\<lparr>aa_write_failures := 0\<rparr>
      in if aa_stream p = None then p\<lparr>aa_pump_running := False\<rparr>
         else
           (let p = p\<lparr>aa_frames_in_flight := pv_frames_written env - pv_frames_read env\<rparr>
            in if was_stalled \<and> aa_fifo_fd p \<ge> 0 \<and> length (aa_fifo p) \<ge> length (aa_buffer p) then drain_fifo p else p))"

definition keep_residual :: "nat \<Rightarrow> aaudio_player \<Rightarrow> aaudio_player" where
  "keep_residual consumed p =
     (if aa_residual p > 0
      then p\<lparr>aa_buffer := blit (aa_buffer p) 0 (slice consumed (aa_residual p) (aa_buffer p))\<rparr> else p)"

text \<open>The part of a turn behind a successful \<open>read\<close>; the bytes read are already in the buffer.\<close>

definition pump_frames :: "pump_env \<Rightarrow> nat \<Rightarrow> aaudio_player \<Rightarrow> aaudio_player" where
  "pump_frames env total_bytes p =
     (let bpf = bytes_per_frame (aa_config p);
          frames = total_bytes div bpf;
          p = p\<lparr>aa_residual := total_bytes mod bpf\<rparr>
      in if frames = 0 then keep_residual 0 p
         else
           (case aa_stream p of
              None \<Rightarrow> p\<lparr>aa_pump_running := False\<rparr>
            | Some stream \<Rightarrow>
                (case ensure_stream_started_locked env p of
                   (ok, p) \<Rightarrow>
                     if \<not> ok then p
                     else
                       (let w = pv_write env;
                            taken = take (nat w * bpf) (take (frames * bpf) (aa_buffer p));
                            p = p\<lparr>aa_writes := aa_writes p @ [(stream, taken)]\<rparr>
                        in if w < 0 \<or> nat w < frames then pump_write_failed env w p
                           else (let p = pump_write_done env p
                                 in if aa_pump_running p then keep_residual (frames * bpf) p else p)))))"

text \<open>The bytes one \<open>read\<close> gives, at most what the buffer has room for.\<close>

definition bytes_read :: "pump_env \<Rightarrow> aaudio_player \<Rightarrow> byte list" where
  "bytes_read env p = take (min (pv_read env) (length (aa_buffer p) - aa_residual p)) (aa_fifo p)"

definition pump_step :: "pump_env \<Rightarrow> aaudio_player \<Rightarrow> aaudio_player" where
  "pump_step env p =
     (if \<not> aa_pump_running p then p
      else if pv_poll env < 0 then (if pv_poll_eintr env then p else p\<lparr>aa_pump_running := False\<rparr>)
      else if pv_poll env = 0 \<or> \<not> pv_pollin env then p
      else
        (let bytes = bytes_read env p
         in if bytes = [] then p
            else pump_frames env (aa_residual p + length bytes)
                   (p\<lparr>aa_buffer := blit (aa_buffer p) (aa_residual p) bytes, aa_fifo := drop (length bytes) (aa_fifo p)\<rparr>)))"

definition aaudio_ops :: "fifo_event list \<Rightarrow> int \<Rightarrow> int option \<Rightarrow> aaudio_player player_ops" where
  "aaudio_ops es fionread counters =
     \<lparr>po_is_open = aa_is_open, po_close = aaudio_close, po_write_frames = aaudio_write es,
      po_get_buffer_delay_frames = aaudio_get_buffer_delay_frames fionread counters, po_get_device_name = aa_device_name,
      po_needs_playback_pacing = True, po_is_placeholder = False\<rparr>"

section \<open>Contract of the playback side\<close>

lemma fifo_write_appends:
  "fifo_write es bs fifo = Some (w, f) \<Longrightarrow> w \<le> length bs \<and> f = fifo @ take w bs"
proof (induction es bs fifo arbitrary: w f rule: fifo_write.induct)
  case (3 e es b bs fifo)
  show ?case
  proof (cases e)
    case (FifoTook n)
    show ?thesis
    proof (cases "n = 0")
      case True
      then show ?thesis using 3(4) FifoTook by simp
    next
      case False
      then obtain w' where r: "fifo_write es (drop n (b # bs)) (fifo @ take n (b # bs)) = Some (w', f)"
        and w: "w = min n (length (b # bs)) + w'" using 3(4) FifoTook by auto
      from 3(1) [OF FifoTook False r] have h: "w' \<le> length (drop n (b # bs))"
        "f = (fifo @ take n (b # bs)) @ take w' (drop n (b # bs))" by auto
      show ?thesis
      proof (cases "n \<le> length (b # bs)")
        case True
        then have "take w (b # bs) = take n (b # bs) @ take w' (drop n (b # bs))" using w by (simp only: take_add min_absorb1)
        then show ?thesis using h w True by simp
      next
        case big: False
        then show ?thesis using h w by simp
      qed
    qed
  qed (use 3 in auto)
qed auto

lemma aaudio_write_bounded: "aaudio_write es pcm n p = Some (k, q) \<Longrightarrow> k \<le> n"
proof -
  assume a: "aaudio_write es pcm n p = Some (k, q)"
  define bpf where "bpf = bytes_per_frame (aa_config p)"
  consider "k = 0" | w f where "fifo_write es (take (n * bpf) (pcm_bytes pcm)) (aa_fifo p) = Some (w, f)" "k = w div bpf"
    using a by (auto simp: aaudio_write_def Let_def bpf_def split: if_splits)
  then show ?thesis
  proof cases
    case (2 w f)
    then have "w \<le> n * bpf" using fifo_write_appends by fastforce
    then have "w div bpf \<le> n * bpf div bpf" by (rule div_le_mono)
    then show ?thesis using 2 by (cases "bpf = 0") auto
  qed simp
qed

lemma close_stream_keeps [simp]:
  "aa_is_open (close_stream p) = aa_is_open p" "aa_stream (close_stream p) = None" "aa_fifo (close_stream p) = aa_fifo p"
  "aa_writes (close_stream p) = aa_writes p" "aa_buffer (close_stream p) = aa_buffer p" "aa_config (close_stream p) = aa_config p"
  "aa_pump_running (close_stream p) = aa_pump_running p" "aa_fifo_fd (close_stream p) = aa_fifo_fd p"
  "aa_residual (close_stream p) = aa_residual p" "aa_stall_rebuilds (close_stream p) = aa_stall_rebuilds p"
  "aa_deep_retry (close_stream p) = aa_deep_retry p" "aa_mode (close_stream p) = aa_mode p"
  by (simp_all add: close_stream_def split: option.splits)

interpretation aaudio_backend: audio_player "aaudio_ops es fionread counters" "\<lambda>_. True"
  by unfold_locales
    (auto simp: aaudio_ops_def aaudio_write_bounded aaudio_close_def aaudio_write_def [of _ _ _ p for p] Let_def split: if_splits)

section \<open>Steps of the pump\<close>

lemma rebuild_keeps [simp]:
  "aa_is_open (rebuild_stream_locked env p) = aa_is_open p" "aa_fifo (rebuild_stream_locked env p) = aa_fifo p"
  "aa_writes (rebuild_stream_locked env p) = aa_writes p" "aa_buffer (rebuild_stream_locked env p) = aa_buffer p"
  "aa_residual (rebuild_stream_locked env p) = aa_residual p" "aa_config (rebuild_stream_locked env p) = aa_config p"
  "aa_pump_running (rebuild_stream_locked env p) = aa_pump_running p"
  "aa_stall_rebuilds (rebuild_stream_locked env p) = aa_stall_rebuilds p"
  "aa_fifo_fd (rebuild_stream_locked env p) = aa_fifo_fd p"
  by (simp_all add: rebuild_stream_locked_def Let_def split: option.splits)

lemma drain_keeps [simp]:
  "aa_is_open (drain_fifo p) = aa_is_open p" "aa_writes (drain_fifo p) = aa_writes p" "aa_buffer (drain_fifo p) = aa_buffer p"
  "aa_residual (drain_fifo p) = aa_residual p" "aa_pump_running (drain_fifo p) = aa_pump_running p"
  "aa_stall_rebuilds (drain_fifo p) = aa_stall_rebuilds p" "aa_stream (drain_fifo p) = aa_stream p"
  "aa_config (drain_fifo p) = aa_config p"
  by (simp_all add: drain_fifo_def)

lemma ensure_keeps:
  assumes "ensure_stream_started_locked env p = (ok, q)"
  shows "aa_is_open q = aa_is_open p" "aa_fifo q = aa_fifo p" "aa_writes q = aa_writes p" "aa_buffer q = aa_buffer p"
    "aa_residual q = aa_residual p" "aa_config q = aa_config p" "aa_pump_running q = aa_pump_running p"
    "aa_stall_rebuilds q = aa_stall_rebuilds p"
  using assms by (auto simp: ensure_stream_started_locked_def Let_def split: if_splits)

text \<open>The pump's invariant: the buffer holds at least a frame and less than a frame is left over.\<close>

definition pump_inv :: "aaudio_player \<Rightarrow> bool" where
  "pump_inv p \<longleftrightarrow>
     0 < bytes_per_frame (aa_config p) \<and> aa_residual p < bytes_per_frame (aa_config p) \<and>
     bytes_per_frame (aa_config p) \<le> length (aa_buffer p) \<and> length (aa_buffer p) mod bytes_per_frame (aa_config p) = 0"


text \<open>The state of the player right behind the \<open>read\<close> of a turn.\<close>

definition after_read :: "pump_env \<Rightarrow> aaudio_player \<Rightarrow> aaudio_player" where
  "after_read env p =
     p\<lparr>aa_buffer := blit (aa_buffer p) (aa_residual p) (bytes_read env p),
       aa_fifo := drop (length (bytes_read env p)) (aa_fifo p)\<rparr>"

definition turn_bytes :: "pump_env \<Rightarrow> aaudio_player \<Rightarrow> nat" where
  "turn_bytes env p = aa_residual p + length (bytes_read env p)"

lemma pump_step_frames:
  assumes "aa_pump_running p" and "0 < pv_poll env" and "pv_pollin env" and "bytes_read env p \<noteq> []"
  shows "pump_step env p = pump_frames env (turn_bytes env p) (after_read env p)"
  using assms by (simp add: pump_step_def after_read_def turn_bytes_def Let_def)

text \<open>A turn that has at least one whole frame to write.\<close>

definition has_frame :: "pump_env \<Rightarrow> aaudio_player \<Rightarrow> bool" where
  "has_frame env p \<longleftrightarrow>
     aa_pump_running p \<and> 0 < pv_poll env \<and> pv_pollin env \<and> bytes_read env p \<noteq> [] \<and>
     turn_bytes env p div bytes_per_frame (aa_config p) > 0"




definition playing :: "aaudio_player \<Rightarrow> bool" where
  "playing p \<longleftrightarrow> pump_inv p \<and> aa_stream p \<noteq> None \<and> aa_write_failures p = 0 \<and> aa_pump_running p"

lemma blit_prefix: "r \<le> length b \<Longrightarrow> length xs + r \<le> length b \<Longrightarrow> take (r + length xs) (blit b r xs) = take r b @ xs"
  by (simp add: blit_def)





definition sample_pump_env :: "stream_state \<Rightarrow> nat option \<Rightarrow> int \<Rightarrow> pump_env" where
  "sample_pump_env st build w =
     \<lparr>pv_poll = 1, pv_poll_eintr = False, pv_pollin = True, pv_read = 7, pv_state = st, pv_state2 = st,
      pv_build = (\<lambda>_. build), pv_write = w, pv_frames_written = 10, pv_frames_read = 5, pv_now1 = 5000, pv_now2 = 5000,
      pv_now_opened = 5000\<rparr>"

definition sample_aaudio :: aaudio_player where
  "sample_aaudio = AaudioFifoPlayer\<lparr>aa_fifo_fd := 4, aa_fifo := [1, 2, 3, 4, 5, 6, 7, 8, 9], aa_stream := Some 1, aa_is_open := True,
     aa_pump_running := True, aa_buffer := replicate 8 0\<rparr>"

lemma sample_aaudio_playing: "playing sample_aaudio"
  by (simp add: playing_def pump_inv_def sample_aaudio_def AaudioFifoPlayer_def default_audio_config_def
      bytes_per_frame_def bytes_per_sample_def)


section \<open>Failures\<close>

lemma pump_frames_run:
  assumes "0 < n div bytes_per_frame (aa_config p)" and "aa_stream p = Some h"
    and "ensure_stream_started_locked env (p\<lparr>aa_residual := n mod bytes_per_frame (aa_config p)\<rparr>) = (True, q)"
  shows "\<exists>data. let s = q\<lparr>aa_writes := aa_writes q @ [(h, data)]\<rparr>; frames = n div bytes_per_frame (aa_config p) in
           pump_frames env n p =
             (if pv_write env < 0 \<or> nat (pv_write env) < frames then pump_write_failed env (pv_write env) s
              else let t = pump_write_done env s
                   in if aa_pump_running t then keep_residual (frames * bytes_per_frame (aa_config p)) t else t)"
  using assms by (auto simp: pump_frames_def Let_def)

lemma ensure_rebuilds:
  assumes "aa_stream p = Some h" and "pv_state env = ST_DISCONNECTED"
    and "pv_now1 env - aa_last_rebuild_ms p \<ge> kMinRebuildIntervalMs"
  shows "ensure_stream_started_locked env p =
           (let q = rebuild_stream_locked env (p\<lparr>aa_last_rebuild_ms := pv_now1 env\<rparr>) in (aa_stream q \<noteq> None, q))"
  using assms by (simp add: ensure_stream_started_locked_def Let_def)

lemma write_failed_keeps:
  "aa_writes (pump_write_failed env w p) = aa_writes p" "aa_buffer (pump_write_failed env w p) = aa_buffer p"
  "aa_residual (pump_write_failed env w p) = aa_residual p"
  by (simp_all add: pump_write_failed_def Let_def)

lemma rebuild_closed: "h \<in> set (aa_closed_streams p) \<Longrightarrow> h \<in> set (aa_closed_streams (rebuild_stream_locked env p))"
  by (simp add: rebuild_stream_locked_def close_stream_def Let_def split: option.splits)

lemma drain_closed: "aa_closed_streams (drain_fifo p) = aa_closed_streams p"
  by (simp add: drain_fifo_def)

lemma close_closed: "h \<in> set (aa_closed_streams p) \<Longrightarrow> h \<in> set (aa_closed_streams (close_stream p))"
  by (simp add: close_stream_def split: option.splits)

lemma write_failed_closed: "h \<in> set (aa_closed_streams p) \<Longrightarrow> h \<in> set (aa_closed_streams (pump_write_failed env w p))"
  unfolding pump_write_failed_def Let_def by (simp add: rebuild_closed drain_closed close_closed)

lemma write_done_keeps:
  "aa_writes (pump_write_done env p) = aa_writes p" "aa_closed_streams (pump_write_done env p) = aa_closed_streams p"
  by (simp_all add: pump_write_done_def Let_def drain_fifo_def)

lemma keep_residual_log:
  "aa_writes (keep_residual n p) = aa_writes p" "aa_closed_streams (keep_residual n p) = aa_closed_streams p"
  by (simp_all add: keep_residual_def)

text \<open>
  After a routing change the pump uses a stream it has just closed. When the stream is found
  disconnected and is recreated, the write that follows in the same turn still goes to the old handle,
  which was taken before the recreation and is closed by then.
\<close>

theorem aaudio_writes_to_closed_stream:
  assumes "has_frame env p" and "aa_stream p = Some h" and "pv_state env = ST_DISCONNECTED"
    and "pv_now1 env - aa_last_rebuild_ms p \<ge> kMinRebuildIntervalMs" and "\<And>b. pv_build env b = Some h'"
  shows "\<exists>data. aa_writes (pump_step env p) = aa_writes p @ [(h, data)] \<and> h \<in> set (aa_closed_streams (pump_step env p))"
proof -
  define bpf where "bpf = bytes_per_frame (aa_config p)"
  define r where "r = (after_read env p)\<lparr>aa_residual := turn_bytes env p mod bpf\<rparr>"
  define q where "q = rebuild_stream_locked env (r\<lparr>aa_last_rebuild_ms := pv_now1 env\<rparr>)"
  have r: "aa_stream r = Some h" "aa_last_rebuild_ms r = aa_last_rebuild_ms p" "aa_writes r = aa_writes p" "aa_config r = aa_config p"
    using assms(2) by (simp_all add: r_def after_read_def)
  have q: "aa_stream q = Some h'" "h \<in> set (aa_closed_streams q)" "aa_writes q = aa_writes p"
    using assms(5) r by (simp_all add: q_def rebuild_stream_locked_def close_stream_def Let_def)
  have e: "ensure_stream_started_locked env r = (True, q)"
    using ensure_rebuilds [OF r(1) assms(3)] assms(4) r(2) q(1) by (simp add: q_def Let_def)
  have "pump_step env p = pump_frames env (turn_bytes env p) (after_read env p)"
    by (rule pump_step_frames) (use assms(1) in \<open>simp_all add: has_frame_def\<close>)
  moreover have cfg: "aa_config (after_read env p) = aa_config p" "aa_stream (after_read env p) = Some h"
    using assms(2) by (simp_all add: after_read_def)
  ultimately obtain data where step: "let s = q\<lparr>aa_writes := aa_writes q @ [(h, data)]\<rparr>; frames = turn_bytes env p div bpf in
      pump_step env p = (if pv_write env < 0 \<or> nat (pv_write env) < frames then pump_write_failed env (pv_write env) s
        else let t = pump_write_done env s in if aa_pump_running t then keep_residual (frames * bpf) t else t)"
    using pump_frames_run [of "turn_bytes env p" "after_read env p" h env q, unfolded cfg] assms(1) e
    unfolding bpf_def by (auto simp: has_frame_def bpf_def r_def)
  define s where "s = q\<lparr>aa_writes := aa_writes q @ [(h, data)]\<rparr>"
  have s: "aa_writes s = aa_writes p @ [(h, data)]" "h \<in> set (aa_closed_streams s)" using q(2,3) by (simp_all add: s_def)
  show ?thesis using step s write_failed_closed [of h s env "pv_write env"]
    by (auto simp: s_def [symmetric] write_failed_keeps write_done_keeps keep_residual_log Let_def)
qed

theorem aaudio_writes_to_closed_stream_witness:
  "\<exists>data. aa_writes (pump_step (sample_pump_env ST_DISCONNECTED (Some 2) 1) sample_aaudio) = [(1, data)] \<and>
          1 \<in> set (aa_closed_streams (pump_step (sample_pump_env ST_DISCONNECTED (Some 2) 1) sample_aaudio))"
proof -
  have "has_frame (sample_pump_env ST_DISCONNECTED (Some 2) 1) sample_aaudio"
    by (simp add: has_frame_def bytes_read_def turn_bytes_def sample_pump_env_def sample_aaudio_def AaudioFifoPlayer_def
        default_audio_config_def bytes_per_frame_def bytes_per_sample_def)
  from aaudio_writes_to_closed_stream [OF this, of 1 2] show ?thesis
    by (simp add: sample_pump_env_def sample_aaudio_def AaudioFifoPlayer_def kMinRebuildIntervalMs_def)
qed

text \<open>
  After a write that fails, the bytes of the unfinished frame are lost and replaced by others:
  what the next turn takes for the beginning of its frame is the beginning of the data just written,
  because the left-over bytes are moved to the front of the buffer only after a complete write.
\<close>

theorem aaudio_failed_write_corrupts_frame:
  assumes "has_frame env p" and "pump_inv p" and "aa_stream p \<noteq> None" and "pv_state env \<noteq> ST_DISCONNECTED" and "pv_write env < 0"
  defines "turn \<equiv> take (aa_residual p) (aa_buffer p) @ bytes_read env p"
  shows "take (aa_residual (pump_step env p)) (aa_buffer (pump_step env p)) = take (aa_residual (pump_step env p)) turn \<and>
         aa_residual (pump_step env p) = length turn mod bytes_per_frame (aa_config p)"
proof -
  define bpf where "bpf = bytes_per_frame (aa_config p)"
  define r where "r = (after_read env p)\<lparr>aa_residual := turn_bytes env p mod bpf\<rparr>"
  obtain h where h: "aa_stream p = Some h" using assms(3) by blast
  have e: "ensure_stream_started_locked env r = (True, r)"
    using assms(4) h by (simp add: ensure_stream_started_locked_def r_def after_read_def)
  have "pump_step env p = pump_frames env (turn_bytes env p) (after_read env p)"
    by (rule pump_step_frames) (use assms(1) in \<open>simp_all add: has_frame_def\<close>)
  moreover have cfg: "aa_config (after_read env p) = aa_config p" "aa_stream (after_read env p) = Some h"
    using h by (simp_all add: after_read_def)
  ultimately obtain data where step: "pump_step env p = pump_write_failed env (pv_write env) (r\<lparr>aa_writes := aa_writes r @ [(h, data)]\<rparr>)"
    using pump_frames_run [of "turn_bytes env p" "after_read env p" h env r, unfolded cfg] assms(1,5) e
    by (auto simp: has_frame_def bpf_def r_def Let_def)
  have res: "aa_residual p \<le> length (aa_buffer p)" using assms(2) by (simp add: pump_inv_def)
  have bl: "length (bytes_read env p) + aa_residual p \<le> length (aa_buffer p)" using res by (simp add: bytes_read_def)
  have lt: "length turn = turn_bytes env p" using res by (simp add: turn_def turn_bytes_def)
  have b: "take (turn_bytes env p) (aa_buffer r) = turn"
    using blit_prefix [OF res bl] by (simp add: r_def after_read_def turn_bytes_def turn_def)
  have m: "turn_bytes env p mod bpf \<le> turn_bytes env p" by simp
  have "take (turn_bytes env p mod bpf) (aa_buffer r) = take (turn_bytes env p mod bpf) (take (turn_bytes env p) (aa_buffer r))"
    using m by (simp add: min_absorb1)
  also have "\<dots> = take (turn_bytes env p mod bpf) turn" unfolding b ..
  finally show ?thesis unfolding step by (simp add: write_failed_keeps lt r_def bpf_def)
qed

theorem aaudio_failed_write_corrupts_frame_witness:
  "let q = pump_step (sample_pump_env ST_STARTED None (- 1)) sample_aaudio
   in take (aa_residual q) (aa_buffer q) = [1, 2, 3] \<and> drop 4 [1, 2, 3, 4, 5, 6, 7 :: byte] = [5, 6, 7]"
proof -
  define env where "env = sample_pump_env ST_STARTED None (- 1)"
  have f: "has_frame env sample_aaudio" "aa_stream sample_aaudio \<noteq> None" "pv_state env \<noteq> ST_DISCONNECTED" "pv_write env < 0"
    "bytes_read env sample_aaudio = [1, 2, 3, 4, 5, 6, 7]" "aa_residual sample_aaudio = 0" "bytes_per_frame (aa_config sample_aaudio) = 4"
    by (simp_all add: env_def has_frame_def bytes_read_def turn_bytes_def sample_pump_env_def sample_aaudio_def AaudioFifoPlayer_def
        default_audio_config_def bytes_per_frame_def bytes_per_sample_def)
  have "pump_inv sample_aaudio" using sample_aaudio_playing by (simp add: playing_def)
  note t = aaudio_failed_write_corrupts_frame [OF f(1) this f(2-4)]
  have r: "aa_residual (pump_step env sample_aaudio) = 3" using conjunct2 [OF t] by (simp add: f)
  have "take 3 (aa_buffer (pump_step env sample_aaudio)) = [1, 2, 3]" using conjunct1 [OF t] unfolding r by (simp add: f)
  with r show ?thesis by (simp add: env_def Let_def)
qed

text \<open>A player whose stream is gone: every turn of the pump either does nothing or ends it.\<close>

lemma pump_without_stream:
  assumes "aa_stream p = None" and "aa_is_open p"
  shows "aa_stream (pump_step env p) = None" "aa_is_open (pump_step env p)" "aa_writes (pump_step env p) = aa_writes p"
    "aa_config (pump_step env p) = aa_config p" "aa_fifo_fd (pump_step env p) = aa_fifo_fd p"
  using assms by (auto simp: pump_step_def pump_frames_def keep_residual_def Let_def)

lemma fifo_write_full: "fifo_write (replicate k FifoFull) (b # bs) fifo = None"
  by (induction k) auto

text \<open>
  When the recreation of a disconnected stream fails, the player stays open but dead: no turn
  of the pump ever writes again, and since nothing drains the pipe any more, a write of the playback
  thread that finds it full waits without end.
\<close>

theorem aaudio_failed_rebuild_blocks_playback:
  assumes "has_frame env p" and "aa_stream p = Some h" and "pv_state env = ST_DISCONNECTED" and "aa_is_open p" and "0 \<le> aa_fifo_fd p"
    and "pv_now1 env - aa_last_rebuild_ms p \<ge> kMinRebuildIntervalMs" and "\<And>b. pv_build env b = None"
    and "0 < n" and "n * bytes_per_frame (aa_config p) \<le> length (pcm_bytes pcm)" and "0 < bytes_per_frame (aa_config p)"
  shows "let q = fold pump_step envs (pump_step env p)
         in aa_is_open q \<and> aa_writes q = aa_writes p \<and> aaudio_write (replicate k FifoFull) pcm n q = None"
proof -
  define q where "q = fold pump_step envs (pump_step env p)"
  define bpf where "bpf = bytes_per_frame (aa_config p)"
  define r where "r = (after_read env p)\<lparr>aa_residual := turn_bytes env p mod bpf\<rparr>"
  define s where "s = rebuild_stream_locked env (r\<lparr>aa_last_rebuild_ms := pv_now1 env\<rparr>)"
  have r: "aa_stream r = Some h" "aa_last_rebuild_ms r = aa_last_rebuild_ms p" using assms(2) by (simp_all add: r_def after_read_def)
  have s: "aa_stream s = None" "aa_is_open s" "aa_writes s = aa_writes p" "aa_config s = aa_config p" "aa_fifo_fd s = aa_fifo_fd p"
    using assms(4,7) by (simp_all add: s_def r_def after_read_def rebuild_stream_locked_def Let_def)
  have e: "ensure_stream_started_locked env r = (False, s)"
    using ensure_rebuilds [OF r(1) assms(3)] assms(6) r(2) s(1) by (simp add: s_def Let_def)
  have "pump_step env p = pump_frames env (turn_bytes env p) (after_read env p)"
    by (rule pump_step_frames) (use assms(1) in \<open>simp_all add: has_frame_def\<close>)
  moreover have "aa_config (after_read env p) = aa_config p" "aa_stream (after_read env p) = Some h"
    using assms(2) by (simp_all add: after_read_def)
  ultimately have step: "pump_step env p = s"
    using assms(1) e by (simp add: pump_frames_def has_frame_def r_def bpf_def Let_def)
  have "aa_stream (fold pump_step es s') = None \<and> aa_is_open (fold pump_step es s') \<and> aa_writes (fold pump_step es s') = aa_writes s' \<and>
        aa_config (fold pump_step es s') = aa_config s' \<and> aa_fifo_fd (fold pump_step es s') = aa_fifo_fd s'"
    if "aa_stream s' = None" "aa_is_open s'" for es s'
    using that by (induction es arbitrary: s') (auto simp: pump_without_stream)
  from this [OF s(1,2), of envs] have q: "aa_is_open q" "aa_writes q = aa_writes p" "aa_config q = aa_config p" "0 \<le> aa_fifo_fd q"
    using s assms(5) by (auto simp: q_def step)
  have "length (take (n * bpf) (pcm_bytes pcm)) = n * bpf" using assms(9) by (simp only: bpf_def length_take)
  moreover have "0 < n * bpf" using assms(8,10) by (simp add: bpf_def)
  ultimately have "take (n * bpf) (pcm_bytes pcm) \<noteq> []" by (metis length_0_conv less_irrefl)
  then obtain b bs where "take (n * bpf) (pcm_bytes pcm) = b # bs" by (cases "take (n * bpf) (pcm_bytes pcm)") auto
  then have "aaudio_write (replicate k FifoFull) pcm n q = None"
    using q assms(8-10) by (simp add: aaudio_write_def Let_def bpf_def fifo_write_full)
  with q show ?thesis by (simp add: q_def [symmetric] Let_def)
qed

theorem aaudio_failed_rebuild_blocks_playback_witness:
  "aa_is_open (pump_step (sample_pump_env ST_DISCONNECTED None 0) sample_aaudio) \<and>
   aaudio_write (replicate 1000 FifoFull) [1, 2] 1 (pump_step (sample_pump_env ST_DISCONNECTED None 0) sample_aaudio) = None"
proof -
  define env where "env = sample_pump_env ST_DISCONNECTED None 0"
  have f: "has_frame env sample_aaudio" "aa_stream sample_aaudio = Some 1" "pv_state env = ST_DISCONNECTED" "aa_is_open sample_aaudio"
    "0 \<le> aa_fifo_fd sample_aaudio" "pv_now1 env - aa_last_rebuild_ms sample_aaudio \<ge> kMinRebuildIntervalMs" "\<And>b. pv_build env b = None"
    "0 < (1 :: nat)" "1 * bytes_per_frame (aa_config sample_aaudio) \<le> length (pcm_bytes [1, 2])" "0 < bytes_per_frame (aa_config sample_aaudio)"
    by (simp_all add: env_def has_frame_def bytes_read_def turn_bytes_def sample_pump_env_def sample_aaudio_def AaudioFifoPlayer_def
        default_audio_config_def bytes_per_frame_def bytes_per_sample_def kMinRebuildIntervalMs_def pcm_bytes_def)
  from aaudio_failed_rebuild_blocks_playback [OF f, of "[]" 1000] show ?thesis by (simp add: env_def Let_def)
qed

section \<open>The watchdog\<close>

lemma pump_step_gives_up:
  assumes "aa_is_open p \<longrightarrow> aa_stall_rebuilds p \<le> kMaxStallRebuilds"
  shows "aa_is_open (pump_step env p) \<longrightarrow> aa_stall_rebuilds (pump_step env p) \<le> kMaxStallRebuilds"
proof -
  have failed: "aa_is_open (pump_write_failed e w q) \<longrightarrow> aa_stall_rebuilds (pump_write_failed e w q) \<le> kMaxStallRebuilds"
    if "aa_is_open q \<longrightarrow> aa_stall_rebuilds q \<le> kMaxStallRebuilds" for e w q
    using that by (simp add: pump_write_failed_def Let_def)
  have dn: "aa_is_open (pump_write_done e q) = aa_is_open q" "aa_stall_rebuilds (pump_write_done e q) = aa_stall_rebuilds q"
    "aa_is_open (keep_residual m q) = aa_is_open q" "aa_stall_rebuilds (keep_residual m q) = aa_stall_rebuilds q" for e m q
    by (simp_all add: pump_write_done_def keep_residual_def Let_def)
  have "aa_is_open (pump_frames e n q) \<longrightarrow> aa_stall_rebuilds (pump_frames e n q) \<le> kMaxStallRebuilds"
    if "aa_is_open q \<longrightarrow> aa_stall_rebuilds q \<le> kMaxStallRebuilds" for e n q
  proof -
    obtain ok r where r: "ensure_stream_started_locked e (q\<lparr>aa_residual := n mod bytes_per_frame (aa_config q)\<rparr>) = (ok, r)" by fastforce
    note k = ensure_keeps [OF r]
    show ?thesis using that r k failed
      by (auto simp: pump_frames_def dn Let_def split: option.splits)
  qed
  then show ?thesis using assms by (simp add: pump_step_def Let_def)
qed

text \<open>
  The watchdog does not recreate streams for ever. From a fresh open, however the device
  behaves, a player that still reports itself open has recreated a stalled stream at most three times.
\<close>

theorem aaudio_watchdog_gives_up:
  assumes "aaudio_open env config name p0 = (True, p)"
  shows "aa_is_open (fold pump_step envs p) \<longrightarrow> aa_stall_rebuilds (fold pump_step envs p) \<le> kMaxStallRebuilds"
proof -
  have "aa_stall_rebuilds p = 0"
    using assms by (auto simp: aaudio_open_def create_fifo_def Let_def split: if_splits option.splits)
  then have "aa_is_open p \<longrightarrow> aa_stall_rebuilds p \<le> kMaxStallRebuilds" by simp
  then show ?thesis
  proof (induction envs arbitrary: p)
    case (Cons e es)
    from Cons.IH [OF pump_step_gives_up [OF Cons.prems]] show ?case by simp
  qed simp
qed

theorem aaudio_watchdog_gives_up_witness:
  "\<exists>p. aaudio_open \<lparr>ov_mkfifo = True, ov_open_fd = 4, ov_build = (\<lambda>_. Some 1), ov_now = 0\<rparr> default_audio_config ''aaudio'' AaudioFifoPlayer = (True, p) \<and>
       (aa_is_open (fold pump_step [sample_pump_env ST_STARTED (Some 2) 0] p) \<longrightarrow>
        aa_stall_rebuilds (fold pump_step [sample_pump_env ST_STARTED (Some 2) 0] p) \<le> 3)"
proof -
  obtain p where "aaudio_open \<lparr>ov_mkfifo = True, ov_open_fd = 4, ov_build = (\<lambda>_. Some 1), ov_now = 0\<rparr> default_audio_config ''aaudio'' AaudioFifoPlayer = (True, p)"
    by (simp add: aaudio_open_def create_fifo_def AaudioFifoPlayer_def Let_def)
  from aaudio_watchdog_gives_up [OF this, of "[sample_pump_env ST_STARTED (Some 2) 0]"] this show ?thesis
    by (auto simp: kMaxStallRebuilds_def)
qed

end
