(* ===== verification/Agm.thy ===== *)
theory Agm
  imports Player Android_Helpers "HOL-Library.Signed_Division"
begin

text \<open>
  \<^verbatim>\<open>src/client/agm_fifo_player.{hpp,cpp}\<close> on Android: playback through the vendor's \<^verbatim>\<open>agmplay\<close> program,
  which reads a WAV stream from a FIFO, with a recovery that replaces a stuck or dead child. The
  bytes the pipe took and the children that were reaped are logged; the outcome of every system call
  is an argument. The lemmas cover the header and the downmix, the rate limit of the recovery, and a
  recovery that fails.
\<close>

section \<open>WAV header\<close>

definition kIdRiff :: u32 where "kIdRiff = 0x46464952"
definition kIdWave :: u32 where "kIdWave = 0x45564157"
definition kIdFmt :: u32 where "kIdFmt = 0x20746d66"
definition kIdData :: u32 where "kIdData = 0x61746164"

definition kStallTriggerMs :: u64 where "kStallTriggerMs = 2500"
definition kMinRecoverIntervalMs :: u64 where "kMinRecoverIntervalMs = 3000"
definition kRecoveryReaderTimeoutMs :: nat where "kRecoveryReaderTimeoutMs = 8000"
definition kSessionCloseWindowMs :: u64 where "kSessionCloseWindowMs = 2000"

definition u32_bytes :: "u32 \<Rightarrow> byte list" where "u32_bytes w = le_encode 4 (unat w)"
definition u16_bytes :: "u16 \<Rightarrow> byte list" where "u16_bytes w = le_encode 2 (unat w)"

definition agm_wav_header :: "u32 \<Rightarrow> byte list" where
  "agm_wav_header sample_rate =
     u32_bytes kIdRiff @ u32_bytes 0xFFFFFFFF @ u32_bytes kIdWave @ u32_bytes kIdFmt @ u32_bytes 16 @
     u16_bytes 1 @ u16_bytes 1 @ u32_bytes sample_rate @ u32_bytes (sample_rate * 2) @ u16_bytes 2 @ u16_bytes 16 @
     u32_bytes kIdData @ u32_bytes 0xFFFFFFFF"

text \<open>
  The header is written once; if the pipe is full it is polled up to 40 times. One event is the result
  of a \<open>write\<close>, or of a \<open>poll\<close> that does not report the pipe writable.
\<close>

datatype header_event = HdrWrote nat | HdrAgain | HdrError | HdrNotReady | HdrPollError

fun retry_header :: "nat \<Rightarrow> header_event list \<Rightarrow> byte list \<Rightarrow> (byte list \<times> header_event list) option" where
  "retry_header 0 es hdr = Some ([], es)"
| "retry_header (Suc k) [] hdr = None"
| "retry_header (Suc k) (e # es) hdr =
     (case e of
        HdrWrote n \<Rightarrow> Some (take n hdr, es)
      | HdrAgain \<Rightarrow> retry_header k es hdr
      | HdrError \<Rightarrow> Some ([], es)
      | HdrNotReady \<Rightarrow> retry_header k es hdr
      | HdrPollError \<Rightarrow> Some ([], es))"

definition write_wav_header :: "header_event list \<Rightarrow> u32 \<Rightarrow> (byte list \<times> header_event list) option" where
  "write_wav_header es sample_rate =
     (let hdr = agm_wav_header sample_rate in
      case es of
        [] \<Rightarrow> None
      | HdrWrote n # es \<Rightarrow> Some (take n hdr, es)
      | HdrAgain # es \<Rightarrow> retry_header 40 es hdr
      | _ # es \<Rightarrow> Some ([], es))"

section \<open>State\<close>

record agm_player =
  ag_config :: audio_config
  ag_backend :: string
  ag_fifo_fd :: int
  ag_agmplay_pid :: int
  ag_is_open :: bool
  ag_stall_start_ms :: u64
  ag_last_recover_ms :: u64
  ag_recovering :: bool
  ag_session_closed :: bool
  ag_restarted_hal_pid :: string
  ag_out :: "byte list"
  ag_reaped :: "int list"
  ag_recoveries :: nat

definition default_backend :: string where "default_backend = ''CODEC_DMA-LPAIF_RXTX-RX-1''"

definition AgmFifoPlayer :: agm_player where
  "AgmFifoPlayer =
     \<lparr>ag_config = default_audio_config, ag_backend = default_backend, ag_fifo_fd = - 1, ag_agmplay_pid = - 1,
      ag_is_open = False, ag_stall_start_ms = 0, ag_last_recover_ms = 0, ag_recovering = False,
      ag_session_closed = False, ag_restarted_hal_pid = [], ag_out = [], ag_reaped = [], ag_recoveries = 0\<rparr>"

datatype reader_result = ReaderFd int | NoReader | ReaderError

text \<open>
  What spawning a child sees: whether the FIFO can be made, the result of \<open>fork\<close> in the parent, the
  attempts to open the FIFO, and the events of the header write.
\<close>

record spawn_env =
  se_mkfifo :: bool
  se_fork :: int
  se_reader :: "nat \<Rightarrow> reader_result"
  se_header :: "header_event list"

fun wait_for_reader :: "(nat \<Rightarrow> reader_result) \<Rightarrow> nat \<Rightarrow> nat \<Rightarrow> int option" where
  "wait_for_reader reader i 0 = None"
| "wait_for_reader reader i (Suc k) =
     (case reader i of
        ReaderFd fd \<Rightarrow> Some fd
      | ReaderError \<Rightarrow> None
      | NoReader \<Rightarrow> wait_for_reader reader (Suc i) k)"

definition respawn_subprocess :: "spawn_env \<Rightarrow> agm_player \<Rightarrow> (bool \<times> agm_player) option" where
  "respawn_subprocess env p =
     (if \<not> se_mkfifo env then Some (False, p)
      else if se_fork env < 0 then Some (False, p)
      else if \<not> ag_is_open p then Some (False, p\<lparr>ag_reaped := ag_reaped p @ [se_fork env]\<rparr>)
      else
        (let p = p\<lparr>ag_agmplay_pid := se_fork env\<rparr>
         in case wait_for_reader (se_reader env) 0 (kRecoveryReaderTimeoutMs div 100) of
              None \<Rightarrow> Some (False, p)
            | Some fd \<Rightarrow>
                (let rate = (if ac_sample_rate (ag_config p) > 0 then ac_sample_rate (ag_config p) else 48000);
                     p = p\<lparr>ag_fifo_fd := fd\<rparr>
                 in map_option (\<lambda>(bytes, _). (True, p\<lparr>ag_out := ag_out p @ bytes\<rparr>)) (write_wav_header (se_header env) rate))))"

text \<open>Restart of the audio HAL: the process id before, and the ids read in up to 30 polls after.\<close>

fun poll_new_pid :: "string \<Rightarrow> string \<Rightarrow> string list \<Rightarrow> string" where
  "poll_new_pid old cur [] = cur"
| "poll_new_pid old cur (s # ss) = (if s \<noteq> [] \<and> s \<noteq> old then s else poll_new_pid old s ss)"

definition restart_audio_hal :: "string \<Rightarrow> string list \<Rightarrow> agm_player \<Rightarrow> string option \<times> agm_player" where
  "restart_audio_hal old_pid polled p =
     (if old_pid = [] \<or> \<not> list_all isdigit old_pid then (None, p)
      else if old_pid = ag_restarted_hal_pid p then (None, p)
      else
        (let new_pid = poll_new_pid old_pid [] (take 30 polled)
         in (Some (''kill -9 '' @ old_pid),
             if new_pid = [] \<or> new_pid = old_pid then p else p\<lparr>ag_restarted_hal_pid := new_pid\<rparr>)))"

record recover_env =
  re_now :: u64
  re_hal_pid :: string
  re_hal_polled :: "string list"
  re_spawn :: spawn_env

definition agm_teardown :: "agm_player \<Rightarrow> agm_player" where
  "agm_teardown p =
     (let p = p\<lparr>ag_fifo_fd := - 1\<rparr>
      in if ag_agmplay_pid p > 0
         then p\<lparr>ag_reaped := ag_reaped p @ [ag_agmplay_pid p], ag_agmplay_pid := - 1\<rparr> else p)"

definition agm_recover :: "recover_env \<Rightarrow> agm_player \<Rightarrow> agm_player option" where
  "agm_recover env p =
     (if ag_recovering p then Some p
      else if re_now env - ag_last_recover_ms p < kMinRecoverIntervalMs then Some p
      else
        (let p = p\<lparr>ag_last_recover_ms := re_now env, ag_recoveries := ag_recoveries p + 1\<rparr>
         in if \<not> ag_is_open p then Some p
            else
              (let p = agm_teardown p;
                   p = snd (restart_audio_hal (re_hal_pid env) (re_hal_polled env) p);
                   p = p\<lparr>ag_session_closed := False\<rparr>
               in map_option (\<lambda>(ok, p). if ok then p\<lparr>ag_stall_start_ms := 0\<rparr> else p) (respawn_subprocess (re_spawn env) p))))"

definition agm_close :: "agm_player \<Rightarrow> agm_player" where
  "agm_close p = (agm_teardown p)\<lparr>ag_is_open := False\<rparr>"

definition agm_open :: "spawn_env \<Rightarrow> audio_config \<Rightarrow> string \<Rightarrow> agm_player \<Rightarrow> (bool \<times> agm_player) option" where
  "agm_open env config device_name p =
     (let p = (if ag_is_open p then agm_close p else p);
          name = (if device_name = [] then ''agm'' else device_name);
          backend = (if starts_with name ''agm:'' \<and> drop 4 name \<noteq> [] then drop 4 name else default_backend);
          p = p\<lparr>ag_config := config, ag_backend := backend, ag_is_open := True\<rparr>
      in map_option (\<lambda>(ok, p). if ok then (True, p) else (False, agm_close p)) (respawn_subprocess env p))"

text \<open>The watcher's mixer check, at most once a second.\<close>

definition mixer_check :: "u64 \<Rightarrow> bool \<Rightarrow> agm_player \<Rightarrow> agm_player" where
  "mixer_check now_ms intact p =
     (let settling = (ag_last_recover_ms p \<noteq> 0 \<and> now_ms - ag_last_recover_ms p < kSessionCloseWindowMs)
      in if \<not> settling \<and> ag_is_open p \<and> \<not> ag_recovering p \<and> \<not> intact then p\<lparr>ag_session_closed := True\<rparr> else p)"

section \<open>Writing\<close>

definition agm_channels :: "agm_player \<Rightarrow> nat" where
  "agm_channels p = (if ac_channels (ag_config p) > 0 then unat (ac_channels (ag_config p)) else 2)"

definition mono_sample :: "i16 \<Rightarrow> i16 \<Rightarrow> i16" where
  "mono_sample l r = word_of_int ((sint l + sint r) sdiv 2)"

text \<open>The samples that go into the pipe; \<open>None\<close> is a read behind the end of the buffer.\<close>

definition agm_source :: "nat \<Rightarrow> i16 list \<Rightarrow> nat \<Rightarrow> i16 list option" where
  "agm_source channels pcm num_frames =
     (if channels = 2
      then (if length pcm < 2 * num_frames then None
            else Some (map (\<lambda>i. mono_sample (pcm ! (i * 2)) (pcm ! (i * 2 + 1))) [0..<num_frames]))
      else if length pcm < num_frames then None else Some (take num_frames pcm))"

datatype agm_event = AgmTook nat | AgmEintr | AgmFull u64 u64 | AgmFailed

fun agm_loop :: "recover_env \<Rightarrow> nat \<Rightarrow> agm_event list \<Rightarrow> byte list \<Rightarrow> agm_player \<Rightarrow> (nat \<times> agm_player) option" where
  "agm_loop env num_frames es [] p = Some (num_frames, p)"
| "agm_loop env num_frames [] (b # bs) p = None"
| "agm_loop env num_frames (e # es) (b # bs) p =
     (if \<not> ag_is_open p \<or> ag_fifo_fd p < 0 then Some (0, p)
      else
        (case e of
           AgmTook n \<Rightarrow>
             if n = 0 then map_option (\<lambda>q. (0, q)) (agm_recover env p)
             else agm_loop env num_frames es (drop n (b # bs))
                    (p\<lparr>ag_out := ag_out p @ take n (b # bs), ag_stall_start_ms := 0\<rparr>)
         | AgmEintr \<Rightarrow> agm_loop env num_frames es (b # bs) p
         | AgmFull now1 now2 \<Rightarrow>
             (let p = (if ag_stall_start_ms p = 0 then p\<lparr>ag_stall_start_ms := now1\<rparr> else p)
              in if now2 - ag_stall_start_ms p \<ge> kStallTriggerMs then map_option (\<lambda>q. (0, q)) (agm_recover env p)
                 else agm_loop env num_frames es (b # bs) p)
         | AgmFailed \<Rightarrow> map_option (\<lambda>q. (0, q)) (agm_recover env p)))"

definition agm_write :: "recover_env \<Rightarrow> agm_event list \<Rightarrow> i16 list \<Rightarrow> nat \<Rightarrow> agm_player \<Rightarrow> (nat \<times> agm_player) option" where
  "agm_write env es pcm num_frames p =
     (if num_frames = 0 then Some (0, p)
      else if agm_channels p = 2 \<and> agm_source 2 pcm num_frames = None then None
      else if \<not> ag_is_open p \<or> ag_fifo_fd p < 0 then Some (0, p)
      else if ag_recovering p then Some (0, p)
      else if ag_session_closed p then map_option (\<lambda>q. (0, q)) (agm_recover env (p\<lparr>ag_session_closed := False\<rparr>))
      else (case agm_source (agm_channels p) pcm num_frames of
              None \<Rightarrow> None
            | Some src \<Rightarrow> agm_loop env num_frames es (pcm_bytes src) p))"

definition agm_get_buffer_delay_frames :: "int \<Rightarrow> agm_player \<Rightarrow> nat" where
  "agm_get_buffer_delay_frames fionread p =
     (let bytes = (if ag_fifo_fd p \<ge> 0 then fionread else 0) in if bytes \<le> 0 then 0 else nat bytes div 2)"

definition agm_get_device_name :: "agm_player \<Rightarrow> string" where
  "agm_get_device_name p = ''agm:'' @ ag_backend p"

definition agm_ops :: "recover_env \<Rightarrow> agm_event list \<Rightarrow> int \<Rightarrow> agm_player player_ops" where
  "agm_ops env es fionread =
     \<lparr>po_is_open = ag_is_open, po_close = agm_close, po_write_frames = agm_write env es,
      po_get_buffer_delay_frames = agm_get_buffer_delay_frames fionread, po_get_device_name = agm_get_device_name,
      po_needs_playback_pacing = True, po_is_placeholder = False\<rparr>"

section \<open>Header and downmix\<close>

lemma length_agm_wav_header: "length (agm_wav_header rate) = 44"
  by (simp add: agm_wav_header_def u32_bytes_def u16_bytes_def)

lemma mono_sample_average: "sint (mono_sample l r) = (sint l + sint r) sdiv 2"
proof -
  have b: "- 32768 \<le> sint w \<and> sint w < 32768" for w :: i16
    using sint_range_size [of w] by (simp add: word_size)
  have "- 32768 \<le> (sint l + sint r) sdiv 2" "(sint l + sint r) sdiv 2 < 32768"
    using b [of l] b [of r] by (auto simp: signed_divide_int_def sgn_if abs_if)
  then show ?thesis by (simp add: mono_sample_def sint_sbintrunc' signed_take_bit_int_eq_self)
qed

lemma agm_source_stereo:
  "agm_source 2 pcm n = Some src \<Longrightarrow>
   length src = n \<and> (\<forall>i < n. sint (src ! i) = (sint (pcm ! (2 * i)) + sint (pcm ! (2 * i + 1))) sdiv 2)"
  by (auto simp: agm_source_def mono_sample_average mult.commute split: if_splits)

section \<open>Writing and recovering\<close>

lemma teardown_keeps [simp]:
  "ag_is_open (agm_teardown p) = ag_is_open p" "ag_recoveries (agm_teardown p) = ag_recoveries p"
  "ag_last_recover_ms (agm_teardown p) = ag_last_recover_ms p" "ag_fifo_fd (agm_teardown p) = - 1"
  by (simp_all add: agm_teardown_def Let_def)

lemma restart_hal_keeps [simp]:
  "ag_is_open (snd (restart_audio_hal o1 ps p)) = ag_is_open p"
  "ag_recoveries (snd (restart_audio_hal o1 ps p)) = ag_recoveries p"
  "ag_last_recover_ms (snd (restart_audio_hal o1 ps p)) = ag_last_recover_ms p"
  "ag_fifo_fd (snd (restart_audio_hal o1 ps p)) = ag_fifo_fd p"
  by (simp_all add: restart_audio_hal_def Let_def)

lemma respawn_keeps:
  assumes "respawn_subprocess env p = Some (ok, q)"
  shows "ag_is_open q = ag_is_open p" "ag_recoveries q = ag_recoveries p" "ag_last_recover_ms q = ag_last_recover_ms p"
    "\<not> ok \<Longrightarrow> ag_fifo_fd q = ag_fifo_fd p"
  using assms by (auto simp: respawn_subprocess_def Let_def split: if_splits option.splits)

lemma agm_recover_rate:
  assumes "agm_recover env p = Some q"
  shows "q = p \<or> re_now env - ag_last_recover_ms p \<ge> kMinRecoverIntervalMs \<and>
                 ag_recoveries q = ag_recoveries p + 1 \<and> ag_last_recover_ms q = re_now env"
  using assms
  by (auto simp: agm_recover_def Let_def not_less split: if_splits dest: respawn_keeps)

lemma agm_loop_result:
  assumes "agm_loop env n es bs p = Some (k, q)"
  shows "(k = n \<and> ag_out q = ag_out p @ bs \<or> k = 0) \<and>
         (ag_recoveries q = ag_recoveries p \<and> ag_last_recover_ms q = ag_last_recover_ms p \<or>
          re_now env - ag_last_recover_ms p \<ge> kMinRecoverIntervalMs \<and> ag_recoveries q = ag_recoveries p + 1 \<and>
          ag_last_recover_ms q = re_now env)"
  using assms
proof (induction env n es bs p arbitrary: k q rule: agm_loop.induct)
  case (3 env n e es b bs p)
  show ?case
  proof (cases "\<not> ag_is_open p \<or> ag_fifo_fd p < 0")
    case True
    then show ?thesis using "3.prems" by auto
  next
    case False
    show ?thesis
    proof (cases e)
      case (AgmTook m)
      show ?thesis
      proof (cases "m = 0")
        case True
        then show ?thesis using "3.prems" False AgmTook by (auto dest: agm_recover_rate)
      next
        case m: False
        then have "agm_loop env n es (drop m (b # bs)) (p\<lparr>ag_out := ag_out p @ take m (b # bs), ag_stall_start_ms := 0\<rparr>) = Some (k, q)"
          using "3.prems" False AgmTook by simp
        from "3.IH"(1) [OF False AgmTook m this] show ?thesis by simp
      qed
    next
      case AgmEintr
      then show ?thesis using "3.IH"(2) "3.prems" False by simp
    next
      case (AgmFull t1 t2)
      define r where "r = (if ag_stall_start_ms p = 0 then p\<lparr>ag_stall_start_ms := t1\<rparr> else p)"
      have r: "ag_out r = ag_out p" "ag_recoveries r = ag_recoveries p" "ag_last_recover_ms r = ag_last_recover_ms p"
        by (simp_all add: r_def)
      show ?thesis
      proof (cases "t2 - ag_stall_start_ms r \<ge> kStallTriggerMs")
        case True
        then have "k = 0" "agm_recover env r = Some q"
          using "3.prems" False AgmFull by (auto simp: Let_def r_def [symmetric])
        with agm_recover_rate [OF this(2)] r show ?thesis by auto
      next
        case nt: False
        then have "agm_loop env n es (b # bs) r = Some (k, q)"
          using "3.prems" False AgmFull by (simp add: Let_def r_def [symmetric])
        from "3.IH"(3) [OF False AgmFull r_def nt this] r show ?thesis by simp
      qed
    next
      case AgmFailed
      then show ?thesis using "3.prems" False by (auto dest: agm_recover_rate)
    qed
  qed
qed auto

interpretation agm_backend: audio_player "agm_ops env es fionread" "\<lambda>_. True"
proof (unfold_locales, goal_cases)
  case (1 p pcm n k p')
  then show ?case
    by (auto simp: agm_ops_def agm_write_def split: if_splits option.splits dest: agm_loop_result)
qed (auto simp: agm_ops_def agm_write_def agm_close_def split: if_splits)

text \<open>
  Claim C36: A write of stereo audio that reports success has put exactly the averaged mono samples of
  the period into the pipe, each the mean of its two channels rounded toward zero, with nothing before,
  between or after them; any other outcome reports zero frames. Whatever happens, one write recovers
  the stream at most once, and never within three seconds of the last recovery.
\<close>

theorem agm_write_exact:
  assumes "agm_channels p = 2" and "agm_write env es pcm n p = Some (k, q)"
  shows "(k = 0 \<or> k = n \<and> (\<exists>src. ag_out q = ag_out p @ pcm_bytes src \<and> length src = n \<and>
            (\<forall>i < n. sint (src ! i) = (sint (pcm ! (2 * i)) + sint (pcm ! (2 * i + 1))) sdiv 2))) \<and>
         (ag_recoveries q = ag_recoveries p \<or>
          ag_recoveries q = ag_recoveries p + 1 \<and> re_now env - ag_last_recover_ms p \<ge> kMinRecoverIntervalMs)"
proof -
  consider (idle) "k = 0" "q = p"
    | (closed) "k = 0" "agm_recover env (p\<lparr>ag_session_closed := False\<rparr>) = Some q"
    | (loop) src where "agm_source 2 pcm n = Some src" "agm_loop env n es (pcm_bytes src) p = Some (k, q)"
  proof (cases "n = 0 \<or> \<not> ag_is_open p \<or> ag_fifo_fd p < 0 \<or> ag_recovering p")
    case True
    then have "k = 0 \<and> q = p" using assms(2) unfolding agm_write_def by (simp split: if_split_asm)
    then show ?thesis by (intro idle) simp_all
  next
    case busy: False
    show ?thesis
    proof (cases "ag_session_closed p")
      case True
      then have "k = 0 \<and> agm_recover env (p\<lparr>ag_session_closed := False\<rparr>) = Some q"
        using busy assms(2) unfolding agm_write_def by (simp split: if_split_asm)
      then show ?thesis by (intro closed) simp_all
    next
      case False
      with busy assms obtain src where "agm_source 2 pcm n = Some src" "agm_loop env n es (pcm_bytes src) p = Some (k, q)"
        unfolding agm_write_def by (cases "agm_source 2 pcm n") simp_all
      then show ?thesis by (rule loop)
    qed
  qed
  then show ?thesis
  proof cases
    case closed
    then show ?thesis using agm_recover_rate [OF closed(2)] by auto
  next
    case loop
    then show ?thesis using agm_source_stereo [OF loop(1)] agm_loop_result [OF loop(2)] by blast
  qed simp
qed

definition sample_agm :: agm_player where
  "sample_agm = AgmFifoPlayer\<lparr>ag_is_open := True, ag_fifo_fd := 5, ag_agmplay_pid := 41\<rparr>"

definition sample_recover_env :: recover_env where
  "sample_recover_env =
     \<lparr>re_now = 60000, re_hal_pid = ''812'', re_hal_polled = [''812'', ''990''],
      re_spawn = \<lparr>se_mkfifo = True, se_fork = 42, se_reader = (\<lambda>_. NoReader), se_header = [HdrWrote 44]\<rparr>\<rparr>"

theorem agm_write_exact_witness:
  "\<exists>q src. agm_write sample_recover_env [AgmTook 3, AgmEintr, AgmTook 1] [10, 21, 100, - 200] 2 sample_agm = Some (2, q) \<and>
     ag_out q = pcm_bytes src \<and> length src = 2 \<and> sint (src ! 0) = 15 \<and> sint (src ! 1) = - 50"
proof -
  define w where "w = agm_write sample_recover_env [AgmTook 3, AgmEintr, AgmTook 1] [10, 21, 100, - 200] 2 sample_agm"
  have le: "le_encode 2 x = [word_of_nat x, word_of_nat (x div 256)]" for x
    by (simp add: numeral_2_eq_2)
  have "case w of None \<Rightarrow> False | Some (k, _) \<Rightarrow> k = 2"
    by (simp add: w_def agm_write_def agm_channels_def agm_source_def mono_sample_def pcm_bytes_def sample_agm_def
        AgmFifoPlayer_def default_audio_config_def signed_divide_int_def upt_rec le)
  then obtain q where q: "w = Some (2, q)" by (auto split: option.splits)
  have c: "agm_channels sample_agm = 2" by code_simp
  from agm_write_exact [OF c q [unfolded w_def]] obtain src
    where "ag_out q = ag_out sample_agm @ pcm_bytes src" "length src = 2"
      "\<forall>i < 2. sint (src ! i) = (sint ([10, 21, 100, - 200 :: i16] ! (2 * i)) + sint ([10, 21, 100, - 200 :: i16] ! (2 * i + 1))) sdiv 2"
    by auto
  then show ?thesis using q
    by (auto simp: w_def sample_agm_def AgmFifoPlayer_def signed_divide_int_def)
qed

section \<open>A failed recovery\<close>

text \<open>
  What the client does with an open player: writes, and the watcher's checks in between.
\<close>

datatype agm_action = DoWrite recover_env "agm_event list" "i16 list" nat | DoCheck u64 bool

fun do_agm_action :: "agm_action \<Rightarrow> agm_player \<Rightarrow> (nat \<times> agm_player) option" where
  "do_agm_action (DoWrite env es pcm n) p = agm_write env es pcm n p"
| "do_agm_action (DoCheck now intact) p = Some (0, mixer_check now intact p)"

fun agm_actions :: "agm_action list \<Rightarrow> agm_player \<Rightarrow> (nat \<times> agm_player) option" where
  "agm_actions [] p = Some (0, p)"
| "agm_actions (a # as) p =
     (case do_agm_action a p of
        None \<Rightarrow> None
      | Some (k, q) \<Rightarrow> map_option (\<lambda>(t, r). (k + t, r)) (agm_actions as q))"

lemma no_pipe_no_write:
  assumes "ag_fifo_fd p < 0" and "do_agm_action a p = Some (k, q)"
  shows "k = 0 \<and> ag_is_open q = ag_is_open p \<and> ag_fifo_fd q < 0 \<and> ag_out q = ag_out p \<and> ag_recoveries q = ag_recoveries p"
  using assms by (cases a) (auto simp: agm_write_def mixer_check_def Let_def split: if_splits)

lemma no_pipe_forever:
  assumes "ag_fifo_fd p < 0" and "agm_actions as p = Some (k, q)"
  shows "k = 0 \<and> ag_is_open q = ag_is_open p \<and> ag_out q = ag_out p \<and> ag_recoveries q = ag_recoveries p"
  using assms
proof (induction as arbitrary: p k)
  case Nil
  then show ?case by simp
next
  case (Cons a as)
  from Cons.prems(2) obtain j r t where a: "do_agm_action a p = Some (j, r)" and t: "agm_actions as r = Some (t, q)" and "k = j + t"
    by (auto split: option.splits)
  then show ?case using Cons.IH [OF _ t] no_pipe_no_write [OF Cons.prems(1) a] by simp
qed

lemma respawn_without_reader:
  assumes "\<And>i. se_reader env i = NoReader"
  shows "\<exists>q. respawn_subprocess env p = Some (False, q)"
proof -
  have "wait_for_reader (se_reader env) i j = None" for i j
    using assms by (induction j arbitrary: i) simp_all
  then show ?thesis by (simp add: respawn_subprocess_def Let_def)
qed

text \<open>
  When a recovery's new \<^verbatim>\<open>agmplay\<close> does not open the FIFO in time, the log says that the
  recovery will be retried, but nothing retries it: the player stays open without a pipe, and from
  then on every write reports zero frames, puts nothing into a pipe and starts no recovery, whatever
  the watcher reports.
\<close>

theorem agm_failed_respawn_is_silent:
  assumes "ag_is_open p" and "\<not> ag_recovering p" and "re_now env - ag_last_recover_ms p \<ge> kMinRecoverIntervalMs"
    and "\<And>i. se_reader (re_spawn env) i = NoReader"
  shows "\<exists>q. agm_recover env p = Some q \<and> ag_is_open q \<and>
             (\<forall>as k r. agm_actions as q = Some (k, r) \<longrightarrow>
                k = 0 \<and> ag_is_open r \<and> ag_out r = ag_out q \<and> ag_recoveries r = ag_recoveries q)"
proof -
  define s where "s = (snd (restart_audio_hal (re_hal_pid env) (re_hal_polled env)
      (agm_teardown (p\<lparr>ag_last_recover_ms := re_now env, ag_recoveries := ag_recoveries p + 1\<rparr>))))\<lparr>ag_session_closed := False\<rparr>"
  have s: "ag_is_open s" "ag_fifo_fd s = - 1" using assms(1) by (simp_all add: s_def)
  obtain q where q: "respawn_subprocess (re_spawn env) s = Some (False, q)"
    using respawn_without_reader assms(4) by blast
  have "agm_recover env p = Some q"
    using assms(1-3) q by (simp add: agm_recover_def Let_def s_def not_less [symmetric])
  moreover have "ag_is_open q" "ag_fifo_fd q < 0" using respawn_keeps [OF q] s by simp_all
  ultimately show ?thesis using no_pipe_forever by blast
qed

theorem agm_failed_respawn_is_silent_witness:
  "\<exists>q. agm_recover sample_recover_env sample_agm = Some q \<and> ag_is_open q \<and>
       agm_actions [DoWrite sample_recover_env [AgmTook 4] [1, 2] 1, DoCheck 90000 False,
         DoWrite sample_recover_env [AgmTook 4] [1, 2] 1] q \<noteq> None \<and>
       (\<forall>as k r. agm_actions as q = Some (k, r) \<longrightarrow> k = 0 \<and> ag_recoveries r = 1)"
proof -
  have h: "ag_is_open sample_agm" "\<not> ag_recovering sample_agm"
    "re_now sample_recover_env - ag_last_recover_ms sample_agm \<ge> kMinRecoverIntervalMs"
    "\<And>i. se_reader (re_spawn sample_recover_env) i = NoReader"
    by (simp_all add: sample_agm_def sample_recover_env_def AgmFifoPlayer_def kMinRecoverIntervalMs_def)
  from agm_failed_respawn_is_silent [OF h] obtain q
    where q: "agm_recover sample_recover_env sample_agm = Some q" "ag_is_open q"
      "\<forall>as k r. agm_actions as q = Some (k, r) \<longrightarrow>
         k = 0 \<and> ag_is_open r \<and> ag_out r = ag_out q \<and> ag_recoveries r = ag_recoveries q" by blast
  have "(case agm_recover sample_recover_env sample_agm of None \<Rightarrow> False
         | Some q \<Rightarrow> ag_recoveries q = 1 \<and>
             agm_actions [DoWrite sample_recover_env [AgmTook 4] [1, 2] 1, DoCheck 90000 False,
               DoWrite sample_recover_env [AgmTook 4] [1, 2] 1] q \<noteq> None)"
    by code_simp
  with q show ?thesis by auto
qed

end
