(* ===== verification/Agm_Watcher.thy ===== *)
theory Agm_Watcher
  imports Agm
begin

text \<open>
  The rest of \<^verbatim>\<open>src/client/agm_fifo_player.cpp\<close> on Android: the watcher thread with its \<^verbatim>\<open>logcat\<close> child and
  pipe, the end of an \<^verbatim>\<open>agmplay\<close> child, and reading a system property. The session adds to the player of
  theory \<open>Agm\<close> the watcher's members and what the system holds for it: open pipe ends and children that
  were not waited for. The lemmas show which of these a session gives back, how often the mixer is
  checked, and that a lost speaker route is repaired by the next write.
\<close>

section \<open>Reading a property\<close>

text \<open>
  \<^verbatim>\<open>fgets\<close> with a buffer of \<open>k + 1\<close> bytes: up to \<open>k\<close> bytes, ending after a newline. \<^verbatim>\<open>value = buf\<close> stops at a
  zero byte. \<open>None\<close> is a \<^verbatim>\<open>popen\<close> that fails.
\<close>

fun fgets :: "nat \<Rightarrow> string \<Rightarrow> string" where
  "fgets 0 s = []"
| "fgets (Suc k) [] = []"
| "fgets (Suc k) (c # s) = (if c = CHR 0x0A then [c] else c # fgets k s)"

definition prop_space :: "char \<Rightarrow> bool" where
  "prop_space c \<longleftrightarrow> c = CHR 0x0A \<or> c = CHR 0x0D \<or> c = CHR '' ''"

definition read_android_prop :: "(string \<Rightarrow> string option) \<Rightarrow> string \<Rightarrow> string" where
  "read_android_prop os_popen prop =
     (let line = (case os_popen (''getprop '' @ prop) of None \<Rightarrow> [] | Some out \<Rightarrow> fgets 127 out);
          buf = takeWhile (\<lambda>c. c \<noteq> CHR 0x00) line
      in rev (dropWhile prop_space (rev buf)))"

lemma fgets_line: "CHR 0x0A \<notin> set s \<Longrightarrow> length s < k \<Longrightarrow> fgets k (s @ CHR 0x0A # t) = s @ [CHR 0x0A]"
proof (induction s arbitrary: k)
  case Nil then show ?case by (cases k) simp_all
next
  case (Cons c s) then show ?case by (cases k) auto
qed

text \<open>A property whose value is one printed line without white space at its end is read exactly.\<close>

lemma read_android_prop_exact:
  assumes "os_popen (''getprop '' @ prop) = Some (s @ CHR 0x0A # t)" and "\<forall>c \<in> set s. isdigit c" and "length s < 127"
  shows "read_android_prop os_popen prop = s"
proof -
  have c: "c \<noteq> CHR 0x0A \<and> c \<noteq> CHR 0x00 \<and> \<not> prop_space c" if "c \<in> set s" for c
    using assms(2) that by (auto simp: isdigit_def prop_space_def)
  have "dropWhile prop_space (rev s) = rev s" using c by (cases "rev s") (auto simp: prop_space_def dest!: arg_cong [where f = set])
  moreover have "takeWhile (\<lambda>c. c \<noteq> CHR 0x00) (s @ [CHR 0x0A]) = s @ [CHR 0x0A]" using c by (simp add: takeWhile_eq_all_conv)
  moreover have "fgets 127 (s @ CHR 0x0A # t) = s @ [CHR 0x0A]" using c assms(3) by (auto intro: fgets_line)
  ultimately show ?thesis using assms(1) by (simp add: read_android_prop_def Let_def prop_space_def)
qed

section \<open>Ending a child\<close>

text \<open>
  \<open>close\<close> polls up to 50 times for the exit of \<^verbatim>\<open>agmplay\<close>, sends \<open>SIGINT\<close>, polls 50 times again and then kills
  it. The two lists say which polls find it gone; the result is the signals sent and the 20 ms pauses.
\<close>

datatype sig = SIGINT | SIGKILL

fun poll_exit :: "nat \<Rightarrow> bool list \<Rightarrow> bool \<times> nat" where
  "poll_exit 0 es = (False, 0)"
| "poll_exit (Suc k) es =
     (case es of
        True # _ \<Rightarrow> (True, 0)
      | _ \<Rightarrow> (let (gone, pauses) = poll_exit k (tl es) in (gone, Suc pauses)))"

definition reap_agmplay :: "bool list \<Rightarrow> bool list \<Rightarrow> sig list \<times> nat" where
  "reap_agmplay first second =
     (let (gone, pauses) = poll_exit 50 first
      in if gone then ([], pauses)
         else
           (let (gone, more) = poll_exit 50 second
            in if gone then ([SIGINT], pauses + more) else ([SIGINT, SIGKILL], pauses + more)))"

lemma poll_exit_bound: "snd (poll_exit k es) \<le> k"
  by (induction k es rule: poll_exit.induct) (auto split: list.splits bool.splits prod.splits)

lemma poll_exit_misses: "fst (poll_exit k es) \<longleftrightarrow> True \<in> set (take k es)"
  by (induction k es rule: poll_exit.induct) (auto split: list.splits bool.splits prod.splits)

text \<open>
  A child that ends by itself within a second gets no signal, one that does not is told to stop and
  then killed, and the whole wait is never longer than two seconds.
\<close>

theorem reap_agmplay_escalates:
  "20 * snd (reap_agmplay first second) \<le> 2000 \<and>
   fst (reap_agmplay first second) =
     (if True \<in> set (take 50 first) then [] else if True \<in> set (take 50 second) then [SIGINT] else [SIGINT, SIGKILL])"
  using poll_exit_bound [of 50 first] poll_exit_bound [of 50 second]
  by (auto simp: reap_agmplay_def poll_exit_misses [symmetric] split: prod.splits)

section \<open>The watcher\<close>

record agm_session =
  as_player :: agm_player
  as_watcher_fd :: int
  as_logcat_pid :: int
  as_stop_watcher :: bool
  as_joinable :: bool
  as_open_fds :: "int list"
  as_unwaited :: "int list"

definition AgmSession :: agm_session where
  "AgmSession =
     \<lparr>as_player = AgmFifoPlayer, as_watcher_fd = - 1, as_logcat_pid = - 1, as_stop_watcher = False, as_joinable = False,
      as_open_fds = [], as_unwaited = []\<rparr>"

text \<open>
  \<open>wa_pipe\<close>: the two ends, or a failure. \<open>wa_fork\<close>: the result in the parent. Assigning to a thread that is
  still joinable terminates the program, which is the result \<open>None\<close>.
\<close>

record watcher_env =
  wa_pipe :: "(int \<times> int) option"
  wa_fork :: int

definition start_logcat_watcher :: "watcher_env \<Rightarrow> agm_session \<Rightarrow> agm_session option" where
  "start_logcat_watcher env s =
     (case wa_pipe env of
        None \<Rightarrow> Some s
      | Some (r, w) \<Rightarrow>
          (let s = s\<lparr>as_open_fds := as_open_fds s @ [r, w]\<rparr>
           in if wa_fork env < 0
              then Some (s\<lparr>as_open_fds := remove1 w (remove1 r (as_open_fds s))\<rparr>)
              else
                (let s = s\<lparr>as_unwaited := as_unwaited s @ [wa_fork env], as_open_fds := remove1 w (as_open_fds s),
                           as_watcher_fd := r, as_logcat_pid := wa_fork env, as_stop_watcher := False\<rparr>
                 in if as_joinable s then None else Some (s\<lparr>as_joinable := True\<rparr>))))"

definition stop_logcat_watcher :: "agm_session \<Rightarrow> agm_session" where
  "stop_logcat_watcher s =
     (let s = s\<lparr>as_stop_watcher := True\<rparr>;
          s = (if as_logcat_pid s > 0 then s\<lparr>as_logcat_pid := - 1\<rparr> else s);
          s = (if as_joinable s then s\<lparr>as_joinable := False\<rparr> else s)
      in if as_watcher_fd s \<ge> 0
         then s\<lparr>as_open_fds := remove1 (as_watcher_fd s) (as_open_fds s), as_watcher_fd := - 1\<rparr> else s)"

definition agm_session_close :: "agm_session \<Rightarrow> agm_session" where
  "agm_session_close s = (let s = stop_logcat_watcher s in s\<lparr>as_player := agm_close (as_player s)\<rparr>)"

definition agm_session_open ::
  "spawn_env \<Rightarrow> watcher_env \<Rightarrow> audio_config \<Rightarrow> string \<Rightarrow> agm_session \<Rightarrow> (bool \<times> agm_session) option" where
  "agm_session_open env wenv config device_name s =
     (let s = (if ag_is_open (as_player s) then agm_session_close s else s)
      in case agm_open env config device_name (as_player s) of
           None \<Rightarrow> None
         | Some (False, p) \<Rightarrow> Some (False, (stop_logcat_watcher s)\<lparr>as_player := p\<rparr>)
         | Some (True, p) \<Rightarrow> map_option (Pair True) (start_logcat_watcher wenv (s\<lparr>as_player := p\<rparr>)))"

section \<open>The watcher's loop\<close>

text \<open>
  A turn polls the pipe for at most 200 ms. Only a readable pipe is read, so a pipe that reports nothing but
  a hang-up is like one that reports nothing, without the wait.
\<close>

datatype pipe_poll = PollTimeout | PollOther | PollRead string | PollEof | PollReadError

function drain_lines :: "string \<Rightarrow> string" where
  "drain_lines s = (if CHR 0x0A \<in> set s then drain_lines (drop 1 (dropWhile (\<lambda>c. c \<noteq> CHR 0x0A) s)) else s)"
  by auto
termination
proof (relation "measure length", goal_cases)
  case (2 s)
  then have "dropWhile (\<lambda>c. c \<noteq> CHR 0x0A) s \<noteq> []" by (auto simp: dropWhile_eq_Nil_conv)
  then show ?case using length_dropWhile_le [of "\<lambda>c. c \<noteq> CHR 0x0A" s] by (cases "dropWhile (\<lambda>c. c \<noteq> CHR 0x0A) s") auto
qed simp

declare drain_lines.simps [simp del]

record watcher =
  wl_pending :: string
  wl_last_check :: u64
  wl_checks :: "u64 list"
  wl_ended :: bool
  wl_waited :: nat

definition watcher_init :: watcher where
  "watcher_init = \<lparr>wl_pending = [], wl_last_check = 0, wl_checks = [], wl_ended = False, wl_waited = 0\<rparr>"

text \<open>\<open>None\<close> for the text is the end of the loop.\<close>

definition watcher_read :: "pipe_poll \<Rightarrow> string \<Rightarrow> string option" where
  "watcher_read poll pending =
     (case poll of
        PollRead bytes \<Rightarrow> Some (pending @ take 1024 bytes)
      | PollEof \<Rightarrow> None
      | _ \<Rightarrow> Some pending)"

definition watch_turn :: "bool \<Rightarrow> pipe_poll \<Rightarrow> u64 \<Rightarrow> (string \<Rightarrow> string option) \<Rightarrow> watcher \<times> agm_player \<Rightarrow> watcher \<times> agm_player" where
  "watch_turn stop poll now_ms os_popen st =
     (let (wl, p) = st
      in if wl_ended wl then st
         else if stop then (wl\<lparr>wl_ended := True\<rparr>, p)
         else
           (let wl = (if poll = PollTimeout then wl\<lparr>wl_waited := wl_waited wl + 200\<rparr> else wl)
            in case watcher_read poll (wl_pending wl) of
                 None \<Rightarrow> (wl\<lparr>wl_ended := True\<rparr>, p)
               | Some text \<Rightarrow>
                   (let wl = wl\<lparr>wl_pending := drain_lines text\<rparr>
                    in if now_ms - wl_last_check wl \<ge> 1000
                       then (wl\<lparr>wl_last_check := now_ms, wl_checks := wl_checks wl @ [now_ms]\<rparr>,
                             mixer_check now_ms (speaker_routing_intact os_popen) p)
                       else (wl, p))))"

section \<open>Sessions\<close>

datatype session_act = AOpen spawn_env watcher_env audio_config string | AClose

fun session_do :: "session_act \<Rightarrow> agm_session \<Rightarrow> agm_session option" where
  "session_do (AOpen env wenv config device_name) s = map_option snd (agm_session_open env wenv config device_name s)"
| "session_do AClose s = Some (agm_session_close s)"

fun session_run :: "session_act list \<Rightarrow> agm_session \<Rightarrow> agm_session option" where
  "session_run [] s = Some s"
| "session_run (a # as) s = (case session_do a s of None \<Rightarrow> None | Some t \<Rightarrow> session_run as t)"

text \<open>What \<^verbatim>\<open>pipe\<close> and \<^verbatim>\<open>fork\<close> promise in the parent: two different descriptors and a positive process id.\<close>

definition sane_watcher_env :: "watcher_env \<Rightarrow> bool" where
  "sane_watcher_env env \<longleftrightarrow> wa_fork env \<noteq> 0 \<and> (case wa_pipe env of None \<Rightarrow> True | Some (r, w) \<Rightarrow> 0 \<le> r \<and> 0 \<le> w \<and> r \<noteq> w)"

fun sane_act :: "session_act \<Rightarrow> bool" where
  "sane_act (AOpen env wenv config device_name) = sane_watcher_env wenv"
| "sane_act AClose = True"

definition watcher_inv :: "agm_session \<Rightarrow> bool" where
  "watcher_inv s \<longleftrightarrow>
     (if as_joinable s
      then ag_is_open (as_player s) \<and> as_watcher_fd s \<ge> 0 \<and> as_logcat_pid s > 0 \<and> as_open_fds s = [as_watcher_fd s]
      else as_watcher_fd s = - 1 \<and> as_logcat_pid s = - 1 \<and> as_open_fds s = [])"

lemma watcher_inv_stop:
  "watcher_inv s \<Longrightarrow> watcher_inv ((stop_logcat_watcher s)\<lparr>as_player := p\<rparr>) \<and> \<not> as_joinable (stop_logcat_watcher s)"
  by (cases "as_joinable s") (simp_all add: watcher_inv_def stop_logcat_watcher_def Let_def)

lemma watcher_inv_close: "watcher_inv s \<Longrightarrow> watcher_inv (agm_session_close s) \<and> \<not> as_joinable (agm_session_close s)"
  using watcher_inv_stop by (simp add: agm_session_close_def Let_def)

lemma watcher_inv_start:
  assumes "watcher_inv s" and "\<not> as_joinable s" and "ag_is_open (as_player s)" and "sane_watcher_env env"
  shows "\<exists>t. start_logcat_watcher env s = Some t \<and> watcher_inv t"
proof -
  have "case start_logcat_watcher env s of None \<Rightarrow> False | Some t \<Rightarrow> watcher_inv t"
    using assms by (cases "wa_pipe env") (auto simp: watcher_inv_def start_logcat_watcher_def sane_watcher_env_def Let_def)
  then show ?thesis by (simp split: option.splits)
qed

lemma agm_open_is_open: "agm_open env config name p = Some (True, q) \<Longrightarrow> ag_is_open q"
  by (auto simp: agm_open_def Let_def dest!: respawn_keeps(1) split: if_splits)

lemma watcher_inv_open:
  assumes inv: "watcher_inv s" and sane: "sane_watcher_env wenv"
    and op: "agm_open env config name (if ag_is_open (as_player s) then agm_close (as_player s) else as_player s) = Some (ok, p)"
  shows "\<exists>t. agm_session_open env wenv config name s = Some (ok, t) \<and> watcher_inv t"
proof -
  define u where "u = (if ag_is_open (as_player s) then agm_session_close s else s)"
  have u: "watcher_inv u" "\<not> as_joinable u"
    using watcher_inv_close [OF inv] inv by (auto simp: u_def watcher_inv_def split: if_splits)
  have "agm_open env config name (as_player u) = Some (ok, p)"
    using op by (simp add: u_def agm_session_close_def stop_logcat_watcher_def Let_def split: if_splits)
  moreover have "watcher_inv (u\<lparr>as_player := p\<rparr>)" using u by (simp add: watcher_inv_def)
  ultimately show ?thesis
    using watcher_inv_stop [OF u(1), of p] watcher_inv_start [of "u\<lparr>as_player := p\<rparr>" wenv] sane u(2)
    by (cases ok) (auto simp: agm_session_open_def u_def [symmetric] dest: agm_open_is_open)
qed

lemma session_do_open:
  "agm_session_open env wenv config name s = Some (ok, t) \<Longrightarrow>
     \<exists>p. agm_open env config name (if ag_is_open (as_player s) then agm_close (as_player s) else as_player s) = Some (ok, p)"
  by (auto simp: agm_session_open_def agm_session_close_def stop_logcat_watcher_def Let_def
      split: if_splits option.splits bool.splits)

lemma watcher_inv_run:
  assumes "session_run as s = Some t" and "watcher_inv s" and "\<forall>a \<in> set as. sane_act a"
  shows "watcher_inv t"
  using assms
proof (induction as arbitrary: s)
  case (Cons a as)
  obtain u where u: "session_do a s = Some u" "session_run as u = Some t" using Cons.prems(1) by (auto split: option.splits)
  have "watcher_inv u"
  proof (cases a)
    case (AOpen env wenv config name)
    then obtain ok where ok: "agm_session_open env wenv config name s = Some (ok, u)" using u(1) by auto
    then show ?thesis
      using session_do_open [OF ok] watcher_inv_open [OF Cons.prems(2), of wenv env config name ok] Cons.prems(3) AOpen by auto
  next
    case AClose
    then show ?thesis using u(1) watcher_inv_close [OF Cons.prems(2)] by simp
  qed
  then show ?case using Cons.IH u(2) Cons.prems(3) by simp
qed simp

text \<open>
  Claim C34: through any sequence of opens and closes, successful or not, the player holds at most one end
  of one watcher pipe, the watcher's thread is never started over one that still runs (which would
  terminate the program), and a closed player has no watcher thread and holds no descriptor of it.
\<close>

theorem agm_watcher_resources:
  assumes "session_run as AgmSession = Some s" and "\<forall>a \<in> set as. sane_act a"
  shows "length (as_open_fds s) \<le> 1 \<and>
    (\<not> ag_is_open (as_player s) \<longrightarrow> as_open_fds s = [] \<and> \<not> as_joinable s \<and> as_logcat_pid s = - 1) \<and>
    (sane_watcher_env wenv \<longrightarrow>
     agm_open env config name (if ag_is_open (as_player s) then agm_close (as_player s) else as_player s) \<noteq> None \<longrightarrow>
     agm_session_open env wenv config name s \<noteq> None)"
proof -
  have inv: "watcher_inv s"
    by (rule watcher_inv_run [OF assms(1) _ assms(2)]) (simp add: watcher_inv_def AgmSession_def)
  have "length (as_open_fds s) \<le> 1" and "\<not> ag_is_open (as_player s) \<longrightarrow> as_open_fds s = [] \<and> \<not> as_joinable s \<and> as_logcat_pid s = - 1"
    using inv by (auto simp: watcher_inv_def split: if_splits)
  moreover have "agm_session_open env wenv config name s \<noteq> None" if "sane_watcher_env wenv"
    "agm_open env config name (if ag_is_open (as_player s) then agm_close (as_player s) else as_player s) \<noteq> None"
    using watcher_inv_open [OF inv that(1)] that(2) by fastforce
  ultimately show ?thesis by blast
qed

text \<open>A phone on which everything works.\<close>

definition good_spawn :: spawn_env where
  "good_spawn = \<lparr>se_mkfifo = True, se_fork = 500, se_reader = (\<lambda>_. ReaderFd 7), se_header = [HdrWrote 44]\<rparr>"

definition good_watcher :: watcher_env where
  "good_watcher = \<lparr>wa_pipe = Some (8, 9), wa_fork = 501\<rparr>"

lemma good_open:
  "agm_open good_spawn config name p = Some (True, q) \<Longrightarrow> ag_is_open q" "\<exists>q. agm_open good_spawn config name p = Some (True, q)"
proof -
  have "kRecoveryReaderTimeoutMs div 100 = Suc 79" by (simp add: kRecoveryReaderTimeoutMs_def)
  then have "wait_for_reader (se_reader good_spawn) 0 (kRecoveryReaderTimeoutMs div 100) = Some 7"
    by (simp only: wait_for_reader.simps) (simp add: good_spawn_def)
  then show "\<exists>q. agm_open good_spawn config name p = Some (True, q)"
    by (simp add: agm_open_def respawn_subprocess_def good_spawn_def write_wav_header_def Let_def)
qed (rule agm_open_is_open)

theorem agm_watcher_resources_witness:
  "\<exists>s. session_run [AOpen good_spawn good_watcher default_audio_config ''agm'', AClose] AgmSession = Some s \<and>
       as_open_fds s = [] \<and> \<not> as_joinable s"
proof -
  obtain q where q: "agm_open good_spawn default_audio_config ''agm'' AgmFifoPlayer = Some (True, q)" using good_open(2) by blast
  then obtain s where s: "session_run [AOpen good_spawn good_watcher default_audio_config ''agm'', AClose] AgmSession = Some s"
    "\<not> ag_is_open (as_player s)"
    by (simp add: agm_session_open_def AgmSession_def AgmFifoPlayer_def start_logcat_watcher_def good_watcher_def
        agm_session_close_def agm_close_def Let_def)
  have "\<forall>a \<in> set [AOpen good_spawn good_watcher default_audio_config ''agm'', AClose]. sane_act a"
    by (simp add: sane_watcher_env_def good_watcher_def)
  then show ?thesis using s agm_watcher_resources [OF s(1)] by blast
qed

text \<open>
  Every session that got its watcher leaves a child behind that nobody waits for: \<open>stop_logcat_watcher\<close>
  kills it and forgets its id.
\<close>

lemma agm_session_open_good:
  assumes "watcher_inv s"
  obtains t where "agm_session_open good_spawn good_watcher config name s = Some (True, t)" "watcher_inv t"
    "as_unwaited t = as_unwaited s @ [501]"
proof -
  define u where "u = (if ag_is_open (as_player s) then agm_session_close s else s)"
  obtain p where "agm_open good_spawn config name (as_player u) = Some (True, p)" using good_open(2) by blast
  moreover have "\<not> as_joinable u" "as_unwaited u = as_unwaited s"
    using assms watcher_inv_close [OF assms]
    by (auto simp: u_def watcher_inv_def agm_session_close_def stop_logcat_watcher_def Let_def split: if_splits)
  ultimately obtain t where t: "agm_session_open good_spawn good_watcher config name s = Some (True, t)"
    "as_unwaited t = as_unwaited s @ [501]"
    by (simp add: agm_session_open_def u_def [symmetric] start_logcat_watcher_def good_watcher_def Let_def)
  have "watcher_inv t"
    by (rule watcher_inv_run [of "[AOpen good_spawn good_watcher config name]" s])
       (use assms t in \<open>simp_all add: sane_watcher_env_def good_watcher_def\<close>)
  then show ?thesis using that t by blast
qed

theorem logcat_children_accumulate:
  "\<exists>s. session_run (concat (replicate n [AOpen good_spawn good_watcher config name, AClose])) AgmSession = Some s \<and>
       as_unwaited s = replicate n 501 \<and> as_open_fds s = []"
proof -
  have "\<exists>t. session_run (concat (replicate n [AOpen good_spawn good_watcher config name, AClose])) s = Some t \<and>
       as_unwaited t = as_unwaited s @ replicate n 501 \<and> as_open_fds t = []" if "watcher_inv s" "as_open_fds s = []" for s
    using that
  proof (induction n arbitrary: s)
    case (Suc n)
    obtain t where t: "agm_session_open good_spawn good_watcher config name s = Some (True, t)" "watcher_inv t"
      "as_unwaited t = as_unwaited s @ [501]" using agm_session_open_good [OF Suc.prems(1)] by blast
    have c: "watcher_inv (agm_session_close t)" "as_open_fds (agm_session_close t) = []"
      using watcher_inv_close [OF t(2)] by (auto simp: watcher_inv_def split: if_splits)
    have "as_unwaited (agm_session_close t) = as_unwaited s @ [501]"
      using t(3) by (simp add: agm_session_close_def stop_logcat_watcher_def Let_def)
    then show ?case using Suc.IH [OF c] t(1) by simp
  qed simp
  then show ?thesis by (force simp: watcher_inv_def AgmSession_def)
qed

section \<open>The watcher and the writer\<close>

lemma drain_lines_last: "drain_lines s = rev (takeWhile (\<lambda>c. c \<noteq> CHR 0x0A) (rev s))"
proof (induction s rule: drain_lines.induct)
  case (1 s)
  show ?case
  proof (cases "CHR 0x0A \<in> set s")
    case True
    then obtain a b where s: "s = a @ CHR 0x0A # b" "CHR 0x0A \<notin> set a" using split_list_first by fastforce
    then have "dropWhile (\<lambda>c. c \<noteq> CHR 0x0A) s = CHR 0x0A # b" by (simp add: dropWhile_append3 dropWhile_append)
    then have "drain_lines s = rev (takeWhile (\<lambda>c. c \<noteq> CHR 0x0A) (rev b))"
      using 1 True by (simp add: drain_lines.simps [of s])
    also have "\<dots> = rev (takeWhile (\<lambda>c. c \<noteq> CHR 0x0A) (rev s))"
      by (cases "CHR 0x0A \<in> set b") (auto simp: s takeWhile_append takeWhile_tail)
    finally show ?thesis .
  next
    case False
    then have e: "takeWhile (\<lambda>c. c \<noteq> CHR 0x0A) (rev s) = rev s" by (auto simp: takeWhile_eq_all_conv)
    show ?thesis unfolding e using False by (simp add: drain_lines.simps [of s])
  qed
qed

text \<open>Turns of the watcher and writes of the playback thread, in any order.\<close>

datatype agm_mix = MWatch bool pipe_poll u64 "string \<Rightarrow> string option" | MWrite recover_env "agm_event list" "i16 list" nat

fun mix_do :: "agm_mix \<Rightarrow> watcher \<times> agm_player \<Rightarrow> (watcher \<times> agm_player) option" where
  "mix_do (MWatch stop poll now os_popen) st = Some (watch_turn stop poll now os_popen st)"
| "mix_do (MWrite env es pcm n) (wl, p) = map_option (\<lambda>(_, q). (wl, q)) (agm_write env es pcm n p)"

fun mix_run :: "agm_mix list \<Rightarrow> watcher \<times> agm_player \<Rightarrow> (watcher \<times> agm_player) option" where
  "mix_run [] st = Some st"
| "mix_run (m # ms) st = (case mix_do m st of None \<Rightarrow> None | Some st' \<Rightarrow> mix_run ms st')"

lemma mix_run_preserve:
  assumes "\<And>m st st'. P st \<Longrightarrow> m \<in> set ms \<Longrightarrow> mix_do m st = Some st' \<Longrightarrow> P st'"
  shows "mix_run ms st = Some st' \<Longrightarrow> P st \<Longrightarrow> P st'"
  using assms
proof (induction ms arbitrary: st)
  case (Cons m ms)
  obtain u where u: "mix_do m st = Some u" "mix_run ms u = Some st'" using Cons.prems(1) by (auto split: option.splits)
  show ?case by (rule Cons.IH [OF u(2) Cons.prems(3) [OF Cons.prems(2) _ u(1)] Cons.prems(3)]) simp_all
qed simp

lemmas watch_turn_simps = watch_turn_def watcher_read_def Let_def

lemma watch_turn_checks:
  assumes "watch_turn stop poll now os_popen (wl, p) = (wl', p')"
  shows "wl_checks wl' = wl_checks wl \<and> wl_last_check wl' = wl_last_check wl \<or>
         now - wl_last_check wl \<ge> 1000 \<and> wl_checks wl' = wl_checks wl @ [now] \<and> wl_last_check wl' = now"
  using assms by (auto simp: watch_turn_simps split: if_splits pipe_poll.splits)

text \<open>
  However the watcher and the writer interleave, the speaker route is checked (up to
  three child processes each time) at most once in 1000 ms, and what the watcher keeps of the log never holds a
  complete line.
\<close>

theorem mixer_checks_spaced:
  assumes "mix_run ms (watcher_init, p) = Some (wl, q)"
  shows "successively (\<lambda>a b. b - a \<ge> 1000) (wl_checks wl) \<and> CHR 0x0A \<notin> set (wl_pending wl)"
proof -
  define P where "P st \<longleftrightarrow> successively (\<lambda>a b. b - a \<ge> 1000) (wl_checks (fst st)) \<and>
    (wl_checks (fst st) \<noteq> [] \<longrightarrow> last (wl_checks (fst st)) = wl_last_check (fst st)) \<and> CHR 0x0A \<notin> set (wl_pending (fst st))"
    for st :: "watcher \<times> agm_player"
  have drained: "CHR 0x0A \<notin> set (drain_lines s)" for s
    by (auto simp: drain_lines_last dest: set_takeWhileD)
  have "P (wl, q)"
  proof (rule mix_run_preserve [OF _ assms])
    fix m st st' assume st: "P st" "mix_do m st = Some st'"
    obtain w r w' r' where e: "st = (w, r)" "st' = (w', r')" by fastforce
    show "P st'"
    proof (cases m)
      case (MWatch stop poll now os_popen)
      then have t: "watch_turn stop poll now os_popen (w, r) = (w', r')" using st(2) e by simp
      have "CHR 0x0A \<notin> set (wl_pending w')"
        using t st(1) drained e by (auto simp: P_def watch_turn_simps split: if_splits pipe_poll.splits)
      then show ?thesis using watch_turn_checks [OF t] st(1) e by (auto simp: P_def successively_append_iff)
    next
      case (MWrite env es pcm n)
      then show ?thesis using st e by (auto simp: P_def)
    qed
  qed (simp add: P_def watcher_init_def)
  then show ?thesis by (simp add: P_def)
qed

theorem mixer_checks_spaced_witness:
  "\<exists>wl q. mix_run [MWatch False PollTimeout 5000 (\<lambda>_. None), MWatch False (PollRead ''a'') 5200 (\<lambda>_. None),
       MWatch False PollTimeout 6000 (\<lambda>_. None)] (watcher_init, AgmFifoPlayer) = Some (wl, q) \<and>
     wl_checks wl = [5000, 6000] \<and> CHR 0x0A \<notin> set (wl_pending wl)"
proof -
  obtain wl q where run: "mix_run [MWatch False PollTimeout 5000 (\<lambda>_. None), MWatch False (PollRead ''a'') 5200 (\<lambda>_. None),
       MWatch False PollTimeout 6000 (\<lambda>_. None)] (watcher_init, AgmFifoPlayer) = Some (wl, q)" "wl_checks wl = [5000, 6000]"
    by (simp add: watch_turn_simps watcher_init_def split: prod.splits)
  then show ?thesis using mixer_checks_spaced [OF run(1)] by auto
qed

text \<open>
  A lost speaker route that the watcher's check sees makes the very next write start a
  recovery instead of writing.
\<close>

theorem route_loss_recovers:
  assumes "\<not> wl_ended wl" and "poll \<noteq> PollEof" and "now - wl_last_check wl \<ge> 1000" and "\<not> speaker_routing_intact os_popen"
    and "ag_last_recover_ms p = 0 \<or> now - ag_last_recover_ms p \<ge> kSessionCloseWindowMs"
    and "ag_is_open p" and "ag_fifo_fd p \<ge> 0" and "\<not> ag_recovering p" and "n > 0" and "agm_source (agm_channels p) pcm n \<noteq> None"
    and "watch_turn False poll now os_popen (wl, p) = (wl', p')" and "agm_write env es pcm n p' = Some (k, q)"
  shows "k = 0 \<and> agm_recover env (p\<lparr>ag_session_closed := False\<rparr>) = Some q \<and>
         (re_now env - ag_last_recover_ms p \<ge> kMinRecoverIntervalMs \<longrightarrow> ag_recoveries q = ag_recoveries p + 1)"
proof -
  have p': "p' = p\<lparr>ag_session_closed := True\<rparr>"
    using assms(1-8,11) by (auto simp: watch_turn_simps mixer_check_def not_less split: if_splits pipe_poll.splits)
  have src: "agm_channels p = 2 \<Longrightarrow> agm_source 2 pcm n \<noteq> None" using assms(10) by auto
  have "agm_channels p' = agm_channels p" by (simp add: p' agm_channels_def)
  then have r: "k = 0 \<and> agm_recover env (p\<lparr>ag_session_closed := False\<rparr>) = Some q"
    using assms(6-9,12) src by (auto simp: agm_write_def p' split: if_splits)
  have "ag_recoveries q = ag_recoveries p + 1" if "re_now env - ag_last_recover_ms p \<ge> kMinRecoverIntervalMs"
    using r that assms(6,8) by (auto simp: agm_recover_def Let_def not_less [symmetric] dest!: respawn_keeps(2) split: if_splits)
  then show ?thesis using r by blast
qed

text \<open>
  Once the watcher has read the end of the log it does nothing any more: nobody notices a lost route,
  although the player stays open.
\<close>

lemma ended_watcher: "wl_ended wl \<Longrightarrow> watch_turn stop poll now os_popen (wl, p) = (wl, p)"
  by (simp add: watch_turn_def)

text \<open>
  A pipe that reports only its hang-up, as an empty pipe without a writer does, is never read: the loop
  goes on and does not wait in any turn.
\<close>

theorem hung_up_pipe_spins:
  assumes "mix_run ms (wl, p) = Some (wl', q)" and "\<not> wl_ended wl"
    and "\<forall>m \<in> set ms. \<exists>now os_popen. m = MWatch False PollOther now os_popen"
  shows "\<not> wl_ended wl' \<and> wl_waited wl' = wl_waited wl"
proof -
  define P where "P st \<longleftrightarrow> \<not> wl_ended (fst st) \<and> wl_waited (fst st) = wl_waited wl" for st :: "watcher \<times> agm_player"
  have "P (wl', q)"
  proof (rule mix_run_preserve [OF _ assms(1)])
    fix m st st' assume st: "P st" "m \<in> set ms" "mix_do m st = Some st'"
    then obtain now os_popen where "st' = watch_turn False PollOther now os_popen st" using assms(3) by fastforce
    then show "P st'" using st(1) by (auto simp: P_def watch_turn_simps split: prod.splits)
  qed (simp add: P_def assms(2))
  then show ?thesis by (simp add: P_def)
qed

theorem hung_up_pipe_spins_witness:
  "\<exists>wl q. mix_run (replicate 3 (MWatch False PollOther 5000 (\<lambda>_. None))) (watcher_init, AgmFifoPlayer) = Some (wl, q) \<and>
     \<not> wl_ended wl \<and> wl_waited wl = 0"
proof -
  obtain wl q where run: "mix_run (replicate 3 (MWatch False PollOther 5000 (\<lambda>_. None))) (watcher_init, AgmFifoPlayer) = Some (wl, q)"
    by (cases "mix_run (replicate 3 (MWatch False PollOther 5000 (\<lambda>_. None))) (watcher_init, AgmFifoPlayer)")
       (auto simp: numeral_3_eq_3)
  have "\<not> wl_ended wl \<and> wl_waited wl = wl_waited watcher_init"
    by (rule hung_up_pipe_spins [OF run]) (auto simp: watcher_init_def)
  then show ?thesis using run by (auto simp: watcher_init_def)
qed

text \<open>A player on which the check sees the route lost.\<close>

definition no_fifo_env :: recover_env where
  "no_fifo_env = sample_recover_env\<lparr>re_spawn := (re_spawn sample_recover_env)\<lparr>se_mkfifo := False\<rparr>\<rparr>"

theorem route_loss_recovers_witness:
  "\<exists>wl p q. watch_turn False PollTimeout 90000 (\<lambda>_. Some ''Off'') (watcher_init, sample_agm) = (wl, p) \<and>
     agm_write no_fifo_env [] [1, 2] 1 p = Some (0, q) \<and> ag_recoveries q = 1"
proof -
  have lost: "\<not> speaker_routing_intact (\<lambda>_. Some ''Off'')" by code_simp
  obtain wl p where t: "watch_turn False PollTimeout 90000 (\<lambda>_. Some ''Off'') (watcher_init, sample_agm) = (wl, p)" by fastforce
  have "case agm_write no_fifo_env [] [1, 2] 1
      (snd (watch_turn False PollTimeout 90000 (\<lambda>_. Some ''Off'') (watcher_init, sample_agm))) of None \<Rightarrow> False | Some _ \<Rightarrow> True"
    by code_simp
  then obtain k q where w: "agm_write no_fifo_env [] [1, 2] 1 p = Some (k, q)" using t by (auto split: option.splits)
  have h: "\<not> wl_ended watcher_init" "PollTimeout \<noteq> PollEof" "(90000 :: u64) - wl_last_check watcher_init \<ge> 1000"
    "ag_last_recover_ms sample_agm = 0 \<or> 90000 - ag_last_recover_ms sample_agm \<ge> kSessionCloseWindowMs"
    "ag_is_open sample_agm" "ag_fifo_fd sample_agm \<ge> 0" "\<not> ag_recovering sample_agm" "(1 :: nat) > 0"
    "agm_source (agm_channels sample_agm) [1, 2] 1 \<noteq> None" "ag_recoveries sample_agm = 0"
    "re_now no_fifo_env - ag_last_recover_ms sample_agm \<ge> kMinRecoverIntervalMs"
    by (simp_all add: watcher_init_def sample_agm_def AgmFifoPlayer_def no_fifo_env_def sample_recover_env_def kMinRecoverIntervalMs_def
        agm_source_def agm_channels_def default_audio_config_def)
  note facts = h(1-3) lost h(4-9) t w
  show ?thesis using route_loss_recovers [OF facts] h(10,11) t w by auto
qed

end
