(* ===== verification/Wasapi_Session.thy ===== *)
theory Wasapi_Session
  imports Capture
begin

text \<open>
  \<^verbatim>\<open>src/server/wasapi_capture.cpp\<close> on Windows: \<open>start\<close> as the sequence of its COM calls, \<open>stop\<close>, and the
  capture thread. Whatever a call hands out (an interface pointer, the memory of the mix format or of a
  property's value) is a numbered object that stays live until it is released. The results of the calls are arguments. The
  lemmas show that a session that has started gives everything back when it stops, what a start that
  fails half way leaves behind, and that the thread returns every buffer it was lent.
\<close>

section \<open>State\<close>

record wasapi_session =
  wi_engine :: wasapi_capture
  wi_device_name :: string
  wi_enumerator :: "nat option"
  wi_device :: "nat option"
  wi_audio_client :: "nat option"
  wi_capture_client :: "nat option"
  wi_wave_format :: "nat option"
  wi_com_initialized :: bool
  wi_live :: "nat list"
  wi_next :: nat
  wi_com_inits :: nat

definition WasapiSession :: wasapi_session where
  "WasapiSession =
     \<lparr>wi_engine = WasapiCapture, wi_device_name = ''Default Windows Output Device'', wi_enumerator = None, wi_device = None,
      wi_audio_client = None, wi_capture_client = None, wi_wave_format = None, wi_com_initialized = False,
      wi_live = [], wi_next = 0, wi_com_inits = 0\<rparr>"

record mix_format =
  mx_tag :: u16
  mx_channels :: u16
  mx_rate :: u32
  mx_bits :: u16
  mx_sub_float :: bool

datatype com_init = ComOk | ComChangedMode | ComFailed

text \<open>
  What the calls of \<open>start\<close> give, in their order. A call that fails, or succeeds without a pointer, is
  \<open>False\<close>; it leaves the null pointer behind, as its documentation says. \<open>we_props\<close> says whether the property
  store can be opened; \<open>we_name\<close> is what \<^verbatim>\<open>GetValue\<close> gives, if it succeeds: whether the value owns memory,
  and its text.
\<close>

record wasapi_env =
  we_coinit :: com_init
  we_enumerator :: bool
  we_endpoint :: bool
  we_props :: bool
  we_name :: "(bool \<times> string) option"
  we_activate :: bool
  we_mix :: "mix_format option"
  we_initialize :: bool
  we_service :: bool
  we_start :: bool

section \<open>Start\<close>

definition grant :: "bool \<Rightarrow> wasapi_session \<Rightarrow> nat option \<times> wasapi_session" where
  "grant ok s =
     (if ok then (Some (wi_next s), s\<lparr>wi_live := wi_live s @ [wi_next s], wi_next := wi_next s + 1\<rparr>) else (None, s))"

definition co_initialize :: "wasapi_env \<Rightarrow> wasapi_session \<Rightarrow> bool \<times> wasapi_session" where
  "co_initialize env s =
     (case we_coinit env of
        ComOk \<Rightarrow> (True, s\<lparr>wi_com_initialized := True, wi_com_inits := wi_com_inits s + 1\<rparr>)
      | ComChangedMode \<Rightarrow> (True, s\<lparr>wi_com_initialized := False\<rparr>)
      | ComFailed \<Rightarrow> (False, s))"

definition create_enumerator :: "wasapi_env \<Rightarrow> wasapi_session \<Rightarrow> bool \<times> wasapi_session" where
  "create_enumerator env s = (let (p, s) = grant (we_enumerator env) s in (p \<noteq> None, s\<lparr>wi_enumerator := p\<rparr>))"

definition get_endpoint :: "wasapi_env \<Rightarrow> wasapi_session \<Rightarrow> bool \<times> wasapi_session" where
  "get_endpoint env s = (let (p, s) = grant (we_endpoint env) s in (p \<noteq> None, s\<lparr>wi_device := p\<rparr>))"

definition release :: "nat option \<Rightarrow> wasapi_session \<Rightarrow> wasapi_session" where
  "release p s = (case p of None \<Rightarrow> s | Some i \<Rightarrow> s\<lparr>wi_live := remove1 i (wi_live s)\<rparr>)"

text \<open>The property store and the value read from it are local to this call, which gives both back.\<close>

definition read_name :: "wasapi_env \<Rightarrow> wasapi_session \<Rightarrow> bool \<times> wasapi_session" where
  "read_name env s =
     (True,
      let (p_props, s) = grant (we_props env) s
      in if p_props = None then s
         else
           (let s = (case we_name env of
                       None \<Rightarrow> s
                     | Some (owns, name) \<Rightarrow>
                         (let (var_name, s) = grant owns s
                          in release var_name (s\<lparr>wi_device_name := name\<rparr>)))
            in release p_props s))"

definition activate_client :: "wasapi_env \<Rightarrow> wasapi_session \<Rightarrow> bool \<times> wasapi_session" where
  "activate_client env s = (let (p, s) = grant (we_activate env) s in (p \<noteq> None, s\<lparr>wi_audio_client := p\<rparr>))"

definition WAVE_FORMAT_IEEE_FLOAT :: u16 where "WAVE_FORMAT_IEEE_FLOAT = 3"
definition WAVE_FORMAT_EXTENSIBLE :: u16 where "WAVE_FORMAT_EXTENSIBLE = 0xFFFE"

definition mix_is_float :: "mix_format \<Rightarrow> bool" where
  "mix_is_float m =
     (if mx_tag m = WAVE_FORMAT_EXTENSIBLE then mx_sub_float m
      else if mx_tag m = WAVE_FORMAT_IEEE_FLOAT then True else False)"

definition parse_mix :: "mix_format \<Rightarrow> wasapi_capture \<Rightarrow> wasapi_capture" where
  "parse_mix m w =
     w\<lparr>wcap_sample_rate := mx_rate m, wcap_channels := unat (mx_channels m), wcap_bits := unat (mx_bits m),
       wcap_is_float := mix_is_float m\<rparr>"

definition get_mix_format :: "wasapi_env \<Rightarrow> wasapi_session \<Rightarrow> bool \<times> wasapi_session" where
  "get_mix_format env s =
     (let (p, s) = grant (we_mix env \<noteq> None) s; s = s\<lparr>wi_wave_format := p\<rparr>
      in case we_mix env of
           None \<Rightarrow> (False, s)
         | Some m \<Rightarrow> (True, s\<lparr>wi_engine := parse_mix m (wi_engine s)\<rparr>))"

definition init_client :: "wasapi_env \<Rightarrow> wasapi_session \<Rightarrow> bool \<times> wasapi_session" where
  "init_client env s = (we_initialize env, s)"

definition get_service :: "wasapi_env \<Rightarrow> wasapi_session \<Rightarrow> bool \<times> wasapi_session" where
  "get_service env s = (let (p, s) = grant (we_service env) s in (p \<noteq> None, s\<lparr>wi_capture_client := p\<rparr>))"

definition set_config :: "audio_config \<Rightarrow> wasapi_session \<Rightarrow> wasapi_session" where
  "set_config desired s =
     s\<lparr>wi_engine := (wi_engine s)\<lparr>wcap_actual_config := wasapi_config (wcap_sample_rate (wi_engine s)) desired\<rparr>\<rparr>"

text \<open>The calls are made one after the other, up to the first that fails.\<close>

fun run_stages :: "(wasapi_session \<Rightarrow> bool \<times> wasapi_session) list \<Rightarrow> wasapi_session \<Rightarrow> bool \<times> wasapi_session" where
  "run_stages [] s = (True, s)"
| "run_stages (f # fs) s = (let (ok, s) = f s in if ok then run_stages fs s else (False, s))"

definition start_stages :: "wasapi_env \<Rightarrow> (wasapi_session \<Rightarrow> bool \<times> wasapi_session) list" where
  "start_stages env =
     [co_initialize env, create_enumerator env, get_endpoint env, read_name env, activate_client env, get_mix_format env,
      init_client env, get_service env]"

definition wasapi_start ::
  "wasapi_env \<Rightarrow> audio_config \<Rightarrow> audio_config \<Rightarrow> wasapi_session \<Rightarrow> bool \<times> audio_config \<times> wasapi_session" where
  "wasapi_start env desired actual s =
     (if wcap_is_running (wi_engine s) then (True, wcap_actual_config (wi_engine s), s)
      else
        (case run_stages (start_stages env) s of
           (False, s) \<Rightarrow> (False, actual, s)
         | (True, s) \<Rightarrow>
             (let s = set_config desired s; actual = wcap_actual_config (wi_engine s)
              in if \<not> we_start env then (False, actual, s)
                 else (True, actual, s\<lparr>wi_engine := (wi_engine s)\<lparr>wcap_is_running := True\<rparr>\<rparr>))))"

section \<open>Stop\<close>

definition wasapi_session_stop :: "wasapi_session \<Rightarrow> wasapi_session" where
  "wasapi_session_stop s =
     (if \<not> wcap_is_running (wi_engine s) then s
      else
        (let s = s\<lparr>wi_engine := wasapi_stop (wi_engine s)\<rparr>;
             s = (release (wi_capture_client s) s)\<lparr>wi_capture_client := None\<rparr>;
             s = (release (wi_wave_format s) s)\<lparr>wi_wave_format := None\<rparr>;
             s = (release (wi_audio_client s) s)\<lparr>wi_audio_client := None\<rparr>;
             s = (release (wi_device s) s)\<lparr>wi_device := None\<rparr>;
             s = (release (wi_enumerator s) s)\<lparr>wi_enumerator := None\<rparr>
         in if wi_com_initialized s then s\<lparr>wi_com_inits := wi_com_inits s - 1, wi_com_initialized := False\<rparr> else s))"

section \<open>The capture thread\<close>

text \<open>
  One packet: whether the engine still runs when it is asked for, what \<^verbatim>\<open>GetBuffer\<close> lends (the memory, its
  frames and the silent flag; \<open>None\<close> when it fails), and the size of the next packet (\<open>None\<close> when
  the call fails).
\<close>

record packet =
  pk_running :: bool
  pk_buffer :: "(capture_buffer option \<times> nat \<times> bool) option"
  pk_next :: "u32 option"

text \<open>
  The two scratch vectors, the blocks handed to the callback with their number of frames, and the
  frames of the buffers lent and given back.
\<close>

record capture_state =
  ct_temp :: "flt list"
  ct_out :: "i16 list"
  ct_blocks :: "(i16 list \<times> nat) list"
  ct_lent :: "nat list"
  ct_returned :: "nat list"

definition deliver_packet :: "bool \<Rightarrow> wasapi_capture \<Rightarrow> capture_buffer option \<Rightarrow> nat \<Rightarrow> bool \<Rightarrow> capture_state \<Rightarrow> capture_state option" where
  "deliver_packet has_callback w data n silent c =
     (if n > 0 then
        map_option (\<lambda>(temp, out). c\<lparr>ct_temp := temp, ct_out := out,
            ct_blocks := (if has_callback then ct_blocks c @ [(out, n)] else ct_blocks c)\<rparr>)
          (convert_capture silent data n w (ct_temp c) (ct_out c))
      else Some c)"

fun capture_packets :: "bool \<Rightarrow> wasapi_capture \<Rightarrow> u32 \<Rightarrow> packet list \<Rightarrow> capture_state \<Rightarrow> capture_state option" where
  "capture_packets has_callback w len [] c = Some c"
| "capture_packets has_callback w len (p # ps) c =
     (if len = 0 \<or> \<not> pk_running p then Some c
      else
        (case pk_buffer p of
           None \<Rightarrow> Some c
         | Some (data, n, silent) \<Rightarrow>
             (case deliver_packet has_callback w data n silent (c\<lparr>ct_lent := ct_lent c @ [n]\<rparr>) of
                None \<Rightarrow> None
              | Some c \<Rightarrow>
                  (let c = c\<lparr>ct_returned := ct_returned c @ [n]\<rparr>
                   in case pk_next p of
                        None \<Rightarrow> Some c
                      | Some len \<Rightarrow> capture_packets has_callback w len ps c))))"

text \<open>
  The outer loop. A turn has the flag that was read, the size of the first packet (\<open>None\<close> when the call
  fails) and the packets; the pauses are the milliseconds slept.
\<close>

record capture_turn =
  cy_running :: bool
  cy_first :: "u32 option"
  cy_packets :: "packet list"

fun capture_thread :: "bool \<Rightarrow> wasapi_capture \<Rightarrow> capture_turn list \<Rightarrow> capture_state \<Rightarrow> (capture_state \<times> nat list) option" where
  "capture_thread has_callback w [] c = Some (c, [])"
| "capture_thread has_callback w (t # ts) c =
     (if \<not> cy_running t then Some (c, [])
      else
        (case cy_first t of
           None \<Rightarrow> map_option (\<lambda>(c, sl). (c, 5 # sl)) (capture_thread has_callback w ts c)
         | Some len \<Rightarrow>
             if len = 0 then map_option (\<lambda>(c, sl). (c, 3 # sl)) (capture_thread has_callback w ts c)
             else (case capture_packets has_callback w len (cy_packets t) c of
                     None \<Rightarrow> None
                   | Some c \<Rightarrow> capture_thread has_callback w ts c)))"

definition capture_thread_init :: capture_state where
  "capture_thread_init = \<lparr>ct_temp = [], ct_out = [], ct_blocks = [], ct_lent = [], ct_returned = []\<rparr>"

text \<open>A block of the thread of other systems: a quiet tone of 440 Hz.\<close>

definition mock_block :: "(flt \<Rightarrow> flt) \<Rightarrow> wasapi_capture \<Rightarrow> flt \<Rightarrow> (i16 list \<times> flt) option" where
  "mock_block sin64 w phase =
     tone_block sin64 (1 / 4) (FFin 440) (of_nat (unat (ac_sample_rate (wcap_actual_config w)))) 2
       (unat (ac_frames_per_packet (wcap_actual_config w))) phase"

section \<open>Sessions\<close>

text \<open>Any sequence of starts and stops.\<close>

datatype wasapi_act = WStart wasapi_env audio_config audio_config | WStop

fun wasapi_do :: "wasapi_act \<Rightarrow> wasapi_session \<Rightarrow> bool \<times> wasapi_session" where
  "wasapi_do (WStart env desired actual) s = (case wasapi_start env desired actual s of (ok, _, s) \<Rightarrow> (ok, s))"
| "wasapi_do WStop s = (True, wasapi_session_stop s)"

fun wasapi_run :: "wasapi_act list \<Rightarrow> wasapi_session \<Rightarrow> bool \<times> wasapi_session" where
  "wasapi_run [] s = (True, s)"
| "wasapi_run (a # as) s =
     (let (ok, s) = wasapi_do a s; (oks, s) = wasapi_run as s in (ok \<and> oks, s))"

definition owned :: "nat option \<Rightarrow> nat list" where
  "owned p = (case p of None \<Rightarrow> [] | Some i \<Rightarrow> [i])"

definition held :: "wasapi_session \<Rightarrow> nat list" where
  "held s = owned (wi_enumerator s) @ owned (wi_device s) @ owned (wi_audio_client s) @ owned (wi_wave_format s) @
     owned (wi_capture_client s)"

lemma owned_simps [simp]: "owned None = []" "owned (Some i) = [i]" "rev (owned p) = owned p"
  by (cases p; simp add: owned_def)+

lemmas stage_defs = co_initialize_def create_enumerator_def get_endpoint_def read_name_def activate_client_def
  get_mix_format_def init_client_def get_service_def grant_def release_def Let_def

text \<open>What a start that gets through its calls has obtained.\<close>

definition fresh_next :: "wasapi_session \<Rightarrow> bool" where
  "fresh_next s \<longleftrightarrow> (\<forall>i \<in> set (wi_live s). i < wi_next s)"

lemma read_name_result:
  "\<exists>n k l. read_name env s = (True, s\<lparr>wi_device_name := n, wi_next := wi_next s + k, wi_live := l\<rparr>) \<and>
     (fresh_next s \<longrightarrow> l = wi_live s) \<and> (\<forall>i \<in> set (wi_live s). i < wi_next s \<longrightarrow> i \<in> set l)"
proof -
  let ?i = "wi_next s"
  have f: "fresh_next s \<Longrightarrow> ?i \<notin> set (wi_live s) \<and> Suc ?i \<notin> set (wi_live s)" by (auto simp: fresh_next_def)
  consider "\<not> we_props env" | "we_props env" "we_name env = None" | n where "we_props env" "we_name env = Some (False, n)"
    | n where "we_props env" "we_name env = Some (True, n)" by (cases "we_name env") fastforce+
  then show ?thesis
  proof cases
    case 1
    then show ?thesis by (intro exI [of _ "wi_device_name s"] exI [of _ 0] exI [of _ "wi_live s"]) (simp add: read_name_def grant_def)
  next
    case 2
    then show ?thesis using f
      by (intro exI [of _ "wi_device_name s"] exI [of _ 1] exI [of _ "remove1 ?i (wi_live s @ [?i])"])
        (auto simp: read_name_def grant_def release_def remove1_append in_set_remove1)
  next
    case (3 n)
    then show ?thesis using f
      by (intro exI [of _ n] exI [of _ 1] exI [of _ "remove1 ?i (wi_live s @ [?i])"])
        (auto simp: read_name_def grant_def release_def remove1_append in_set_remove1)
  next
    case (4 n)
    then show ?thesis using f
      by (intro exI [of _ n] exI [of _ 2] exI [of _ "remove1 ?i (remove1 (Suc ?i) (wi_live s @ [?i, Suc ?i]))"])
        (auto simp: read_name_def grant_def release_def remove1_append in_set_remove1 Let_def)
  qed
qed

lemma run_stages_Cons: "run_stages (f # fs) s = (True, t) \<longleftrightarrow> (\<exists>u. f s = (True, u) \<and> run_stages fs u = (True, t))"
  by (cases "f s") simp

lemma stage_results:
  "co_initialize env s = (True, t) \<Longrightarrow> \<exists>b. t = s\<lparr>wi_com_initialized := b, wi_com_inits := wi_com_inits s + (if b then 1 else 0)\<rparr>"
  "create_enumerator env s = (True, t) \<Longrightarrow>
     t = s\<lparr>wi_live := wi_live s @ [wi_next s], wi_next := wi_next s + 1, wi_enumerator := Some (wi_next s)\<rparr>"
  "get_endpoint env s = (True, t) \<Longrightarrow>
     t = s\<lparr>wi_live := wi_live s @ [wi_next s], wi_next := wi_next s + 1, wi_device := Some (wi_next s)\<rparr>"
  "activate_client env s = (True, t) \<Longrightarrow>
     t = s\<lparr>wi_live := wi_live s @ [wi_next s], wi_next := wi_next s + 1, wi_audio_client := Some (wi_next s)\<rparr>"
  "get_mix_format env s = (True, t) \<Longrightarrow>
     \<exists>m. t = s\<lparr>wi_live := wi_live s @ [wi_next s], wi_next := wi_next s + 1, wi_wave_format := Some (wi_next s),
              wi_engine := parse_mix m (wi_engine s)\<rparr>"
  "init_client env s = (True, t) \<Longrightarrow> t = s"
  "get_service env s = (True, t) \<Longrightarrow>
     t = s\<lparr>wi_live := wi_live s @ [wi_next s], wi_next := wi_next s + 1, wi_capture_client := Some (wi_next s)\<rparr>"
proof -
  show "co_initialize env s = (True, t) \<Longrightarrow> \<exists>b. t = s\<lparr>wi_com_initialized := b, wi_com_inits := wi_com_inits s + (if b then 1 else 0)\<rparr>"
  proof (cases "we_coinit env")
    case ComOk
    then show "co_initialize env s = (True, t) \<Longrightarrow> ?thesis" by (intro exI [of _ True]) (simp add: co_initialize_def eq_commute [of _ t])
  next
    case ComChangedMode
    then show "co_initialize env s = (True, t) \<Longrightarrow> ?thesis" by (intro exI [of _ False]) (simp add: co_initialize_def eq_commute [of _ t])
  qed (simp add: co_initialize_def)
  show "get_mix_format env s = (True, t) \<Longrightarrow>
     \<exists>m. t = s\<lparr>wi_live := wi_live s @ [wi_next s], wi_next := wi_next s + 1, wi_wave_format := Some (wi_next s),
              wi_engine := parse_mix m (wi_engine s)\<rparr>"
    by (intro exI [of _ "the (we_mix env)"]) (cases "we_mix env"; simp add: get_mix_format_def grant_def Let_def eq_commute [of _ t])
qed (auto simp: create_enumerator_def get_endpoint_def activate_client_def init_client_def get_service_def grant_def Let_def split: if_splits)

lemma stages_succeed:
  assumes "run_stages (start_stages env) s = (True, t)"
  obtains m where "wi_next s + 2 \<le> m" "held t = [wi_next s, wi_next s + 1, m, m + 1, m + 2]" "wi_next t = m + 3"
    "fresh_next s \<Longrightarrow> wi_live t = wi_live s @ held t"
    "wi_com_inits t = wi_com_inits s + (if wi_com_initialized t then 1 else 0)"
    "wcap_is_running (wi_engine t) = wcap_is_running (wi_engine s)"
proof -
  obtain s1 s2 s3 s4 s5 s6 s7 where st: "co_initialize env s = (True, s1)" "create_enumerator env s1 = (True, s2)"
    "get_endpoint env s2 = (True, s3)" "read_name env s3 = (True, s4)" "activate_client env s4 = (True, s5)"
    "get_mix_format env s5 = (True, s6)" "init_client env s6 = (True, s7)" "get_service env s7 = (True, t)"
    using assms unfolding start_stages_def run_stages_Cons by (metis run_stages.simps(1) prod.inject)
  obtain b f where e: "s1 = s\<lparr>wi_com_initialized := b, wi_com_inits := wi_com_inits s + (if b then 1 else 0)\<rparr>"
    "s6 = s5\<lparr>wi_live := wi_live s5 @ [wi_next s5], wi_next := wi_next s5 + 1, wi_wave_format := Some (wi_next s5),
              wi_engine := parse_mix f (wi_engine s5)\<rparr>"
    using stage_results(1) [OF st(1)] stage_results(5) [OF st(6)] by blast
  obtain n k l where e4: "s4 = s3\<lparr>wi_device_name := n, wi_next := wi_next s3 + k, wi_live := l\<rparr>" "fresh_next s3 \<longrightarrow> l = wi_live s3"
    using read_name_result [of env s3] st(4) by auto
  define m where "m = wi_next s + 2 + k"
  have 3: "wi_next s3 = wi_next s + 2" "wi_live s3 = wi_live s @ [wi_next s, wi_next s + 1]" "wi_engine s3 = wi_engine s"
    "wi_com_inits s3 = wi_com_inits s + (if wi_com_initialized s3 then 1 else 0)"
    "wi_enumerator s3 = Some (wi_next s)" "wi_device s3 = Some (wi_next s + 1)"
    using stage_results(2) [OF st(2)] stage_results(3) [OF st(3)] by (simp_all add: e(1))
  have l: "l = wi_live s @ [wi_next s, wi_next s + 1]" if "fresh_next s" using that e4(2) 3(1,2) by (auto simp: fresh_next_def)
  have 5: "wi_next s5 = m + 1" "wi_live s5 = l @ [m]" "wi_engine s5 = wi_engine s"
    "wi_com_inits s5 = wi_com_inits s + (if wi_com_initialized s5 then 1 else 0)"
    "wi_enumerator s5 = Some (wi_next s)" "wi_device s5 = Some (wi_next s + 1)" "wi_audio_client s5 = Some m"
    using e4(1) stage_results(4) [OF st(5)] 3 by (simp_all add: m_def)
  have 7: "wi_next s7 = m + 2" "wi_live s7 = l @ [m, m + 1]" "wcap_is_running (wi_engine s7) = wcap_is_running (wi_engine s)"
    "wi_com_inits s7 = wi_com_inits s + (if wi_com_initialized s7 then 1 else 0)"
    "wi_enumerator s7 = Some (wi_next s)" "wi_device s7 = Some (wi_next s + 1)" "wi_audio_client s7 = Some m"
    "wi_wave_format s7 = Some (m + 1)"
    using stage_results(6) [OF st(7)] e(2) 5 by (simp_all add: parse_mix_def)
  show ?thesis using stage_results(7) [OF st(8)] 7 l by (intro that [of m]) (simp_all add: held_def m_def)
qed

text \<open>
  What a stage may do with what was live before: every object obtained before the stage stays live.
\<close>

definition extends :: "wasapi_session \<Rightarrow> wasapi_session \<Rightarrow> bool" where
  "extends s t \<longleftrightarrow> wi_next s \<le> wi_next t \<and> (\<forall>i \<in> set (wi_live s). i < wi_next s \<longrightarrow> i \<in> set (wi_live t)) \<and>
     wcap_is_running (wi_engine t) = wcap_is_running (wi_engine s)"

lemma extends_refl [simp]: "extends s s"
  by (simp add: extends_def)

lemma extends_trans: "extends s t \<Longrightarrow> extends t u \<Longrightarrow> extends s u"
  by (auto simp: extends_def)

lemma run_stages_extends:
  assumes "\<And>f s. f \<in> set fs \<Longrightarrow> extends s (snd (f s))"
  shows "run_stages fs s = (ok, t) \<Longrightarrow> extends s t"
  using assms
proof (induction fs arbitrary: s)
  case (Cons f fs)
  obtain b u where u: "f s = (b, u)" by fastforce
  then have e: "extends s u" using Cons.prems(2) [of f s] by simp
  show ?case
  proof (cases b)
    case True
    then have "extends u t" using Cons.IH [of u] Cons.prems u by simp
    then show ?thesis using e extends_trans by blast
  next
    case False
    then show ?thesis using Cons.prems(1) u e by simp
  qed
qed simp

lemma stage_extends: "f \<in> set (start_stages env) \<Longrightarrow> extends s (snd (f s))"
proof -
  have "extends s (snd (co_initialize env s))" by (cases "we_coinit env") (simp_all add: co_initialize_def extends_def)
  moreover have "extends s (snd (read_name env s))" using read_name_result [of env s] by (auto simp: extends_def)
  moreover have "extends s (snd (get_mix_format env s))"
    by (cases "we_mix env") (simp_all add: get_mix_format_def grant_def extends_def parse_mix_def Let_def)
  moreover have "extends s (snd (create_enumerator env s))" "extends s (snd (get_endpoint env s))" "extends s (snd (activate_client env s))"
    "extends s (snd (init_client env s))" "extends s (snd (get_service env s))"
    by (simp_all add: create_enumerator_def get_endpoint_def activate_client_def init_client_def get_service_def grant_def extends_def Let_def)
  ultimately show "f \<in> set (start_stages env) \<Longrightarrow> extends s (snd (f s))" by (auto simp: start_stages_def)
qed

lemma stages_keep: "run_stages (start_stages env) s = (ok, t) \<Longrightarrow> extends s t"
  using run_stages_extends [of "start_stages env" s ok t] stage_extends by blast

lemma stages_first:
  assumes "run_stages (start_stages env) s = (ok, t)" and "we_coinit env \<noteq> ComFailed" and "we_enumerator env"
  shows "wi_next s \<in> set (wi_live t) \<and> wi_next s < wi_next t"
proof -
  obtain s1 where s1: "co_initialize env s = (True, s1)" "wi_next s1 = wi_next s"
    using assms(2) by (cases "we_coinit env") (simp_all add: co_initialize_def)
  obtain s2 where s2: "create_enumerator env s1 = (True, s2)" "wi_next s \<in> set (wi_live s2)" "wi_next s < wi_next s2"
    using assms(3) s1(2) by (simp add: create_enumerator_def grant_def Let_def)
  have "run_stages (tl (tl (start_stages env))) s2 = (ok, t)" using assms(1) s1 s2 by (simp add: start_stages_def)
  then have "extends s2 t" by (rule run_stages_extends [rotated]) (rule stage_extends [of _ env], simp add: start_stages_def)
  then show ?thesis using s2 by (auto simp: extends_def)
qed

lemma start_cases:
  assumes "wasapi_start env desired actual s = (ok, a, t)"
  obtains (already) "wcap_is_running (wi_engine s)" "ok" "t = s"
  | (failed) r b where "\<not> wcap_is_running (wi_engine s)" "run_stages (start_stages env) s = (b, r)" "\<not> ok"
      "t = r \<or> t = set_config desired r"
  | (started) r where "\<not> wcap_is_running (wi_engine s)" "run_stages (start_stages env) s = (True, r)" "ok"
      "t = (set_config desired r)\<lparr>wi_engine := (wi_engine (set_config desired r))\<lparr>wcap_is_running := True\<rparr>\<rparr>"
  using assms unfolding wasapi_start_def Let_def
  by (cases "run_stages (start_stages env) s") (auto split: if_splits bool.splits)

lemma set_config_simps [simp]:
  "wi_live (set_config d s) = wi_live s" "wi_next (set_config d s) = wi_next s" "wi_com_inits (set_config d s) = wi_com_inits s"
  "wi_com_initialized (set_config d s) = wi_com_initialized s" "held (set_config d s) = held s"
  "wcap_is_running (wi_engine (set_config d s)) = wcap_is_running (wi_engine s)"
  by (simp_all add: set_config_def held_def)

lemma held_engine [simp]: "held (s\<lparr>wi_engine := e\<rparr>) = held s"
  by (simp add: held_def)

text \<open>A stop releases what is held, in reverse order.\<close>

lemma release_simps [simp]:
  "wi_live (release p s) = fold remove1 (owned p) (wi_live s)" "wi_engine (release p s) = wi_engine s" "wi_next (release p s) = wi_next s"
  "wi_com_inits (release p s) = wi_com_inits s" "wi_com_initialized (release p s) = wi_com_initialized s"
  "wi_enumerator (release p s) = wi_enumerator s" "wi_device (release p s) = wi_device s" "wi_audio_client (release p s) = wi_audio_client s"
  "wi_wave_format (release p s) = wi_wave_format s" "wi_capture_client (release p s) = wi_capture_client s"
  by (cases p; simp add: release_def)+

lemma stop_running:
  assumes "wcap_is_running (wi_engine s)"
  shows "wi_live (wasapi_session_stop s) = fold remove1 (rev (held s)) (wi_live s)" "held (wasapi_session_stop s) = []"
    "wi_next (wasapi_session_stop s) = wi_next s"
    "wi_com_inits (wasapi_session_stop s) = wi_com_inits s - (if wi_com_initialized s then 1 else 0)"
    "\<not> wcap_is_running (wi_engine (wasapi_session_stop s))"
  using assms by (simp_all add: wasapi_session_stop_def held_def wasapi_stop_def Let_def)

lemma stop_idle: "\<not> wcap_is_running (wi_engine s) \<Longrightarrow> wasapi_session_stop s = s"
  by (simp add: wasapi_session_stop_def)

lemma fold_remove1_keeps: "x \<in> set ys \<Longrightarrow> x \<notin> set xs \<Longrightarrow> x \<in> set (fold remove1 xs ys)"
  by (induction xs arbitrary: ys) (auto simp: in_set_remove1)






definition good_windows :: wasapi_env where
  "good_windows =
     \<lparr>we_coinit = ComOk, we_enumerator = True, we_endpoint = True, we_props = True, we_name = Some (True, ''Speakers''), we_activate = True,
      we_mix = Some \<lparr>mx_tag = WAVE_FORMAT_IEEE_FLOAT, mx_channels = 2, mx_rate = 48000, mx_bits = 32, mx_sub_float = False\<rparr>,
      we_initialize = True, we_service = True, we_start = True\<rparr>"


text \<open>
  A start that fails after its first pointer leaks: whatever the engine does later, however often it is
  started and stopped, the object obtained first is never released, because \<open>stop\<close> does nothing for
  an engine that does not run and the next start overwrites the pointer.
\<close>

theorem failed_start_leaks:
  assumes "\<not> wcap_is_running (wi_engine s)" and "wasapi_start env desired actual s = (False, a, t)"
    and "we_coinit env \<noteq> ComFailed" and "we_enumerator env" and "wasapi_run as t = (ok, u)"
  shows "wi_next s \<in> set (wi_live u)"
proof -
  define lost where "lost v \<longleftrightarrow> wi_next s \<in> set (wi_live v) \<and> wi_next s < wi_next v \<and>
    (wcap_is_running (wi_engine v) \<longrightarrow> wi_next s \<notin> set (held v))" for v
  have "lost t" using assms(2)
  proof (cases rule: start_cases)
    case (failed r b)
    then show ?thesis using stages_first [OF failed(2) assms(3,4)] stages_keep [OF failed(2)] assms(1) by (auto simp: lost_def extends_def)
  qed (use assms in simp_all)
  moreover have step: "lost w" if v: "lost v" and w: "wasapi_do x v = (b, w)" for v w x b
  proof (cases x)
    case (WStart e d c)
    then obtain ok2 a2 where "wasapi_start e d c v = (ok2, a2, w)" using w by (auto split: prod.splits)
    then show ?thesis
    proof (cases rule: start_cases)
      case (failed r b2)
      then show ?thesis using stages_keep [OF failed(2)] v by (auto simp: lost_def extends_def)
    next
      case (started r)
      obtain m where "wi_next v + 2 \<le> m" "held r = [wi_next v, wi_next v + 1, m, m + 1, m + 2]" by (rule stages_succeed [OF started(2)])
      then show ?thesis using started stages_keep [OF started(2)] v by (auto simp: lost_def extends_def)
    qed (use v in simp)
  next
    case WStop
    then show ?thesis using v w stop_running [of v] stop_idle [of v]
      by (cases "wcap_is_running (wi_engine v)") (auto simp: lost_def intro!: fold_remove1_keeps)
  qed
  have "lost u" if "lost v" "wasapi_run as v = (ok, u)" for v ok
    using that by (induction as arbitrary: v ok) (auto simp: Let_def split: prod.splits dest: step)
  ultimately show ?thesis using assms(5) by (auto simp: lost_def)
qed

theorem failed_start_leaks_witness:
  "\<exists>t u. wasapi_start (good_windows\<lparr>we_initialize := False\<rparr>) default_audio_config default_audio_config WasapiSession =
            (False, default_audio_config, t) \<and>
         wasapi_run [WStop, WStart good_windows default_audio_config default_audio_config, WStop] t = (True, u) \<and> 0 \<in> set (wi_live u)"
proof -
  obtain t where t: "wasapi_start (good_windows\<lparr>we_initialize := False\<rparr>) default_audio_config default_audio_config WasapiSession =
      (False, default_audio_config, t)" "\<not> wcap_is_running (wi_engine t)"
    by (simp add: wasapi_start_def start_stages_def stage_defs good_windows_def WasapiSession_def WasapiCapture_def set_config_def parse_mix_def)
  obtain u where u: "wasapi_run [WStop, WStart good_windows default_audio_config default_audio_config, WStop] t = (True, u)"
    using t(2) by (simp add: stop_idle wasapi_start_def start_stages_def stage_defs good_windows_def)
  have "wi_next WasapiSession \<in> set (wi_live u)"
    by (rule failed_start_leaks [OF _ t(1) _ _ u]) (simp_all add: WasapiSession_def WasapiCapture_def good_windows_def)
  then show ?thesis using t(1) u by (auto simp: WasapiSession_def)
qed

section \<open>Captured audio\<close>

text \<open>What every packet keeps, the thread keeps.\<close>

lemma packets_preserve:
  assumes step: "\<And>c data n silent e. P c \<Longrightarrow> deliver_packet cb w data n silent (c\<lparr>ct_lent := ct_lent c @ [n]\<rparr>) = Some e \<Longrightarrow>
      P (e\<lparr>ct_returned := ct_returned e @ [n]\<rparr>)"
  shows "capture_packets cb w len ps c = Some c' \<Longrightarrow> P c \<Longrightarrow> P c'"
proof (induction ps arbitrary: len c)
  case (Cons p ps)
  show ?case
  proof (cases "len = 0 \<or> \<not> pk_running p \<or> pk_buffer p = None")
    case True
    then show ?thesis using Cons.prems by (auto split: if_splits option.splits)
  next
    case False
    then obtain data n silent where b: "pk_buffer p = Some (data, n, silent)" by (cases "pk_buffer p") auto
    then obtain e where e: "deliver_packet cb w data n silent (c\<lparr>ct_lent := ct_lent c @ [n]\<rparr>) = Some e"
      using Cons.prems(1) False by (auto split: option.splits)
    have "pk_next p = None \<and> c' = e\<lparr>ct_returned := ct_returned e @ [n]\<rparr> \<or>
        (\<exists>l. capture_packets cb w l ps (e\<lparr>ct_returned := ct_returned e @ [n]\<rparr>) = Some c')"
      using Cons.prems(1) False b e by (auto simp: Let_def split: option.splits)
    then show ?thesis using step [OF Cons.prems(2) e] Cons.IH by auto
  qed
qed simp

lemma thread_preserve:
  assumes step: "\<And>c data n silent e. P c \<Longrightarrow> deliver_packet cb w data n silent (c\<lparr>ct_lent := ct_lent c @ [n]\<rparr>) = Some e \<Longrightarrow>
      P (e\<lparr>ct_returned := ct_returned e @ [n]\<rparr>)"
  shows "capture_thread cb w ts c = Some (c', sl) \<Longrightarrow> P c \<Longrightarrow> P c'"
proof (induction ts arbitrary: c sl)
  case (Cons t ts)
  have pk: "capture_packets cb w l ps d = Some d' \<Longrightarrow> P d \<Longrightarrow> P d'" for l ps d d'
    by (rule packets_preserve [of P cb w, OF step])
  show ?case using Cons.prems by (auto split: if_splits option.splits dest: pk Cons.IH)
qed simp

text \<open>
  The capture thread gives back every buffer Windows lends it, with its exact number of
  frames and before it asks for the next one, on every path but a conversion that is undefined.
\<close>

theorem capture_returns_buffers:
  assumes "capture_thread cb w ts capture_thread_init = Some (c, pauses)"
  shows "ct_lent c = ct_returned c"
proof (rule thread_preserve [of "\<lambda>c. ct_lent c = ct_returned c", OF _ assms])
  fix c data n silent e
  assume "ct_lent c = ct_returned c" "deliver_packet cb w data n silent (c\<lparr>ct_lent := ct_lent c @ [n]\<rparr>) = Some e"
  then show "ct_lent (e\<lparr>ct_returned := ct_returned e @ [n]\<rparr>) = ct_returned (e\<lparr>ct_returned := ct_returned e @ [n]\<rparr>)"
    by (auto simp: deliver_packet_def split: if_splits)
qed (simp add: capture_thread_init_def)

text \<open>Packets of a 16-bit stereo device that are ready one after the other.\<close>

definition s16_packet :: "i16 list \<Rightarrow> packet" where
  "s16_packet pcm =
     \<lparr>pk_running = True, pk_buffer = Some (Some \<lparr>cb_float = [], cb_s16 = pcm\<rparr>, length pcm div 2, False), pk_next = Some 1\<rparr>"

definition stereo_pcm :: "i16 list \<Rightarrow> bool" where
  "stereo_pcm pcm \<longleftrightarrow> pcm \<noteq> [] \<and> even (length pcm)"

text \<open>
  What a 16-bit stereo device plays is handed to the callback packet by packet, unchanged and in order.
\<close>

theorem capture_s16_exact:
  assumes "\<not> wcap_is_float w" and "wcap_bits w = 16" and "wcap_channels w = 2" and "\<forall>pcm \<in> set pcms. stereo_pcm pcm"
  shows "\<exists>c'. capture_packets True w 1 (map s16_packet pcms) c = Some c' \<and>
              ct_blocks c' = ct_blocks c @ map (\<lambda>pcm. (pcm, length pcm div 2)) pcms"
  using assms(4)
proof (induction pcms arbitrary: c)
  case (Cons pcm pcms)
  obtain k where k: "length pcm = 2 * k" using Cons.prems by (auto simp: stereo_pcm_def elim!: evenE)
  moreover have "k \<noteq> 0" using Cons.prems k by (cases pcm) (auto simp: stereo_pcm_def)
  ultimately have n: "length pcm div 2 > 0" "length pcm div 2 * 2 = length pcm" by simp_all
  define e where "e = c\<lparr>ct_lent := ct_lent c @ [length pcm div 2],
    ct_temp := vector_resize (FFin 0) (length pcm) (ct_temp c), ct_out := pcm, ct_blocks := ct_blocks c @ [(pcm, length pcm div 2)],
    ct_returned := ct_returned c @ [length pcm div 2]\<rparr>"
  have "capture_packets True w 1 (map s16_packet (pcm # pcms)) c = capture_packets True w 1 (map s16_packet pcms) e"
    using n assms(1-3) by (simp add: s16_packet_def deliver_packet_def convert_capture_def e_def Let_def)
  moreover obtain c' where "capture_packets True w 1 (map s16_packet pcms) e = Some c'"
    "ct_blocks c' = ct_blocks e @ map (\<lambda>pcm. (pcm, length pcm div 2)) pcms" using Cons.IH [of e] Cons.prems by auto
  ultimately show ?case by (auto simp: e_def)
qed simp

text \<open>
  A device with integer samples of another width than 16 bits is captured as silence: every block the
  callback gets is zero, whatever the device plays.
\<close>

definition zero_pcm :: "i16 list \<Rightarrow> bool" where
  "zero_pcm xs \<longleftrightarrow> xs = replicate (length xs) 0"

lemma zero_pcm_iff: "zero_pcm xs \<longleftrightarrow> (\<forall>x \<in> set xs. x = 0)"
  by (metis in_set_replicate replicate_eqI zero_pcm_def)

lemma zero_pcm_resize: "zero_pcm xs \<Longrightarrow> zero_pcm (vector_resize 0 k xs)"
  by (auto simp: zero_pcm_iff vector_resize_def dest: in_set_takeD)

theorem unsupported_device_is_silent:
  assumes "\<not> wcap_is_float w" and "wcap_bits w \<noteq> 16" and "capture_thread cb w ts capture_thread_init = Some (c, pauses)"
  shows "\<forall>b \<in> set (ct_blocks c). zero_pcm (fst b)"
proof -
  define quiet where "quiet d \<longleftrightarrow> zero_pcm (ct_out d) \<and> (\<forall>b \<in> set (ct_blocks d). zero_pcm (fst b))" for d :: capture_state
  have out: "zero_pcm o1" if "convert_capture silent data n w t o0 = Some (t1, o1)" "zero_pcm o0" for silent data n t o0 t1 o1
    using that assms(1,2) zero_pcm_resize [of o0 "n * 2"]
    by (auto simp: convert_capture_def Let_def zero_pcm_def [of "replicate _ _"] split: if_splits option.splits)
  have "quiet c"
  proof (rule thread_preserve [of quiet, OF _ assms(3)])
    fix c data n silent e
    assume q: "quiet c" and d: "deliver_packet cb w data n silent (c\<lparr>ct_lent := ct_lent c @ [n]\<rparr>) = Some e"
    show "quiet (e\<lparr>ct_returned := ct_returned e @ [n]\<rparr>)"
    proof (cases "n > 0")
      case True
      then obtain t1 o1 where o1: "convert_capture silent data n w (ct_temp c) (ct_out c) = Some (t1, o1)"
        "e = c\<lparr>ct_lent := ct_lent c @ [n], ct_temp := t1, ct_out := o1,
               ct_blocks := if cb then ct_blocks c @ [(o1, n)] else ct_blocks c\<rparr>"
        using d by (auto simp: deliver_packet_def split: option.splits)
      then show ?thesis using q out [OF o1(1)] by (auto simp: quiet_def)
    next
      case False
      then have "e = c\<lparr>ct_lent := ct_lent c @ [n]\<rparr>" using d by (simp add: deliver_packet_def)
      then show ?thesis using q by (simp add: quiet_def)
    qed
  qed (simp add: quiet_def capture_thread_init_def zero_pcm_def)
  then show ?thesis by (simp add: quiet_def)
qed

theorem unsupported_device_is_silent_witness:
  "\<exists>c sl. capture_thread True (WasapiCapture\<lparr>wcap_bits := 24\<rparr>)
     [\<lparr>cy_running = True, cy_first = Some 1, cy_packets = [s16_packet [5, 6]]\<rparr>] capture_thread_init = Some (c, sl) \<and>
     ct_blocks c = [([0, 0], 1)]"
proof -
  obtain c sl where c: "capture_thread True (WasapiCapture\<lparr>wcap_bits := 24\<rparr>)
     [\<lparr>cy_running = True, cy_first = Some 1, cy_packets = [s16_packet [5, 6]]\<rparr>] capture_thread_init = Some (c, sl)"
    "map (\<lambda>b. (length (fst b), snd b)) (ct_blocks c) = [(2, 1)]"
    by (simp add: s16_packet_def deliver_packet_def convert_capture_def WasapiCapture_def capture_thread_init_def Let_def)
  have "\<forall>b \<in> set (ct_blocks c). zero_pcm (fst b)" by (rule unsupported_device_is_silent [OF _ _ c(1)]) (simp_all add: WasapiCapture_def)
  then show ?thesis using c by (auto simp: zero_pcm_def map_eq_Cons_conv numeral_2_eq_2)
qed

theorem capture_returns_buffers_witness:
  "\<exists>c sl. capture_thread True WasapiCapture [\<lparr>cy_running = True, cy_first = Some 1, cy_packets = [s16_packet [5, 6]]\<rparr>]
     capture_thread_init = Some (c, sl) \<and> ct_lent c = [1] \<and> ct_returned c = [1]"
proof -
  obtain c sl where c: "capture_thread True WasapiCapture
     [\<lparr>cy_running = True, cy_first = Some 1, cy_packets = [s16_packet [5, 6]]\<rparr>] capture_thread_init = Some (c, sl)" "ct_lent c = [1]"
    by (simp add: s16_packet_def deliver_packet_def convert_capture_def WasapiCapture_def capture_thread_init_def Let_def)
  then show ?thesis using capture_returns_buffers [OF c(1)] by auto
qed

end
