(* ===== verification/Termux_Api.thy ===== *)
theory Termux_Api
  imports Player Android_Helpers Floating
begin

text \<open>
  The lower half of \<^verbatim>\<open>src/client/termux_api_player.cpp\<close>: the WAV header, the sample conversion, the
  gate that decides when a segment may be played, and one media command to the Termux:API app, over
  its listen socket or through \<^verbatim>\<open>am broadcast\<close>. The outcome of every system call is an argument; the
  descriptors a command opens and closes and the shell commands it runs are logged. The lemmas show
  that no path of a command leaks a descriptor or delivers the command twice, and that the gate, which
  computes in \<^verbatim>\<open>double\<close>, decides exactly.
\<close>

section \<open>Constants and text\<close>

definition kPrefillMs :: u32 where "kPrefillMs = 600"
definition kDefaultSegmentMs :: u32 where "kDefaultSegmentMs = 600000"
definition kMinSegmentMs :: u32 where "kMinSegmentMs = 2000"
definition kMaxSegmentMs :: u32 where "kMaxSegmentMs = 3600000"
definition kPoolSize :: nat where "kPoolSize = 4"
definition kApiListenAddress :: string where "kApiListenAddress = ''com.termux.api://listen''"

definition termux_trim :: "string \<Rightarrow> string" where
  "termux_trim = trim_by (\<lambda>c. c = CHR '' '' \<or> c = CHR 0x09 \<or> c = CHR 0x0A \<or> c = CHR 0x0D)"

definition es_extra :: "string \<Rightarrow> string \<Rightarrow> string" where
  "es_extra key v = ''--es '' @ key @ '' '' @ quote @ v @ quote"

definition build_command_line :: "string \<Rightarrow> string \<Rightarrow> string \<Rightarrow> string \<Rightarrow> string" where
  "build_command_line action file in_addr out_addr =
     (if in_addr = [] then [] else es_extra ''socket_input'' in_addr @ '' '') @
     (if out_addr = [] then [] else es_extra ''socket_output'' out_addr @ '' '') @
     es_extra ''api_method'' ''MediaPlayer'' @ '' -a '' @ action @
     (if file = [] then [] else '' '' @ es_extra ''file'' file)"

section \<open>WAV header and samples\<close>

text \<open>\<^verbatim>\<open>put32\<close> and \<^verbatim>\<open>put16\<close> fill the 44 bytes from front to back.\<close>

definition build_wav_header :: "u32 \<Rightarrow> u16 \<Rightarrow> bool \<Rightarrow> u32 \<Rightarrow> u32 \<Rightarrow> byte list" where
  "build_wav_header sample_rate channels float_format riff_sz data_sz =
     (let bytes_per_sample = (if float_format then 4 else 2 :: u32);
          block_align = ucast channels * bytes_per_sample;
          put32 = (\<lambda>v :: u32. le_encode 4 (unat v)); put16 = (\<lambda>v :: u16. le_encode 2 (unat v))
      in string_bytes ''RIFF'' @ put32 riff_sz @ string_bytes ''WAVE'' @ string_bytes ''fmt '' @ put32 16 @
         put16 (if float_format then 3 else 1) @ put16 channels @ put32 sample_rate @ put32 (sample_rate * block_align) @
         put16 (ucast block_align) @ put16 (if float_format then 32 else 16) @ string_bytes ''data'' @ put32 data_sz)"

text \<open>One sample of 24 or 32 bits from its bytes, and its upper 16 bits by an arithmetic shift.\<close>

definition s32_value :: "byte list \<Rightarrow> int" where
  "s32_value bs = sint (word_of_nat (le_decode bs) :: 32 word)"

definition s24_value :: "byte list \<Rightarrow> int" where
  "s24_value bs =
     (let v = (word_of_nat (le_decode bs) :: 32 word)
      in sint (if v AND 0x800000 \<noteq> 0 then v OR NOT 0xFFFFFF else v))"

definition convert_sample :: "audio_sample_format \<Rightarrow> byte list \<Rightarrow> i16" where
  "convert_sample fmt bs =
     (if fmt = PCM_S32LE then word_of_int (s32_value bs div 2 ^ 16) else word_of_int (s24_value bs div 2 ^ 8))"

text \<open>\<open>None\<close> is a read behind the end of the source.\<close>

definition convert_to_s16le :: "byte list \<Rightarrow> nat \<Rightarrow> u16 \<Rightarrow> audio_sample_format \<Rightarrow> byte list option" where
  "convert_to_s16le src frames channels fmt =
     (let samples = frames * unat channels; w = (if fmt = PCM_S32LE then 4 else 3)
      in if length src < samples * w then None
         else Some (pcm_bytes (map (\<lambda>i. convert_sample fmt (slice (i * w) w src)) [0..<samples])))"

section \<open>The issue gate\<close>

record segment_clock =
  sg_start_wall_ms :: u64
  sg_frames_written :: nat
  sg_sample_rate :: u32

definition segment_ready :: "segment_clock \<Rightarrow> u64 \<Rightarrow> u32 \<Rightarrow> bool" where
  "segment_ready clock now_ms prefill_ms =
     (let rate = (if sg_sample_rate clock > 0 then sg_sample_rate clock else 48000);
          content_ms = fl_div_const binary64
            (fl_mul binary64 (fl_of_int binary64 (int (sg_frames_written clock))) (FFin 1000)) (of_nat (unat rate));
          prefill = fl_of_int binary64 (uint prefill_ms)
      in if fl_less content_ms prefill then False
         else (let wall_ms = (if now_ms \<ge> sg_start_wall_ms clock
                              then fl_of_int binary64 (uint (now_ms - sg_start_wall_ms clock)) else FFin 0)
               in fl_le prefill wall_ms))"

section \<open>Descriptors and sockets\<close>

datatype fd_event = FdOpen int | FdClose int

text \<open>The open descriptors after a sequence of events; \<open>None\<close> is a close of one that is not open.\<close>

fun run_fds :: "fd_event list \<Rightarrow> int list \<Rightarrow> int list option" where
  "run_fds [] fds = Some fds"
| "run_fds (FdOpen fd # es) fds = run_fds es (fd # fds)"
| "run_fds (FdClose fd # es) fds = (if fd \<in> set fds then run_fds es (remove1 fd fds) else None)"

text \<open>\<^verbatim>\<open>write\<close> and \<^verbatim>\<open>poll\<close>/\<^verbatim>\<open>read\<close> as the loops see them; \<open>None\<close> is a loop that has not returned.\<close>

datatype write_event = WriteTook nat | WriteEintr | WriteFailed

fun write_all :: "write_event list \<Rightarrow> byte list \<Rightarrow> (bool \<times> byte list \<times> write_event list) option" where
  "write_all es [] = Some (True, [], es)"
| "write_all [] (b # bs) = None"
| "write_all (WriteEintr # es) (b # bs) = write_all es (b # bs)"
| "write_all (WriteFailed # es) (b # bs) = Some (False, [], es)"
| "write_all (WriteTook n # es) (b # bs) =
     map_option (\<lambda>(ok, out, es'). (ok, take n (b # bs) @ out, es')) (write_all es (drop n (b # bs)))"

datatype read_event = ReadAgain | ReadStalled | ReadFailed | ReadEof | ReadText string

fun read_to_eof :: "read_event list \<Rightarrow> string \<Rightarrow> (bool \<times> string \<times> read_event list) option" where
  "read_to_eof [] out = None"
| "read_to_eof (ReadAgain # es) out = read_to_eof es out"
| "read_to_eof (ReadStalled # es) out = Some (False, out, es)"
| "read_to_eof (ReadFailed # es) out = Some (False, out, es)"
| "read_to_eof (ReadEof # es) out = Some (True, out, es)"
| "read_to_eof (ReadText s # es) out = read_to_eof es (out @ s)"

text \<open>The result of \<^verbatim>\<open>poll\<close> and of \<^verbatim>\<open>accept\<close>.\<close>

definition accept_with_timeout :: "int \<Rightarrow> int \<Rightarrow> int" where
  "accept_with_timeout pr fd = (if pr \<le> 0 then - 1 else fd)"

text \<open>
  What making a listener sees: whether the socket label could be set, the labelled and the plain
  socket, and whether \<^verbatim>\<open>bind\<close> and \<^verbatim>\<open>listen\<close> succeed.
\<close>

record listener_env =
  le_setcon :: bool
  le_labelled :: int
  le_plain :: int
  le_bind :: bool

definition create_listener_socket :: "string \<Rightarrow> listener_env \<Rightarrow> int" where
  "create_listener_socket ctx env =
     (if ctx \<noteq> [] \<and> le_setcon env \<and> le_labelled env \<ge> 0 then le_labelled env else le_plain env)"

definition name_fits :: "string \<Rightarrow> bool" where
  "name_fits name \<longleftrightarrow> name \<noteq> [] \<and> length name + 1 < sizeof_sun_path"

definition make_abstract_listener :: "string \<Rightarrow> listener_env \<Rightarrow> string \<Rightarrow> int \<times> fd_event list" where
  "make_abstract_listener ctx env name =
     (if \<not> name_fits name then (- 1, [])
      else (let fd = create_listener_socket ctx env
            in if fd < 0 then (- 1, [])
               else if \<not> le_bind env then (- 1, [FdOpen fd, FdClose fd])
               else (fd, [FdOpen fd])))"

record connect_env =
  cn_socket :: int
  cn_connect :: bool
  cn_poll :: int
  cn_so_error :: bool

definition connect_abstract :: "connect_env \<Rightarrow> string \<Rightarrow> int \<times> fd_event list" where
  "connect_abstract env name =
     (if \<not> name_fits name then (- 1, [])
      else (let fd = cn_socket env
            in if fd < 0 then (- 1, [])
               else if \<not> cn_connect env \<or> cn_poll env \<le> 0 \<or> cn_so_error env then (- 1, [FdOpen fd, FdClose fd])
               else (fd, [FdOpen fd])))"

section \<open>A command over the listen socket\<close>

text \<open>
  What one command sees: process id and counter for the names of its sockets, the two listeners, the
  connection, the writes, the acknowledgement, \<^verbatim>\<open>poll\<close> and \<^verbatim>\<open>accept\<close> on the result listener, and the
  result text.
\<close>

record socket_env =
  so_pid :: nat
  so_counter :: nat
  so_in :: listener_env
  so_out :: listener_env
  so_conn :: connect_env
  so_send :: "write_event list"
  so_ack :: "read_event list"
  so_accept :: "int \<times> int"
  so_result :: "read_event list"

datatype SocketCommandResult = Unreachable | Executed string bool

definition socket_base :: "string \<Rightarrow> nat \<Rightarrow> nat \<Rightarrow> string" where
  "socket_base tag pid c = tag @ to_string pid @ ''_'' @ to_string c"

text \<open>The two listeners; a half-made pair is closed again.\<close>

definition make_listeners :: "string \<Rightarrow> listener_env \<Rightarrow> listener_env \<Rightarrow> string \<Rightarrow> (int \<times> int) option \<times> fd_event list" where
  "make_listeners ctx lin lout base =
     (let (in_fd, t1) = make_abstract_listener ctx lin (base @ ''_in'');
          (out_fd, t2) = make_abstract_listener ctx lout (base @ ''_out'')
      in if in_fd < 0 \<or> out_fd < 0
         then (None, t1 @ t2 @ (if in_fd \<ge> 0 then [FdClose in_fd] else []) @ (if out_fd \<ge> 0 then [FdClose out_fd] else []))
         else (Some (in_fd, out_fd), t1 @ t2))"

text \<open>The length as a 16-bit number in network order, and the command: whether all of it went out, and what did.\<close>

definition send_command :: "write_event list \<Rightarrow> string \<Rightarrow> (bool \<times> byte list) option" where
  "send_command es cmdline =
     (case write_all es (rev (le_encode 2 (length cmdline))) of
        None \<Rightarrow> None
      | Some (ok, w1, es') \<Rightarrow>
          if \<not> ok then Some (False, w1)
          else map_option (\<lambda>(ok, w2, _). (ok, w1 @ w2)) (write_all es' (string_bytes cmdline)))"

text \<open>The result text and whether it was read to its end.\<close>

definition await_result :: "int \<times> int \<Rightarrow> read_event list \<Rightarrow> (string \<times> bool \<times> fd_event list) option" where
  "await_result acc_result es =
     (let acc = accept_with_timeout (fst acc_result) (snd acc_result)
      in if acc \<ge> 0 then map_option (\<lambda>(whole, result, _). (result, whole, [FdOpen acc, FdClose acc])) (read_to_eof es [])
         else Some ([], False, []))"

definition try_socket_command ::
  "string \<Rightarrow> socket_env \<Rightarrow> string \<Rightarrow> string \<Rightarrow> (SocketCommandResult \<times> fd_event list \<times> byte list) option" where
  "try_socket_command ctx env action file =
     (let base = socket_base ''audiorouter_tapi_'' (so_pid env) (so_counter env)
      in case make_listeners ctx (so_in env) (so_out env) base of
           (None, t) \<Rightarrow> Some (Unreachable, t, [])
         | (Some (in_fd, out_fd), t) \<Rightarrow>
             (let (conn, tc) = connect_abstract (so_conn env) kApiListenAddress; t = t @ tc;
                  cmdline = build_command_line action file (base @ ''_in'') (base @ ''_out'')
              in if conn < 0 then Some (Unreachable, t @ [FdClose in_fd, FdClose out_fd], [])
                 else if length cmdline > 0xFFFF then Some (Unreachable, t @ [FdClose conn, FdClose in_fd, FdClose out_fd], [])
                 else
                   (case send_command (so_send env) cmdline of
                      None \<Rightarrow> None
                    | Some (False, wire) \<Rightarrow> Some (Unreachable, t @ [FdClose conn, FdClose in_fd, FdClose out_fd], wire)
                    | Some (True, wire) \<Rightarrow>
                        (case read_to_eof (so_ack env) [] of
                           None \<Rightarrow> None
                         | Some (eof, ack, _) \<Rightarrow>
                             if \<not> (eof \<and> ack = [CHR 0x00])
                             then Some (Unreachable, t @ [FdClose conn, FdClose in_fd, FdClose out_fd], wire)
                             else map_option (\<lambda>(result, whole, ta).
                                    (Executed result whole, t @ [FdClose conn] @ ta @ [FdClose in_fd, FdClose out_fd], wire))
                                  (await_result (so_accept env) (so_result env))))))"

section \<open>Broadcasts\<close>

definition find_am :: "(string \<Rightarrow> bool) \<Rightarrow> string" where
  "find_am executable =
     (if executable ''/data/data/com.termux/files/usr/bin/am'' then ''/data/data/com.termux/files/usr/bin/am''
      else if executable ''/system/bin/am'' then ''/system/bin/am'' else ''am'')"

definition am_shell :: "string \<Rightarrow> string \<Rightarrow> string" where
  "am_shell am cmdline = am @ '' broadcast --user 0 -n com.termux.api/.TermuxApiReceiver '' @ cmdline @ '' 2>&1''"

text \<open>The output and the exit status of the shell; \<open>None\<close> when \<^verbatim>\<open>popen\<close> fails.\<close>

type_synonym popen_result = "(string \<times> int) option"

definition popen_output :: "popen_result \<Rightarrow> string" where
  "popen_output r = (case r of Some (out, _) \<Rightarrow> out | None \<Rightarrow> [])"

definition popen_ok :: "popen_result \<Rightarrow> bool" where
  "popen_ok r = (case r of Some (_, rc) \<Rightarrow> rc = 0 | None \<Rightarrow> False)"

definition send_am_broadcast :: "string \<Rightarrow> popen_result \<Rightarrow> string \<Rightarrow> string \<Rightarrow> bool \<times> string \<times> string" where
  "send_am_broadcast am r action file =
     (popen_ok r, termux_trim (popen_output r), am_shell am (build_command_line action file [] []))"

record MediaCommandOutcome =
  mo_delivered :: bool
  mo_result_received :: bool
  mo_socket_path :: bool
  mo_result :: string
  mo_duration_ms :: u64

definition no_outcome :: MediaCommandOutcome where
  "no_outcome = \<lparr>mo_delivered = False, mo_result_received = False, mo_socket_path = False, mo_result = [], mo_duration_ms = 0\<rparr>"

text \<open>The clock before the command, after \<^verbatim>\<open>am\<close>, and after the result.\<close>

record am_env =
  am_path :: string
  am_pid :: nat
  am_counter :: nat
  am_in :: listener_env
  am_out :: listener_env
  am_popen :: popen_result
  am_t0 :: u64
  am_t1 :: u64
  am_t2 :: u64
  am_accept :: "int \<times> int"
  am_result :: "read_event list"

definition delivery_only :: "am_env \<Rightarrow> string \<Rightarrow> string \<Rightarrow> MediaCommandOutcome \<times> string" where
  "delivery_only env action file =
     (let (ok, txt, shell) = send_am_broadcast (am_path env) (am_popen env) action file
      in (no_outcome\<lparr>mo_delivered := ok, mo_duration_ms := am_t1 env - am_t0 env, mo_result := txt\<rparr>, shell))"

definition send_am_socket_broadcast ::
  "string \<Rightarrow> am_env \<Rightarrow> string \<Rightarrow> string \<Rightarrow> (MediaCommandOutcome \<times> fd_event list \<times> string) option" where
  "send_am_socket_broadcast ctx env action file =
     (let base = socket_base ''audiorouter_tapi_am_'' (am_pid env) (am_counter env)
      in case make_listeners ctx (am_in env) (am_out env) base of
           (None, t) \<Rightarrow> (let (out, shell) = delivery_only env action file in Some (out, t, shell))
         | (Some (in_fd, out_fd), t) \<Rightarrow>
             (let shell = am_shell (am_path env) (build_command_line action file (base @ ''_in'') (base @ ''_out''));
                  chatter = termux_trim (popen_output (am_popen env))
              in if \<not> popen_ok (am_popen env)
                 then Some (no_outcome\<lparr>mo_result := chatter\<rparr>, t @ [FdClose in_fd, FdClose out_fd], shell)
                 else
                   map_option (\<lambda>(result, received, ta).
                     (no_outcome\<lparr>mo_delivered := True, mo_result_received := received,
                        mo_duration_ms := (if received then am_t2 env - am_t0 env else am_t1 env - am_t0 env),
                        mo_result := (if received then result else chatter)\<rparr>,
                      t @ ta @ [FdClose in_fd, FdClose out_fd], shell))
                   (await_result (am_accept env) (am_result env))))"

section \<open>Media commands\<close>

record media_env =
  me_sdk_int :: int
  me_socket :: socket_env
  me_t0 :: u64
  me_t1 :: u64
  me_am :: am_env

text \<open>A media command gives its outcome, the descriptor events, the shell commands run, and what went over the socket.\<close>

type_synonym media_result = "MediaCommandOutcome \<times> fd_event list \<times> string list \<times> byte list"

definition am_fallback :: "string \<Rightarrow> media_env \<Rightarrow> fd_event list \<Rightarrow> byte list \<Rightarrow> string \<Rightarrow> string \<Rightarrow> media_result option" where
  "am_fallback ctx env t wire action file =
     map_option (\<lambda>(out, ta, shell). (out, t @ ta, [shell], wire)) (send_am_socket_broadcast ctx (me_am env) action file)"

definition send_media_command :: "string \<Rightarrow> media_env \<Rightarrow> string \<Rightarrow> string \<Rightarrow> media_result option" where
  "send_media_command ctx env action file =
     (if me_sdk_int env < 34 then
        (case try_socket_command ctx (me_socket env) action file of
           None \<Rightarrow> None
         | Some (Executed result whole, t, wire) \<Rightarrow>
             Some (\<lparr>mo_delivered = True, mo_result_received = whole, mo_socket_path = True, mo_result = result,
                    mo_duration_ms = me_t1 env - me_t0 env\<rparr>, t, [], wire)
         | Some (Unreachable, t, wire) \<Rightarrow> am_fallback ctx env t wire action file)
      else am_fallback ctx env [] [] action file)"

definition media_command :: "bool \<Rightarrow> string \<Rightarrow> media_env \<Rightarrow> string \<Rightarrow> string \<Rightarrow> media_result option" where
  "media_command result_channel ctx env action file =
     (if \<not> result_channel
      then (let (out, shell) = delivery_only (me_am env) action file in Some (out, [], [shell], []))
      else send_media_command ctx env action file)"

definition api_available :: "string \<Rightarrow> media_env \<Rightarrow> bool option" where
  "api_available ctx env = map_option (\<lambda>r. mo_delivered (fst r)) (send_media_command ctx env ''info'' [])"

section \<open>No descriptor leaks\<close>

lemma run_fds_append: "run_fds (a @ b) fds = Option.bind (run_fds a fds) (run_fds b)"
  by (induction a fds rule: run_fds.induct) simp_all

lemma listener_fds:
  "make_abstract_listener ctx env name = (fd, t) \<Longrightarrow> run_fds t fds = Some (if fd < 0 then fds else fd # fds)"
  by (auto simp: make_abstract_listener_def Let_def split: if_splits)

lemma connect_fds:
  "connect_abstract env name = (fd, t) \<Longrightarrow> run_fds t fds = Some (if fd < 0 then fds else fd # fds)"
  by (auto simp: connect_abstract_def Let_def split: if_splits)

lemma make_listeners_fds:
  assumes "make_listeners ctx lin lout base = (r, t)"
  shows "run_fds t fds = Some (case r of None \<Rightarrow> fds | Some (i, j) \<Rightarrow> j # i # fds)"
proof -
  obtain i t1 j t2 where l: "make_abstract_listener ctx lin (base @ ''_in'') = (i, t1)"
    "make_abstract_listener ctx lout (base @ ''_out'') = (j, t2)" by fastforce
  show ?thesis using assms l listener_fds [OF l(1)] listener_fds [OF l(2)]
    by (auto simp: make_listeners_def Let_def run_fds_append split: if_splits)
qed

lemma await_fds: "await_result a es = Some (res, rec, t) \<Longrightarrow> run_fds t fds = Some fds"
  by (auto simp: await_result_def Let_def split: if_splits)

lemmas fds_simps = run_fds_append make_listeners_fds connect_fds await_fds

lemma try_socket_command_fds:
  assumes "try_socket_command ctx env action file = Some (r, t, wire)"
  shows "run_fds t fds = Some fds"
proof -
  define base where "base = socket_base ''audiorouter_tapi_'' (so_pid env) (so_counter env)"
  obtain l tl where l: "make_listeners ctx (so_in env) (so_out env) base = (l, tl)" by fastforce
  obtain conn tc where c: "connect_abstract (so_conn env) kApiListenAddress = (conn, tc)" by fastforce
  show ?thesis
  proof (cases l)
    case None
    then show ?thesis using assms l make_listeners_fds [OF l]
      by (simp add: try_socket_command_def Let_def base_def [symmetric])
  next
    case (Some ij)
    obtain i j where ij: "ij = (i, j)" by fastforce
    have "(\<exists>ta. (ta = [FdClose i, FdClose j] \<and> conn < 0 \<or> ta = [FdClose conn, FdClose i, FdClose j] \<and> \<not> conn < 0 \<or>
            (\<exists>res rec tx. await_result (so_accept env) (so_result env) = Some (res, rec, tx) \<and> ta = [FdClose conn] @ tx @ [FdClose i, FdClose j] \<and> \<not> conn < 0)) \<and>
          t = tl @ tc @ ta)"
      using assms l c Some
      by (auto simp: try_socket_command_def Let_def base_def [symmetric] ij split: if_splits option.splits bool.splits)
    then obtain ta where ta: "t = tl @ tc @ ta" and
      e: "ta = [FdClose i, FdClose j] \<and> conn < 0 \<or> ta = [FdClose conn, FdClose i, FdClose j] \<and> \<not> conn < 0 \<or>
          (\<exists>res rec tx. await_result (so_accept env) (so_result env) = Some (res, rec, tx) \<and> ta = [FdClose conn] @ tx @ [FdClose i, FdClose j] \<and> \<not> conn < 0)"
      by blast
    show ?thesis using e make_listeners_fds [OF l] connect_fds [OF c]
      by (auto simp: ta run_fds_append Some ij await_fds)
  qed
qed

lemma am_broadcast_fds:
  assumes "send_am_socket_broadcast ctx env action file = Some (r, t, sh)"
  shows "run_fds t fds = Some fds"
proof -
  define base where "base = socket_base ''audiorouter_tapi_am_'' (am_pid env) (am_counter env)"
  obtain l tl where l: "make_listeners ctx (am_in env) (am_out env) base = (l, tl)" by fastforce
  show ?thesis using assms l make_listeners_fds [OF l]
    by (cases l) (auto simp: send_am_socket_broadcast_def Let_def base_def [symmetric] run_fds_append await_fds
        split: if_splits prod.splits)
qed

lemma media_command_fds:
  assumes "media_command ch ctx env action file = Some (r, t, sh, w)"
  shows "run_fds t fds = Some fds"
  using assms
  by (auto simp: media_command_def send_media_command_def am_fallback_def run_fds_append am_broadcast_fds try_socket_command_fds
      split: if_splits option.splits prod.splits SocketCommandResult.splits)

text \<open>
  Claim C23: no media command leaks a descriptor. On every path of a command that returns, whichever
  system call fails and whichever way the command takes, every descriptor it has opened is closed
  again exactly once, and no descriptor is closed that is not open.
\<close>

theorem media_command_no_leak:
  assumes "media_command ch ctx env action file = Some (out, trace, shells, wire)"
  shows "run_fds trace fds = Some fds"
  using media_command_fds [OF assms] .

definition sample_listener :: "int \<Rightarrow> listener_env" where
  "sample_listener fd = \<lparr>le_setcon = False, le_labelled = - 1, le_plain = fd, le_bind = True\<rparr>"

text \<open>A device where the app takes the command over its socket but answers too late.\<close>

definition sample_media :: media_env where
  "sample_media =
     \<lparr>me_sdk_int = 33,
      me_socket = \<lparr>so_pid = 7, so_counter = 0, so_in = sample_listener 3, so_out = sample_listener 4,
        so_conn = \<lparr>cn_socket = 5, cn_connect = True, cn_poll = 1, cn_so_error = False\<rparr>,
        so_send = [WriteTook 2, WriteEintr, WriteTook 1000], so_ack = [ReadStalled], so_accept = (0, - 1), so_result = []\<rparr>,
      me_t0 = 10, me_t1 = 20,
      me_am = \<lparr>am_path = ''am'', am_pid = 7, am_counter = 0, am_in = sample_listener 3, am_out = sample_listener 4,
        am_popen = Some (''Broadcast completed'', 0), am_t0 = 20, am_t1 = 320, am_t2 = 700, am_accept = (1, 6),
        am_result = [ReadText ''Now Playing'', ReadEof]\<rparr>\<rparr>"

lemmas media_eval =
  sample_media_def sample_listener_def media_command_def send_media_command_def am_fallback_def try_socket_command_def
  send_am_socket_broadcast_def make_listeners_def make_abstract_listener_def create_listener_socket_def connect_abstract_def
  name_fits_def sizeof_sun_path_def kApiListenAddress_def await_result_def accept_with_timeout_def send_command_def
  build_command_line_def es_extra_def quote_def socket_base_def string_bytes_def popen_ok_def no_outcome_def

theorem media_command_no_leak_witness:
  "\<exists>out trace shells wire. media_command True [] sample_media ''play'' ''/s.wav'' = Some (out, trace, shells, wire) \<and>
     length trace = 12 \<and> run_fds trace [0, 1, 2] = Some [0, 1, 2]"
proof -
  obtain r where r: "media_command True [] sample_media ''play'' ''/s.wav'' = Some r" "length (fst (snd r)) = 12"
    by (simp add: media_eval Let_def to_string.simps numeral_2_eq_2)
  obtain out trace shells wire where r': "r = (out, trace, shells, wire)" by (cases r) auto
  from media_command_no_leak [OF r(1) [unfolded r'], of "[0, 1, 2]"] r show ?thesis by (simp add: r')
qed

section \<open>How often a command is delivered\<close>

definition framed :: "string \<Rightarrow> byte list" where
  "framed cmdline = rev (le_encode 2 (length cmdline)) @ string_bytes cmdline"

lemma write_all_out: "write_all es bs = Some (ok, out, es') \<Longrightarrow> (\<exists>r. bs = out @ r) \<and> (ok \<longrightarrow> out = bs)"
proof (induction es bs arbitrary: ok out es' rule: write_all.induct)
  case (5 n es b bs)
  then obtain out' where w: "write_all es (drop n (b # bs)) = Some (ok, out', es')" and o: "out = take n (b # bs) @ out'"
    by auto
  from 5(1) [OF w] obtain r where "drop n (b # bs) = out' @ r" "ok \<longrightarrow> out' = drop n (b # bs)" by blast
  then show ?case unfolding o by (metis append.assoc append_take_drop_id)
qed auto

lemma send_command_framed: "send_command es cmdline = Some (True, wire) \<Longrightarrow> wire = framed cmdline"
  by (auto simp: send_command_def framed_def split: option.splits if_splits dest!: write_all_out)

lemma write_all_ok:
  "WriteFailed \<notin> set es \<Longrightarrow> write_all es bs = Some (ok, out, es') \<Longrightarrow> ok \<and> WriteFailed \<notin> set es'"
  by (induction es bs arbitrary: ok out es' rule: write_all.induct) auto

lemma send_command_ok: "WriteFailed \<notin> set es \<Longrightarrow> send_command es c = Some (ok, wire) \<Longrightarrow> ok"
  unfolding send_command_def by (auto split: option.splits if_splits) (metis write_all_ok)+

lemma frame_length:
  assumes "length cmdline \<le> 0xFFFF"
  shows "le_decode (rev (take 2 (framed cmdline))) = length cmdline" "drop 2 (framed cmdline) = string_bytes cmdline"
  using assms by (simp_all add: framed_def le_decode_encode del: le_encode.simps le_decode.simps)

text \<open>
  A media command reaches the app over one channel. At most one shell command is run, and a
  command the app has acknowledged on its socket is not broadcast as well: then the whole command, as
  a frame that carries its exact length, has gone over the socket.
\<close>

theorem media_command_one_channel:
  assumes "media_command ch ctx env action file = Some (out, trace, shells, wire)"
  shows "length shells \<le> 1 \<and>
         (shells = [] \<longrightarrow> mo_delivered out \<and> mo_socket_path out \<and>
            (\<exists>i o1 cmdline. cmdline = build_command_line action file i o1 \<and> length cmdline \<le> 0xFFFF \<and>
               le_decode (rev (take 2 wire)) = length cmdline \<and> drop 2 wire = string_bytes cmdline))"
proof (cases "ch \<and> me_sdk_int env < 34")
  case True
  then obtain r t w where r: "try_socket_command ctx (me_socket env) action file = Some (r, t, w)"
    using assms by (auto simp: media_command_def send_media_command_def split: option.splits)
  show ?thesis
  proof (cases r)
    case Unreachable
    then show ?thesis using assms True r by (auto simp: media_command_def send_media_command_def am_fallback_def)
  next
    case (Executed result whole)
    from r [unfolded Executed] obtain i j where c: "length (build_command_line action file i j) \<le> 0xFFFF"
      "send_command (so_send (me_socket env)) (build_command_line action file i j) = Some (True, w)"
      by (auto simp: try_socket_command_def Let_def not_less split: option.splits prod.splits if_splits bool.splits)
    show ?thesis using assms True r Executed frame_length [OF c(1)] c(1) send_command_framed [OF c(2)]
      by (auto simp: media_command_def send_media_command_def)
  qed
next
  case False
  then show ?thesis using assms
    by (auto simp: media_command_def send_media_command_def am_fallback_def split: if_splits prod.splits)
qed

text \<open>The same device, with an app that acknowledges at once and sends its result.\<close>

definition prompt_media :: media_env where
  "prompt_media = sample_media\<lparr>me_socket := (me_socket sample_media)\<lparr>so_ack := [ReadText [CHR 0x00], ReadEof], so_accept := (1, 6),
     so_result := [ReadText ''Now Playing'', ReadEof]\<rparr>\<rparr>"

theorem media_command_one_channel_witness:
  "\<exists>out trace wire i o1. media_command True [] prompt_media ''info'' [] = Some (out, trace, [], wire) \<and> mo_delivered out \<and>
     mo_result out = ''Now Playing'' \<and> drop 2 wire = string_bytes (build_command_line ''info'' [] i o1)"
proof -
  obtain r where r: "media_command True [] prompt_media ''info'' [] = Some r" "fst (snd (snd r)) = []" "mo_result (fst r) = ''Now Playing''"
    by (simp add: prompt_media_def media_eval Let_def to_string.simps numeral_2_eq_2)
  obtain out trace wire where r': "r = (out, trace, [], wire)" using r(2) by (cases r) auto
  from media_command_one_channel [OF r(1) [unfolded r']] r(1,3) show ?thesis unfolding r' by auto
qed

text \<open>
  An acknowledgement that comes too late makes the app run the command twice: the whole
  command has gone over the socket, the wait for the acknowledgement times out, the command is counted
  as not received, and it is broadcast as well.
\<close>

theorem late_ack_delivers_twice:
  assumes "me_sdk_int env < 34" and "try_socket_command ctx (me_socket env) action file = Some (r, t, wire)"
    and "WriteFailed \<notin> set (so_send (me_socket env))" and "wire \<noteq> []" and "so_ack (me_socket env) = ReadStalled # es"
    and "send_am_socket_broadcast ctx (me_am env) action file = Some (out, ta, shell)"
  shows "(\<exists>i o1. wire = framed (build_command_line action file i o1)) \<and>
         media_command True ctx env action file = Some (out, t @ ta, [shell], wire)"
proof -
  have "r = Unreachable \<and> (\<exists>ok i j. send_command (so_send (me_socket env)) (build_command_line action file i j) = Some (ok, wire))"
    using assms(2,4,5)
    by (auto simp: try_socket_command_def Let_def split: option.splits prod.splits if_splits bool.splits)
  then obtain ok i j where r: "r = Unreachable"
    and c: "send_command (so_send (me_socket env)) (build_command_line action file i j) = Some (ok, wire)" by blast
  have ok using c send_command_ok [OF assms(3) c] by simp
  with c have "wire = framed (build_command_line action file i j)" by (simp add: send_command_framed)
  then show ?thesis using assms r by (auto simp: media_command_def send_media_command_def am_fallback_def)
qed

theorem late_ack_delivers_twice_witness:
  "\<exists>out trace shell wire i o1. media_command True [] sample_media ''play'' ''/s.wav'' = Some (out, trace, [shell], wire) \<and>
     wire = framed (build_command_line ''play'' ''/s.wav'' i o1)"
proof -
  obtain r t w where r: "try_socket_command [] (me_socket sample_media) ''play'' ''/s.wav'' = Some (r, t, w)" "w \<noteq> []"
    by (simp add: media_eval Let_def to_string.simps numeral_2_eq_2)
  obtain out ta shell where b: "send_am_socket_broadcast [] (me_am sample_media) ''play'' ''/s.wav'' = Some (out, ta, shell)"
    by (simp add: media_eval Let_def to_string.simps)
  have "me_sdk_int sample_media < 34" "WriteFailed \<notin> set (so_send (me_socket sample_media))"
    "so_ack (me_socket sample_media) = ReadStalled # []" by (simp_all add: sample_media_def)
  from late_ack_delivers_twice [OF this(1) r(1) this(2) r(2) this(3) b] show ?thesis by blast
qed

section \<open>The gate decides exactly\<close>

lemma fl_of_nat64: "n < 2 ^ 53 \<Longrightarrow> fl_of_int binary64 (int n) = FFin (of_nat n)"
  using f64_exact [of "int n"] by (simp add: fl_of_int_def)

lemma frames_ms64:
  assumes "frames * 1000 < 2 ^ 53"
  shows "fl_mul binary64 (fl_of_int binary64 (int frames)) (FFin 1000) = FFin (of_nat (frames * 1000))"
  using f64_exact [of "int (frames * 1000)"] fl_of_nat64 [of frames] assms by simp

text \<open>
  Claim C24: the gate that hands a segment to the media player, which computes in double precision,
  decides exactly as over the integers: it opens when the recorded frames last at least the prefill
  and the wall clock has advanced that far as well; a clock that has gone back counts as no time, so it
  keeps the gate of a positive prefill shut. This holds while a thousand times the recorded frames, the
  prefill in milliseconds times the rate, and the milliseconds a clock that has not gone back has
  advanced are each below \<open>2 ^ 53\<close>, where doubles are exact.
\<close>

theorem segment_ready_exact:
  fixes rate :: u32 and clock :: segment_clock
  defines "rate \<equiv> if sg_sample_rate clock > 0 then sg_sample_rate clock else 48000"
  assumes "sg_frames_written clock * 1000 < 2 ^ 53" and "unat prefill * unat rate < 2 ^ 53"
    and "sg_start_wall_ms clock \<le> now \<longrightarrow> unat (now - sg_start_wall_ms clock) < 2 ^ 53"
  shows "segment_ready clock now prefill \<longleftrightarrow>
           unat prefill * unat rate \<le> sg_frames_written clock * 1000 \<and>
           unat prefill \<le> (if sg_start_wall_ms clock \<le> now then unat (now - sg_start_wall_ms clock) else 0)"
proof -
  have r: "0 < unat rate" "unat rate < 2 ^ 32" using unat_u32_less [of rate]
    by (auto simp: rate_def word_less_nat_alt)
  have p: "unat prefill < 2 ^ 32" by (rule unat_u32_less)
  then have p53: "fl_of_int binary64 (uint prefill) = FFin (of_nat (unat prefill))"
    using fl_of_nat64 [of "unat prefill"] by simp
  have w: "(if sg_start_wall_ms clock \<le> now then fl_of_int binary64 (uint (now - sg_start_wall_ms clock)) else FFin 0) =
      FFin (of_nat (if sg_start_wall_ms clock \<le> now then unat (now - sg_start_wall_ms clock) else 0))"
    using fl_of_nat64 [of "unat (now - sg_start_wall_ms clock)"] assms(4) by simp
  define P W where "P = unat prefill" and "W = (if sg_start_wall_ms clock \<le> now then unat (now - sg_start_wall_ms clock) else 0)"
  note gate = f64_less_exact [OF r assms(2) p assms(3)]
  show ?thesis unfolding segment_ready_def Let_def rate_def [symmetric] frames_ms64 [OF assms(2)] p53 w gate
    unfolding P_def [symmetric] W_def [symmetric] by (auto simp: not_less)
qed

theorem segment_ready_exact_witness:
  "segment_ready \<lparr>sg_start_wall_ms = 1000, sg_frames_written = 28800, sg_sample_rate = 48000\<rparr> 1600 kPrefillMs \<and>
   \<not> segment_ready \<lparr>sg_start_wall_ms = 1000, sg_frames_written = 28799, sg_sample_rate = 48000\<rparr> 1600 kPrefillMs \<and>
   \<not> segment_ready \<lparr>sg_start_wall_ms = 1000, sg_frames_written = 28800, sg_sample_rate = 48000\<rparr> 999 kPrefillMs"
proof -
  have "\<not> segment_ready \<lparr>sg_start_wall_ms = 1000, sg_frames_written = 28800, sg_sample_rate = 48000\<rparr> 999 kPrefillMs"
    by (subst segment_ready_exact) (simp_all add: kPrefillMs_def)
  moreover
  have "segment_ready \<lparr>sg_start_wall_ms = 1000, sg_frames_written = n, sg_sample_rate = 48000\<rparr> 1600 kPrefillMs \<longleftrightarrow> 28800000 \<le> n * 1000"
    if "n \<le> 28800" for n
    using that by (subst segment_ready_exact) (simp_all add: kPrefillMs_def)
  from this [of 28800] this [of 28799] calculation show ?thesis by simp
qed

section \<open>Header and samples\<close>

lemma length_build_wav_header [simp]: "length (build_wav_header rate channels f riff data) = 44"
  by (simp add: build_wav_header_def Let_def string_bytes_def del: le_encode.simps)

lemma build_wav_header_sizes:
  "le_decode (slice 4 4 (build_wav_header rate channels f riff data)) = unat riff"
  "le_decode (slice 22 2 (build_wav_header rate channels f riff data)) = unat channels"
  "le_decode (slice 24 4 (build_wav_header rate channels f riff data)) = unat rate"
  "le_decode (slice 40 4 (build_wav_header rate channels f riff data)) = unat data"
  using unat_u32_less [of riff] unat_u32_less [of rate] unat_u32_less [of data] unsigned_less [of channels, where ?'a = nat]
  by (simp_all add: build_wav_header_def Let_def string_bytes_def slice_append_skip slice_def le_decode_encode
      del: le_encode.simps le_decode.simps)

text \<open>The value of a sample of \<open>n\<close> bytes in two's complement.\<close>

definition signed_value :: "nat \<Rightarrow> byte list \<Rightarrow> int" where
  "signed_value n bs = (if le_decode bs < 2 ^ (8 * n - 1) then int (le_decode bs) else int (le_decode bs) - 2 ^ (8 * n))"

lemma sint_of_int32: "- (2 ^ 31) \<le> k \<Longrightarrow> k < 2 ^ 31 \<Longrightarrow> sint (word_of_int k :: 32 word) = k"
  by (simp add: signed_of_int signed_take_bit_int_eq_self)

lemma sign_extend_24:
  fixes n :: nat
  assumes n: "n < 2 ^ 24"
  defines "w \<equiv> word_of_nat n :: 32 word"
  shows "sint (if w AND 0x800000 \<noteq> 0 then w OR NOT 0xFFFFFF else w) = (if n < 2 ^ 23 then int n else int n - 2 ^ 24)"
proof -
  have b: "bit w k \<longleftrightarrow> k < 32 \<and> bit n k" for k by (simp add: w_def bit_of_nat_iff)
  have "0x800000 = (2 ^ 23 :: 32 word)" by simp
  then have top: "w AND 0x800000 \<noteq> 0 \<longleftrightarrow> bit n 23" by (simp only: and_exp_eq_0_iff_not_bit b) simp
  have n23: "bit n 23 \<longleftrightarrow> \<not> n < 2 ^ 23"
  proof -
    have "n div 2 ^ 23 = (if n < 2 ^ 23 then 0 else 1)"
      using n by (auto simp: div_eq_0_iff intro!: div_nat_eqI)
    then show ?thesis by (simp add: bit_iff_odd)
  qed
  show ?thesis
  proof (cases "n < 2 ^ 23")
    case True
    have "w = word_of_int (int n)" by (simp add: w_def)
    then show ?thesis using True top n23 sint_of_int32 [of "int n"] by simp
  next
    case False
    have d: "\<not> bit w k \<or> \<not> bit (NOT 0xFFFFFF :: 32 word) k" for k
    proof -
      have "bit (NOT (mask 24) :: 32 word) k \<longleftrightarrow> k < 32 \<and> \<not> k < 24" by (auto simp: bit_not_iff bit_mask_iff)
      moreover have "(mask 24 :: 32 word) = 0xFFFFFF" by (simp add: mask_eq_exp_minus_1)
      ultimately have "bit (NOT 0xFFFFFF :: 32 word) k \<longleftrightarrow> k < 32 \<and> \<not> k < 24" by (simp only:)
      moreover have "\<not> bit n k" if "24 \<le> k"
      proof -
        have "(2 :: nat) ^ 24 \<le> 2 ^ k" using that by (rule power_increasing) simp
        then have "n < 2 ^ k" using n by linarith
        then show ?thesis by (simp add: bit_iff_odd)
      qed
      ultimately show ?thesis by (auto simp: b)
    qed
    have "w OR NOT 0xFFFFFF = w + NOT 0xFFFFFF" by (rule disjunctive_add [symmetric]) (rule d)
    also have "\<dots> = word_of_int (int n - 2 ^ 24)" by (simp add: w_def)
    finally have e: "w OR NOT 0xFFFFFF = word_of_int (int n - 2 ^ 24)" .
    have "int n - 2 ^ 24 < 2 ^ 31" "- (2 ^ 31) \<le> int n - 2 ^ 24" using n by simp_all
    from sint_of_int32 [OF this(2,1)] have "sint (w OR NOT 0xFFFFFF) = int n - 2 ^ 24" by (simp only: e)
    then show ?thesis using False top n23 by (simp only: if_True if_False simp_thms)
  qed
qed

lemma sint_of_nat32:
  assumes "n < 2 ^ 32"
  shows "sint (word_of_nat n :: 32 word) = (if n < 2 ^ 31 then int n else int n - 2 ^ 32)"
proof -
  have z: "(word_of_int (2 ^ 32) :: 32 word) = 0" by simp
  have "(word_of_nat n :: 32 word) = word_of_int (int n - 2 ^ 32)" unfolding of_int_diff z by simp
  moreover have "(word_of_nat n :: 32 word) = word_of_int (int n)" by simp
  ultimately have "sint (word_of_nat n :: 32 word) = (if n < 2 ^ 31 then sint (word_of_int (int n) :: 32 word) else sint (word_of_int (int n - 2 ^ 32) :: 32 word))"
    by (simp only: if_cancel)
  also have "\<dots> = (if n < 2 ^ 31 then int n else int n - 2 ^ 32)"
    using assms by (auto intro!: sint_of_int32 simp del: of_int_diff of_int_of_nat_eq)
  finally show ?thesis .
qed

lemma sint_of_int16: "- (2 ^ 15) \<le> k \<Longrightarrow> k < 2 ^ 15 \<Longrightarrow> sint (word_of_int k :: 16 word) = k"
  by (simp add: signed_of_int signed_take_bit_int_eq_self)

lemma s24_value_signed:
  assumes "length bs = 3"
  shows "s24_value bs = signed_value 3 bs" "- (2 ^ 23) \<le> signed_value 3 bs" "signed_value 3 bs < 2 ^ 23"
proof -
  have n: "le_decode bs < 2 ^ 24" using le_decode_bound [of bs] assms by simp
  from sign_extend_24 [OF n] show "s24_value bs = signed_value 3 bs" by (simp only: s24_value_def signed_value_def Let_def) simp
  show "- (2 ^ 23) \<le> signed_value 3 bs" "signed_value 3 bs < 2 ^ 23" using n by (simp_all add: signed_value_def)
qed

lemma s32_value_signed:
  assumes "length bs = 4"
  shows "s32_value bs = signed_value 4 bs" "- (2 ^ 31) \<le> signed_value 4 bs" "signed_value 4 bs < 2 ^ 31"
proof -
  have n: "le_decode bs < 2 ^ 32" using le_decode_bound [of bs] assms by simp
  from sint_of_nat32 [OF n] show "s32_value bs = signed_value 4 bs" by (simp only: s32_value_def signed_value_def) simp
  show "- (2 ^ 31) \<le> signed_value 4 bs" "signed_value 4 bs < 2 ^ 31" using n by (simp_all add: signed_value_def)
qed

lemma convert_sample_top:
  assumes "length bs = (if fmt = PCM_S32LE then 4 else 3)"
  shows "sint (convert_sample fmt bs) = (if fmt = PCM_S32LE then signed_value 4 bs div 2 ^ 16 else signed_value 3 bs div 2 ^ 8)"
proof (cases "fmt = PCM_S32LE")
  case True
  with assms have "length bs = 4" by simp
  note v = s32_value_signed [OF this]
  have "- (2 ^ 15) \<le> signed_value 4 bs div 2 ^ 16" "signed_value 4 bs div 2 ^ 16 < 2 ^ 15" using v(2,3) by simp_all
  from sint_of_int16 [OF this] show ?thesis using True v(1) by (simp add: convert_sample_def)
next
  case False
  with assms have "length bs = 3" by simp
  note v = s24_value_signed [OF this]
  have "- (2 ^ 15) \<le> signed_value 3 bs div 2 ^ 8" "signed_value 3 bs div 2 ^ 8 < 2 ^ 15" using v(2,3) by simp_all
  from sint_of_int16 [OF this] show ?thesis using False v(1) by (simp add: convert_sample_def)
qed

text \<open>
  Converting 24-bit or 32-bit audio gives one 16-bit sample for each sample of the input, and it is
  the value of that sample divided by \<open>2 ^ 8\<close> or \<open>2 ^ 16\<close>, rounded down, with no overflow.
\<close>

theorem convert_to_s16le_exact:
  assumes "convert_to_s16le src frames channels fmt = Some out"
  shows "\<exists>ss. out = pcm_bytes ss \<and> length ss = frames * unat channels \<and>
           (\<forall>i < frames * unat channels.
              sint (ss ! i) = (if fmt = PCM_S32LE then signed_value 4 (slice (i * 4) 4 src) div 2 ^ 16
                               else signed_value 3 (slice (i * 3) 3 src) div 2 ^ 8))"
proof -
  define n w where "n = frames * unat channels" and "w = (if fmt = PCM_S32LE then 4 else 3 :: nat)"
  define ss where "ss = map (\<lambda>i. convert_sample fmt (slice (i * w) w src)) [0..<n]"
  have l: "n * w \<le> length src" and o: "out = pcm_bytes ss" using assms
    by (simp_all add: convert_to_s16le_def Let_def n_def [symmetric] w_def [symmetric] ss_def not_less split: if_split_asm)
  have "sint (ss ! i) = (if fmt = PCM_S32LE then signed_value 4 (slice (i * 4) 4 src) div 2 ^ 16
                         else signed_value 3 (slice (i * 3) 3 src) div 2 ^ 8)" if "i < n" for i
  proof -
    have "(i + 1) * w \<le> n * w" using that by (intro mult_right_mono) simp_all
    then have "length (slice (i * w) w src) = w" using l by (intro length_slice) simp
    then have "length (slice (i * w) w src) = (if fmt = PCM_S32LE then 4 else 3)" by (simp add: w_def)
    from convert_sample_top [OF this] that show ?thesis by (simp add: ss_def w_def)
  qed
  then show ?thesis using o by (intro exI [of _ ss]) (simp add: n_def ss_def)
qed

theorem convert_to_s16le_exact_witness:
  "\<exists>ss. convert_to_s16le [0x34, 0x12, 0xFF, 0xFF, 0xFF, 0x7F] 1 2 PCM_S24LE = Some (pcm_bytes ss) \<and> sint (ss ! 0) = - 238 \<and> sint (ss ! 1) = 32767"
proof -
  obtain out where o: "convert_to_s16le [0x34, 0x12, 0xFF, 0xFF, 0xFF, 0x7F] 1 2 PCM_S24LE = Some out"
    by (simp add: convert_to_s16le_def)
  from convert_to_s16le_exact [OF o] obtain ss where "out = pcm_bytes ss"
    "\<forall>i < 2. sint (ss ! i) = signed_value 3 (slice (i * 3) 3 [0x34, 0x12, 0xFF, 0xFF, 0xFF, 0x7F]) div 2 ^ 8" by auto
  then show ?thesis using o by (auto simp: signed_value_def slice_def numeral_3_eq_3)
qed

end
