(* ===== verification/Termux_Player.thy ===== *)
theory Termux_Player
  imports Termux_Api
begin

text \<open>
  The upper half of \<^verbatim>\<open>src/client/termux_api_player.{hpp,cpp}\<close>, as it is built for Android: a ring of
  WAV files that are recorded at real time and handed, once each, to an issuer thread that has the app
  play them, and a watchdog. A call of \<open>write_frames\<close>, one taking and one finishing of a play command,
  and one turn of the watchdog are steps; between them the mutexes let the threads interleave. The
  files are part of the state. The pacing sleep of a write and the rate-limited warnings are not in
  the model.
\<close>

section \<open>State\<close>

record pending_segment =
  pg_path :: string
  pg_frames :: nat
  pg_seg_index :: u64
  pg_valid :: bool

text \<open>
  \<open>tx_prev_path\<close> and \<open>tx_job\<close> are the locals of the issuer loop; \<open>tx_files\<close> holds the contents of the
  files, \<open>tx_pos\<close> the offset of the open one; \<open>tx_opened\<close> counts the segments opened and \<open>tx_handed\<close> logs
  which of them were handed to the issuer.
\<close>

record termux_player =
  tx_config :: audio_config
  tx_device_name :: string
  tx_segment_ms :: u32
  tx_cache_dir :: string
  tx_seg_fd :: int
  tx_seg_index :: u64
  tx_seg_path :: string
  tx_seg_start_wall_ms :: u64
  tx_seg_frames :: nat
  tx_seg_total_frames :: nat
  tx_seg_issued :: bool
  tx_drops :: u64
  tx_last_recover_ms :: u64
  tx_pending :: pending_segment
  tx_issue_wall_ms :: u64
  tx_issued_frames :: nat
  tx_latency_est_ms :: flt
  tx_result_channel :: bool
  tx_socket_path :: bool
  tx_consecutive_no_result :: nat
  tx_is_open :: bool
  tx_prev_path :: string
  tx_job :: "pending_segment option"
  tx_files :: "string \<Rightarrow> byte list"
  tx_pos :: nat
  tx_opened :: nat
  tx_handed :: "nat list"

definition no_pending :: pending_segment where
  "no_pending = \<lparr>pg_path = [], pg_frames = 0, pg_seg_index = 0, pg_valid = False\<rparr>"

definition TermuxApiPlayer :: termux_player where
  "TermuxApiPlayer =
     \<lparr>tx_config = default_audio_config, tx_device_name = ''termux'', tx_segment_ms = 6000, tx_cache_dir = [],
      tx_seg_fd = - 1, tx_seg_index = 0, tx_seg_path = [], tx_seg_start_wall_ms = 0, tx_seg_frames = 0,
      tx_seg_total_frames = 0, tx_seg_issued = False, tx_drops = 0, tx_last_recover_ms = 0, tx_pending = no_pending,
      tx_issue_wall_ms = 0, tx_issued_frames = 0, tx_latency_est_ms = FFin 300, tx_result_channel = True,
      tx_socket_path = False, tx_consecutive_no_result = 0, tx_is_open = False, tx_prev_path = [], tx_job = None,
      tx_files = (\<lambda>_. []), tx_pos = 0, tx_opened = 0, tx_handed = []\<rparr>"

section \<open>Segments\<close>

definition pool_path :: "string \<Rightarrow> nat \<Rightarrow> string" where
  "pool_path dir i = dir @ ''/seg_p'' @ to_string i @ ''.wav''"

definition is_float_stream :: "audio_config \<Rightarrow> bool" where
  "is_float_stream c \<longleftrightarrow> ac_format c = PCM_FLOAT32LE"

definition file_bytes_per_frame :: "audio_config \<Rightarrow> nat" where
  "file_bytes_per_frame c = (if is_float_stream c then bytes_per_frame c else 2 * unat (ac_channels c))"

definition segment_frames :: "u32 \<Rightarrow> audio_config \<Rightarrow> nat" where
  "segment_frames ms c = unat ms * unat (ac_sample_rate c) div 1000"

definition segment_header :: "u32 \<Rightarrow> audio_config \<Rightarrow> byte list" where
  "segment_header ms c =
     (let data_bytes = segment_frames ms c * file_bytes_per_frame c
      in build_wav_header (ac_sample_rate c) (ac_channels c) (is_float_stream c) (word_of_nat (36 + data_bytes)) (word_of_nat data_bytes))"

text \<open>A write at an offset; a gap before it reads as zeros.\<close>

definition write_at :: "nat \<Rightarrow> byte list \<Rightarrow> byte list \<Rightarrow> byte list" where
  "write_at pos data f = take pos (f @ replicate (pos - length f) 0) @ data @ drop (pos + length data) f"

text \<open>What opening a segment sees: the descriptor, the bytes of the header written, \<^verbatim>\<open>ftruncate\<close>, the clock.\<close>

record seg_env =
  sn_fd :: int
  sn_header_written :: nat
  sn_truncate_ok :: bool
  sn_now :: u64

definition open_next_segment_locked :: "seg_env \<Rightarrow> termux_player \<Rightarrow> bool \<times> termux_player" where
  "open_next_segment_locked env p =
     (let idx = tx_seg_index p + 1;
          path = pool_path (tx_cache_dir p) (unat idx mod kPoolSize);
          p = p\<lparr>tx_seg_index := idx, tx_seg_path := path, tx_seg_fd := sn_fd env, tx_opened := tx_opened p + 1\<rparr>
      in if sn_fd env < 0 then (False, p)
         else
           (let total = segment_frames (tx_segment_ms p) (tx_config p);
                header = segment_header (tx_segment_ms p) (tx_config p);
                p = p\<lparr>tx_seg_total_frames := total, tx_files := (tx_files p)(path := take (sn_header_written env) header)\<rparr>
            in if sn_header_written env \<noteq> length header \<or> \<not> sn_truncate_ok env
               then (False, p\<lparr>tx_seg_fd := - 1, tx_seg_path := []\<rparr>)
               else (True, p\<lparr>tx_files := (tx_files p)(path := header @ replicate (total * file_bytes_per_frame (tx_config p)) 0),
                             tx_pos := length header, tx_seg_frames := 0, tx_seg_issued := False, tx_seg_start_wall_ms := sn_now env\<rparr>)))"

definition discard_segment_locked :: "u64 \<Rightarrow> termux_player \<Rightarrow> termux_player" where
  "discard_segment_locked now p =
     p\<lparr>tx_seg_fd := (if tx_seg_fd p \<ge> 0 then - 1 else tx_seg_fd p), tx_seg_path := [], tx_seg_frames := 0,
       tx_seg_issued := False, tx_seg_start_wall_ms := now\<rparr>"

definition finalize_segment_locked :: "termux_player \<Rightarrow> termux_player" where
  "finalize_segment_locked p =
     (if tx_seg_fd p < 0 \<or> tx_seg_issued p then p
      else
        p\<lparr>tx_seg_issued := True, tx_drops := (if pg_valid (tx_pending p) then tx_drops p + 1 else tx_drops p),
          tx_pending := \<lparr>pg_path = tx_seg_path p, pg_frames = tx_seg_frames p, pg_seg_index = tx_seg_index p, pg_valid = True\<rparr>,
          tx_handed := tx_handed p @ [tx_opened p]\<rparr>)"

section \<open>Recording\<close>

text \<open>The write loop on the segment file: whether everything was written, and what was.\<close>

fun segment_write :: "write_event list \<Rightarrow> byte list \<Rightarrow> (bool \<times> byte list) option" where
  "segment_write es [] = Some (True, [])"
| "segment_write [] (b # bs) = None"
| "segment_write (WriteEintr # es) (b # bs) = segment_write es (b # bs)"
| "segment_write (WriteFailed # es) (b # bs) = Some (False, [])"
| "segment_write (WriteTook n # es) (b # bs) =
     (if n = 0 then Some (False, [])
      else map_option (\<lambda>(ok, out). (ok, take n (b # bs) @ out)) (segment_write es (drop n (b # bs))))"

record tx_write_env =
  tw_first :: seg_env
  tw_events :: "write_event list"
  tw_discard_now :: u64
  tw_gate_now :: u64
  tw_next :: seg_env

definition append_bytes :: "byte list \<Rightarrow> termux_player \<Rightarrow> termux_player" where
  "append_bytes out p =
     p\<lparr>tx_files := (tx_files p)(tx_seg_path p := write_at (tx_pos p) out (tx_files p (tx_seg_path p))), tx_pos := tx_pos p + length out\<rparr>"

definition converts :: "audio_config \<Rightarrow> bool" where
  "converts c \<longleftrightarrow> ac_format c = PCM_S24LE \<or> ac_format c = PCM_S32LE"

text \<open>After the frames are in the file: the hand-off at the prefill and the rotation at the end of the window.\<close>

definition recorded :: "tx_write_env \<Rightarrow> nat \<Rightarrow> termux_player \<Rightarrow> termux_player" where
  "recorded env num_frames p =
     (let p = p\<lparr>tx_seg_frames := tx_seg_frames p + num_frames\<rparr>;
          p = (if \<not> tx_seg_issued p \<and>
                  segment_ready \<lparr>sg_start_wall_ms = tx_seg_start_wall_ms p, sg_frames_written = tx_seg_frames p,
                                 sg_sample_rate = ac_sample_rate (tx_config p)\<rparr> (tw_gate_now env) kPrefillMs
               then finalize_segment_locked p else p)
      in if tx_seg_total_frames p > 0 \<and> tx_seg_frames p \<ge> tx_seg_total_frames p
         then snd (open_next_segment_locked (tw_next env) p) else p)"

text \<open>\<open>None\<close> is a read behind the end of the caller's buffer, or a write loop that has not returned.\<close>

definition termux_write :: "tx_write_env \<Rightarrow> i16 list \<Rightarrow> nat \<Rightarrow> termux_player \<Rightarrow> (nat \<times> termux_player) option" where
  "termux_write env pcm num_frames p =
     (if num_frames = 0 \<or> \<not> tx_is_open p \<or> bytes_per_frame (tx_config p) = 0 then Some (0, p)
      else
        (case (if converts (tx_config p)
               then convert_to_s16le (pcm_bytes pcm) num_frames (ac_channels (tx_config p)) (ac_format (tx_config p))
               else Some (pcm_bytes pcm)) of
           None \<Rightarrow> None
         | Some data \<Rightarrow>
             (let (ok, p) = (if tx_seg_fd p < 0 then open_next_segment_locked (tw_first env) p else (True, p));
                  total_bytes = num_frames * file_bytes_per_frame (tx_config p)
              in if \<not> ok then Some (0, p)
                 else if length data < total_bytes then None
                 else
                   (case segment_write (tw_events env) (take total_bytes data) of
                      None \<Rightarrow> None
                    | Some (whole, out) \<Rightarrow>
                        (let p = append_bytes out p
                         in if \<not> whole then Some (0, discard_segment_locked (tw_discard_now env) p)
                            else Some (num_frames, recorded env num_frames p))))))"

definition termux_flush :: "u64 \<Rightarrow> termux_player \<Rightarrow> termux_player" where
  "termux_flush now p =
     (if \<not> tx_is_open p then p
      else (let p = (if tx_seg_frames p > 0 then discard_segment_locked now p else p)
            in p\<lparr>tx_pending := (tx_pending p)\<lparr>pg_valid := False\<rparr>\<rparr>))"

section \<open>Issuer and watchdog\<close>

definition kBlindPrepareBiasMs :: rat where "kBlindPrepareBiasMs = 250"
definition kInitialLatencyMs :: rat where "kInitialLatencyMs = 300"
definition kMinLatencyEstMs :: rat where "kMinLatencyEstMs = 60"
definition kMaxLatencyEstMs :: rat where "kMaxLatencyEstMs = 4000"

definition clamp_latency_est :: "flt \<Rightarrow> flt" where
  "clamp_latency_est v = fl_clamp v (FFin kMinLatencyEstMs) (FFin kMaxLatencyEstMs)"

text \<open>\<^verbatim>\<open>prev * 0.65 + sample * 0.35\<close> with the nearest doubles of the two constants.\<close>

definition ema :: "flt \<Rightarrow> flt \<Rightarrow> flt" where
  "ema prev sample =
     clamp_latency_est (fl_add binary64 (fl_mul binary64 prev (fl_round binary64 (65 / 100)))
                                        (fl_mul binary64 sample (fl_round binary64 (35 / 100))))"

definition blind_sample :: "u64 \<Rightarrow> flt" where
  "blind_sample duration_ms = fl_add binary64 (fl_of_int binary64 (uint duration_ms)) (FFin kBlindPrepareBiasMs)"

definition issuer_take :: "termux_player \<Rightarrow> termux_player" where
  "issuer_take p = p\<lparr>tx_job := Some (tx_pending p), tx_pending := (tx_pending p)\<lparr>pg_valid := False\<rparr>\<rparr>"

definition restart_at_live :: "u64 \<Rightarrow> termux_player \<Rightarrow> termux_player" where
  "restart_at_live now p = (if tx_is_open p \<and> tx_seg_frames p > 0 then discard_segment_locked now p else p)"

definition play_confirmed :: "MediaCommandOutcome \<Rightarrow> pending_segment \<Rightarrow> termux_player \<Rightarrow> termux_player" where
  "play_confirmed out job p =
     p\<lparr>tx_files := (if tx_prev_path p \<noteq> [] \<and> tx_prev_path p \<noteq> pg_path job then (tx_files p)(tx_prev_path p := []) else tx_files p),
       tx_prev_path := pg_path job, tx_consecutive_no_result := 0,
       tx_latency_est_ms := ema (tx_latency_est_ms p) (fl_of_int binary64 (uint (mo_duration_ms out)))\<rparr>"

definition play_unconfirmed :: "MediaCommandOutcome \<Rightarrow> termux_player \<Rightarrow> termux_player" where
  "play_unconfirmed out p =
     (let p = p\<lparr>tx_latency_est_ms := ema (tx_latency_est_ms p) (blind_sample (mo_duration_ms out)),
                tx_consecutive_no_result := tx_consecutive_no_result p + 1\<rparr>
      in p\<lparr>tx_result_channel := (if tx_consecutive_no_result p \<ge> 2 then False else tx_result_channel p)\<rparr>)"

definition issuer_finish :: "MediaCommandOutcome \<Rightarrow> u64 \<Rightarrow> pending_segment \<Rightarrow> termux_player \<Rightarrow> termux_player" where
  "issuer_finish out now job p =
     (let p = p\<lparr>tx_job := None\<rparr>
      in if mo_delivered out then
           (let p = p\<lparr>tx_issue_wall_ms := now, tx_issued_frames := pg_frames job\<rparr>
            in if mo_result_received out then play_confirmed out job p else play_unconfirmed out p)
         else restart_at_live now p)"

definition watchdog_step :: "MediaCommandOutcome \<Rightarrow> u64 \<Rightarrow> termux_player \<Rightarrow> termux_player" where
  "watchdog_step info now p =
     (if \<not> tx_is_open p \<or> \<not> tx_result_channel p \<or> tx_issued_frames p = 0 then p
      else if \<not> mo_delivered info \<or> \<not> mo_result_received info then p
      else if contains (mo_result info) ''Paused'' then p
      else if \<not> contains (mo_result info) ''No track'' then p
      else if now - tx_last_recover_ms p < 3000 then p
      else restart_at_live now (p\<lparr>tx_last_recover_ms := now\<rparr>))"

text \<open>What the watchdog asks the app to do about the status it got.\<close>

definition watchdog_resumes :: "MediaCommandOutcome \<Rightarrow> termux_player \<Rightarrow> bool" where
  "watchdog_resumes info p \<longleftrightarrow>
     tx_is_open p \<and> tx_result_channel p \<and> tx_issued_frames p \<noteq> 0 \<and> mo_delivered info \<and> mo_result_received info \<and>
     contains (mo_result info) ''Paused''"

section \<open>The cache directory\<close>

definition resolve_cache_base :: "system \<Rightarrow> string" where
  "resolve_cache_base sys =
     (let base =
        (if sys_geteuid sys \<noteq> 0 then
           (case sys_getenv sys ''HOME'' of
              Some home \<Rightarrow> if home \<noteq> [] \<and> home \<noteq> ''/'' then home else []
            | None \<Rightarrow> [])
         else (case termux_user sys of Some (_, _, home) \<Rightarrow> home | None \<Rightarrow> []));
          base =
        (if sys_geteuid sys \<noteq> 0 \<and> base = [] then
           (case sys_getenv sys ''AUDIOROUTER_TERMUX_HOME'' of
              Some v \<Rightarrow> if v \<noteq> [] then v else kTermuxHomeDefault
            | None \<Rightarrow> kTermuxHomeDefault)
         else base)
      in if base = [] then ''/data/local/tmp'' else base)"

definition resolve_cache_dir :: "system \<Rightarrow> string" where
  "resolve_cache_dir sys = resolve_cache_base sys @ ''/.audiorouter''"

definition stale_segment :: "string \<Rightarrow> bool" where
  "stale_segment name \<longleftrightarrow> starts_with name ''seg_'' \<and> \<not> starts_with name ''seg_p'' \<and> ends_with name ''.wav''"

text \<open>The files that are removed.\<close>

definition cleanup_stale_segments :: "system \<Rightarrow> string \<Rightarrow> string list" where
  "cleanup_stale_segments sys dir =
     (case sys_list_dir sys dir of
        None \<Rightarrow> []
      | Some names \<Rightarrow> map (\<lambda>n. dir @ ''/'' @ n) (filter stale_segment names))"

text \<open>The pool files that are created, up to the first that cannot be.\<close>

fun ensure_pool :: "(string \<Rightarrow> bool) \<Rightarrow> (string \<Rightarrow> bool) \<Rightarrow> string list \<Rightarrow> bool \<times> string list" where
  "ensure_pool writable creatable [] = (True, [])"
| "ensure_pool writable creatable (f # fs) =
     (if writable f then ensure_pool writable creatable fs
      else if \<not> creatable f then (False, [])
      else (let (ok, made) = ensure_pool writable creatable fs in (ok, f # made)))"

definition pool_files :: "string \<Rightarrow> string list" where
  "pool_files dir = map (pool_path dir) [0..<kPoolSize]"

definition strip_eol :: "string \<Rightarrow> string" where
  "strip_eol s = rev (dropWhile (\<lambda>c. c = CHR 0x0A \<or> c = CHR 0x0D) (rev s))"

text \<open>The first 255 bytes of a file as a C string, without the line ends behind it.\<close>

definition context_text :: "string \<Rightarrow> string" where
  "context_text content = strip_eol (takeWhile (\<lambda>c. c \<noteq> CHR 0x00) (take 255 content))"

definition load_app_context :: "system \<Rightarrow> string \<Rightarrow> string" where
  "load_app_context sys dir =
     (case sys_read_file sys (dir @ ''/app_context'') of None \<Rightarrow> [] | Some content \<Rightarrow> context_text content)"

text \<open>The pieces \<^verbatim>\<open>fgets\<close> reads with a buffer of 256 bytes.\<close>

function fgets_pieces :: "string \<Rightarrow> string list" where
  "fgets_pieces s =
     (if s = [] then []
      else (let n = min 255 (length (takeWhile (\<lambda>c. c \<noteq> CHR 0x0A) s) + 1) in take n s # fgets_pieces (drop n s)))"
  by pat_completeness auto
termination by (relation "measure length") (auto simp: Let_def)

declare fgets_pieces.simps [simp del]

definition status_uid :: "string \<Rightarrow> nat option" where
  "status_uid status =
     (case filter (\<lambda>l. starts_with l ''Uid:'') (fgets_pieces status) of
        [] \<Rightarrow> None
      | l # _ \<Rightarrow> Some (case scan_integer (drop 4 l) of Some (_, m) \<Rightarrow> m | None \<Rightarrow> 0))"

text \<open>The context of the first process of the app's user whose context can be read.\<close>

fun find_app_context :: "system \<Rightarrow> nat \<Rightarrow> string list \<Rightarrow> string" where
  "find_app_context sys uid [] = []"
| "find_app_context sys uid (name # names) =
     (if name = [] \<or> \<not> isdigit (hd name) then find_app_context sys uid names
      else if Option.bind (sys_read_file sys (''/proc/'' @ name @ ''/status'')) status_uid \<noteq> Some uid
           then find_app_context sys uid names
      else (case sys_read_file sys (''/proc/'' @ name @ ''/attr/current'') of
              None \<Rightarrow> find_app_context sys uid names
            | Some content \<Rightarrow>
                if context_text content \<noteq> [] then context_text content else find_app_context sys uid names))"

datatype cache_action =
  MakeDir string | SetMode string nat | CreateFile string | RunShell string | SetOwner string nat nat | WriteText string string

definition prepare_cache_as_root :: "system \<Rightarrow> cache_action list" where
  "prepare_cache_as_root sys =
     (if \<not> is_running_as_root sys then []
      else
        (case termux_user sys of
           None \<Rightarrow> []
         | Some (uid, gid, home) \<Rightarrow>
             (let dir = home @ ''/.audiorouter'';
                  ctx = find_app_context sys uid (case sys_list_dir sys ''/proc'' of Some ns \<Rightarrow> ns | None \<Rightarrow> []);
                  file = dir @ ''/app_context''
              in [MakeDir dir, SetMode dir 511] @ map CreateFile (pool_files dir) @
                 [RunShell (''restorecon -RF '' @ dir @ '' 2>/dev/null''), SetOwner dir uid gid] @
                 concat (map (\<lambda>f. [SetOwner f uid gid, SetMode f 438]) (pool_files dir)) @
                 (if ctx = [] then [] else [WriteText file ctx, SetOwner file uid gid, SetMode file 420]))))"

section \<open>Open, close and delay\<close>

definition parse_segment_ms :: "string \<Rightarrow> u32" where
  "parse_segment_ms name =
     (if starts_with name ''termux:'' \<and> drop 7 name \<noteq> [] then
        (case stol (drop 7 name) of
           None \<Rightarrow> kDefaultSegmentMs
         | Some ms \<Rightarrow> word_of_int (max (uint kMinSegmentMs) (min (uint kMaxSegmentMs) ms)))
      else kDefaultSegmentMs)"

text \<open>What is released when the player is closed; nothing when it was not open.\<close>

definition termux_close :: "termux_player \<Rightarrow> termux_player" where
  "termux_close p =
     (if \<not> tx_is_open p then p
      else p\<lparr>tx_is_open := False, tx_seg_fd := (if tx_seg_fd p \<ge> 0 then - 1 else tx_seg_fd p), tx_seg_path := [],
             tx_seg_frames := 0, tx_issued_frames := 0, tx_issue_wall_ms := 0,
             tx_pending := (tx_pending p)\<lparr>pg_valid := False\<rparr>\<rparr>)"

text \<open>Whether \<open>close\<close> tells the app to stop.\<close>

definition close_sends_stop :: "termux_player \<Rightarrow> bool" where
  "close_sends_stop p \<longleftrightarrow> tx_is_open p \<and> tx_issued_frames p > 0"

text \<open>
  What \<open>open\<close> finds: the system as it is after \<^verbatim>\<open>prepare_cache_as_root\<close>, which runs first when the client
  is root; whether the cache directory exists or can be made; which pool files can be written or
  created; and how the app reacts to the probe.
\<close>

record tx_open_env =
  to_sys :: system
  to_mkdir_ok :: bool
  to_writable :: "string \<Rightarrow> bool"
  to_creatable :: "string \<Rightarrow> bool"
  to_media :: media_env

definition open_config :: "audio_config \<Rightarrow> audio_config" where
  "open_config c =
     (let c = (if ac_sample_rate c = 0 then c\<lparr>ac_sample_rate := 48000\<rparr> else c)
      in if ac_channels c = 0 then c\<lparr>ac_channels := 2\<rparr> else c)"

definition start_latency :: "MediaCommandOutcome \<Rightarrow> flt" where
  "start_latency probe =
     (if mo_result_received probe \<and> mo_socket_path probe then FFin kInitialLatencyMs
      else clamp_latency_est (blind_sample (mo_duration_ms probe)))"

definition clear_files :: "string list \<Rightarrow> (string \<Rightarrow> byte list) \<Rightarrow> string \<Rightarrow> byte list" where
  "clear_files fs m = (\<lambda>f. if f \<in> set fs then [] else m f)"

definition after_probe :: "MediaCommandOutcome \<Rightarrow> termux_player \<Rightarrow> termux_player" where
  "after_probe probe p =
     p\<lparr>tx_socket_path := mo_socket_path probe, tx_result_channel := mo_result_received probe, tx_consecutive_no_result := 0,
       tx_latency_est_ms := start_latency probe, tx_issue_wall_ms := 0, tx_issued_frames := 0, tx_drops := 0,
       tx_seg_fd := - 1, tx_seg_path := [], tx_seg_frames := 0, tx_seg_index := 0, tx_seg_start_wall_ms := 0,
       tx_pending := (tx_pending p)\<lparr>pg_valid := False\<rparr>, tx_is_open := True, tx_prev_path := [], tx_job := None\<rparr>"

definition termux_open :: "tx_open_env \<Rightarrow> audio_config \<Rightarrow> string \<Rightarrow> termux_player \<Rightarrow> (bool \<times> termux_player) option" where
  "termux_open env config device_name p =
     (let p = (if tx_is_open p then termux_close p else p);
          name = (if device_name = [] then ''termux'' else device_name);
          dir = resolve_cache_dir (to_sys env);
          p = p\<lparr>tx_config := open_config config, tx_device_name := name, tx_segment_ms := parse_segment_ms name, tx_cache_dir := dir\<rparr>
      in if \<not> to_mkdir_ok env then Some (False, p)
         else
           (let (ok, made) = ensure_pool (to_writable env) (to_creatable env) (pool_files dir);
                p = p\<lparr>tx_files := clear_files (cleanup_stale_segments (to_sys env) dir @ made) (tx_files p)\<rparr>
            in if \<not> ok then Some (False, p)
               else
                 (case media_command (tx_result_channel p) (load_app_context (to_sys env) dir) (to_media env) ''info'' [] of
                    None \<Rightarrow> None
                  | Some (probe, _) \<Rightarrow> if \<not> mo_delivered probe then Some (False, p) else Some (True, after_probe probe p))))"

text \<open>\<open>None\<close> is a conversion to \<^verbatim>\<open>size_t\<close> that is undefined.\<close>

definition termux_get_buffer_delay_frames :: "u64 \<Rightarrow> termux_player \<Rightarrow> int option" where
  "termux_get_buffer_delay_frames now p =
     (if \<not> tx_is_open p then Some 0
      else
        (let rate = (if ac_sample_rate (tx_config p) > 0 then ac_sample_rate (tx_config p) else 48000);
             lat = tx_latency_est_ms p;
             base = fl_add binary64 (fl_of_int binary64 (uint kPrefillMs)) lat;
             seg = fl_of_int binary64 (uint (tx_segment_ms p));
             delay_ms =
               (if tx_issue_wall_ms p = 0 then
                  (let content = fl_div_const binary64
                         (fl_mul binary64 (fl_of_int binary64 (int (tx_seg_frames p))) (FFin 1000)) (of_nat (unat rate))
                   in if fl_less base content then content else base)
                else
                  (let started = fl_add binary64 (fl_of_int binary64 (uint (tx_issue_wall_ms p))) lat;
                       age = fl_sub binary64 (fl_of_int binary64 (uint now)) started
                   in if fl_less seg age then fl_add binary64 base (fl_sub binary64 age seg) else base))
         in fl_to_int 0 (int SIZE_MAX)
              (fl_div_const binary64 (fl_mul binary64 delay_ms (fl_of_int binary64 (uint rate))) 1000)))"

definition termux_ops :: "tx_write_env \<Rightarrow> u64 \<Rightarrow> termux_player player_ops" where
  "termux_ops env now =
     \<lparr>po_is_open = tx_is_open, po_close = termux_close, po_write_frames = termux_write env,
      po_get_buffer_delay_frames = (\<lambda>p. case termux_get_buffer_delay_frames now p of Some n \<Rightarrow> nat n | None \<Rightarrow> 0),
      po_get_device_name = tx_device_name, po_needs_playback_pacing = False, po_is_placeholder = False\<rparr>"

section \<open>The contract of a backend\<close>

text \<open>The bytes a successful write puts into the file.\<close>

definition frame_data :: "audio_config \<Rightarrow> i16 list \<Rightarrow> nat \<Rightarrow> byte list option" where
  "frame_data c pcm n =
     (if converts c then convert_to_s16le (pcm_bytes pcm) n (ac_channels c) (ac_format c)
      else if length (pcm_bytes pcm) < n * file_bytes_per_frame c then None
      else Some (take (n * file_bytes_per_frame c) (pcm_bytes pcm)))"

lemma segment_write_out: "segment_write es bs = Some (ok, out) \<Longrightarrow> (\<exists>r. bs = out @ r) \<and> (ok \<longrightarrow> out = bs)"
proof (induction es bs arbitrary: ok out rule: segment_write.induct)
  case (5 n es b bs)
  show ?case
  proof (cases "n = 0")
    case True
    then show ?thesis using 5(2) by simp
  next
    case False
    with 5(2) obtain out' where w: "segment_write es (drop n (b # bs)) = Some (ok, out')" and o: "out = take n (b # bs) @ out'"
      by auto
    from 5(1) [OF False w] obtain r where "drop n (b # bs) = out' @ r" "ok \<longrightarrow> out' = drop n (b # bs)" by blast
    then show ?thesis unfolding o by (metis append.assoc append_take_drop_id)
  qed
qed auto

lemma convert_length:
  "converts c \<Longrightarrow> convert_to_s16le bs n (ac_channels c) (ac_format c) = Some data \<Longrightarrow> length data = n * file_bytes_per_frame c"
  by (auto simp: convert_to_s16le_def converts_def file_bytes_per_frame_def is_float_stream_def Let_def split: if_split_asm)

lemma open_next_keeps:
  "open_next_segment_locked env p = (ok, q) \<Longrightarrow>
   tx_config q = tx_config p \<and> tx_is_open q = tx_is_open p \<and> tx_segment_ms q = tx_segment_ms p \<and> tx_cache_dir q = tx_cache_dir p \<and>
   tx_result_channel q = tx_result_channel p \<and> tx_latency_est_ms q = tx_latency_est_ms p \<and> tx_handed q = tx_handed p \<and>
   tx_opened q = tx_opened p + 1 \<and> tx_seg_index q = tx_seg_index p + 1"
  by (auto simp: open_next_segment_locked_def Let_def split: if_split_asm)

text \<open>The player with its segment open: opened before the write, or by it.\<close>

definition writable :: "seg_env \<Rightarrow> termux_player \<Rightarrow> termux_player \<Rightarrow> bool" where
  "writable env p r \<longleftrightarrow> (if tx_seg_fd p < 0 then open_next_segment_locked env p = (True, r) else r = p)"

lemma termux_write_cases:
  assumes "termux_write env pcm n p = Some (k, q)"
  obtains (idle) "k = 0" "q = p"
  | (unopened) "k = 0" "tx_seg_fd p < 0" "open_next_segment_locked (tw_first env) p = (False, q)" "tx_is_open p"
  | (failed) r out where "writable (tw_first env) p r" "k = 0" "tx_is_open p"
      "q = discard_segment_locked (tw_discard_now env) (append_bytes out r)"
  | (whole) r data where "writable (tw_first env) p r" "k = n" "0 < n" "tx_is_open p"
      "frame_data (tx_config p) pcm n = Some data" "length data = n * file_bytes_per_frame (tx_config p)"
      "q = recorded env n (append_bytes data r)"
proof (cases "n = 0 \<or> \<not> tx_is_open p \<or> bytes_per_frame (tx_config p) = 0")
  case True
  then show ?thesis using assms idle by (auto simp: termux_write_def)
next
  case busy: False
  define src where "src = (if converts (tx_config p)
    then convert_to_s16le (pcm_bytes pcm) n (ac_channels (tx_config p)) (ac_format (tx_config p)) else Some (pcm_bytes pcm))"
  obtain ok r where r: "(if tx_seg_fd p < 0 then open_next_segment_locked (tw_first env) p else (True, p)) = (ok, r)" by fastforce
  have c: "tx_config r = tx_config p" using r open_next_keeps by (auto split: if_splits)
  define tb where "tb = n * file_bytes_per_frame (tx_config r)"
  obtain d where d: "src = Some d" using assms busy by (auto simp: termux_write_def src_def [symmetric] split: option.splits)
  have body: "(if \<not> ok then Some (0, r) else if length d < tb then None
      else case segment_write (tw_events env) (take tb d) of None \<Rightarrow> None
           | Some (w, out) \<Rightarrow> if \<not> w then Some (0, discard_segment_locked (tw_discard_now env) (append_bytes out r))
                              else Some (n, recorded env n (append_bytes out r))) = Some (k, q)"
    using assms busy d r unfolding termux_write_def src_def [symmetric] tb_def Let_def by simp
  show ?thesis
  proof (cases ok)
    case False
    then show ?thesis using body r busy unopened by (auto split: if_splits)
  next
    case True
    then have w: "writable (tw_first env) p r" using r by (auto simp: writable_def split: if_splits)
    from body True obtain wh out where o: "segment_write (tw_events env) (take tb d) = Some (wh, out)" and l: "tb \<le> length d"
      by (auto split: if_splits option.splits)
    show ?thesis
    proof (cases wh)
      case False
      then show ?thesis using failed [OF w] body True o l busy by auto
    next
      case wh: True
      then have out: "out = take tb d" using segment_write_out [OF o] by blast
      have "frame_data (tx_config p) pcm n = Some out"
      proof (cases "converts (tx_config p)")
        case True
        then show ?thesis using d convert_length [OF True] out by (simp add: frame_data_def src_def tb_def c)
      next
        case False
        then show ?thesis using d out l by (auto simp: frame_data_def src_def tb_def c)
      qed
      moreover have "length out = n * file_bytes_per_frame (tx_config p)" using out l by (simp add: tb_def c)
      ultimately show ?thesis using whole [OF w] body True wh o l busy by auto
    qed
  qed
qed

interpretation termux_backend: audio_player "termux_ops env now" "\<lambda>_. True"
proof (unfold_locales, goal_cases)
  case (1 p pcm n k p')
  then show ?case by (auto simp: termux_ops_def elim: termux_write_cases)
qed (auto simp: termux_ops_def termux_close_def termux_write_def split: if_splits)

end
