(* ===== verification/Termux_Session.thy ===== *)
theory Termux_Session
  imports Termux_Player
begin

text \<open>
  Sessions of the Termux:API player: any interleaving of writes, flushes, play commands that are taken
  and finished, watchdog turns, and opening and closing. The lemmas give the invariant of such a
  session, the exact contents of a segment file, how long the file of a segment is kept, and what becomes of the result channel.
\<close>

section \<open>Steps\<close>

datatype tx_step =
    TxOpen tx_open_env audio_config string
  | TxClose
  | TxWrite tx_write_env "i16 list" nat
  | TxFlush u64
  | TxTake
  | TxFinish string media_env u64
  | TxWatch string media_env u64

text \<open>
  \<open>None\<close> is a step that cannot happen now. Opening and closing wait for the issuer to finish its command;
  the issuer takes a segment only while the player is open and it has no other.
\<close>

fun tx_do :: "tx_step \<Rightarrow> termux_player \<Rightarrow> termux_player option" where
  "tx_do (TxOpen env config name) p = (if tx_job p = None then map_option snd (termux_open env config name p) else None)"
| "tx_do TxClose p = (if tx_job p = None then Some (termux_close p) else None)"
| "tx_do (TxWrite env pcm n) p = map_option snd (termux_write env pcm n p)"
| "tx_do (TxFlush now) p = Some (termux_flush now p)"
| "tx_do TxTake p = (if tx_is_open p \<and> tx_job p = None \<and> pg_valid (tx_pending p) then Some (issuer_take p) else None)"
| "tx_do (TxFinish ctx env now) p =
     (case tx_job p of
        None \<Rightarrow> None
      | Some job \<Rightarrow>
          map_option (\<lambda>(out, _). issuer_finish out now job p) (media_command (tx_result_channel p) ctx env ''play'' (pg_path job)))"
| "tx_do (TxWatch ctx env now) p =
     map_option (\<lambda>(info, _). watchdog_step info now p) (media_command (tx_result_channel p) ctx env ''info'' [])"

inductive termux_reach :: "termux_player \<Rightarrow> bool" where
  Start: "termux_reach TermuxApiPlayer"
| Step: "termux_reach p \<Longrightarrow> tx_do s p = Some q \<Longrightarrow> termux_reach q"

fun tx_run :: "tx_step list \<Rightarrow> termux_player \<Rightarrow> termux_player option" where
  "tx_run [] p = Some p"
| "tx_run (s # ss) p = Option.bind (tx_do s p) (tx_run ss)"

lemma tx_run_reach: "termux_reach p \<Longrightarrow> tx_run ss p = Some q \<Longrightarrow> termux_reach q"
  by (induction ss arbitrary: p) (auto simp: bind_eq_Some_conv intro: Step)

section \<open>The invariant\<close>

text \<open>
  A segment is open only in an open player, under the name its number has in the pool; no segment was
  handed over twice, and the open one was handed over only if it is marked so; the latency estimate is
  a number between its two bounds.
\<close>

definition tx_inv :: "termux_player \<Rightarrow> bool" where
  "tx_inv p \<longleftrightarrow>
     (0 \<le> tx_seg_fd p \<longrightarrow> tx_is_open p \<and> tx_seg_path p = pool_path (tx_cache_dir p) (unat (tx_seg_index p) mod kPoolSize)) \<and>
     distinct (tx_handed p) \<and> (\<forall>h \<in> set (tx_handed p). h \<le> tx_opened p) \<and>
     (0 \<le> tx_seg_fd p \<and> \<not> tx_seg_issued p \<longrightarrow> tx_opened p \<notin> set (tx_handed p)) \<and>
     (\<exists>x. tx_latency_est_ms p = FFin x \<and> kMinLatencyEstMs \<le> x \<and> x \<le> kMaxLatencyEstMs)"

lemma tx_inv_cong:
  assumes "tx_inv p" "tx_is_open q = tx_is_open p" "tx_cache_dir q = tx_cache_dir p"
    "tx_seg_fd q = tx_seg_fd p \<and> tx_seg_path q = tx_seg_path p \<and> tx_seg_index q = tx_seg_index p \<and> tx_seg_issued q = tx_seg_issued p \<or> tx_seg_fd q < 0"
    "tx_handed q = tx_handed p" "tx_opened q = tx_opened p" "tx_latency_est_ms q = tx_latency_est_ms p"
  shows "tx_inv q"
  using assms unfolding tx_inv_def by (elim conjE disjE) simp_all

lemma tx_inv_discard: "tx_inv p \<Longrightarrow> tx_inv (discard_segment_locked now p)"
  by (erule tx_inv_cong) (auto simp: discard_segment_locked_def)

lemma tx_inv_open_next:
  assumes "tx_inv p" and "tx_is_open p"
  shows "tx_inv (snd (open_next_segment_locked env p))"
proof -
  have "\<forall>h \<in> set (tx_handed p). h \<le> tx_opened p + 1" "tx_opened p + 1 \<notin> set (tx_handed p)"
    using assms(1) by (auto simp: tx_inv_def)
  then show ?thesis using assms by (simp add: tx_inv_def open_next_segment_locked_def Let_def)
qed

lemma tx_inv_finalize: "tx_inv p \<Longrightarrow> tx_inv (finalize_segment_locked p)"
  by (auto simp: tx_inv_def finalize_segment_locked_def)

lemma finalize_keeps [simp]:
  "tx_is_open (finalize_segment_locked p) = tx_is_open p" "tx_seg_fd (finalize_segment_locked p) = tx_seg_fd p"
  "tx_files (finalize_segment_locked p) = tx_files p" "tx_seg_path (finalize_segment_locked p) = tx_seg_path p"
  "tx_seg_index (finalize_segment_locked p) = tx_seg_index p" "tx_opened (finalize_segment_locked p) = tx_opened p"
  "tx_cache_dir (finalize_segment_locked p) = tx_cache_dir p" "tx_config (finalize_segment_locked p) = tx_config p"
  "tx_segment_ms (finalize_segment_locked p) = tx_segment_ms p" "tx_pos (finalize_segment_locked p) = tx_pos p"
  "tx_seg_frames (finalize_segment_locked p) = tx_seg_frames p" "tx_seg_total_frames (finalize_segment_locked p) = tx_seg_total_frames p"
  "tx_result_channel (finalize_segment_locked p) = tx_result_channel p"
  by (simp_all add: finalize_segment_locked_def)

lemma append_keeps [simp]:
  "tx_is_open (append_bytes out p) = tx_is_open p" "tx_seg_fd (append_bytes out p) = tx_seg_fd p"
  "tx_seg_path (append_bytes out p) = tx_seg_path p" "tx_seg_index (append_bytes out p) = tx_seg_index p"
  "tx_opened (append_bytes out p) = tx_opened p" "tx_cache_dir (append_bytes out p) = tx_cache_dir p"
  "tx_config (append_bytes out p) = tx_config p" "tx_segment_ms (append_bytes out p) = tx_segment_ms p"
  "tx_seg_frames (append_bytes out p) = tx_seg_frames p" "tx_seg_total_frames (append_bytes out p) = tx_seg_total_frames p"
  "tx_result_channel (append_bytes out p) = tx_result_channel p" "tx_handed (append_bytes out p) = tx_handed p"
  "tx_latency_est_ms (append_bytes out p) = tx_latency_est_ms p" "tx_seg_issued (append_bytes out p) = tx_seg_issued p"
  by (simp_all add: append_bytes_def)

lemma tx_inv_append: "tx_inv p \<Longrightarrow> tx_inv (append_bytes out p)"
  by (erule tx_inv_cong) simp_all

text \<open>The frames counted and the segment handed over, before a rotation.\<close>

definition counted :: "tx_write_env \<Rightarrow> nat \<Rightarrow> termux_player \<Rightarrow> termux_player" where
  "counted env n p =
     (let p = p\<lparr>tx_seg_frames := tx_seg_frames p + n\<rparr>
      in if \<not> tx_seg_issued p \<and>
            segment_ready \<lparr>sg_start_wall_ms = tx_seg_start_wall_ms p, sg_frames_written = tx_seg_frames p,
                           sg_sample_rate = ac_sample_rate (tx_config p)\<rparr> (tw_gate_now env) kPrefillMs
         then finalize_segment_locked p else p)"

lemma recorded_counted:
  "recorded env n p =
     (if tx_seg_total_frames p > 0 \<and> tx_seg_frames p + n \<ge> tx_seg_total_frames p
      then snd (open_next_segment_locked (tw_next env) (counted env n p)) else counted env n p)"
  by (simp add: recorded_def counted_def Let_def)

lemma counted_keeps [simp]:
  "tx_is_open (counted env n p) = tx_is_open p" "tx_seg_fd (counted env n p) = tx_seg_fd p"
  "tx_files (counted env n p) = tx_files p" "tx_seg_path (counted env n p) = tx_seg_path p"
  "tx_seg_index (counted env n p) = tx_seg_index p" "tx_opened (counted env n p) = tx_opened p"
  "tx_cache_dir (counted env n p) = tx_cache_dir p" "tx_config (counted env n p) = tx_config p"
  "tx_segment_ms (counted env n p) = tx_segment_ms p" "tx_pos (counted env n p) = tx_pos p"
  "tx_seg_frames (counted env n p) = tx_seg_frames p + n" "tx_seg_total_frames (counted env n p) = tx_seg_total_frames p"
  "tx_result_channel (counted env n p) = tx_result_channel p"
  by (simp_all add: counted_def Let_def)

lemma tx_inv_counted:
  assumes "tx_inv p"
  shows "tx_inv (counted env n p)"
proof -
  have "tx_inv (p\<lparr>tx_seg_frames := tx_seg_frames p + n\<rparr>)" using assms by (rule tx_inv_cong) simp_all
  then show ?thesis by (simp add: counted_def Let_def tx_inv_finalize)
qed

lemma tx_inv_write:
  assumes "tx_inv p" and "termux_write env pcm n p = Some (k, q)"
  shows "tx_inv q"
  using assms(2)
proof (cases rule: termux_write_cases)
  case idle
  then show ?thesis using assms(1) by simp
next
  case unopened
  then show ?thesis using tx_inv_open_next [OF assms(1), of "tw_first env"] by simp
next
  case (failed r out)
  have "tx_inv r" using failed(1,3) assms(1) tx_inv_open_next [OF assms(1), of "tw_first env"] by (auto simp: writable_def split: if_splits)
  then show ?thesis using failed by (simp add: tx_inv_discard tx_inv_append)
next
  case (whole r data)
  have r: "tx_inv r" "tx_is_open r" using whole(1,4) assms(1) tx_inv_open_next [OF assms(1), of "tw_first env"] open_next_keeps
    by (auto simp: writable_def split: if_splits)
  then show ?thesis using whole by (simp add: recorded_counted tx_inv_open_next tx_inv_counted tx_inv_append)
qed

text \<open>The latency estimate.\<close>

definition est_ok :: "flt \<Rightarrow> bool" where
  "est_ok v \<longleftrightarrow> (\<exists>x. v = FFin x \<and> kMinLatencyEstMs \<le> x \<and> x \<le> kMaxLatencyEstMs)"

lemma fl_round_not_NaN: "fl_round F q \<noteq> FNaN"
  by (simp add: fl_round_def Let_def)

lemma clamp_est_ok: "v \<noteq> FNaN \<Longrightarrow> est_ok (clamp_latency_est v)"
  unfolding clamp_latency_est_def est_ok_def
  by (rule fl_clamp_cases [of v kMinLatencyEstMs kMaxLatencyEstMs]) (auto simp: kMinLatencyEstMs_def kMaxLatencyEstMs_def)

lemma blind_sample_not_NaN: "blind_sample d \<noteq> FNaN"
  using fl_round_not_NaN by (cases "fl_of_int binary64 (uint d)") (auto simp: blind_sample_def fl_of_int_def)

lemma ema_weights:
  obtains a b where "fl_round binary64 (65 / 100) = FFin a" "0 \<le> a" "a \<le> 1" and "fl_round binary64 (35 / 100) = FFin b" "b \<noteq> 0"
proof -
  obtain a where a: "fl_round binary64 (65 / 100) = FFin a" "0 \<le> a" "a \<le> 1"
    using f64_interval [of 0 "65 / 100" 1] by auto
  obtain b where b: "fl_round binary64 (35 / 100) = FFin b" using f64_interval [of 0 "35 / 100" 1] by auto
  have "(2 :: rat) powi (- 1022) \<le> 2 powi (- 2)" by (rule power_int_increasing) simp_all
  then have "(2 :: rat) powi (fmt_emin binary64 + int (fmt_prec binary64) - 1) \<le> \<bar>35 / 100\<bar>" by (simp add: power_int_minus)
  from fl_round_relative [OF b this] have "b \<noteq> 0" by auto
  with a b that show ?thesis by blast
qed

lemma ema_ok:
  assumes "est_ok prev" and "sample \<noteq> FNaN"
  shows "est_ok (ema prev sample)"
proof -
  obtain a b where a: "fl_round binary64 (65 / 100) = FFin a" "0 \<le> a" "a \<le> 1"
    and b: "fl_round binary64 (35 / 100) = FFin b" "b \<noteq> 0" by (rule ema_weights)
  obtain x where x: "prev = FFin x" "0 \<le> x" "x \<le> 4000"
    using assms(1) by (auto simp: est_ok_def kMinLatencyEstMs_def kMaxLatencyEstMs_def)
  have "0 \<le> x * a" "x * a \<le> 4000" using x a mult_mono [of x 4000 a 1] by simp_all
  then obtain y where y: "fl_round binary64 (x * a) = FFin y" using f64_interval [of 0 "x * a" 4000] by auto
  have "fl_mul binary64 sample (FFin b) \<noteq> FNaN" using assms(2) b(2) fl_round_not_NaN by (cases sample) auto
  then have "fl_add binary64 (FFin y) (fl_mul binary64 sample (FFin b)) \<noteq> FNaN"
    using fl_round_not_NaN by (cases "fl_mul binary64 sample (FFin b)") auto
  then show ?thesis unfolding ema_def a(1) b(1) x(1) fl_mul.simps(1) y by (rule clamp_est_ok)
qed

lemma tx_inv_est: "tx_inv p \<Longrightarrow> est_ok (tx_latency_est_ms p)"
  by (simp add: tx_inv_def est_ok_def)

lemma tx_inv_set_est:
  assumes "tx_inv p" and "est_ok (tx_latency_est_ms q)" "tx_is_open q = tx_is_open p" "tx_cache_dir q = tx_cache_dir p"
    "tx_seg_fd q = tx_seg_fd p" "tx_seg_path q = tx_seg_path p" "tx_seg_index q = tx_seg_index p" "tx_seg_issued q = tx_seg_issued p"
    "tx_handed q = tx_handed p" "tx_opened q = tx_opened p"
  shows "tx_inv q"
  using assms by (simp add: tx_inv_def est_ok_def)

lemma tx_inv_restart:
  assumes "tx_inv p"
  shows "tx_inv (restart_at_live now p)"
  using tx_inv_discard [OF assms] assms by (simp add: restart_at_live_def)

lemma tx_inv_finish:
  assumes "tx_inv p"
  shows "tx_inv (issuer_finish out now job p)"
proof -
  define p1 where "p1 = p\<lparr>tx_job := None\<rparr>"
  define p2 where "p2 = p1\<lparr>tx_issue_wall_ms := now, tx_issued_frames := pg_frames job\<rparr>"
  have p1: "tx_inv p1" and p2: "tx_inv p2" unfolding p1_def p2_def by (rule tx_inv_cong [OF assms]; simp)+
  have "tx_inv (play_confirmed out job p2)"
    by (rule tx_inv_set_est [OF p2])
      (simp_all add: play_confirmed_def ema_ok [OF tx_inv_est [OF p2]] fl_of_int_def fl_round_not_NaN)
  moreover have "tx_inv (play_unconfirmed out p2)"
    by (rule tx_inv_set_est [OF p2])
      (simp_all add: play_unconfirmed_def Let_def ema_ok [OF tx_inv_est [OF p2]] blind_sample_not_NaN)
  moreover have "tx_inv (restart_at_live now p1)" by (rule tx_inv_restart [OF p1])
  ultimately show ?thesis by (simp add: issuer_finish_def p1_def p2_def Let_def)
qed

lemma tx_inv_watchdog:
  assumes "tx_inv p"
  shows "tx_inv (watchdog_step info now p)"
proof -
  have "tx_inv (p\<lparr>tx_last_recover_ms := now\<rparr>)" by (rule tx_inv_cong [OF assms]) simp_all
  then show ?thesis using assms by (simp add: watchdog_step_def tx_inv_restart)
qed

lemma tx_inv_closed:
  assumes "tx_inv p" "tx_seg_fd q < 0" "tx_handed q = tx_handed p" "tx_opened q = tx_opened p" "est_ok (tx_latency_est_ms q)"
  shows "tx_inv q"
  using assms by (simp add: tx_inv_def est_ok_def)

lemma close_fd: "tx_inv p \<Longrightarrow> tx_seg_fd (termux_close p) < 0"
  by (auto simp: termux_close_def tx_inv_def)

lemma tx_inv_close:
  assumes "tx_inv p"
  shows "tx_inv (termux_close p)"
  by (rule tx_inv_closed [OF assms close_fd [OF assms]]) (simp_all add: termux_close_def tx_inv_est [OF assms])

lemma start_latency_ok: "est_ok (start_latency probe)"
  using clamp_est_ok [OF blind_sample_not_NaN]
  by (auto simp: start_latency_def est_ok_def kInitialLatencyMs_def kMinLatencyEstMs_def kMaxLatencyEstMs_def)

lemma tx_inv_open:
  assumes "tx_inv p" and "termux_open env config name p = Some (ok, q)"
  shows "tx_inv q"
proof -
  define c where "c = (if tx_is_open p then termux_close p else p)"
  have c: "tx_inv c" "tx_seg_fd c < 0" using assms(1) tx_inv_close close_fd [OF assms(1)] by (auto simp: c_def tx_inv_def)
  have "tx_seg_fd q < 0 \<and> tx_handed q = tx_handed c \<and> tx_opened q = tx_opened c \<and>
        (tx_latency_est_ms q = tx_latency_est_ms c \<or> (\<exists>probe. tx_latency_est_ms q = start_latency probe))"
    using assms(2) c(2)
    by (auto simp: termux_open_def Let_def c_def [symmetric] after_probe_def split: if_splits prod.splits option.splits)
  then show ?thesis using tx_inv_closed [OF c(1), of q] tx_inv_est [OF c(1)] start_latency_ok by auto
qed

lemma tx_inv_step:
  assumes "tx_inv p" and "tx_do s p = Some q"
  shows "tx_inv q"
proof (cases s)
  case (TxOpen env config name)
  then show ?thesis using assms tx_inv_open by (auto split: if_splits)
next
  case TxClose
  then show ?thesis using assms tx_inv_close by (auto split: if_splits)
next
  case (TxWrite env pcm n)
  then show ?thesis using assms tx_inv_write by auto
next
  case (TxFlush now)
  have "tx_inv (p\<lparr>tx_pending := x\<rparr>)" for x using assms(1) by (rule tx_inv_cong) simp_all
  moreover have "tx_inv ((discard_segment_locked now p)\<lparr>tx_pending := x\<rparr>)" for x
    using tx_inv_discard [OF assms(1)] by (rule tx_inv_cong) simp_all
  ultimately show ?thesis using assms TxFlush by (auto simp: termux_flush_def Let_def)
next
  case TxTake
  have "tx_inv (issuer_take p)" using assms(1) by (rule tx_inv_cong) (simp_all add: issuer_take_def)
  then show ?thesis using assms(2) TxTake by (auto split: if_splits)
next
  case (TxFinish ctx env now)
  then show ?thesis using assms tx_inv_finish by (auto split: option.splits)
next
  case (TxWatch ctx env now)
  then show ?thesis using assms tx_inv_watchdog by auto
qed

lemma reach_tx_inv: "termux_reach p \<Longrightarrow> tx_inv p"
proof (induction rule: termux_reach.induct)
  case Start
  then show ?case by (simp add: tx_inv_def TermuxApiPlayer_def kMinLatencyEstMs_def kMaxLatencyEstMs_def)
next
  case (Step p s q)
  then show ?case using tx_inv_step by blast
qed

text \<open>
  Claim C13: in every session of the Termux:API player, whatever the app answers and whichever system
  call fails: a segment is open only in an open player and under its name in the pool; no segment is
  handed to the issuer twice; and the latency estimate, computed in double precision from arbitrary
  command durations, stays a number between 60 and 4000 milliseconds.
\<close>

theorem termux_session_invariant:
  assumes "termux_reach p"
  shows "tx_inv p"
  using reach_tx_inv [OF assms] .

section \<open>What is in a segment file\<close>

lemma pool_path_inject [simp]: "pool_path d i = pool_path d j \<longleftrightarrow> i = j"
  by (auto simp: pool_path_def) (metis decimal_value_to_string)

lemma pool_slot_add: "unat (i + word_of_nat m :: u64) mod kPoolSize = (unat i + m) mod kPoolSize"
proof -
  have "unat (i + word_of_nat m :: u64) = (unat i + m) mod 2 ^ 64" by (simp add: unat_word_ariths unat_of_nat mod_add_right_eq)
  moreover have "(x mod 2 ^ 64) mod 4 = x mod (4 :: nat)" for x by (rule mod_mod_cancel) simp
  ultimately show ?thesis by (simp add: kPoolSize_def)
qed

abbreviation window_bytes :: "termux_player \<Rightarrow> nat" where
  "window_bytes p \<equiv> segment_frames (tx_segment_ms p) (tx_config p) * file_bytes_per_frame (tx_config p)"

abbreviation header_of :: "termux_player \<Rightarrow> byte list" where
  "header_of p \<equiv> segment_header (tx_segment_ms p) (tx_config p)"

lemma length_header_of [simp]: "length (segment_header ms c) = 44"
  by (simp add: segment_header_def Let_def)

text \<open>
  The open segment holds its header, the audio \<open>rec\<close> recorded so far, and silence up to the length of the
  window, to which \<^verbatim>\<open>ftruncate\<close> extends the file. The header declares this length in a field of 32 bits.
\<close>

definition seg_holds :: "byte list \<Rightarrow> termux_player \<Rightarrow> bool" where
  "seg_holds rec p \<longleftrightarrow>
     0 \<le> tx_seg_fd p \<and> tx_seg_path p = pool_path (tx_cache_dir p) (unat (tx_seg_index p) mod kPoolSize) \<and>
     tx_files p (tx_seg_path p) = header_of p @ rec @ replicate (window_bytes p - length rec) 0 \<and>
     tx_pos p = 44 + length rec \<and> length rec = tx_seg_frames p * file_bytes_per_frame (tx_config p) \<and>
     tx_seg_total_frames p = segment_frames (tx_segment_ms p) (tx_config p)"

lemma seg_holds_open:
  "open_next_segment_locked env p = (True, q) \<Longrightarrow> seg_holds [] q"
  by (auto simp: open_next_segment_locked_def seg_holds_def Let_def split: if_split_asm)

lemma write_at_end:
  "write_at (length h + length r) d (h @ r @ replicate n (0 :: byte)) = h @ r @ d @ replicate (n - length d) 0"
  by (simp add: write_at_def)

lemma append_file:
  assumes "seg_holds rec p"
  shows "tx_files (append_bytes data p) (tx_seg_path p) = header_of p @ (rec @ data) @ replicate (window_bytes p - length (rec @ data)) 0"
    and "tx_pos (append_bytes data p) = 44 + length (rec @ data)"
proof -
  have "tx_files p (tx_seg_path p) = header_of p @ rec @ replicate (window_bytes p - length rec) 0" "tx_pos p = length (header_of p) + length rec"
    using assms unfolding seg_holds_def length_header_of by blast+
  then show "tx_files (append_bytes data p) (tx_seg_path p) = header_of p @ (rec @ data) @ replicate (window_bytes p - length (rec @ data)) 0"
    "tx_pos (append_bytes data p) = 44 + length (rec @ data)"
    using write_at_end [of "header_of p" rec data "window_bytes p - length rec"] by (simp_all add: append_bytes_def)
qed

lemma open_next_other_file:
  assumes "f \<noteq> pool_path (tx_cache_dir p) (unat (tx_seg_index p + 1) mod kPoolSize)"
  shows "tx_files (snd (open_next_segment_locked env p)) f = tx_files p f"
  using assms by (simp add: open_next_segment_locked_def Let_def)

lemma next_slot_differs: "unat (i + 1 :: u64) mod kPoolSize \<noteq> unat i mod kPoolSize"
  using pool_slot_add [of i 1] mod_add_cancel_left [of "unat i" 1 kPoolSize 0] by (auto simp: kPoolSize_def)

lemma declared_length:
  "le_decode (slice 40 4 (segment_header ms c @ rest)) = segment_frames ms c * file_bytes_per_frame c mod 2 ^ 32"
proof -
  have "slice 40 4 (segment_header ms c @ rest) = slice 40 4 (segment_header ms c)" by (simp add: slice_def)
  then show ?thesis by (simp add: segment_header_def Let_def build_wav_header_sizes(4) unat_of_nat del: of_nat_mult of_nat_add)
qed

lemma open_next_result:
  "if 0 \<le> sn_fd env \<and> sn_header_written env = 44 \<and> sn_truncate_ok env
   then seg_holds [] (snd (open_next_segment_locked env p)) \<and>
        tx_seg_path (snd (open_next_segment_locked env p)) = pool_path (tx_cache_dir p) (unat (tx_seg_index p + 1) mod kPoolSize)
   else tx_seg_fd (snd (open_next_segment_locked env p)) < 0"
  by (auto simp: open_next_segment_locked_def seg_holds_def Let_def)

text \<open>
  Claim C14: a write to an open segment that succeeds adds exactly its audio to the file: the file is
  then the header, everything recorded before, the new audio in the format of the file, and silence up
  to the length of the window; the length the header declares is this one, cut to its 32 bits. When the
  write completes the window the file is left like that and the next file of the pool is opened: if the
  system opens, writes and extends it, it is a segment with nothing recorded, under another name,
  otherwise no segment is open. When the write does not complete the window the segment stays open and
  holds the longer recording.
\<close>

theorem segment_recording_exact:
  assumes "seg_holds rec p" and "termux_write env pcm n p = Some (k, q)" and "0 < k"
  shows "\<exists>data. frame_data (tx_config p) pcm n = Some data \<and> length data = n * file_bytes_per_frame (tx_config p) \<and>
           tx_files q (tx_seg_path p) = header_of p @ (rec @ data) @ replicate (window_bytes p - length (rec @ data)) 0 \<and>
           le_decode (slice 40 4 (tx_files q (tx_seg_path p))) = window_bytes p mod 2 ^ 32 \<and>
           (if 0 < tx_seg_total_frames p \<and> tx_seg_total_frames p \<le> tx_seg_frames p + n
            then tx_seg_index q = tx_seg_index p + 1 \<and>
                 (if 0 \<le> sn_fd (tw_next env) \<and> sn_header_written (tw_next env) = 44 \<and> sn_truncate_ok (tw_next env)
                  then seg_holds [] q \<and> tx_seg_path q \<noteq> tx_seg_path p else tx_seg_fd q < 0)
            else seg_holds (rec @ data) q)"
  using assms(2)
proof (cases rule: termux_write_cases)
  case (whole r data)
  have r: "r = p" using whole(1) assms(1) by (simp add: writable_def seg_holds_def)
  define c where "c = counted env n (append_bytes data p)"
  have h: "seg_holds (rec @ data) c"
    using assms(1) append_file [OF assms(1), of data] whole(6)
    by (simp add: c_def seg_holds_def add_mult_distrib)
  have f: "tx_files c (tx_seg_path p) = header_of p @ (rec @ data) @ replicate (window_bytes p - length (rec @ data)) 0"
    using append_file(1) [OF assms(1), of data] by (simp add: c_def)
  have q: "q = (if 0 < tx_seg_total_frames p \<and> tx_seg_total_frames p \<le> tx_seg_frames p + n
      then snd (open_next_segment_locked (tw_next env) c) else c)"
    using whole(7) by (simp add: r recorded_counted c_def)
  have "tx_seg_path p \<noteq> pool_path (tx_cache_dir c) (unat (tx_seg_index c + 1) mod kPoolSize)"
    using assms(1) next_slot_differs [of "tx_seg_index p"] by (simp add: seg_holds_def c_def)
  note kept = open_next_other_file [OF this, of "tw_next env"]
  have i: "tx_seg_index (snd (open_next_segment_locked (tw_next env) c)) = tx_seg_index p + 1"
    using open_next_keeps [of "tw_next env" c] by (cases "open_next_segment_locked (tw_next env) c") (simp add: c_def)
  have o: "if 0 \<le> sn_fd (tw_next env) \<and> sn_header_written (tw_next env) = 44 \<and> sn_truncate_ok (tw_next env)
    then seg_holds [] (snd (open_next_segment_locked (tw_next env) c)) \<and> tx_seg_path (snd (open_next_segment_locked (tw_next env) c)) \<noteq> tx_seg_path p
    else tx_seg_fd (snd (open_next_segment_locked (tw_next env) c)) < 0"
    using open_next_result [of "tw_next env" c] assms(1) next_slot_differs [of "tx_seg_index p"]
    by (auto simp: c_def seg_holds_def split: if_splits)
  have content: "tx_files q (tx_seg_path p) = header_of p @ (rec @ data) @ replicate (window_bytes p - length (rec @ data)) 0"
    using f kept by (simp add: q)
  have len: "le_decode (slice 40 4 (tx_files q (tx_seg_path p))) = window_bytes p mod 2 ^ 32"
    unfolding content by (rule declared_length)
  show ?thesis using whole(5,6) h content len i o by (intro exI [of _ data]) (simp add: q)
qed (use assms(3) in auto)

text \<open>
  A device at 10 frames a second with segments of two seconds: 20 frames, of which the first 6 are the
  prefill. A write of 10 frames of mono audio takes one second.
\<close>

definition slow_config :: audio_config where
  "slow_config = \<lparr>ac_sample_rate = 10, ac_channels = 1, ac_format = PCM_S16LE, ac_frames_per_packet = 10\<rparr>"

definition slow_player :: termux_player where
  "slow_player = TermuxApiPlayer\<lparr>tx_config := slow_config, tx_segment_ms := 2000, tx_cache_dir := ''/d'', tx_is_open := True\<rparr>"

definition good_segment :: "u64 \<Rightarrow> seg_env" where
  "good_segment now = \<lparr>sn_fd = 5, sn_header_written = 44, sn_truncate_ok = True, sn_now = now\<rparr>"

definition write_at_time :: "u64 \<Rightarrow> tx_write_env" where
  "write_at_time now = \<lparr>tw_first = good_segment now, tw_events = [WriteTook 7, WriteEintr, WriteTook 13], tw_discard_now = now,
     tw_gate_now = now + 1000, tw_next = good_segment (now + 1000)\<rparr>"

definition second_of_audio :: "i16 list" where
  "second_of_audio = [1, 2, 3, 4, 5, 6, 7, 8, 9, 10]"

definition slow_recording :: termux_player where
  "slow_recording = snd (open_next_segment_locked (good_segment 1000) slow_player)"

lemma segment_write_took:
  "bs \<noteq> [] \<Longrightarrow> 0 < n \<Longrightarrow>
   segment_write (WriteTook n # es) bs = map_option (\<lambda>(ok, out). (ok, take n bs @ out)) (segment_write es (drop n bs))"
  "bs \<noteq> [] \<Longrightarrow> segment_write (WriteEintr # es) bs = segment_write es bs"
  by (cases bs; simp)+

lemma twenty_bytes:
  assumes "length bs = 20"
  shows "segment_write (tw_events (write_at_time now)) bs = Some (True, bs)"
proof -
  have "bs \<noteq> []" "drop 7 bs \<noteq> []" "drop 13 (drop 7 bs) = []" using assms by auto
  then show ?thesis by (simp add: write_at_time_def segment_write_took)
qed

lemma slow_write:
  assumes "tx_config p = slow_config" "tx_is_open p" "0 \<le> tx_seg_fd p"
  shows "termux_write (write_at_time now) second_of_audio 10 p =
           Some (10, recorded (write_at_time now) 10 (append_bytes (pcm_bytes second_of_audio) p))"
proof -
  have "length (pcm_bytes second_of_audio) = 20" by (simp add: second_of_audio_def)
  then show ?thesis using assms
    by (simp add: termux_write_def slow_config_def file_bytes_per_frame_def bytes_per_frame_def bytes_per_sample_def is_float_stream_def
        converts_def twenty_bytes Let_def)
qed

lemma slow_recording_open: "open_next_segment_locked (good_segment 1000) slow_player = (True, slow_recording)"
  by (simp add: slow_recording_def open_next_segment_locked_def good_segment_def Let_def)

theorem segment_recording_exact_witness:
  "\<exists>q. termux_write (write_at_time 1000) second_of_audio 10 slow_recording = Some (10, q) \<and>
       tx_files q (tx_seg_path slow_recording) =
         header_of slow_recording @ pcm_bytes second_of_audio @ replicate 20 0 \<and> seg_holds (pcm_bytes second_of_audio) q"
proof -
  have h: "seg_holds [] slow_recording" using seg_holds_open [OF slow_recording_open] .
  have c: "tx_config slow_recording = slow_config" "tx_is_open slow_recording" "tx_segment_ms slow_recording = 2000"
    using open_next_keeps [OF slow_recording_open] by (simp_all add: slow_player_def)
  have fd: "tx_seg_fd slow_recording = 5" "tx_seg_frames slow_recording = 0"
    by (simp_all add: slow_recording_def open_next_segment_locked_def good_segment_def Let_def)
  have b: "file_bytes_per_frame slow_config = 2" "bytes_per_frame slow_config = 2" "\<not> converts slow_config"
    "segment_frames 2000 slow_config = 20"
    by (simp_all add: slow_config_def file_bytes_per_frame_def bytes_per_frame_def bytes_per_sample_def is_float_stream_def converts_def segment_frames_def)
  obtain q where q: "termux_write (write_at_time 1000) second_of_audio 10 slow_recording = Some (10, q)"
    using slow_write [OF c(1,2)] fd by simp
  have t: "tx_seg_total_frames slow_recording = 20" using h by (simp add: seg_holds_def c b)
  from segment_recording_exact [OF h q] have "\<exists>data. frame_data slow_config second_of_audio 10 = Some data \<and>
      tx_files q (tx_seg_path slow_recording) = header_of slow_recording @ data @ replicate (40 - length data) 0 \<and> seg_holds data q"
    by (auto simp: c b fd t)
  moreover have "frame_data slow_config second_of_audio 10 = Some (pcm_bytes second_of_audio)"
    by (simp add: frame_data_def b second_of_audio_def)
  ultimately show ?thesis using q by (simp add: second_of_audio_def)
qed

section \<open>When a file is used again\<close>

text \<open>
  A confirmed play of another file empties the file of the play confirmed before it. \<open>undisturbed f ss p\<close>:
  no step of the run does this to \<open>f\<close>, and none opens the player, which clears the pool.
\<close>

fun empties :: "string \<Rightarrow> tx_step \<Rightarrow> termux_player \<Rightarrow> bool" where
  "empties f (TxFinish ctx env now) p \<longleftrightarrow>
     (case tx_job p of
        None \<Rightarrow> False
      | Some job \<Rightarrow>
          (case media_command (tx_result_channel p) ctx env ''play'' (pg_path job) of
             None \<Rightarrow> False
           | Some (out, _) \<Rightarrow> mo_delivered out \<and> mo_result_received out \<and> tx_prev_path p = f \<and> pg_path job \<noteq> f))"
| "empties f (TxOpen env config name) p \<longleftrightarrow> True"
| "empties f _ p \<longleftrightarrow> False"

fun undisturbed :: "string \<Rightarrow> tx_step list \<Rightarrow> termux_player \<Rightarrow> bool" where
  "undisturbed f [] p \<longleftrightarrow> True"
| "undisturbed f (s # ss) p \<longleftrightarrow> \<not> empties f s p \<and> (case tx_do s p of None \<Rightarrow> True | Some q \<Rightarrow> undisturbed f ss q)"

text \<open>
  \<open>rec_ok p\<close>: the path of an open segment is that of its number. \<open>touched p m\<close>: the slots that are written
  while \<open>m\<close> further segments are opened.
\<close>

definition rec_ok :: "termux_player \<Rightarrow> bool" where
  "rec_ok p \<longleftrightarrow> (0 \<le> tx_seg_fd p \<longrightarrow> tx_seg_path p = pool_path (tx_cache_dir p) (unat (tx_seg_index p) mod kPoolSize))"

definition touched :: "termux_player \<Rightarrow> nat \<Rightarrow> string set" where
  "touched p m = (\<lambda>j. pool_path (tx_cache_dir p) ((unat (tx_seg_index p) + j) mod kPoolSize)) ` {(if 0 \<le> tx_seg_fd p then 0 else 1)..m}"

text \<open>One way of going on: \<open>m\<close> segments later only the files in between have changed.\<close>

definition rec_later :: "string \<Rightarrow> termux_player \<Rightarrow> termux_player \<Rightarrow> bool" where
  "rec_later f p q \<longleftrightarrow>
     (\<exists>m. tx_opened q = tx_opened p + m \<and> tx_seg_index q = tx_seg_index p + word_of_nat m \<and> tx_cache_dir q = tx_cache_dir p \<and>
          rec_ok q \<and> (m = 0 \<and> 0 \<le> tx_seg_fd q \<longrightarrow> 0 \<le> tx_seg_fd p) \<and> (f \<notin> touched p m \<longrightarrow> tx_files q f = tx_files p f))"

lemma rec_later_trans:
  assumes "rec_later f p q" and "rec_later f q r"
  shows "rec_later f p r"
proof -
  from assms obtain m k where m: "tx_opened q = tx_opened p + m" "tx_seg_index q = tx_seg_index p + word_of_nat m" "tx_cache_dir q = tx_cache_dir p"
      "m = 0 \<and> 0 \<le> tx_seg_fd q \<longrightarrow> 0 \<le> tx_seg_fd p" "f \<notin> touched p m \<longrightarrow> tx_files q f = tx_files p f"
    and k: "tx_opened r = tx_opened q + k" "tx_seg_index r = tx_seg_index q + word_of_nat k" "tx_cache_dir r = tx_cache_dir q" "rec_ok r"
      "k = 0 \<and> 0 \<le> tx_seg_fd r \<longrightarrow> 0 \<le> tx_seg_fd q" "f \<notin> touched q k \<longrightarrow> tx_files r f = tx_files q f"
    unfolding rec_later_def by blast
  have "touched p m \<subseteq> touched p (m + k)" by (auto simp: touched_def)
  moreover have "touched q k \<subseteq> touched p (m + k)"
  proof
    fix g assume "g \<in> touched q k"
    then obtain j where j: "g = pool_path (tx_cache_dir q) ((unat (tx_seg_index q) + j) mod kPoolSize)" "j \<le> k" "0 \<le> tx_seg_fd q \<or> 1 \<le> j"
      by (auto simp: touched_def split: if_splits)
    have "(unat (tx_seg_index q) + j) mod kPoolSize = (unat (tx_seg_index p) + (m + j)) mod kPoolSize"
      using pool_slot_add [of "tx_seg_index p" m] m(2) by (metis add.assoc mod_add_left_eq)
    moreover have "0 \<le> tx_seg_fd p \<or> 1 \<le> m + j" using m(4) j(3) by auto
    ultimately show "g \<in> touched p (m + k)" using j m(3) unfolding touched_def by (intro image_eqI [of _ _ "m + j"]) auto
  qed
  ultimately have "f \<notin> touched p (m + k) \<longrightarrow> tx_files r f = tx_files p f" using m(5) k(6) by (metis subsetD)
  moreover have "m + k = 0 \<and> 0 \<le> tx_seg_fd r \<longrightarrow> 0 \<le> tx_seg_fd p" using m(4) k(5) by simp
  ultimately show ?thesis unfolding rec_later_def using m k by (intro exI [of _ "m + k"]) (simp add: add.assoc)
qed

lemma rec_later_refl: "rec_ok p \<Longrightarrow> rec_later f p p"
  unfolding rec_later_def by (intro exI [of _ 0]) simp

lemma rec_later_same:
  assumes "rec_ok p" "tx_files q f = tx_files p f" "tx_opened q = tx_opened p" "tx_seg_index q = tx_seg_index p" "tx_cache_dir q = tx_cache_dir p"
    "tx_seg_fd q < 0 \<or> tx_seg_fd q = tx_seg_fd p \<and> tx_seg_path q = tx_seg_path p"
  shows "rec_later f p q"
  unfolding rec_later_def using assms by (intro exI [of _ 0]) (auto simp: rec_ok_def)

lemma rec_later_open_next:
  shows "rec_later f p (snd (open_next_segment_locked env p))"
proof -
  define q where "q = snd (open_next_segment_locked env p)"
  have s: "unat (tx_seg_index p + 1) mod kPoolSize = (unat (tx_seg_index p) + 1) mod kPoolSize"
    using pool_slot_add [of "tx_seg_index p" 1] by simp
  have "pool_path (tx_cache_dir p) (unat (tx_seg_index p + 1) mod kPoolSize) \<in> touched p 1"
    unfolding s touched_def by (intro image_eqI [of _ _ 1]) auto
  then have "f \<notin> touched p 1 \<longrightarrow> tx_files q f = tx_files p f"
    unfolding q_def by (metis open_next_other_file)
  moreover have "rec_ok q" by (simp add: q_def rec_ok_def open_next_segment_locked_def Let_def)
  moreover have "tx_opened q = tx_opened p + 1" "tx_seg_index q = tx_seg_index p + 1" "tx_cache_dir q = tx_cache_dir p"
    using open_next_keeps [of env p "fst (open_next_segment_locked env p)" q] by (simp_all add: q_def)
  ultimately show ?thesis unfolding rec_later_def q_def [symmetric] by (intro exI [of _ 1]) simp
qed

lemma rec_later_append:
  assumes "rec_ok p" and "0 \<le> tx_seg_fd p"
  shows "rec_later f p (append_bytes out p)"
proof -
  have "tx_seg_path p \<in> touched p 0" using assms by (simp add: rec_ok_def touched_def)
  then have "f \<notin> touched p 0 \<longrightarrow> tx_files (append_bytes out p) f = tx_files p f" by (auto simp: append_bytes_def)
  then show ?thesis unfolding rec_later_def using assms by (intro exI [of _ 0]) (simp add: rec_ok_def)
qed

lemma rec_later_ok: "rec_later f p q \<Longrightarrow> rec_ok q"
  by (auto simp: rec_later_def)

lemma rec_later_recorded:
  assumes "rec_ok p" and "0 \<le> tx_seg_fd p"
  shows "rec_later f p (recorded env n p)"
proof -
  have c: "rec_later f p (counted env n p)" by (rule rec_later_same [OF assms(1)]) simp_all
  then show ?thesis using rec_later_trans [OF c rec_later_open_next] by (simp add: recorded_counted)
qed

lemma rec_later_discard: "rec_ok p \<Longrightarrow> rec_later f p (discard_segment_locked now p)"
  by (rule rec_later_same) (auto simp: discard_segment_locked_def)

lemma rec_later_writable:
  assumes "rec_ok p" and "writable env p r"
  shows "rec_later f p r" "0 \<le> tx_seg_fd r"
proof -
  show "rec_later f p r" using assms rec_later_refl [OF assms(1)] rec_later_open_next [of f p env] by (auto simp: writable_def split: if_splits)
  show "0 \<le> tx_seg_fd r" using assms(2) seg_holds_open by (auto simp: writable_def seg_holds_def split: if_splits)
qed

lemma rec_later_write:
  assumes "rec_ok p" and "termux_write env pcm n p = Some (k, q)"
  shows "rec_later f p q"
  using assms(2)
proof (cases rule: termux_write_cases)
  case idle
  then show ?thesis using rec_later_refl [OF assms(1)] by simp
next
  case unopened
  then show ?thesis using rec_later_open_next [of f p "tw_first env"] by simp
next
  case (failed r out)
  note r = rec_later_writable [OF assms(1) failed(1)]
  note a = rec_later_append [OF rec_later_ok [OF r(1)] r(2), of f out]
  show ?thesis unfolding failed(4)
    using rec_later_trans [OF rec_later_trans [OF r(1) a] rec_later_discard [OF rec_later_ok [OF a]]] .
next
  case (whole r data)
  note r = rec_later_writable [OF assms(1) whole(1)]
  note a = rec_later_append [OF rec_later_ok [OF r(1)] r(2), of f data]
  show ?thesis unfolding whole(7)
    by (rule rec_later_trans [OF rec_later_trans [OF r(1) a] rec_later_recorded [OF rec_later_ok [OF a]]]) (simp add: r(2))
qed

lemma rec_later_flush:
  assumes "rec_ok p"
  shows "rec_later f p (termux_flush now p)"
proof -
  have "rec_later f p (p\<lparr>tx_pending := x\<rparr>)" for x by (rule rec_later_same [OF assms]) simp_all
  moreover have "rec_later f p ((discard_segment_locked now p)\<lparr>tx_pending := x\<rparr>)" for x
    by (rule rec_later_trans [OF rec_later_discard [OF assms]], rule rec_later_same)
      (auto simp: rec_later_ok [OF rec_later_discard [OF assms]])
  ultimately show ?thesis using rec_later_refl [OF assms] by (simp add: termux_flush_def Let_def)
qed

lemma rec_later_close:
  assumes "rec_ok p"
  shows "rec_later f p (termux_close p)"
  by (rule rec_later_same [OF assms]) (auto simp: termux_close_def)

lemma rec_later_restart: "rec_ok p \<Longrightarrow> rec_later f p (restart_at_live now p)"
  using rec_later_refl rec_later_discard by (simp add: restart_at_live_def)

lemma rec_later_finish:
  assumes "rec_ok p" and "\<not> (mo_delivered out \<and> mo_result_received out \<and> tx_prev_path p = f \<and> pg_path job \<noteq> f)"
  shows "rec_later f p (issuer_finish out now job p)"
proof -
  define p1 where "p1 = p\<lparr>tx_job := None\<rparr>"
  define p2 where "p2 = p1\<lparr>tx_issue_wall_ms := now, tx_issued_frames := pg_frames job\<rparr>"
  have p1: "rec_later f p p1" and p2: "rec_later f p p2" by (rule rec_later_same [OF assms(1)]; simp add: p1_def p2_def)+
  have "rec_later f p2 (play_unconfirmed out p2)"
    by (rule rec_later_same [OF rec_later_ok [OF p2]]) (simp_all add: play_unconfirmed_def Let_def)
  moreover have "rec_later f p2 (play_confirmed out job p2)" if "mo_delivered out" "mo_result_received out"
    by (rule rec_later_same [OF rec_later_ok [OF p2]]) (use that assms(2) in \<open>auto simp: play_confirmed_def p2_def p1_def\<close>)
  ultimately show ?thesis using rec_later_trans [OF p2] rec_later_trans [OF p1 rec_later_restart [OF rec_later_ok [OF p1]]]
    by (simp add: issuer_finish_def p1_def p2_def Let_def)
qed

lemma rec_later_watchdog:
  assumes "rec_ok p"
  shows "rec_later f p (watchdog_step info now p)"
proof -
  have "rec_later f p (p\<lparr>tx_last_recover_ms := now\<rparr>)" by (rule rec_later_same [OF assms]) simp_all
  then show ?thesis using rec_later_refl [OF assms] rec_later_trans [OF _ rec_later_restart [OF rec_later_ok]]
    by (auto simp: watchdog_step_def)
qed

lemma rec_later_step:
  assumes "rec_ok p" and "tx_do s p = Some q" and "\<not> empties f s p"
  shows "rec_later f p q"
proof (cases s)
  case (TxWrite env pcm n)
  then show ?thesis using assms(2) rec_later_write [OF assms(1)] by auto
next
  case TxTake
  have "rec_later f p (issuer_take p)" by (rule rec_later_same [OF assms(1)]) (simp_all add: issuer_take_def)
  then show ?thesis using assms(2) TxTake by (auto split: if_splits)
next
  case (TxFinish ctx env now)
  then show ?thesis using assms(2,3) rec_later_finish [OF assms(1)] by (auto split: option.splits)
qed (use assms rec_later_close rec_later_flush rec_later_watchdog in \<open>auto split: if_splits\<close>)

lemma tx_run_later: "rec_ok p \<Longrightarrow> tx_run ss p = Some q \<Longrightarrow> undisturbed f ss p \<Longrightarrow> rec_later f p q"
proof (induction ss arbitrary: p)
  case Nil
  then show ?case by (simp add: rec_later_refl)
next
  case (Cons s ss)
  then obtain r where r: "tx_do s p = Some r" "tx_run ss r = Some q" by (auto simp: bind_eq_Some_conv)
  then have "rec_later f p r" using Cons.prems rec_later_step by auto
  then show ?case using rec_later_trans Cons.IH [OF _ r(2)] rec_later_ok Cons.prems(3) r(1) by fastforce
qed

text \<open>
  Claim C15: the file of a segment that the recorder has left is not written again before the recorder
  has come round the pool. Take the file of the segment that is \<open>k\<close> places ahead in the pool, from 1 to 3 (3
  is the segment before the open one; with no segment open also 4, the last one). Through any writes,
  flushes, play commands taken and finished, turns of the watchdog and a close of the player, whichever of
  them fails, as long as fewer than \<open>k\<close> further segments have been opened, the file keeps its
  contents, unless the app has confirmed the play of another file after the play of this one, upon
  which the issuer empties it.
\<close>

theorem segment_file_kept:
  assumes "termux_reach p" and "tx_run ss p = Some q"
    and "f = pool_path (tx_cache_dir p) ((unat (tx_seg_index p) + k) mod kPoolSize)"
    and "1 \<le> k" and "k \<le> 3 \<or> k = 4 \<and> tx_seg_fd p < 0" and "tx_opened q < tx_opened p + k" and "undisturbed f ss p"
  shows "tx_files q f = tx_files p f"
proof -
  have "rec_ok p" using reach_tx_inv [OF assms(1)] by (simp add: rec_ok_def tx_inv_def)
  from tx_run_later [OF this assms(2,7)] obtain m where m: "tx_opened q = tx_opened p + m"
    "f \<notin> touched p m \<longrightarrow> tx_files q f = tx_files p f" unfolding rec_later_def by blast
  have "(unat (tx_seg_index p) + j) mod kPoolSize \<noteq> (unat (tx_seg_index p) + k) mod kPoolSize"
    if "j < k" "0 \<le> tx_seg_fd p \<or> 1 \<le> j" for j
    using that assms(5) mod_add_cancel_left [of "unat (tx_seg_index p)" j kPoolSize k] by (auto simp: kPoolSize_def)
  moreover have "m < k" using assms(6) m(1) by simp
  ultimately have "f \<notin> touched p m" unfolding touched_def assms(3) by (auto split: if_splits) (metis le_less_trans)+
  with m(2) show ?thesis by blast
qed

lemma slow_first_write:
  assumes "tx_seg_fd p < 0" "tx_is_open p" "tx_config p = slow_config"
    and r: "open_next_segment_locked (good_segment now) p = (True, r)"
  shows "termux_write (write_at_time now) second_of_audio 10 p =
     Some (10, recorded (write_at_time now) 10 (append_bytes (pcm_bytes second_of_audio) r))"
proof -
  have "length (pcm_bytes second_of_audio) = 20" by (simp add: second_of_audio_def)
  moreover have "tx_config r = slow_config" using open_next_keeps [OF r] assms(3) by simp
  moreover have "tw_first (write_at_time now) = good_segment now" by (simp add: write_at_time_def)
  ultimately show ?thesis using assms
    by (simp add: termux_write_def slow_config_def file_bytes_per_frame_def bytes_per_frame_def bytes_per_sample_def
        is_float_stream_def converts_def twenty_bytes Let_def)
qed

lemma good_segment_opens: "\<exists>r. open_next_segment_locked (good_segment now) p = (True, r)"
  by (simp add: open_next_segment_locked_def good_segment_def Let_def)

section \<open>The result channel\<close>

lemma blind_command: "media_command False ctx env a f = Some (out, rest) \<Longrightarrow> \<not> mo_result_received out"
  by (auto simp: media_command_def delivery_only_def no_outcome_def split: prod.splits)

lemma channel_open_next: "open_next_segment_locked env p = (ok, r) \<Longrightarrow> tx_result_channel r = tx_result_channel p"
  by (drule open_next_keeps) simp

lemma channel_writable: "writable env p r \<Longrightarrow> tx_result_channel r = tx_result_channel p"
  by (auto simp: writable_def dest: channel_open_next split: if_splits)

lemma channel_recorded: "tx_result_channel (recorded env n p) = tx_result_channel p"
  using channel_open_next [OF surjective_pairing, of "tw_next env" "counted env n p"] by (simp add: recorded_counted)

lemma channel_write: "termux_write env pcm n p = Some (k, q) \<Longrightarrow> tx_result_channel q = tx_result_channel p"
  by (elim termux_write_cases)
    (auto simp: channel_recorded discard_segment_locked_def dest: channel_open_next channel_writable)

lemma channel_keeps [simp]:
  "tx_result_channel (termux_flush now p) = tx_result_channel p" "tx_result_channel (termux_close p) = tx_result_channel p"
  "tx_result_channel (issuer_take p) = tx_result_channel p" "tx_result_channel (restart_at_live now p) = tx_result_channel p"
  by (simp_all add: termux_flush_def discard_segment_locked_def termux_close_def issuer_take_def restart_at_live_def Let_def)

lemma channel_watchdog [simp]: "tx_result_channel (watchdog_step info now p) = tx_result_channel p"
  by (simp add: watchdog_step_def)

lemma blind_step:
  assumes "\<not> tx_result_channel p" and "tx_do s p = Some q"
  shows "\<not> tx_result_channel q"
proof (cases s)
  case (TxOpen env config name)
  then show ?thesis using assms blind_command
    by (auto simp: termux_open_def after_probe_def Let_def split: if_splits prod.splits option.splits)
next
  case (TxWrite env pcm n)
  then show ?thesis using assms channel_write by auto
next
  case (TxFinish ctx env now)
  then show ?thesis using assms
    by (auto simp: issuer_finish_def play_confirmed_def play_unconfirmed_def Let_def split: option.splits if_splits)
qed (use assms in \<open>auto split: if_splits\<close>)

text \<open>
  A player that has gone blind stays blind. Once the app has failed twice to answer and the
  result channel is given up, nothing brings it back, not even closing and opening the player again:
  the probe of the new session is sent without a result channel, so it never gets a result.
\<close>

theorem blind_mode_is_permanent:
  assumes "\<not> tx_result_channel p" and "tx_run ss p = Some q"
  shows "\<not> tx_result_channel q"
  using assms by (induction ss arbitrary: p) (auto simp: bind_eq_Some_conv dest: blind_step)

theorem blind_mode_is_permanent_witness:
  "\<exists>q. tx_run [TxFlush 0, TxClose] (TermuxApiPlayer\<lparr>tx_result_channel := False\<rparr>) = Some q \<and> \<not> tx_result_channel q"
proof -
  obtain q where q: "tx_run [TxFlush 0, TxClose] (TermuxApiPlayer\<lparr>tx_result_channel := False\<rparr>) = Some q"
    by (simp add: termux_flush_def discard_segment_locked_def TermuxApiPlayer_def)
  with blind_mode_is_permanent [OF _ q] show ?thesis by simp
qed

text \<open>A device without a home directory, whose app answers the probe.\<close>

definition sample_open :: tx_open_env where
  "sample_open =
     \<lparr>to_sys = \<lparr>sys_getenv = (\<lambda>_. None), sys_getuid = 1000, sys_geteuid = 1000, sys_stat = (\<lambda>_. None),
                sys_read_file = (\<lambda>_. None), sys_list_dir = (\<lambda>_. None)\<rparr>,
      to_mkdir_ok = True, to_writable = (\<lambda>_. True), to_creatable = (\<lambda>_. True), to_media = prompt_media\<rparr>"

lemma sample_open_opens:
  "\<exists>q. termux_open sample_open slow_config ''termux'' TermuxApiPlayer = Some (True, q) \<and> tx_is_open q \<and> tx_config q = slow_config \<and> tx_seg_fd q < 0"
proof -
  obtain r where r: "media_command True [] prompt_media ''info'' [] = Some r" "mo_delivered (fst r)"
    by (simp add: prompt_media_def media_eval Let_def to_string.simps numeral_2_eq_2)
  have c: "load_app_context (to_sys sample_open) d = []" for d
    by (simp add: sample_open_def load_app_context_def)
  have e: "fst (ensure_pool (to_writable sample_open) (to_creatable sample_open) fs)" for fs
    by (induction fs) (simp_all add: sample_open_def)
  have m: "to_mkdir_ok sample_open" "to_media sample_open = prompt_media" by (simp_all add: sample_open_def)
  show ?thesis using r e
    by (simp add: termux_open_def Let_def m c TermuxApiPlayer_def after_probe_def open_config_def slow_config_def case_prod_unfold)
qed

theorem termux_session_invariant_witness:
  "\<exists>q. tx_run [TxOpen sample_open slow_config ''termux'', TxWrite (write_at_time 1000) second_of_audio 10] TermuxApiPlayer = Some q \<and>
       tx_inv q \<and> tx_seg_fd q = 5"
proof -
  obtain p where p: "termux_open sample_open slow_config ''termux'' TermuxApiPlayer = Some (True, p)"
    "tx_is_open p" "tx_config p = slow_config" "tx_seg_fd p < 0" using sample_open_opens by blast
  obtain r where r: "open_next_segment_locked (good_segment 1000) p = (True, r)" using good_segment_opens by blast
  define q where "q = recorded (write_at_time 1000) 10 (append_bytes (pcm_bytes second_of_audio) r)"
  have run: "tx_run [TxOpen sample_open slow_config ''termux'', TxWrite (write_at_time 1000) second_of_audio 10] TermuxApiPlayer = Some q"
    using p slow_first_write [OF p(4,2,3) r] by (simp add: q_def TermuxApiPlayer_def)
  have "tx_seg_fd (recorded (write_at_time 1000) 10 x) = 5" if "tx_seg_fd x = 5" for x
    using that by (simp add: recorded_counted open_next_segment_locked_def write_at_time_def good_segment_def Let_def)
  moreover have "tx_seg_fd r = 5" using r by (auto simp: open_next_segment_locked_def good_segment_def Let_def)
  ultimately have "tx_seg_fd q = 5" by (simp add: q_def)
  with termux_session_invariant [OF tx_run_reach [OF Start run]] run show ?thesis by blast
qed

text \<open>A second of audio into an open segment of two seconds, and the first second after the opening.\<close>

definition slow_state :: "nat \<Rightarrow> u64 \<Rightarrow> nat \<Rightarrow> termux_player \<Rightarrow> bool" where
  "slow_state frames idx opened p \<longleftrightarrow>
     tx_config p = slow_config \<and> tx_is_open p \<and> tx_seg_fd p = 5 \<and> tx_seg_total_frames p = 20 \<and> tx_segment_ms p = 2000 \<and>
     tx_seg_frames p = frames \<and> tx_seg_index p = idx \<and> tx_opened p = opened"

lemma slow_segment_frames: "segment_frames 2000 slow_config = 20"
  by (simp add: slow_config_def segment_frames_def)

lemma slow_open_next:
  assumes "tx_config p = slow_config" "tx_is_open p" "tx_segment_ms p = 2000"
  shows "slow_state 0 (tx_seg_index p + 1) (tx_opened p + 1) (snd (open_next_segment_locked (good_segment now) p))"
  using assms by (simp add: slow_state_def open_next_segment_locked_def good_segment_def slow_segment_frames Let_def)

lemma slow_step:
  assumes "slow_state frames idx opened p"
  shows "\<exists>q. termux_write (write_at_time now) second_of_audio 10 p = Some (10, q) \<and> tx_cache_dir q = tx_cache_dir p \<and>
             (if 20 \<le> frames + 10 then slow_state 0 (idx + 1) (opened + 1) q else slow_state (frames + 10) idx opened q)"
proof -
  define c where "c = counted (write_at_time now) 10 (append_bytes (pcm_bytes second_of_audio) p)"
  have c: "tx_config c = slow_config" "tx_is_open c" "tx_segment_ms c = 2000" "tx_seg_index c = idx" "tx_opened c = opened"
    "tx_cache_dir c = tx_cache_dir p" "tx_seg_fd c = 5" "tx_seg_total_frames c = 20" "tx_seg_frames c = frames + 10"
    using assms by (simp_all add: c_def slow_state_def)
  have n: "tw_next (write_at_time now) = good_segment (now + 1000)" by (simp add: write_at_time_def)
  have "tx_cache_dir (snd (open_next_segment_locked (good_segment (now + 1000)) c)) = tx_cache_dir p"
    using open_next_keeps [of "good_segment (now + 1000)" c] c(6) by (metis prod.collapse)
  then show ?thesis using slow_write [of p now] slow_open_next [OF c(1-3), of "now + 1000"] assms c
    by (auto simp: slow_state_def recorded_counted n c_def [symmetric])
qed

lemma two_second_segments:
  "\<exists>q. termux_open sample_open slow_config ''termux:2000'' TermuxApiPlayer = Some (True, q) \<and> tx_is_open q \<and> tx_config q = slow_config \<and>
       tx_seg_fd q < 0 \<and> tx_segment_ms q = 2000 \<and> tx_seg_index q = 0 \<and> tx_opened q = 0"
proof -
  obtain r where r: "media_command True [] prompt_media ''info'' [] = Some r" "mo_delivered (fst r)"
    by (simp add: prompt_media_def media_eval Let_def to_string.simps numeral_2_eq_2)
  have c: "load_app_context (to_sys sample_open) d = []" for d
    by (simp add: sample_open_def load_app_context_def)
  have e: "fst (ensure_pool (to_writable sample_open) (to_creatable sample_open) fs)" for fs
    by (induction fs) (simp_all add: sample_open_def)
  have m: "to_mkdir_ok sample_open" "to_media sample_open = prompt_media" by (simp_all add: sample_open_def)
  have s: "parse_segment_ms ''termux:2000'' = 2000" by code_simp
  show ?thesis using r e
    by (simp add: termux_open_def Let_def m c s TermuxApiPlayer_def after_probe_def open_config_def slow_config_def case_prod_unfold)
qed

text \<open>
  The player records two seconds, which fill the first segment, so that it rotates to the second; one
  second later the first one is as it was.
\<close>

theorem segment_file_kept_witness:
  "\<exists>p q. tx_run [TxOpen sample_open slow_config ''termux:2000'', TxWrite (write_at_time 1000) second_of_audio 10,
                 TxWrite (write_at_time 2000) second_of_audio 10] TermuxApiPlayer = Some p \<and>
         tx_seg_index p = 2 \<and> 0 \<le> tx_seg_fd p \<and> tx_run [TxWrite (write_at_time 3000) second_of_audio 10, TxFlush 4000] p = Some q \<and>
         tx_files q (pool_path (tx_cache_dir p) 1) = tx_files p (pool_path (tx_cache_dir p) 1)"
proof -
  obtain p0 where p0: "termux_open sample_open slow_config ''termux:2000'' TermuxApiPlayer = Some (True, p0)"
    "tx_is_open p0" "tx_config p0 = slow_config" "tx_seg_fd p0 < 0" "tx_segment_ms p0 = 2000" "tx_seg_index p0 = 0" "tx_opened p0 = 0"
    using two_second_segments by blast
  define p1 where "p1 = recorded (write_at_time 1000) 10 (append_bytes (pcm_bytes second_of_audio) (snd (open_next_segment_locked (good_segment 1000) p0)))"
  obtain r where r: "open_next_segment_locked (good_segment 1000) p0 = (True, r)" using good_segment_opens by blast
  have "slow_state 0 1 1 r" using slow_open_next [OF p0(3,2,5), of 1000] p0(6,7) r by simp
  then have p1: "termux_write (write_at_time 1000) second_of_audio 10 p0 = Some (10, p1)" "slow_state 10 1 1 p1"
    using slow_first_write [OF p0(4,2,3) r] r by (auto simp: p1_def slow_state_def recorded_counted)
  obtain p where p: "termux_write (write_at_time 2000) second_of_audio 10 p1 = Some (10, p)" "slow_state 0 2 2 p"
    using slow_step [OF p1(2), of 2000] by (auto simp: numeral_2_eq_2)
  obtain p3 where p3: "termux_write (write_at_time 3000) second_of_audio 10 p = Some (10, p3)" "slow_state 10 2 2 p3"
    using slow_step [OF p(2), of 3000] by auto
  have run: "tx_run [TxOpen sample_open slow_config ''termux:2000'', TxWrite (write_at_time 1000) second_of_audio 10,
      TxWrite (write_at_time 2000) second_of_audio 10] TermuxApiPlayer = Some p"
    using p0(1) p1(1) p(1) by (simp add: TermuxApiPlayer_def)
  have run2: "tx_run [TxWrite (write_at_time 3000) second_of_audio 10, TxFlush 4000] p = Some (termux_flush 4000 p3)" using p3(1) by simp
  have "tx_opened (termux_flush 4000 p3) < tx_opened p + 3"
    using p(2) p3(2) by (simp add: slow_state_def termux_flush_def discard_segment_locked_def Let_def)
  moreover have "pool_path (tx_cache_dir p) 1 = pool_path (tx_cache_dir p) ((unat (tx_seg_index p) + 3) mod kPoolSize)"
    using p(2) by (simp add: slow_state_def kPoolSize_def)
  ultimately have "tx_files (termux_flush 4000 p3) (pool_path (tx_cache_dir p) 1) = tx_files p (pool_path (tx_cache_dir p) 1)"
    using segment_file_kept [OF tx_run_reach [OF Start run] run2] p3(1) by simp
  then show ?thesis using run run2 p(2) by (auto simp: slow_state_def)
qed

end
