(* ===== verification/Player_Open.thy ===== *)
theory Player_Open
  imports Device_Open Client
begin

text \<open>
  \<open>AudioRouterClient::open_player_with_timeout\<close> of \<^verbatim>\<open>src/client/client.cpp\<close>: the end of \<open>start\<close>, which puts the
  supervisor of theory \<open>Device_Open\<close> to work and waits for a bounded time. The lemmas show that the name it logs is always
  that of a device in the slot, and what its three reports mean for the state the threads are in.
\<close>

datatype open_report = OpenedDevice nat | StillOpening | NotOpenedYet

text \<open>What \<^verbatim>\<open>wait_for\<close> ends with: the predicate is tested on the state at that moment, also after a time-out.\<close>

definition open_completed :: "device_open_shared \<Rightarrow> bool" where
  "open_completed s \<longleftrightarrow> \<not> do_pending s"

definition opened_ok :: "device_open_shared \<Rightarrow> bool" where
  "opened_ok s \<longleftrightarrow> open_completed s \<and> do_result s"

text \<open>
  The lock is given up after the wait and taken again for the name of the device: \<open>s\<close> is the state at
  the end of the wait, \<open>t\<close> a later one. \<open>None\<close> is a null pointer that is followed.
\<close>

definition report_open :: "device_open_shared \<Rightarrow> device_open_shared \<Rightarrow> open_report option" where
  "report_open s t =
     (if opened_ok s then map_option OpenedDevice (do_player t)
      else if \<not> open_completed s then Some StillOpening else Some NotOpenedYet)"

text \<open>
  The whole: the commands for the codec and the start of the supervisor with its strategies. With the dummy
  sink (\<open>None\<close>) there is neither; \<open>begin_streaming\<close> of theory \<open>Client\<close> opens it.
\<close>

record open_start =
  os_routing :: "string list"
  os_shared :: device_open_shared
  os_strategies :: "OpenStrategy list"

definition open_player_with_timeout :: "(string \<Rightarrow> int) \<Rightarrow> bool \<Rightarrow> bool \<Rightarrow> string \<Rightarrow> open_start option" where
  "open_player_with_timeout os_system worth_trying use_dummy device_name =
     (if use_dummy then None
      else Some
        \<lparr>os_routing = (if routes_speaker worth_trying device_name then snd (apply_speaker_routing os_system) else []),
         os_shared = start_open, os_strategies = build_open_strategies worth_trying device_name\<rparr>)"

section \<open>The slot\<close>

lemma player_kept_move: "do_player s \<noteq> None \<Longrightarrow> do_player (do_move nodes sts m s) \<noteq> None"
  by (cases m) (auto simp: attempt_device_open_def device_open_supervisor_def new_attempt_def close_slot_def set_open_def set_phase_def Let_def
      split: attempt_phase.splits supervisor_phase.splits option.splits)

lemma player_kept: "run_moves nodes sts ms s = Some t \<Longrightarrow> do_player s \<noteq> None \<Longrightarrow> do_player t \<noteq> None"
proof (induction ms arbitrary: s)
  case (Cons m ms)
  have "run_moves nodes sts ms (do_move nodes sts m s) = Some t" using Cons.prems(1) by (simp split: if_splits)
  then show ?case using Cons.IH player_kept_move [OF Cons.prems(2)] by blast
qed simp

lemma result_needs_player:
  assumes "open_reachable nodes sts s"
  shows "do_result s \<longrightarrow> do_player s \<noteq> None"
  using assms
proof induction
  case start
  then show ?case by (simp add: start_open_def)
next
  case (move s m)
  have "do_result (do_move nodes sts m s) \<longrightarrow> do_result s \<or> do_player (do_move nodes sts m s) \<noteq> None"
    by (cases m) (auto simp: attempt_device_open_def device_open_supervisor_def new_attempt_def close_slot_def set_open_def set_phase_def Let_def
        split: attempt_phase.splits supervisor_phase.splits option.splits)
  then show ?case using move.IH player_kept_move by blast
qed

text \<open>
  However the attempts, the supervisor and a device that gives up interleave with the two looks at the
  shared state, the client never follows a null pointer when it logs the opened device.
\<close>

theorem open_report_defined:
  assumes "open_reachable nodes sts s" and "run_moves nodes sts ms s = Some t"
  shows "report_open s t \<noteq> None"
  using result_needs_player [OF assms(1)] player_kept [OF assms(2)] by (auto simp: report_open_def opened_ok_def)

theorem open_report_defined_witness: "report_open late_state settled_state = Some (OpenedDevice 1)"
proof -
  have r: "aaudio_run (replicate 2 Supervise @ replicate 3 (Attempt 0 True)) late_state = Some settled_state"
    unfolding settled_state_def by (rule option.collapse [symmetric]) code_simp
  have "opened_ok late_state" "do_player settled_state = Some 1" by code_simp+
  then show ?thesis using open_report_defined [OF late_state_reachable r] by (simp add: report_open_def)
qed

text \<open>
  The recorded result is that of the last attempt to end, not of the slot: once a late attempt has found
  another backend playing and closed its own device, the state reads as a failure although a device plays.
\<close>

theorem failed_result_while_playing:
  "aaudio_reachable settled_state \<and> slot_live settled_state \<and> report_open settled_state t = Some NotOpenedYet"
proof -
  have "slot_live settled_state" "\<not> opened_ok settled_state" "open_completed settled_state" by code_simp+
  then show ?thesis using settled_state_reachable by (simp add: report_open_def)
qed

end
