(* ===== verification/Main_Programs.thy ===== *)
theory Main_Programs
  imports Client Server
begin

text \<open>
  \<^verbatim>\<open>src/client/main.cpp\<close> and \<^verbatim>\<open>src/server/main.cpp\<close>: how the command line becomes the configuration of the
  client or the server, the \<^verbatim>\<open>adb\<close> set-up of the USB tunnel, and the loop that prints the status. An
  exception of \<^verbatim>\<open>std::stoi\<close> that nothing catches ends the program; it is a result of its own. The
  lemmas give the round trip of a configuration through the command line, the effect of a value that
  is no number or does not fit, what the tunnel check accepts, and the distance of the status lines.
\<close>

section \<open>Floating point numbers as text\<close>

definition hex_digit :: "char \<Rightarrow> nat option" where
  "hex_digit c =
     (let n = (of_char c :: nat)
      in if isdigit c then Some (n - 48)
         else if 97 \<le> n \<and> n \<le> 102 then Some (n - 87)
         else if 65 \<le> n \<and> n \<le> 70 then Some (n - 55) else None)"

definition to_lower :: "char \<Rightarrow> char" where
  "to_lower c = (let n = (of_char c :: nat) in if 65 \<le> n \<and> n \<le> 90 then char_of (n + 32) else c)"

text \<open>A run of digits: their value, how many there are, and what follows.\<close>

definition scan_digits :: "(char \<Rightarrow> nat option) \<Rightarrow> nat \<Rightarrow> string \<Rightarrow> nat \<times> nat \<times> string" where
  "scan_digits val base s =
     (let ds = takeWhile (\<lambda>c. val c \<noteq> None) s
      in (foldl (\<lambda>a c. base * a + the (val c)) 0 ds, length ds, drop (length ds) s))"

definition dec_digit :: "char \<Rightarrow> nat option" where
  "dec_digit c = (if isdigit c then Some (digit_value c) else None)"

text \<open>Digits with a fraction: their value and what follows; \<open>None\<close> when there is no digit.\<close>

definition scan_mantissa :: "(char \<Rightarrow> nat option) \<Rightarrow> nat \<Rightarrow> string \<Rightarrow> (rat \<times> string) option" where
  "scan_mantissa val base s =
     (let (a, n, s1) = scan_digits val base s;
          (b, m, s2) = (if s1 \<noteq> [] \<and> hd s1 = CHR ''.'' then scan_digits val base (tl s1) else (0, 0, s1))
      in if n + m = 0 then None else Some (of_nat a + of_nat b / of_nat base ^ m, s2))"

text \<open>An exponent after the letter \<open>mark\<close>; none when no digit follows.\<close>

definition scan_exponent :: "char \<Rightarrow> string \<Rightarrow> int" where
  "scan_exponent mark s =
     (if s \<noteq> [] \<and> to_lower (hd s) = mark then
        (let (neg, s) = scan_sign (tl s); (e, n, _) = scan_digits dec_digit 10 s
         in if n = 0 then 0 else if neg then - int e else int e)
      else 0)"

text \<open>
  What \<^verbatim>\<open>strtod\<close> reads behind white space and the sign in the C locale: an infinity, a NaN, a hexadecimal
  or a decimal number. What follows the longest number is ignored.
\<close>

datatype number = NumInf | NumNaN | NumRat rat

definition scan_number :: "string \<Rightarrow> number option" where
  "scan_number s =
     (if map to_lower (take 3 s) = ''inf'' then Some NumInf
      else if map to_lower (take 3 s) = ''nan'' then Some NumNaN
      else
        (case (if map to_lower (take 2 s) = ''0x'' then scan_mantissa hex_digit 16 (drop 2 s) else None) of
           Some (q, r) \<Rightarrow> Some (NumRat (q * 2 powi scan_exponent CHR ''p'' r))
         | None \<Rightarrow> map_option (\<lambda>(q, r). NumRat (q * 10 powi scan_exponent CHR ''e'' r)) (scan_mantissa dec_digit 10 s)))"

text \<open>
  \<^verbatim>\<open>std::stod\<close>: \<open>None\<close> is an exception, \<^verbatim>\<open>invalid_argument\<close> without a number and \<^verbatim>\<open>out_of_range\<close> when
  \<^verbatim>\<open>strtod\<close> reports \<^verbatim>\<open>ERANGE\<close>: the number overflows, or it is not representable and below the normal range.
\<close>

definition stod :: "string \<Rightarrow> flt option" where
  "stod s =
     (let (neg, s) = scan_sign (dropWhile isspace s)
      in case scan_number s of
           None \<Rightarrow> None
         | Some NumInf \<Rightarrow> Some (FInf neg)
         | Some NumNaN \<Rightarrow> Some FNaN
         | Some (NumRat q) \<Rightarrow>
             (let q = (if neg then - q else q); v = fl_round binary64 q
              in if \<not> fl_isfinite v \<or> \<bar>q\<bar> < 2 powi (- 1022) \<and> v \<noteq> FFin q then None else Some v))"

section \<open>The argument loop\<close>

text \<open>\<open>Quit\<close> is a \<^verbatim>\<open>return\<close> from \<^verbatim>\<open>main\<close> with this code, \<open>Threw\<close> an exception that leaves \<^verbatim>\<open>main\<close>.\<close>

datatype 'a parsed = Parsed 'a | Quit int | Threw

text \<open>
  One option is handled with the argument behind it, if there is one; the flag of the result tells
  whether that argument was used up.
\<close>

type_synonym 'a option_handler = "string \<Rightarrow> string option \<Rightarrow> 'a \<Rightarrow> ('a \<times> bool) parsed"

function args_loop :: "'a option_handler \<Rightarrow> string list \<Rightarrow> 'a \<Rightarrow> 'a parsed" where
  "args_loop opt [] s = Parsed s"
| "args_loop opt (arg # rest) s =
     (case opt arg (case rest of [] \<Rightarrow> None | v # _ \<Rightarrow> Some v) s of
        Quit n \<Rightarrow> Quit n
      | Threw \<Rightarrow> Threw
      | Parsed (s', used) \<Rightarrow> args_loop opt (if used then tl rest else rest) s')"
  by pat_completeness auto
termination by (relation "measure (\<lambda>(_, as, _). length as)") auto

section \<open>The client\<close>

record client_args =
  ca_config :: client_config
  ca_list_devs :: bool
  ca_latency_explicit :: bool
  ca_debug :: bool

definition client_option :: "client_args option_handler" where
  "client_option arg nxt s =
     (let c = ca_config s
      in if arg = ''-h'' \<or> arg = ''--help'' then Quit 0
         else if arg = ''--list-devices'' then Parsed (s\<lparr>ca_list_devs := True\<rparr>, False)
         else if arg = ''-v'' \<or> arg = ''--verbose'' then Parsed (s\<lparr>ca_debug := True\<rparr>, False)
         else if (arg = ''-s'' \<or> arg = ''--server'') \<and> nxt \<noteq> None
           then Parsed (s\<lparr>ca_config := c\<lparr>cf_server_ip := the nxt\<rparr>\<rparr>, True)
         else if (arg = ''-p'' \<or> arg = ''--port'') \<and> nxt \<noteq> None
           then (case stoi (the nxt) of
                   None \<Rightarrow> Threw
                 | Some v \<Rightarrow> Parsed (s\<lparr>ca_config := c\<lparr>cf_server_port := word_of_int v\<rparr>\<rparr>, True))
         else if (arg = ''-d'' \<or> arg = ''--device'') \<and> nxt \<noteq> None
           then Parsed (s\<lparr>ca_config := c\<lparr>cf_device_name := the nxt\<rparr>\<rparr>, True)
         else if (arg = ''-T'' \<or> arg = ''--termux-segment'') \<and> nxt \<noteq> None
           then (case stoul (the nxt) of
                   None \<Rightarrow> Quit 1
                 | Some v \<Rightarrow> Parsed (s\<lparr>ca_config := c\<lparr>cf_termux_segment_ms := ucast v\<rparr>\<rparr>, True))
         else if (arg = ''-l'' \<or> arg = ''--latency'') \<and> nxt \<noteq> None
           then (case stoi (the nxt) of
                   None \<Rightarrow> Threw
                 | Some v \<Rightarrow> Parsed (s\<lparr>ca_config := c\<lparr>cf_target_latency_ms := word_of_int v\<rparr>, ca_latency_explicit := True\<rparr>, True))
         else if (arg = ''-b'' \<or> arg = ''--bind'') \<and> nxt \<noteq> None
           then Parsed (s\<lparr>ca_config := c\<lparr>cf_bind_iface := the nxt\<rparr>\<rparr>, True)
         else if arg = ''-u'' \<or> arg = ''--usb'' then Parsed (s\<lparr>ca_config := c\<lparr>cf_usb_mode := True\<rparr>\<rparr>, False)
         else if arg = ''--discover'' then Parsed (s\<lparr>ca_config := c\<lparr>cf_auto_discover := True\<rparr>\<rparr>, False)
         else if arg = ''--dummy'' then Parsed (s\<lparr>ca_config := c\<lparr>cf_use_dummy_player := True\<rparr>\<rparr>, False)
         else Quit 1)"

definition no_client_args :: client_args where
  "no_client_args = \<lparr>ca_config = default_client_config, ca_list_devs = False, ca_latency_explicit = False, ca_debug = False\<rparr>"

datatype 'c program = Exits int | Terminates | Lists | Runs 'c

definition usb_latency :: "client_args \<Rightarrow> client_config" where
  "usb_latency s =
     (if cf_usb_mode (ca_config s) \<and> \<not> ca_latency_explicit s then (ca_config s)\<lparr>cf_target_latency_ms := 100\<rparr> else ca_config s)"

definition client_main :: "string list \<Rightarrow> client_config program" where
  "client_main args =
     (case args_loop client_option args no_client_args of
        Quit n \<Rightarrow> Exits n
      | Threw \<Rightarrow> Terminates
      | Parsed s \<Rightarrow> if ca_list_devs s then Lists else Runs (usb_latency s))"

section \<open>The server\<close>

record server_args =
  sa_config :: server_config
  sa_list_ifaces_only :: bool
  sa_debug :: bool

definition server_option :: "server_args option_handler" where
  "server_option arg nxt s =
     (let c = sa_config s
      in if arg = ''-h'' \<or> arg = ''--help'' then Quit 0
         else if arg = ''-l'' \<or> arg = ''--list-if'' then Parsed (s\<lparr>sa_list_ifaces_only := True\<rparr>, False)
         else if arg = ''-v'' \<or> arg = ''--verbose'' then Parsed (s\<lparr>sa_debug := True\<rparr>, False)
         else if (arg = ''-p'' \<or> arg = ''--port'') \<and> nxt \<noteq> None
           then (case stoi (the nxt) of
                   None \<Rightarrow> Threw
                 | Some v \<Rightarrow> Parsed (s\<lparr>sa_config := c\<lparr>sc_port := word_of_int v\<rparr>\<rparr>, True))
         else if (arg = ''-b'' \<or> arg = ''--bind'') \<and> nxt \<noteq> None
           then Parsed (s\<lparr>sa_config := c\<lparr>sc_bind_ip := the nxt\<rparr>\<rparr>, True)
         else if (arg = ''-r'' \<or> arg = ''--rate'') \<and> nxt \<noteq> None
           then (case stoi (the nxt) of
                   None \<Rightarrow> Threw
                 | Some v \<Rightarrow> Parsed (s\<lparr>sa_config := c\<lparr>sc_sample_rate := word_of_int v\<rparr>\<rparr>, True))
         else if (arg = ''-f'' \<or> arg = ''--frames'') \<and> nxt \<noteq> None
           then (case stoi (the nxt) of
                   None \<Rightarrow> Threw
                 | Some v \<Rightarrow> Parsed (s\<lparr>sa_config := c\<lparr>sc_frames_per_packet := word_of_int v\<rparr>\<rparr>, True))
         else if arg = ''--no-mute'' then Parsed (s\<lparr>sa_config := c\<lparr>sc_auto_mute_pc_speaker := False\<rparr>\<rparr>, False)
         else if arg = ''--mute-mode'' \<and> nxt \<noteq> None
           then Parsed (if the nxt = ''mute'' then s\<lparr>sa_config := c\<lparr>sc_mute_method := EndpointMute\<rparr>\<rparr>
                        else if the nxt = ''zero'' then s\<lparr>sa_config := c\<lparr>sc_mute_method := VolumeZero\<rparr>\<rparr>
                        else if the nxt = ''both'' then s\<lparr>sa_config := c\<lparr>sc_mute_method := Both\<rparr>\<rparr> else s, True)
         else if arg = ''-t'' \<or> arg = ''--test-tone'' then Parsed (s\<lparr>sa_config := c\<lparr>sc_use_test_tone := True\<rparr>\<rparr>, False)
         else if arg = ''--freq'' \<and> nxt \<noteq> None
           then (case stod (the nxt) of
                   None \<Rightarrow> Threw
                 | Some v \<Rightarrow> Parsed (s\<lparr>sa_config := c\<lparr>sc_test_tone_freq := v\<rparr>\<rparr>, True))
         else if arg = ''--usb'' then Parsed (s\<lparr>sa_config := c\<lparr>sc_usb_mode := True\<rparr>\<rparr>, False)
         else Quit 1)"

definition no_server_args :: server_args where
  "no_server_args = \<lparr>sa_config = default_server_config, sa_list_ifaces_only = False, sa_debug = False\<rparr>"

text \<open>In USB mode the server listens on the loopback only.\<close>

definition usb_bind :: "server_config \<Rightarrow> server_config" where
  "usb_bind c = (if sc_usb_mode c then c\<lparr>sc_bind_ip := ''127.0.0.1''\<rparr> else c)"

definition server_main :: "string list \<Rightarrow> server_config program" where
  "server_main args =
     (case args_loop server_option args no_server_args of
        Quit n \<Rightarrow> Exits n
      | Threw \<Rightarrow> Terminates
      | Parsed s \<Rightarrow> if sa_list_ifaces_only s then Lists else Runs (usb_bind (sa_config s)))"

section \<open>The USB tunnel\<close>

text \<open>
  The output of a command is read in blocks of 255 bytes, and each block is appended as a C string, up
  to its first NUL; \<open>None\<close> is a pipe that could not be opened.
\<close>

function command_text :: "string \<Rightarrow> string" where
  "command_text out =
     (if out = [] then [] else takeWhile (\<lambda>c. c \<noteq> CHR 0x00) (take 255 out) @ command_text (drop 255 out))"
  by pat_completeness auto
termination by (relation "measure length") auto

declare command_text.simps [simp del]

definition run_command :: "(string \<Rightarrow> string option) \<Rightarrow> string \<Rightarrow> string" where
  "run_command popen cmd = (case popen cmd of None \<Rightarrow> [] | Some out \<Rightarrow> command_text out)"

datatype tunnel_status = TunnelActive | NoDevice | NotConfirmed

text \<open>The commands that are run, and what is reported.\<close>

definition setup_usb_tunnel :: "(string \<Rightarrow> string option) \<Rightarrow> u16 \<Rightarrow> string list \<times> tunnel_status" where
  "setup_usb_tunnel popen port =
     (let p = to_string (unat port); rev = ''adb reverse tcp:'' @ p @ '' tcp:'' @ p @ '' 2>&1''; lst = ''adb reverse --list 2>&1'';
          listed = run_command popen lst
      in ([rev, lst],
          if contains listed (''tcp:'' @ p) then TunnelActive
          else if contains listed ''no devices'' then NoDevice else NotConfirmed))"

section \<open>The status loop\<close>

text \<open>
  One turn: whether a shutdown was requested, whether the engine runs, the clock after the pause, and
  whether it is streaming. The result is the times at which a status line is printed.
\<close>

fun status_loop :: "(bool \<times> bool \<times> u64 \<times> bool) list \<Rightarrow> u64 \<Rightarrow> u64 list" where
  "status_loop [] last_stats = []"
| "status_loop ((shutdown, running, now, streaming) # es) last_stats =
     (if shutdown \<or> \<not> running then []
      else if now - last_stats \<ge> 5000 \<and> streaming then now # status_loop es now
      else status_loop es last_stats)"

section \<open>The loop over the arguments\<close>

text \<open>
  What the loop needs of a handler: an option that is accepted as the last argument takes no value, and
  does the same whatever follows it.
\<close>

locale option_parser =
  fixes opt :: "'a option_handler"
  assumes no_value: "opt arg None s = Parsed (s', used) \<Longrightarrow> \<not> used \<and> opt arg v s = Parsed (s', False)"
begin

lemma args_loop_append:
  "args_loop opt pre s = Parsed s' \<Longrightarrow> args_loop opt (pre @ post) s = args_loop opt post s'"
proof (induction pre arbitrary: s rule: length_induct)
  case (1 pre)
  show ?case
  proof (cases pre)
    case Nil
    then show ?thesis using 1(2) by simp
  next
    case (Cons arg rest)
    define nxt where "nxt = (case rest of [] \<Rightarrow> None | v # _ \<Rightarrow> Some v)"
    obtain s1 used where o: "opt arg nxt s = Parsed (s1, used)"
      and l: "args_loop opt (if used then tl rest else rest) s1 = Parsed s'"
      using 1(2) Cons by (auto simp: nxt_def split: parsed.splits)
    show ?thesis
    proof (cases rest)
      case Nil
      then have "\<not> used \<and> opt arg (case rest @ post of [] \<Rightarrow> None | v # _ \<Rightarrow> Some v) s = Parsed (s1, False)"
        using no_value [of arg s s1 used] o by (simp add: nxt_def)
      then show ?thesis using l Cons Nil by simp
    next
      case (Cons v rest')
      define tail where "tail = (if used then tl rest else rest)"
      have "length tail < length pre" using \<open>pre = arg # rest\<close> Cons by (simp add: tail_def)
      then have "args_loop opt (tail @ post) s1 = args_loop opt post s'" using 1(1) l by (simp add: tail_def)
      then show ?thesis using o \<open>pre = arg # rest\<close> Cons
        by (cases used) (simp_all add: args_loop.simps(2) [of opt arg] nxt_def tail_def del: args_loop.simps)
    qed
  qed
qed

end

text \<open>The options without a value; any other argument is refused when it is the last one.\<close>

definition client_flags :: "string set" where
  "client_flags = {''-h'', ''--help'', ''--list-devices'', ''-v'', ''--verbose'', ''-u'', ''--usb'', ''--discover'', ''--dummy''}"

lemma client_flag: "arg \<in> client_flags \<Longrightarrow> client_option arg v s = Quit 0 \<or> (\<exists>s'. \<forall>v. client_option arg v s = Parsed (s', False))"
  unfolding client_flags_def by (simp only: insert_iff empty_iff simp_thms, elim disjE; simp add: client_option_def Let_def)

lemma client_no_flag: "arg \<notin> client_flags \<Longrightarrow> client_option arg None s = Quit 1"
  by (simp add: client_flags_def client_option_def Let_def)

interpretation client_parser: option_parser client_option
proof
  fix arg v and s s' :: client_args and used
  assume a: "client_option arg None s = Parsed (s', used)"
  then have "arg \<in> client_flags" using client_no_flag by fastforce
  from client_flag [OF this, of None s] a show "\<not> used \<and> client_option arg v s = Parsed (s', False)" by auto
qed

definition server_flags :: "string set" where
  "server_flags = {''-h'', ''--help'', ''-l'', ''--list-if'', ''-v'', ''--verbose'', ''--no-mute'', ''-t'', ''--test-tone'', ''--usb''}"

lemma server_flag: "arg \<in> server_flags \<Longrightarrow> server_option arg v s = Quit 0 \<or> (\<exists>s'. \<forall>v. server_option arg v s = Parsed (s', False))"
  unfolding server_flags_def by (simp only: insert_iff empty_iff simp_thms, elim disjE; simp add: server_option_def Let_def)

lemma server_no_flag: "arg \<notin> server_flags \<Longrightarrow> server_option arg None s = Quit 1"
  by (simp add: server_flags_def server_option_def Let_def)

interpretation server_parser: option_parser server_option
proof
  fix arg v and s s' :: server_args and used
  assume a: "server_option arg None s = Parsed (s', used)"
  then have "arg \<in> server_flags" using server_no_flag by fastforce
  from server_flag [OF this, of None s] a show "\<not> used \<and> server_option arg v s = Parsed (s', False)" by auto
qed

section \<open>Command lines\<close>

lemma u16_decimal [simp]: "stoi (to_string (unat (p :: u16))) = Some (uint p)"
proof -
  have "unat p < 2 ^ LENGTH(16)" by (rule unsigned_less)
  then show ?thesis by (subst stoi_to_string) simp_all
qed

lemma u32_decimal [simp]: "stoul (to_string (unat (w :: u32))) = Some (ucast w)"
proof -
  have "unat w < 2 ^ LENGTH(32)" by (rule unsigned_less)
  then show ?thesis by (subst stoul_to_string) simp_all
qed

lemma u32_widened [simp]: "ucast (ucast (w :: u32) :: u64) = w"
  by (rule bit_word_eqI) (auto simp: bit_ucast_iff)

text \<open>The command line that asks for a configuration.\<close>

definition client_command_line :: "client_config \<Rightarrow> string list" where
  "client_command_line c =
     [''-s'', cf_server_ip c, ''-p'', to_string (unat (cf_server_port c)), ''-d'', cf_device_name c,
      ''-l'', to_string (unat (cf_target_latency_ms c)), ''-b'', cf_bind_iface c, ''-T'', to_string (unat (cf_termux_segment_ms c))] @
     (if cf_usb_mode c then [''-u''] else []) @ (if cf_auto_discover c then [''--discover''] else []) @
     (if cf_use_dummy_player c then [''--dummy''] else [])"

text \<open>
  Claim C30: the settings of the client can be given on the command line. The server address, the port,
  the device name, the latency (below $2^{31}$), the interface, the segment length and the three switches of
  any configuration, written as options, make the client run with exactly these settings; in particular
  an explicit latency is kept in USB mode. The one field without an option, the silence after which the
  client reconnects, is then the 5000 ms of the declaration, whatever the configuration has there.
\<close>

theorem client_command_line_roundtrip:
  assumes "unat (cf_target_latency_ms c) < 2 ^ 31"
  shows "client_main (client_command_line c) = Runs (c\<lparr>cf_reconnect_timeout_ms := 5000\<rparr>)"
  using assms
  by (cases c) (simp add: client_main_def client_command_line_def client_option_def usb_latency_def no_client_args_def
      default_client_config_def stoi_to_string)

theorem client_command_line_roundtrip_witness:
  "client_main (client_command_line (default_client_config\<lparr>cf_usb_mode := True, cf_target_latency_ms := 120\<rparr>)) =
   Runs (default_client_config\<lparr>cf_usb_mode := True, cf_target_latency_ms := 120\<rparr>)"
  using client_command_line_roundtrip [of "default_client_config\<lparr>cf_usb_mode := True, cf_target_latency_ms := 120\<rparr>"]
  by (simp add: default_client_config_def)

text \<open>
  A port or a latency that is no number ends the client with an uncaught exception, wherever
  it stands among otherwise correct options, while a segment length that is no number is reported and
  makes the program return 1.
\<close>

theorem client_bad_number:
  assumes "args_loop client_option pre no_client_args = Parsed s" and "scan_integer v = None"
    and "arg \<in> {''-p'', ''--port'', ''-l'', ''--latency''}" and "seg \<in> {''-T'', ''--termux-segment''}"
  shows "client_main (pre @ arg # v # post) = Terminates \<and> client_main (pre @ seg # v # post) = Exits 1"
proof -
  have n: "stoi v = None" "stoul v = None" using assms(2) by (simp_all add: stoi_def sto_signed_def stoul_def)
  have "client_option arg (Some v) s = Threw" using assms(3)
    by (simp only: insert_iff empty_iff simp_thms, elim disjE; simp add: n client_option_def)
  moreover have "client_option seg (Some v) s = Quit 1" using assms(4)
    by (simp only: insert_iff empty_iff simp_thms, elim disjE; simp add: n client_option_def)
  ultimately show ?thesis by (simp add: client_main_def client_parser.args_loop_append [OF assms(1)])
qed

theorem client_bad_number_witness:
  "client_main ([''-u''] @ ''-p'' # ''usb'' # []) = Terminates \<and> client_main ([''-u''] @ ''-T'' # ''usb'' # []) = Exits 1"
proof -
  obtain s where "args_loop client_option [''-u''] no_client_args = Parsed s" by (simp add: client_option_def Let_def)
  moreover have "scan_integer ''usb'' = None"
    by (simp add: scan_integer_def scan_sign_def isspace_def isdigit_def)
  ultimately show ?thesis by (rule client_bad_number) simp_all
qed

text \<open>
  A port above 65535 is taken modulo $2^{16}$ without a word: the client then talks to another port.
\<close>

theorem client_port_wraps:
  assumes "n < 65536"
  shows "client_main [''-p'', to_string (65536 + n)] = Runs (default_client_config\<lparr>cf_server_port := word_of_nat n\<rparr>)"
proof -
  have "stoi (to_string (65536 + n)) = Some (65536 + int n)" using assms by (subst stoi_to_string) simp_all
  moreover have "word_of_int (65536 + int n) = (word_of_nat n :: u16)" by (simp add: word_of_nat_eq_iff take_bit_eq_mod)
  ultimately show ?thesis by (simp add: client_main_def client_option_def no_client_args_def usb_latency_def default_client_config_def)
qed

section \<open>The server's command line\<close>

lemma digit_properties:
  assumes "isdigit c"
  shows "to_lower c = c" "c \<noteq> CHR ''i''" "c \<noteq> CHR ''n''" "c \<noteq> CHR ''x''" "c \<noteq> CHR ''-''" "c \<noteq> CHR ''+''" "\<not> isspace c"
  using assms by (auto simp: to_lower_def isdigit_def isspace_def)

lemma scan_decimal_digits:
  assumes "\<forall>c \<in> set ds. isdigit c"
  shows "scan_digits dec_digit 10 ds = (decimal_value ds, length ds, [])"
proof -
  have f: "foldl (\<lambda>a c. 10 * a + the (dec_digit c)) x ds = foldl (\<lambda>a c. 10 * a + digit_value c) x ds" for x
    using assms by (induction ds arbitrary: x) (simp_all add: dec_digit_def)
  have t: "takeWhile (\<lambda>c. dec_digit c \<noteq> None) ds = ds" using assms by (simp add: takeWhile_eq_all_conv dec_digit_def)
  show ?thesis unfolding scan_digits_def t Let_def decimal_value_def f by simp
qed

text \<open>A whole number below $2^{53}$ in decimal is read exactly.\<close>

lemma stod_to_string:
  assumes "n < 2 ^ 53"
  shows "stod (to_string n) = Some (FFin (of_nat n))"
proof -
  have d: "\<forall>c \<in> set (to_string n). isdigit c" by (rule to_string_digits)
  obtain c cs where c: "to_string n = c # cs" by (cases "to_string n") auto
  then have h: "isdigit c" "\<forall>c \<in> set cs. isdigit c" using d by auto
  have "map to_lower (take 2 (to_string n)) \<noteq> ''0x''"
  proof
    assume "map to_lower (take 2 (to_string n)) = ''0x''"
    then obtain x xs where "cs = x # xs" "to_lower x = CHR ''x''" using c by (cases cs) auto
    then show False using h(2) digit_properties(1,4) [of x] by auto
  qed
  moreover have "map to_lower (take 3 (to_string n)) \<noteq> ''inf''" "map to_lower (take 3 (to_string n)) \<noteq> ''nan''"
    using c digit_properties [OF h(1)] by auto
  moreover have "scan_mantissa dec_digit 10 (to_string n) = Some (of_nat n, [])"
    using scan_decimal_digits [OF d] c decimal_value_to_string [of n] by (simp add: scan_mantissa_def)
  ultimately have "scan_number (to_string n) = Some (NumRat (of_nat n))"
    by (simp add: scan_number_def scan_exponent_def)
  moreover have "scan_sign (dropWhile isspace (to_string n)) = (False, to_string n)"
    using c digit_properties [OF h(1)] by (simp add: scan_sign_def)
  moreover have "fl_round binary64 (of_nat n) = FFin (of_nat n)" using f64_exact [of "int n"] assms by simp
  ultimately show ?thesis by (simp add: stod_def)
qed

definition mute_mode_name :: "mute_method \<Rightarrow> string" where
  "mute_mode_name m = (case m of EndpointMute \<Rightarrow> ''mute'' | VolumeZero \<Rightarrow> ''zero'' | Both \<Rightarrow> ''both'')"

definition server_command_line :: "nat \<Rightarrow> server_config \<Rightarrow> string list" where
  "server_command_line freq c =
     [''-p'', to_string (unat (sc_port c)), ''-b'', sc_bind_ip c, ''-r'', to_string (unat (sc_sample_rate c)),
      ''-f'', to_string (unat (sc_frames_per_packet c)), ''--mute-mode'', mute_mode_name (sc_mute_method c), ''--freq'', to_string freq] @
     (if sc_auto_mute_pc_speaker c then [] else [''--no-mute'']) @ (if sc_use_test_tone c then [''-t''] else []) @
     (if sc_usb_mode c then [''--usb''] else [])"

text \<open>
  Every configuration of the server that the options can express can be given on the command line: the
  channel count and the time-out are the built-in ones, the tone has a whole number of hertz, and in USB
  mode the address is the loopback one.
\<close>

theorem server_command_line_roundtrip:
  assumes "unat (sc_sample_rate c) < 2 ^ 31" and "unat (sc_frames_per_packet c) < 2 ^ 31" and "sc_channels c = 2"
    and "sc_client_timeout_ms c = 8000" and "sc_usb_mode c \<longrightarrow> sc_bind_ip c = ''127.0.0.1''"
    and "freq < 2 ^ 53" and "sc_test_tone_freq c = FFin (of_nat freq)"
  shows "server_main (server_command_line freq c) = Runs c"
  using assms
  by (cases c) (auto simp: server_main_def server_command_line_def server_option_def usb_bind_def no_server_args_def mute_mode_name_def
      default_server_config_def stoi_to_string stod_to_string split: mute_method.splits)

section \<open>The tunnel check\<close>

text \<open>
  The check for the tunnel looks for the port as a prefix: a tunnel for port 44100 counts as one for
  port 4410, although the phone cannot reach the server through it.
\<close>

theorem tunnel_check_accepts_longer_port:
  assumes "run_command popen ''adb reverse --list 2>&1'' = ''UsbFfs tcp:'' @ to_string (unat port) @ ''0 tcp:'' @ rest"
  shows "snd (setup_usb_tunnel popen port) = TunnelActive"
proof -
  have "contains (run_command popen ''adb reverse --list 2>&1'') (''tcp:'' @ to_string (unat port))"
    unfolding contains_iff assms by (rule exI [of _ "''UsbFfs ''"], rule exI [of _ "''0 tcp:'' @ rest"]) simp
  then show ?thesis by (simp add: setup_usb_tunnel_def Let_def)
qed

section \<open>Status lines\<close>

text \<open>
  With a clock that does not go back, status lines are at least five seconds apart, and the first comes
  at least five seconds after the start.
\<close>

theorem status_lines_spaced:
  assumes "sorted (last_stats # map (\<lambda>(_, _, now, _). now) es)"
  shows "sorted_wrt (\<lambda>a b. unat a + 5000 \<le> unat b) (last_stats # status_loop es last_stats)"
  using assms
proof (induction es arbitrary: last_stats)
  case (Cons e es)
  obtain shutdown running now streaming where e: "e = (shutdown, running, now, streaming)" by (cases e)
  have s: "last_stats \<le> now" "sorted (now # map (\<lambda>(_, _, now, _). now) es)" "sorted (last_stats # map (\<lambda>(_, _, now, _). now) es)"
    using Cons.prems by (auto simp: e)
  have "unat last_stats + 5000 \<le> unat now" if "5000 \<le> now - last_stats"
  proof -
    have "unat (5000 :: u64) \<le> unat (now - last_stats)" using that by (simp only: word_le_nat_alt)
    then show ?thesis using s(1) by (simp add: unat_sub word_le_nat_alt)
  qed
  then show ?case using Cons.IH [OF s(2)] Cons.IH [OF s(3)] by (auto simp: e)
qed simp

end
