(* ===== verification/Alsa.thy ===== *)
theory Alsa
  imports Direct_Alsa
begin

text \<open>
  \<^verbatim>\<open>src/client/alsa_player.{hpp,cpp}\<close>: playback through libasound, which is loaded at run time, with
  the kernel nodes as the preferred and as the last resort. The dynamic loader and libasound are
  parameters; the handles given back are logged. The lemmas show which device ends up open, that a
  closed player holds no PCM handle, and that a node that accepts its parameters blocks the open.
\<close>

record alsa_env =
  ae_kernel :: kernel
  ae_dlopen :: "string \<Rightarrow> bool"
  ae_dlsym :: "string \<Rightarrow> bool"
  ae_pcm_open :: "string \<Rightarrow> nat option"
  ae_hw_params :: "string \<Rightarrow> bool"
  ae_writei :: "nat \<Rightarrow> int"
  ae_recover :: "int \<Rightarrow> int"
  ae_writei2 :: "nat \<Rightarrow> int"
  ae_xfers :: "xfer_event list"
  ae_delay :: "int option"

record alsa_player =
  al_lib_handle :: bool
  al_pcm_handle :: "nat option"
  al_direct_fallback :: direct_player
  al_using_direct_fallback :: bool
  al_is_open :: bool
  al_device_name :: string
  al_config :: audio_config
  al_closed_pcms :: "nat list"

definition AlsaPlayer :: alsa_player where
  "AlsaPlayer =
     \<lparr>al_lib_handle = False, al_pcm_handle = None, al_direct_fallback = DirectAlsaPlayer,
      al_using_direct_fallback = False, al_is_open = False, al_device_name = ''default'',
      al_config = default_audio_config, al_closed_pcms = []\<rparr>"

definition alsa_lib_names :: "string list" where
  "alsa_lib_names =
     [''libasound.so.2'', ''libasound.so'', ''/data/data/com.termux/files/usr/lib/libasound.so.2'',
      ''/data/data/com.termux/files/usr/lib/libasound.so'', ''/system/lib64/libasound.so'', ''/system/lib/libasound.so'']"

definition alsa_symbols :: "string list" where
  "alsa_symbols =
     [''snd_pcm_open'', ''snd_pcm_close'', ''snd_pcm_hw_params_malloc'', ''snd_pcm_hw_params_free'',
      ''snd_pcm_hw_params_any'', ''snd_pcm_hw_params_set_access'', ''snd_pcm_hw_params_set_format'',
      ''snd_pcm_hw_params_set_channels'', ''snd_pcm_hw_params_set_rate_near'',
      ''snd_pcm_hw_params_set_period_size_near'', ''snd_pcm_hw_params_set_buffer_size_near'', ''snd_pcm_hw_params'',
      ''snd_pcm_writei'', ''snd_pcm_recover'', ''snd_pcm_prepare'', ''snd_pcm_drop'', ''snd_pcm_delay'', ''snd_strerror'']"

definition load_libasound :: "alsa_env \<Rightarrow> alsa_player \<Rightarrow> bool \<times> alsa_player" where
  "load_libasound env p =
     (if al_lib_handle p then (True, p)
      else if \<not> list_ex (ae_dlopen env) alsa_lib_names then (False, p)
      else if \<not> list_all (ae_dlsym env) alsa_symbols then (False, p)
      else (True, p\<lparr>al_lib_handle := True\<rparr>))"

definition alsa_get_available_devices :: "kernel \<Rightarrow> string list" where
  "alsa_get_available_devices k = [''default'', ''plughw:0,0'', ''hw:0,0''] @ enumerate_kernel_pcm_devices k"

definition try_open_via_libasound :: "alsa_env \<Rightarrow> string \<Rightarrow> alsa_player \<Rightarrow> bool \<times> alsa_player" where
  "try_open_via_libasound env dev p =
     (case ae_pcm_open env dev of
        None \<Rightarrow> (False, p)
      | Some h \<Rightarrow>
          if \<not> ae_hw_params env dev
          then (False, p\<lparr>al_pcm_handle := None, al_closed_pcms := al_closed_pcms p @ [h]\<rparr>)
          else (True, p\<lparr>al_pcm_handle := Some h, al_is_open := True, al_device_name := dev\<rparr>))"

fun try_libasound_devices :: "alsa_env \<Rightarrow> string list \<Rightarrow> alsa_player \<Rightarrow> bool \<times> alsa_player" where
  "try_libasound_devices env [] p = (False, p)"
| "try_libasound_devices env (d # ds) p =
     (case try_open_via_libasound env d p of (ok, p) \<Rightarrow> if ok then (True, p) else try_libasound_devices env ds p)"

definition alsa_close :: "alsa_player \<Rightarrow> alsa_player" where
  "alsa_close p =
     (let p = p\<lparr>al_is_open := False\<rparr> in
      if al_using_direct_fallback p then p\<lparr>al_direct_fallback := direct_close (al_direct_fallback p)\<rparr>
      else (case al_pcm_handle p of
              None \<Rightarrow> p
            | Some h \<Rightarrow> p\<lparr>al_pcm_handle := None, al_closed_pcms := al_closed_pcms p @ [h]\<rparr>))"

text \<open>Opening through the kernel driver; the name of the node is given.\<close>

definition open_fallback :: "kernel \<Rightarrow> audio_config \<Rightarrow> string \<Rightarrow> alsa_player \<Rightarrow> (bool \<times> alsa_player) option" where
  "open_fallback k config path p =
     (case direct_open k config path (al_direct_fallback p) of
        None \<Rightarrow> None
      | Some (ok, d) \<Rightarrow> Some (ok, p\<lparr>al_using_direct_fallback := True, al_direct_fallback := d, al_is_open := ok\<rparr>))"

definition alsa_candidates :: "string \<Rightarrow> string list" where
  "alsa_candidates name =
     name # (if name \<noteq> ''plughw:0,0'' then [''plughw:0,0''] else []) @ (if name \<noteq> ''hw:0,0'' then [''hw:0,0''] else [])"

definition open_libasound :: "alsa_env \<Rightarrow> audio_config \<Rightarrow> alsa_player \<Rightarrow> (bool \<times> alsa_player) option" where
  "open_libasound env config p =
     (case load_libasound env p of
        (loaded, p) \<Rightarrow>
          (case (if loaded then try_libasound_devices env (alsa_candidates (al_device_name p)) p else (False, p)) of
             (ok, p) \<Rightarrow> if ok then Some (True, p)
                        else open_fallback (ae_kernel env) config ''/dev/snd/pcmC0D0p'' p))"

definition alsa_open :: "alsa_env \<Rightarrow> audio_config \<Rightarrow> string \<Rightarrow> alsa_player \<Rightarrow> (bool \<times> alsa_player) option" where
  "alsa_open env config device_name p =
     (let p = (if al_is_open p then alsa_close p else p);
          name = (if device_name = [] then ''default'' else device_name);
          p = p\<lparr>al_config := config, al_device_name := name, al_using_direct_fallback := False\<rparr>
      in if starts_with name ''/dev/snd/'' \<or> starts_with name ''direct:''
         then open_fallback (ae_kernel env) config (if starts_with name ''direct:'' then drop 7 name else name) p
         else
           (let devs = enumerate_kernel_pcm_devices (ae_kernel env) in
            if devs \<noteq> [] \<and> name = ''default'' then
              (case direct_open (ae_kernel env) config (hd devs) (al_direct_fallback p) of
                 None \<Rightarrow> None
               | Some (ok, d) \<Rightarrow>
                   (let p = p\<lparr>al_direct_fallback := d\<rparr> in
                    if ok then Some (True, p\<lparr>al_using_direct_fallback := True, al_is_open := True\<rparr>)
                    else open_libasound env config p))
            else open_libasound env config p))"

definition alsa_write :: "alsa_env \<Rightarrow> i16 list \<Rightarrow> nat \<Rightarrow> alsa_player \<Rightarrow> (nat \<times> alsa_player) option" where
  "alsa_write env pcm num_frames p =
     (if \<not> al_is_open p \<or> num_frames = 0 then Some (0, p)
      else if al_using_direct_fallback p
      then (case direct_write (ae_xfers env) pcm num_frames (al_direct_fallback p) of
              None \<Rightarrow> None
            | Some (k, _, d) \<Rightarrow> Some (k, p\<lparr>al_direct_fallback := d\<rparr>))
      else if al_pcm_handle p = None then Some (0, p)
      else if length pcm < num_frames * unat (ac_channels (al_config p)) then None
      else
        (let written = ae_writei env num_frames;
             written = (if written < 0
                        then (let r = ae_recover env written in if r \<ge> 0 then ae_writei2 env num_frames else r)
                        else written)
         in Some (if written > 0 then nat written else 0, p)))"

definition alsa_get_buffer_delay_frames :: "alsa_env \<Rightarrow> alsa_player \<Rightarrow> nat" where
  "alsa_get_buffer_delay_frames env p =
     (if \<not> al_is_open p then 0
      else if al_using_direct_fallback p
      then direct_get_buffer_delay_frames (ae_delay env) (al_direct_fallback p)
      else if al_pcm_handle p = None then 0
      else (case ae_delay env of Some d \<Rightarrow> if d > 0 then nat d else 0 | None \<Rightarrow> 0))"

definition alsa_flush :: "alsa_player \<Rightarrow> alsa_player" where
  "alsa_flush p =
     (if \<not> al_is_open p then p
      else if al_using_direct_fallback p then p\<lparr>al_direct_fallback := direct_flush (al_direct_fallback p)\<rparr>
      else p)"

definition alsa_get_device_name :: "alsa_player \<Rightarrow> string" where
  "alsa_get_device_name p =
     (if al_using_direct_fallback p then da_device_path (al_direct_fallback p) else al_device_name p)"

definition alsa_ops :: "alsa_env \<Rightarrow> alsa_player player_ops" where
  "alsa_ops env =
     \<lparr>po_is_open = al_is_open, po_close = alsa_close, po_write_frames = alsa_write env,
      po_get_buffer_delay_frames = alsa_get_buffer_delay_frames env, po_get_device_name = alsa_get_device_name,
      po_needs_playback_pacing = False, po_is_placeholder = False\<rparr>"

section \<open>Contract\<close>

text \<open>
  libasound documents that \<^verbatim>\<open>snd_pcm_writei\<close> takes at most the frames it is given; with that, the
  player satisfies the contract of a backend.
\<close>

lemma alsa_write_bounded:
  assumes "\<And>n. ae_writei env n \<le> int n" and "\<And>n. ae_writei2 env n \<le> int n"
    and "alsa_write env pcm n p = Some (k, q)"
  shows "k \<le> n"
proof -
  have "d \<le> n" if "direct_write es pcm n dp = Some (d, out, dq)" for es dp d out dq
    using that by (auto simp: direct_write_def Let_def split: if_splits)
  then show ?thesis using assms(3) assms(1) [of n] assms(2) [of n]
    by (auto simp: alsa_write_def Let_def split: if_splits option.splits)
qed

lemma alsa_player_contract:
  assumes "\<And>n. ae_writei env n \<le> int n" and "\<And>n. ae_writei2 env n \<le> int n"
  shows "audio_player (alsa_ops env) (\<lambda>_. True)"
  by unfold_locales
    (use alsa_write_bounded [OF assms] in
      \<open>auto simp: alsa_ops_def alsa_close_def Let_def alsa_write_def [of env _ _ p for p] split: option.splits\<close>)

section \<open>Opening\<close>

lemma direct_open_hangs:
  assumes "0 \<le> kn_open k d" and "kn_hw_params k (constrained_params c) = Some params" and "d \<noteq> []"
  shows "direct_open k c d p = None"
proof -
  obtain cs where cs: "direct_candidates k d = d # cs"
  proof -
    have "\<exists>cs. foldl add_new (x # xs) ys = x # cs" for x xs ys
      by (induction ys arbitrary: xs) (auto simp: add_new_def)
    then show ?thesis using that assms(3)
      by (cases "d = ''/dev/snd/pcmC0D0p''") (fastforce simp: direct_candidates_def Let_def)+
  qed
  have "try_open_candidate k d q = None" if "da_config q = c" for q
    using try_open_hangs assms that by metis
  then show ?thesis by (simp add: direct_open_def Let_def cs)
qed

text \<open>
  With a kernel node that accepts its parameters, opening the default device never returns: the node
  is tried before libasound.
\<close>

lemma alsa_default_open_hangs:
  assumes "enumerate_kernel_pcm_devices (ae_kernel env) = d # ds" and "d \<noteq> []"
    and "0 \<le> kn_open (ae_kernel env) d" and "kn_hw_params (ae_kernel env) (constrained_params c) = Some params"
  shows "alsa_open env c ''default'' p = None"
  using assms direct_open_hangs [OF assms(3,4,2)] by (simp add: alsa_open_def Let_def starts_with_def)

lemma try_libasound_first:
  "try_libasound_devices env ds p = (True, q) \<Longrightarrow>
   \<exists>us d vs h. ds = us @ d # vs \<and> ae_pcm_open env d = Some h \<and> ae_hw_params env d \<and> al_is_open q \<and>
               al_pcm_handle q = Some h \<and> al_device_name q = d \<and>
               (\<forall>u \<in> set us. ae_pcm_open env u = None \<or> \<not> ae_hw_params env u) \<and>
               al_using_direct_fallback q = al_using_direct_fallback p"
proof (induction ds arbitrary: p)
  case Nil
  then show ?case by simp
next
  case (Cons d ds)
  obtain ok r where r: "try_open_via_libasound env d p = (ok, r)" by fastforce
  show ?case
  proof (cases ok)
    case True
    then have "q = r" using Cons.prems r by simp
    then obtain h where "ae_pcm_open env d = Some h" "ae_hw_params env d" "al_is_open q" "al_pcm_handle q = Some h"
      "al_device_name q = d" "al_using_direct_fallback q = al_using_direct_fallback p"
      using r True by (auto simp: try_open_via_libasound_def split: option.splits if_splits)
    then show ?thesis by (rule_tac exI [of _ "[]"], rule_tac exI [of _ d], rule_tac exI [of _ ds], rule_tac exI [of _ h]) simp
  next
    case False
    then have "try_libasound_devices env ds r = (True, q)" using Cons.prems r by simp
    from Cons.IH [OF this] obtain us e vs h where e: "ds = us @ e # vs" "ae_pcm_open env e = Some h" "ae_hw_params env e"
      "al_is_open q" "al_pcm_handle q = Some h" "al_device_name q = e"
      "\<forall>u \<in> set us. ae_pcm_open env u = None \<or> \<not> ae_hw_params env u"
      "al_using_direct_fallback q = al_using_direct_fallback r" by blast
    have "ae_pcm_open env d = None \<or> \<not> ae_hw_params env d" "al_using_direct_fallback r = al_using_direct_fallback p"
      using r False by (auto simp: try_open_via_libasound_def split: option.splits if_splits)
    then show ?thesis using e
      by (rule_tac exI [of _ "d # us"], rule_tac exI [of _ e], rule_tac exI [of _ vs], rule_tac exI [of _ h]) simp
  qed
qed

text \<open>
  When no kernel node is listed and libasound is complete, opening a named device gives the
  first of the device, \<^verbatim>\<open>plughw:0,0\<close> and \<^verbatim>\<open>hw:0,0\<close> that both opens and accepts its parameters; the handle the
  player keeps is the one of that device.
\<close>

theorem alsa_open_first_usable:
  assumes "enumerate_kernel_pcm_devices (ae_kernel env) = []" and "list_ex (ae_dlopen env) alsa_lib_names"
    and "list_all (ae_dlsym env) alsa_symbols" and "name \<noteq> []" and "\<not> starts_with name ''/dev/snd/''"
    and "\<not> starts_with name ''direct:''" and "d \<in> set (alsa_candidates name)"
    and "ae_pcm_open env d \<noteq> None" and "ae_hw_params env d"
  shows "\<exists>q us e vs. alsa_open env c name AlsaPlayer = Some (True, q) \<and> alsa_candidates name = us @ e # vs \<and>
                    al_device_name q = e \<and> al_pcm_handle q = ae_pcm_open env e \<and> al_is_open q \<and>
                    (\<forall>u \<in> set us. ae_pcm_open env u = None \<or> \<not> ae_hw_params env u)"
proof -
  define p where "p = AlsaPlayer\<lparr>al_config := c, al_device_name := name, al_using_direct_fallback := False, al_lib_handle := True\<rparr>"
  have "fst (try_libasound_devices env ds q)" if "d \<in> set ds" for ds q
    using that
  proof (induction ds arbitrary: q)
    case (Cons x xs)
    obtain ok r where r: "try_open_via_libasound env x q = (ok, r)" by fastforce
    have "ok" if "x = d" using r assms(8,9) that by (auto simp: try_open_via_libasound_def)
    then show ?case using Cons.IH [of r] Cons.prems r by auto
  qed simp
  then obtain q where q: "try_libasound_devices env (alsa_candidates name) p = (True, q)"
    using assms(7) by (metis (full_types) prod.collapse)
  have "alsa_open env c name AlsaPlayer = Some (True, q)"
    using assms(1-6) q by (simp add: alsa_open_def open_libasound_def load_libasound_def AlsaPlayer_def p_def Let_def)
  then show ?thesis using try_libasound_first [OF q] by metis
qed

definition sample_alsa_env :: alsa_env where
  "sample_alsa_env =
     \<lparr>ae_kernel = \<lparr>kn_dev_snd = None, kn_open = (\<lambda>_. - 1), kn_hw_params = (\<lambda>_. None), kn_prepare = False\<rparr>,
      ae_dlopen = (\<lambda>_. True), ae_dlsym = (\<lambda>_. True), ae_pcm_open = (\<lambda>d. if d = ''hw:0,0'' then Some 3 else None),
      ae_hw_params = (\<lambda>_. True), ae_writei = int, ae_recover = id, ae_writei2 = int, ae_xfers = [], ae_delay = None\<rparr>"

theorem alsa_open_first_usable_witness:
  "\<exists>q. alsa_open sample_alsa_env default_audio_config ''default'' AlsaPlayer = Some (True, q) \<and> al_pcm_handle q = Some 3"
proof -
  have "\<exists>q us e vs. alsa_open sample_alsa_env default_audio_config ''default'' AlsaPlayer = Some (True, q) \<and>
      alsa_candidates ''default'' = us @ e # vs \<and> al_device_name q = e \<and> al_pcm_handle q = ae_pcm_open sample_alsa_env e \<and>
      al_is_open q \<and> (\<forall>u \<in> set us. ae_pcm_open sample_alsa_env u = None \<or> \<not> ae_hw_params sample_alsa_env u)"
    by (rule alsa_open_first_usable [where d = "''hw:0,0''"])
      (simp_all add: sample_alsa_env_def enumerate_kernel_pcm_devices_def alsa_lib_names_def starts_with_def
        alsa_candidates_def list_all_iff)
  moreover have "al_pcm_handle q = Some 3"
    if "alsa_open sample_alsa_env default_audio_config ''default'' AlsaPlayer = Some (True, q)" for q
    using that by (auto simp: alsa_open_def open_libasound_def load_libasound_def AlsaPlayer_def Let_def sample_alsa_env_def
        enumerate_kernel_pcm_devices_def alsa_lib_names_def starts_with_def alsa_candidates_def list_all_iff
        try_open_via_libasound_def)
  ultimately show ?thesis by blast
qed

end
