(* ===== verification/Program_Runs.thy ===== *)
theory Program_Runs
  imports Main_Programs Server_Session Client_Session Alsa Termux_Api
begin

text \<open>
  The two programs as a whole, \<^verbatim>\<open>main\<close> of \<^verbatim>\<open>src/client/main.cpp\<close> and \<^verbatim>\<open>src/server/main.cpp\<close>: the signals they
  take, what they print before they start, the lists of devices and interfaces, and every way they end,
  with the state they leave behind. The text of the two logos is not repeated, and the usage text has no
  definition. The lemmas show that a server that ends gives the speaker of the PC back, that a client that
  ends has closed its socket and its player, and which exit status stands for what.
\<close>

section \<open>Signals\<close>

datatype posix_signal = SigInt | SigTerm | SigHup | SigPipe | SigOther

datatype disposition = RequestsShutdown | Ignored | DefaultAction

definition client_disposition :: "posix_signal \<Rightarrow> disposition" where
  "client_disposition sig =
     (case sig of SigInt \<Rightarrow> RequestsShutdown | SigTerm \<Rightarrow> RequestsShutdown | SigHup \<Rightarrow> RequestsShutdown
      | SigPipe \<Rightarrow> Ignored | SigOther \<Rightarrow> DefaultAction)"

definition server_disposition :: "posix_signal \<Rightarrow> disposition" where
  "server_disposition sig =
     (if sig = SigInt \<or> sig = SigTerm \<or> sig = SigHup then RequestsShutdown else DefaultAction)"

datatype console_event = CTRL_C_EVENT | CTRL_BREAK_EVENT | CTRL_CLOSE_EVENT | CTRL_LOGOFF_EVENT | CTRL_SHUTDOWN_EVENT

text \<open>The handler for the Windows console: the flag afterwards, and what it returns.\<close>

definition console_ctrl_handler :: "console_event \<Rightarrow> bool \<Rightarrow> bool \<times> bool" where
  "console_ctrl_handler ctrl_type shutdown_requested =
     (if ctrl_type = CTRL_C_EVENT \<or> ctrl_type = CTRL_BREAK_EVENT \<or> ctrl_type = CTRL_CLOSE_EVENT \<or> ctrl_type = CTRL_SHUTDOWN_EVENT
      then (True, True) else (shutdown_requested, False))"

section \<open>The banner\<close>

definition get_terminal_width :: "u16 option \<Rightarrow> int" where
  "get_terminal_width os_winsize = (case os_winsize of Some ws_col \<Rightarrow> if ws_col > 0 then uint ws_col else 80 | None \<Rightarrow> 80)"

definition banner_use_color :: "system \<Rightarrow> bool \<Rightarrow> bool" where
  "banner_use_color sys tty =
     (if sys_getenv sys ''NO_COLOR'' \<noteq> None then False
      else if sys_getenv sys ''TERM'' = Some ''dumb'' then False else tty)"

text \<open>\<open>WideLogo\<close> and \<open>SmallLogo\<close> are drawn with block and box characters of Unicode.\<close>

datatype banner_part = WideLogo | SmallLogo | Plain string | Escape string

definition ansi :: "bool \<Rightarrow> string \<Rightarrow> banner_part list" where
  "ansi color code = (if color then [Escape ([CHR 0x1B] @ ''['' @ code @ ''m'')] else [])"

definition client_banner :: "bool \<Rightarrow> int \<Rightarrow> banner_part list" where
  "client_banner color term_width =
     (if term_width \<ge> 84 then ansi color ''36'' @ [WideLogo] @ ansi color ''0''
      else if term_width \<ge> 44 then ansi color ''36'' @ [SmallLogo] @ ansi color ''0''
      else ansi color ''36'' @ ansi color ''1'' @ [Plain ''AudioRouter''] @ ansi color ''0'') @
     ansi color ''32'' @ ansi color ''1'' @
     (if term_width < 52 then [Plain '' - Windows PC audio -> Android speakers'']
      else [Plain ''   '', Plain ''Windows PC audio -> Android speakers  (AAudio / Termux:API / AGM / ALSA)'']) @
     ansi color ''0'' @ [Plain [CHR 0x0A, CHR 0x0A]]"

definition server_banner :: "system \<Rightarrow> bool \<Rightarrow> banner_part list" where
  "server_banner sys tty =
     (let color = (tty \<and> sys_getenv sys ''NO_COLOR'' = None)
      in ansi color ''36'' @ [WideLogo] @ ansi color ''0'' @ ansi color ''32'' @ ansi color ''1'' @
         [Plain ''   Windows PC audio loopback -> Android  (WASAPI / UDP)''] @ ansi color ''0'' @ [Plain [CHR 0x0A, CHR 0x0A]])"

section \<open>Lists\<close>

definition line :: "string \<Rightarrow> string" where "line s = s @ [CHR 0x0A]"

definition em_dash :: string where "em_dash = [CHR 0xE2, CHR 0x80, CHR 0x94]"

definition interface_line :: "network_interface \<Rightarrow> string" where
  "interface_line i =
     line (''  ['' @ (if ni_is_up i then ''UP'' else ''DOWN'') @ ''] '' @ ni_name i @ '': '' @ ni_ip_address i @
           (if ni_is_loopback i then '' (Loopback)'' else []))"

definition list_interfaces :: "network_interface list \<Rightarrow> string" where
  "list_interfaces ifaces = [CHR 0x0A] @ line ''Available Network Interfaces:'' @ concat (map interface_line ifaces)"

definition heading :: "string \<Rightarrow> string" where "heading s = [CHR 0x0A] @ line s"

text \<open>What the build supports, the output of \<^verbatim>\<open>pactl\<close>, and whether the Termux:API app answers.\<close>

record list_env =
  le_pulse_supported :: bool
  le_pactl :: string
  le_aaudio_supported :: bool
  le_termux_supported :: bool
  le_api_available :: bool

definition list_pulse :: "system \<Rightarrow> list_env \<Rightarrow> string" where
  "list_pulse sys env =
     (if le_pulse_supported env then
        (if server_available sys then
           line (''  -> daemon reachable '' @ em_dash @ '' use -d pulse (or pulse:<sink>)'') @
           (let sinks = get_available_sinks (le_pactl env) in
            if sinks = [] then line ''     (no sinks listed; is 'pactl' installed?)''
            else concat (map (\<lambda>s. line (''     sink: '' @ s)) sinks))
         else line ''  -> no PulseAudio daemon found (no PULSE_SERVER and no native socket).'' @
              line ''     Start one with 'pulseaudio --start', then use -d pulse'')
      else line ''  -> not compiled in this build (install libpulse-dev / the Termux'' @
           line ''     'pulseaudio' package and rebuild)'')"

definition list_aaudio :: "list_env \<Rightarrow> string" where
  "list_aaudio env =
     (if le_aaudio_supported env
      then line (''  -> available '' @ em_dash @ '' use -d aaudio (or aaudio:deep / aaudio:voip)'')
      else line ''  -> not compiled in this build (needs an Android API 26+ toolchain with libaaudio)'')"

definition list_termux :: "list_env \<Rightarrow> string" where
  "list_termux env =
     (if le_termux_supported env then
        (if le_api_available env
         then line (''  -> available '' @ em_dash @ '' use -d termux (or termux:1000 for ~1 s segments)'')
         else line (''  -> the Termux:API app (com.termux.api) is not answering '' @ em_dash @ '' install it from'') @
              line ''     F-Droid, then use -d termux'')
      else line ''  -> not available on this platform'')"

definition list_devices :: "kernel \<Rightarrow> system \<Rightarrow> list_env \<Rightarrow> string" where
  "list_devices k sys env =
     heading ''Available ALSA Playback Devices:'' @ concat (map (\<lambda>d. line (''  -> '' @ d)) (alsa_get_available_devices k)) @
     heading ''Kernel ALSA Nodes in /dev/snd/:'' @ concat (map (\<lambda>n. line (''  -> '' @ n)) (get_dev_snd_nodes sys)) @
     heading ''/proc/asound/cards:'' @ concat (map (\<lambda>c. line (''  '' @ c)) (get_proc_asound_cards sys)) @
     heading ''PulseAudio (no root, needs a running daemon):'' @ list_pulse sys env @
     heading ''AAudio (no root, Android 8.0+):'' @ list_aaudio env @
     heading ''Termux:API media player (no root, needs the Termux:API app):'' @ list_termux env"

section \<open>The server program\<close>

text \<open>
  What the engine's threads do while \<^verbatim>\<open>main\<close> waits: datagrams, ticks of the watchdog, captured audio and
  closed tunnels, in any order.
\<close>

inductive server_serves :: "'e capture_ops \<Rightarrow> 'e server \<Rightarrow> 'e server \<Rightarrow> bool" for ops where
  idle: "server_serves ops s s"
| event: "server_serves ops s t \<Longrightarrow> server_step ops ev t t' \<Longrightarrow> ev \<noteq> Starts \<Longrightarrow> ev \<noteq> Stops \<Longrightarrow> server_serves ops s t'"

text \<open>
  The ends of a program: it returns a status, with the engine it leaves behind if it made one, or an
  exception that nothing catches ends it.
\<close>

datatype 's outcome = Returned int "'s option" | Uncaught

text \<open>
  Every \<open>return\<close> after the engine is made runs its destructor, which stops it (once more, when \<^verbatim>\<open>main\<close> has
  stopped it already). The monitoring loop ends when a signal requests the shutdown. \<open>sp\<close> is the
  speaker of the PC, with the endpoint control as it is constructed.
\<close>

inductive server_program :: "'e capture_ops \<Rightarrow> speaker \<Rightarrow> string list \<Rightarrow> 'e server outcome \<Rightarrow> bool" for ops sp args where
  early: "server_main args = Exits n \<Longrightarrow> server_program ops sp args (Returned n None)"
| uncaught: "server_main args = Terminates \<Longrightarrow> server_program ops sp args Uncaught"
| lists: "server_main args = Lists \<Longrightarrow> server_program ops sp args (Returned 0 None)"
| start_fails: "server_main args = Runs c \<Longrightarrow> fresh_speaker sp \<Longrightarrow> \<not> co_is_capturing ops fresh \<Longrightarrow>
    server_start res env b fresh (AudioRouterServer sp c) = (False, s) \<Longrightarrow>
    server_program ops sp args (Returned 1 (Some (server_stop ops env2 s)))"
| serves: "server_main args = Runs c \<Longrightarrow> fresh_speaker sp \<Longrightarrow> \<not> co_is_capturing ops fresh \<Longrightarrow>
    server_start res env b fresh (AudioRouterServer sp c) = (True, s) \<Longrightarrow> server_serves ops s t \<Longrightarrow>
    server_disposition sig = RequestsShutdown \<Longrightarrow>
    server_program ops sp args (Returned 0 (Some (server_stop ops env3 (server_stop ops env2 t))))"

section \<open>The client program\<close>

inductive client_plays :: "'p player_ops \<Rightarrow> 'p client \<Rightarrow> 'p client \<Rightarrow> bool" for ops where
  idle: "client_plays ops c c"
| receive: "client_plays ops c d \<Longrightarrow> client_receive env (n, buf, src) d = Some d' \<Longrightarrow> nat n \<le> 65536 \<Longrightarrow> length buf = nat n \<Longrightarrow>
    client_plays ops c d'"
| playback: "client_plays ops c d \<Longrightarrow> playback_turn ops env a buf d = Some (t, buf', d') \<Longrightarrow> client_plays ops c d'"
| heartbeat: "client_plays ops c d \<Longrightarrow> client_plays ops c (heartbeat_turn env evs d)"
| swap: "client_plays ops c d \<Longrightarrow> client_plays ops c (d\<lparr>cl_player := Some p\<rparr>)"

text \<open>The client's loop also ends when the engine no longer runs.\<close>

inductive client_program :: "'p player_ops \<Rightarrow> string list \<Rightarrow> 'p client outcome \<Rightarrow> bool" for ops args where
  early: "client_main args = Exits n \<Longrightarrow> client_program ops args (Returned n None)"
| uncaught: "client_main args = Terminates \<Longrightarrow> client_program ops args Uncaught"
| lists: "client_main args = Lists \<Longrightarrow> client_program ops args (Returned 0 None)"
| start_fails: "client_main args = Runs cf \<Longrightarrow> client_start env st (AudioRouterClient cf) = (False, c) \<Longrightarrow>
    client_program ops args (Returned 1 (Some (client_stop ops env2 c)))"
| plays: "client_main args = Runs cf \<Longrightarrow> client_start env st (AudioRouterClient cf) = (True, c) \<Longrightarrow> client_plays ops c d \<Longrightarrow>
    client_disposition sig = RequestsShutdown \<or> \<not> cl_is_running d \<Longrightarrow>
    client_program ops args (Returned 0 (Some (client_stop ops env3 (client_stop ops env2 d))))"

section \<open>The banner and the lists\<close>

text \<open>Without colour the banner has no escape sequence.\<close>

lemma banner_without_escapes: "Escape e \<notin> set (client_banner False w)" "\<not> tty \<Longrightarrow> Escape e \<notin> set (server_banner sys tty)"
  by (simp_all add: client_banner_def server_banner_def ansi_def)

text \<open>
  When the output is no terminal there is no width, so 80 columns are assumed and the small logo is
  drawn, with characters outside ASCII; the comment at \<open>banner_use_color\<close> promises plain ASCII then.
\<close>

theorem piped_banner_has_logo: "SmallLogo \<in> set (client_banner (banner_use_color sys False) (get_terminal_width None))"
  by (simp add: client_banner_def get_terminal_width_def)

section \<open>The end of the server\<close>

lemma serves_reach: "server_serves ops s t \<Longrightarrow> server_reach ops sp c s \<Longrightarrow> server_reach ops sp c t"
  by (induction rule: server_serves.induct) (auto intro: server_reach.step)

text \<open>Automatic muting is off only if an option turns it off.\<close>

lemma server_option_mute:
  assumes "server_option arg v s = Parsed (s', used)" and "arg \<noteq> ''--no-mute''"
  shows "sc_auto_mute_pc_speaker (sa_config s') = sc_auto_mute_pc_speaker (sa_config s)"
proof -
  define keeps where "keeps r \<longleftrightarrow> (\<forall>t u. r = Parsed (t, u) \<longrightarrow> sc_auto_mute_pc_speaker (sa_config t) = sc_auto_mute_pc_speaker (sa_config s))"
    for r :: "(server_args \<times> bool) parsed"
  have ifk: "keeps x \<Longrightarrow> keeps y \<Longrightarrow> keeps (if b then x else y)" for x y b by simp
  have "keeps (server_option arg v s)"
    unfolding server_option_def Let_def if_not_P [OF assms(2)]
    by (intro ifk) (auto simp: keeps_def split: option.split)
  then show ?thesis using assms(1) by (simp add: keeps_def)
qed

lemma server_option_quit:
  assumes "server_option arg v s = Quit n"
  shows "n = 0 \<or> n = 1"
proof -
  define small where "small r \<longleftrightarrow> (\<forall>n. r = Quit n \<longrightarrow> n = 0 \<or> n = 1)" for r :: "(server_args \<times> bool) parsed"
  have ifk: "small x \<Longrightarrow> small y \<Longrightarrow> small (if b then x else y)" for x y b by simp
  have "small (server_option arg v s)"
    unfolding server_option_def Let_def by (intro ifk) (auto simp: small_def split: option.split)
  then show ?thesis using assms by (simp add: small_def)
qed

lemma args_loop_mute:
  assumes "args_loop server_option args s = Parsed s'" and "''--no-mute'' \<notin> set args"
  shows "sc_auto_mute_pc_speaker (sa_config s') = sc_auto_mute_pc_speaker (sa_config s)"
  using assms
proof (induction server_option args s rule: args_loop.induct)
  case (2 arg rest s)
  then obtain t used where t: "server_option arg (case rest of [] \<Rightarrow> None | v # _ \<Rightarrow> Some v) s = Parsed (t, used)"
    "args_loop server_option (if used then tl rest else rest) t = Parsed s'"
    by (auto split: parsed.splits prod.splits)
  have "''--no-mute'' \<notin> set (if used then tl rest else rest)" using 2(3) by (cases rest) auto
  then have "sc_auto_mute_pc_speaker (sa_config s') = sc_auto_mute_pc_speaker (sa_config t)" using 2(1) t by auto
  then show ?case using server_option_mute [OF t(1)] 2(3) by auto
qed simp

lemma server_main_mutes:
  assumes "server_main args = Runs c" and "''--no-mute'' \<notin> set args"
  shows "sc_auto_mute_pc_speaker c"
proof -
  obtain s where s: "args_loop server_option args no_server_args = Parsed s" "c = usb_bind (sa_config s)"
    using assms(1) by (auto simp: server_main_def split: parsed.splits if_splits)
  then show ?thesis using args_loop_mute [OF s(1) assms(2)]
    by (simp add: usb_bind_def no_server_args_def default_server_config_def)
qed

lemma server_stop_final:
  assumes "ops_ok ops"
  shows "\<not> sv_is_running (server_stop ops env s)" "\<not> udp_is_open (sv_socket (server_stop ops env s))"
    "sv_state (server_stop ops env s) = STOPPED"
    "sv_engine (server_stop ops env s) = Some e \<Longrightarrow> \<not> co_is_capturing ops e"
proof -
  have e: "sv_engine (server_stop ops env s) =
      map_option (co_stop ops) (sv_engine (disconnect_client env ''Server shutdown'' True (s\<lparr>sv_is_running := False\<rparr>)))"
    by (simp add: server_stop_def Let_def)
  show "sv_engine (server_stop ops env s) = Some e \<Longrightarrow> \<not> co_is_capturing ops e"
    unfolding e using assms by (auto simp: ops_ok_def)
qed (auto simp: server_stop_def udp_close_def udp_is_open_def Let_def)

lemma server_program_state:
  assumes "server_program ops sp args (Returned n (Some s))"
  obtains c env t where "server_main args = Runs c" "server_reach ops sp c t" "s = server_stop ops env t"
  using assms
proof (cases rule: server_program.cases)
  case (start_fails c fresh res env b t env2)
  then show ?thesis
    using that [OF start_fails(3) server_reach.step [OF server_reach.init [OF start_fails(4)] server_step.start [OF start_fails(5,6)]]]
    by blast
next
  case (serves c fresh res env b s0 t sig env3 env2)
  have "server_reach ops sp c t"
    using serves(7) server_reach.step [OF server_reach.init [OF serves(4)] server_step.start [OF serves(5,6)]] by (rule serves_reach)
  then show ?thesis using that serves(2,3) server_reach.step [OF _ server_step.stop] by blast
qed

text \<open>
  Claim C16: unless the server was told \<^verbatim>\<open>--no-mute\<close>, however its program returns after it has made its
  engine, because the start failed or because a signal ended it in the middle of any session after any
  number of others, the socket is closed and nothing is captured any more; and when the capture engine
  starts whenever it is asked to, every control of the PC's speaker that the configured mute method takes
  care of is as it was before the program: the mute flag and the volume on the dummy device, on Windows,
  with endpoint calls that succeed, the mute flag for EndpointMute, the volume for VolumeZero, both for Both.
\<close>

theorem server_program_restores_speaker:
  assumes "server_program ops sp args (Returned n (Some s))" and "''--no-mute'' \<notin> set args" and "ops_ok ops"
  shows "\<not> sv_is_running s \<and> \<not> udp_is_open (sv_socket s) \<and> (\<forall>e. sv_engine s = Some e \<longrightarrow> \<not> co_is_capturing ops e) \<and>
         (ops_reliable ops \<and> sp_works sp \<longrightarrow> sp_as_before (sc_mute_method (sv_config s)) sp (sv_endpoint s))"
proof -
  obtain c env t where t: "server_main args = Runs c" "server_reach ops sp c t" "s = server_stop ops env t"
    using server_program_state [OF assms(1)] by blast
  then have r: "server_reach ops sp c s" using server_reach.step [OF _ server_step.stop] by blast
  note inv = reach_session_inv [OF r assms(3)]
  have "\<not> sp_is_silenced_by_us (sv_endpoint s)"
    using inv server_stop_final(3) [OF assms(3)] t(3) by (simp add: session_inv_def)
  then have "sp_as_before (sc_mute_method (sv_config s)) sp (sv_endpoint s)" if "ops_reliable ops" "sp_works sp"
    using reach_speaker_holds [OF r assms(3) that(1) server_main_mutes [OF t(1) assms(2)] that(2)] inv
    by (auto dest: sp_holds_released)
  then show ?thesis using server_stop_final [OF assms(3)] t(3) by simp
qed

text \<open>A run with \<^verbatim>\<open>--usb\<close> on a Windows speaker, in which a client connects and the program is then ended.\<close>

theorem server_program_restores_speaker_witness:
  "\<exists>s. server_program tone_ops win_example [''--usb''] (Returned 0 (Some s)) \<and> sp_muted (sv_endpoint s) = Some False"
proof -
  define c where "c = usb_bind (default_server_config\<lparr>sc_usb_mode := True\<rparr>)"
  have m: "server_main [''--usb''] = Runs c"
    by (simp add: server_main_def server_option_def no_server_args_def c_def)
  define s where "s = snd (server_start example_resolver example_env True (DummyCapture (FFin 440)) (AudioRouterServer win_example c))"
  have s: "server_start example_resolver example_env True (DummyCapture (FFin 440)) (AudioRouterServer win_example c) = (True, s)"
    "sv_is_running s" "sv_config s = c" "sv_engine s = Some (DummyCapture (FFin 440))" "sv_state s = LISTENING"
    "sv_endpoint s = snd (sp_init (en_com example_env) win_example)"
    by (simp_all add: s_def server_start_def AudioRouterServer_def udp_open_def udp_bind_def udp_is_open_def UdpSocket_def example_env_def
        INVALID_SOCKET_HANDLE_def example_resolver_def SocketAddress_def c_def usb_bind_def default_server_config_def Let_def)
  have fresh: "\<not> co_is_capturing tone_ops (DummyCapture (FFin 440))" by (simp add: tone_ops_def dummy_is_capturing_def DummyCapture_def)
  have fs: "fresh_speaker win_example" by (simp add: win_example_def)
  have "\<exists>t. handle_connect_req tone_ops example_env example_client s = Some t"
    by (simp add: handle_connect_req_unfold busy_with_other_def s serve_client_def silence_speaker_def fresh c_def usb_bind_def
        tone_ops_def dummy_is_capturing_def DummyCapture_def dummy_capture_start_def default_server_config_def
        accept_client_def example_env_def win_example_def win_init_def win_mute_pc_speaker_def Let_def split: prod.split)
  then obtain t where t: "receive_datagram tone_ops example_env (bare_request CONNECT_REQ) example_client s = Some t"
    by (auto simp: bare_request_received)
  have "server_serves tone_ops s t"
    using server_serves.event [OF server_serves.idle server_step.datagram] s(2) t unfolding example_client_def by force
  moreover have "server_disposition SigTerm = RequestsShutdown" by (simp add: server_disposition_def)
  ultimately obtain u where u: "server_program tone_ops win_example [''--usb''] (Returned 0 (Some u))"
    using server_program.serves [OF m fs fresh s(1)] by blast
  have "sc_mute_method (sv_config u) = EndpointMute"
  proof -
    obtain c' env' t' where "server_main [''--usb''] = Runs c'" "server_reach tone_ops win_example c' t'" "u = server_stop tone_ops env' t'"
      using server_program_state [OF u] by blast
    then show ?thesis using m reach_session_inv [OF _ tone_ops_ok] by (auto simp: server_stop_frame c_def usb_bind_def default_server_config_def)
  qed
  moreover have "ops_reliable tone_ops" by (simp add: ops_reliable_def tone_ops_def dummy_capture_start_def Let_def)
  moreover have "sp_works win_example" by (simp add: win_example_def win_device_api_works)
  ultimately have "sp_as_before EndpointMute win_example (sv_endpoint u)"
    using server_program_restores_speaker [OF u _ tone_ops_ok] by simp
  then show ?thesis using u
    by (intro exI [of _ u]) (cases "sv_endpoint u"; auto simp: sp_as_before_def win_example_def win_device_api_def uses_mute_def)
qed

text \<open>
  A server program that returns gives 0 or 1, and 1 without an engine only for an option it does not know.
\<close>

lemma args_loop_quit: "args_loop server_option args s = Quit n \<Longrightarrow> n = 0 \<or> n = 1"
proof (induction server_option args s rule: args_loop.induct)
  case (2 arg rest s)
  then show ?case by (auto split: parsed.splits prod.splits dest: server_option_quit)
qed simp

theorem server_exit_status:
  assumes "server_program ops sp args (Returned n st)"
  shows "n = 0 \<or> n = 1"
  using assms
proof (cases rule: server_program.cases)
  case early
  then show ?thesis using args_loop_quit [of args no_server_args n] by (auto simp: server_main_def split: parsed.splits if_splits)
qed simp_all

section \<open>The end of the client\<close>

lemma client_start_fails:
  assumes "client_start env st c = (False, d)"
  shows "\<not> udp_is_open (cl_socket d)"
proof -
  have closed: "\<not> udp_is_open (cl_socket (close_socket e))" for e :: "'a client"
    by (simp add: close_socket_def udp_close_def udp_is_open_def)
  have target: "usb_target st e = (False, e') \<Longrightarrow> \<not> udp_is_open (cl_socket e')"
    "lan_target env st e = (False, e') \<Longrightarrow> \<not> udp_is_open (cl_socket e')" for e e' :: "'a client"
    using closed by (auto simp: usb_target_def lan_target_def Let_def split: if_splits prod.splits option.splits)
  have conn: "\<not> udp_is_open (cl_socket e')" if "connect_to_server env st e = (False, e')" for e e' :: "'a client"
    using that closed by (auto simp: connect_to_server_def Let_def split: if_splits prod.splits)
  have op: "\<not> udp_is_open k" if "udp_open h sock = (False, k)" for h sock k
    using that by (auto simp: udp_open_def udp_is_open_def Let_def split: if_splits)
  show ?thesis using assms
    by (auto dest: target conn op simp: client_start_def Let_def split: if_splits prod.splits)
qed

lemma client_start_streams:
  assumes "client_start env st (AudioRouterClient cf) = (True, d)"
  shows "cl_state d = CL_STREAMING"
  using assms
  by (auto simp: client_start_def connect_to_server_def begin_streaming_def AudioRouterClient_def Let_def split: if_splits prod.splits)

lemma state_receive:
  assumes "client_receive env (n, buf, src) c = Some d"
  shows "cl_state d = cl_state c"
proof -
  have audio: "cl_state e' = cl_state e" if "handle_audio_data env m e = Some e'" for m and e e' :: "'a client"
    using that by (auto simp: handle_audio_data_def Let_def split: if_splits)
  have pong: "cl_state (handle_heartbeat_pong env m e) = cl_state e" for m and e :: "'a client"
    by (simp add: handle_heartbeat_pong_def Let_def)
  show ?thesis using assms audio pong
    by (auto simp: client_receive_def Let_def split: if_splits prod.splits msg_type.splits)
qed

lemma state_playback: "playback_turn ops env a buf c = Some (t, buf', d) \<Longrightarrow> cl_state d = cl_state c"
  by (auto simp: playback_turn_def Let_def split: if_splits option.splits prod.splits)

lemma state_heartbeat: "cl_state (heartbeat_turn env evs c) = cl_state c"
proof -
  define e where "e = snd (cl_send env (ping_packet env c) (cl_server_addr c) c)"
  have "cl_state e = cl_state c" by (simp add: e_def)
  moreover have "cl_state (snd (perform_handshake env evs e)) = cl_state e"
    using handshake_outcome_basic [of env evs e] by (metis prod.collapse same_but_config_def)
  ultimately show ?thesis by (simp add: heartbeat_turn_def e_def [symmetric] Let_def)
qed

lemma plays_state: "client_plays ops c d \<Longrightarrow> cl_state d = cl_state c"
  by (induction rule: client_plays.induct) (auto simp: state_heartbeat dest: state_receive state_playback)

lemma client_stop_final:
  assumes "cl_state c \<noteq> CL_STOPPED"
  shows "\<not> cl_is_running (client_stop ops env c) \<and> \<not> udp_is_open (cl_socket (client_stop ops env c)) \<and>
         cl_state (client_stop ops env c) = CL_STOPPED \<and> (\<exists>q. cl_player (client_stop ops env c) = map_option (po_close ops) q)"
  using assms by (auto simp: client_stop_def close_socket_def udp_close_def udp_is_open_def Let_def)

lemma client_stop_again: "cl_state c = CL_STOPPED \<Longrightarrow> \<not> cl_is_running c \<Longrightarrow> client_stop ops env c = c"
  by (simp add: client_stop_def)

text \<open>
  Whenever the client program returns after it has made its engine, its UDP socket is closed and
  nothing runs any more; and if it had streamed, whether a signal or the server ended it and whatever
  happened in between, its player is closed as well.
\<close>

theorem client_program_ends_closed:
  assumes "client_program ops args (Returned n (Some c))" and "\<And>p. \<not> po_is_open ops (po_close ops p)"
  shows "\<not> cl_is_running c \<and> \<not> udp_is_open (cl_socket c) \<and>
         (n = 0 \<longrightarrow> cl_state c = CL_STOPPED \<and> (\<forall>p. cl_player c = Some p \<longrightarrow> \<not> po_is_open ops p))"
  using assms(1)
proof (cases rule: client_program.cases)
  case (start_fails cf env st d env2)
  show ?thesis
  proof (cases "cl_state d = CL_STOPPED \<and> \<not> cl_is_running d")
    case True
    then show ?thesis using client_stop_again [of d] client_start_fails [OF start_fails(4)] start_fails(1,2) by simp
  next
    case False
    then have "\<not> cl_is_running c \<and> \<not> udp_is_open (cl_socket c)"
      by (auto simp: start_fails(2) client_stop_def close_socket_def udp_close_def udp_is_open_def Let_def)
    then show ?thesis using start_fails(1) by simp
  qed
next
  case (plays cf env st c0 d sig env3 env2)
  have "cl_state d \<noteq> CL_STOPPED" using plays_state [OF plays(5)] client_start_streams [OF plays(4)] by simp
  then have f: "\<not> cl_is_running (client_stop ops env2 d) \<and> \<not> udp_is_open (cl_socket (client_stop ops env2 d)) \<and>
      cl_state (client_stop ops env2 d) = CL_STOPPED \<and> (\<exists>q. cl_player (client_stop ops env2 d) = map_option (po_close ops) q)"
    by (rule client_stop_final)
  then have "c = client_stop ops env2 d" using plays(2) client_stop_again by blast
  moreover obtain q where "cl_player (client_stop ops env2 d) = map_option (po_close ops) q" using f by blast
  ultimately show ?thesis using f assms(2) by (cases q) auto
qed

theorem client_program_ends_closed_witness:
  "\<exists>c. client_program dummy_player_ops [''-u''] (Returned 1 (Some c)) \<and> \<not> udp_is_open (cl_socket c)"
proof -
  define cf where "cf = usb_latency (no_client_args\<lparr>ca_config := default_client_config\<lparr>cf_usb_mode := True\<rparr>\<rparr>)"
  have m: "client_main [''-u''] = Runs cf" by (simp add: client_main_def client_option_def no_client_args_def cf_def)
  define env where "env = sample_cenv\<lparr>ce_socket := INVALID_SOCKET_HANDLE\<rparr>"
  obtain c where "client_start env st (AudioRouterClient cf) = (False, c)" for st :: "dummy_player start_env"
    by (simp add: client_start_def AudioRouterClient_def udp_open_def udp_is_open_def UdpSocket_def env_def Let_def)
  from client_program.start_fails [OF m this, of dummy_player_ops sample_cenv]
  have p: "client_program dummy_player_ops [''-u''] (Returned 1 (Some (client_stop dummy_player_ops sample_cenv c)))" .
  have "\<not> po_is_open dummy_player_ops (po_close dummy_player_ops q)" for q
    by (simp add: dummy_player_ops_def dummy_player_close_def)
  from client_program_ends_closed [OF p this] show ?thesis using p by blast
qed

end
