(* ===== verification/Stream_Daemon.thy ===== *)
theory Stream_Daemon
  imports Text_Util Android_Helpers
begin

text \<open>
  \<^verbatim>\<open>src/tools/stream_daemon.cpp\<close>: a stand-alone program that copies a named pipe into an AAudio stream.
  Its streams are numbered in the order they are opened. One turn is one pass of the main loop with
  what the system and libaaudio answer in it; \<open>None\<close> is a read that runs over the buffer. The lemmas give
  the invariant of the loop, the order of the audio, the rate of reconnects and what a reconnect does
  to a frame that was only half read.
\<close>

section \<open>Program\<close>

definition kDaemonChannels :: nat where "kDaemonChannels = 2"
definition kDaemonBufferFrames :: nat where "kDaemonBufferFrames = 960"
definition kDaemonBytesPerFrame :: nat where "kDaemonBytesPerFrame = kDaemonChannels * 2"
definition kMinRebuildIntervalNs :: int where "kMinRebuildIntervalNs = 1000000000"

definition daemon_buffer_bytes :: nat where
  "daemon_buffer_bytes = kDaemonBufferFrames * kDaemonBytesPerFrame"

definition daemon_fifo_path :: "system \<Rightarrow> string list \<Rightarrow> string" where
  "daemon_fifo_path sys args =
     (if length args > 1 then args ! 1
      else case sys_getenv sys ''HOME'' of
             Some home \<Rightarrow> if home \<noteq> [] then home @ ''/audio_pipe'' else ''/data/local/tmp/audio_pipe''
           | None \<Rightarrow> ''/data/local/tmp/audio_pipe'')"

text \<open>\<^verbatim>\<open>std::atoi\<close>, zero without a number; \<open>None\<close> is a value that is no \<^verbatim>\<open>int\<close>, for which it is undefined.\<close>

definition atoi :: "string \<Rightarrow> int option" where
  "atoi s = (if scan_integer s = None then Some 0 else stoi s)"

definition daemon_sample_rate :: "string list \<Rightarrow> int option" where
  "daemon_sample_rate args =
     (if length args > 2 then map_option (\<lambda>r. if r > 0 then r else 48000) (atoi (args ! 2)) else Some 48000)"

text \<open>
  \<open>sd_opened\<close>, \<open>sd_closed\<close>, \<open>sd_starts\<close> and \<open>sd_played\<close> record the streams opened, closed and asked to start so
  far and the bytes the stream has taken.
\<close>

record stream_daemon =
  sd_stream :: "nat option"
  sd_last_rebuild_ns :: int
  sd_buffer :: "byte list"
  sd_residual :: nat
  sd_zero_write_count :: int
  sd_opened :: "nat list"
  sd_closed :: "nat list"
  sd_starts :: "nat list"
  sd_played :: "byte list"

definition daemon_init :: stream_daemon where
  "daemon_init =
     \<lparr>sd_stream = None, sd_last_rebuild_ns = 0, sd_buffer = replicate daemon_buffer_bytes 0, sd_residual = 0,
      sd_zero_write_count = 0, sd_opened = [], sd_closed = [], sd_starts = [], sd_played = []\<rparr>"

definition request_start :: "stream_daemon \<Rightarrow> stream_daemon" where
  "request_start d = (case sd_stream d of None \<Rightarrow> d | Some s \<Rightarrow> d\<lparr>sd_starts := sd_starts d @ [s]\<rparr>)"

lemma request_start_simps [simp]:
  "sd_stream (request_start d) = sd_stream d" "sd_last_rebuild_ns (request_start d) = sd_last_rebuild_ns d"
  "sd_buffer (request_start d) = sd_buffer d" "sd_residual (request_start d) = sd_residual d"
  "sd_opened (request_start d) = sd_opened d" "sd_closed (request_start d) = sd_closed d" "sd_played (request_start d) = sd_played d"
  by (simp_all add: request_start_def split: option.splits)

text \<open>\<open>builder_ok\<close> and \<open>open_ok\<close>: whether the builder was made and the stream could be opened.\<close>

definition open_stream :: "bool \<Rightarrow> bool \<Rightarrow> stream_daemon \<Rightarrow> bool \<times> stream_daemon" where
  "open_stream builder_ok open_ok d =
     (let d = (case sd_stream d of None \<Rightarrow> d | Some s \<Rightarrow> d\<lparr>sd_stream := None, sd_closed := sd_closed d @ [s]\<rparr>)
      in if \<not> builder_ok then (False, d)
         else if \<not> open_ok then (False, d\<lparr>sd_stream := None\<rparr>)
         else (True, request_start (d\<lparr>sd_stream := Some (length (sd_opened d)), sd_opened := sd_opened d @ [length (sd_opened d)]\<rparr>)))"

datatype poll_result = PollFailed | PollInterrupted | PollIdle | PollReadable
datatype daemon_stream_state = StreamDisconnected | StreamPaused | StreamStopped | StreamOther

text \<open>
  What one turn meets: the result of \<^verbatim>\<open>poll\<close>, the bytes read (none on an error), the state of the stream,
  the clock, whether a new stream can be made, and the result of the write.
\<close>

record daemon_env =
  de_poll :: poll_result
  de_read :: "byte list"
  de_state :: daemon_stream_state
  de_now_ns :: int
  de_builder_ok :: bool
  de_open_ok :: bool
  de_write :: int

definition reconnect :: "daemon_env \<Rightarrow> stream_daemon \<Rightarrow> stream_daemon" where
  "reconnect env d =
     (if de_now_ns env - sd_last_rebuild_ns d \<ge> kMinRebuildIntervalNs
      then snd (open_stream (de_builder_ok env) (de_open_ok env) (d\<lparr>sd_last_rebuild_ns := de_now_ns env\<rparr>))
      else d)"

text \<open>A stream that was paused or stopped is started again.\<close>

definition restart_stream :: "daemon_env \<Rightarrow> stream_daemon \<Rightarrow> stream_daemon" where
  "restart_stream env d = (if de_state env = StreamPaused \<or> de_state env = StreamStopped then request_start d else d)"

text \<open>A write gives a negative error, zero, or the number of frames taken from the front of the buffer.\<close>

definition write_stream :: "daemon_env \<Rightarrow> stream_daemon \<Rightarrow> stream_daemon" where
  "write_stream env d =
     (if de_write env < 0 then request_start d
      else if de_write env = 0 then d\<lparr>sd_zero_write_count := sd_zero_write_count d + 1\<rparr>
      else d\<lparr>sd_zero_write_count := 0,
             sd_played := sd_played d @ take (nat (de_write env) * kDaemonBytesPerFrame) (sd_buffer d)\<rparr>)"

text \<open>The end of a turn: the bytes behind the last whole frame are moved to the front.\<close>

definition keep_fraction :: "nat \<Rightarrow> stream_daemon \<Rightarrow> stream_daemon" where
  "keep_fraction frames d =
     (if sd_residual d > 0
      then d\<lparr>sd_buffer := blit (sd_buffer d) 0 (slice (frames * kDaemonBytesPerFrame) (sd_residual d) (sd_buffer d))\<rparr>
      else d)"

definition daemon_turn :: "daemon_env \<Rightarrow> stream_daemon \<Rightarrow> (bool \<times> stream_daemon) option" where
  "daemon_turn env d =
     (case de_poll env of
        PollFailed \<Rightarrow> Some (False, d)
      | PollInterrupted \<Rightarrow> Some (True, d)
      | PollIdle \<Rightarrow> Some (True, d)
      | PollReadable \<Rightarrow>
          if de_read env = [] then Some (True, d)
          else if sd_residual d + length (de_read env) > length (sd_buffer d) then None
          else
            (let total = length (de_read env) + sd_residual d;
                 frames = total div kDaemonBytesPerFrame;
                 d = d\<lparr>sd_buffer := blit (sd_buffer d) (sd_residual d) (de_read env),
                       sd_residual := total mod kDaemonBytesPerFrame\<rparr>
             in if frames > 0
                then if sd_stream d = None \<or> de_state env = StreamDisconnected then Some (True, reconnect env d)
                     else Some (True, keep_fraction frames (write_stream env (restart_stream env d)))
                else Some (True, keep_fraction frames d)))"

text \<open>The loop over a list of turns, each with a flag that tells whether a signal has asked for the end.\<close>

fun daemon_loop :: "(bool \<times> daemon_env) list \<Rightarrow> stream_daemon \<Rightarrow> stream_daemon option" where
  "daemon_loop [] d = Some d"
| "daemon_loop ((stop, env) # es) d =
     (if stop then Some d
      else case daemon_turn env d of
             None \<Rightarrow> None
           | Some (False, d) \<Rightarrow> Some d
           | Some (True, d) \<Rightarrow> daemon_loop es d)"

definition daemon_finish :: "stream_daemon \<Rightarrow> stream_daemon" where
  "daemon_finish d = (case sd_stream d of None \<Rightarrow> d | Some s \<Rightarrow> d\<lparr>sd_closed := sd_closed d @ [s], sd_stream := None\<rparr>)"

text \<open>
  The whole program: its exit code and its last state. \<open>fifo_ok\<close> and \<open>fd_ok\<close> tell whether the pipe could be
  made and opened, the next two whether the first stream could.
\<close>

definition daemon_main ::
  "bool \<Rightarrow> bool \<Rightarrow> bool \<Rightarrow> bool \<Rightarrow> (bool \<times> daemon_env) list \<Rightarrow> (int \<times> stream_daemon) option" where
  "daemon_main fifo_ok fd_ok builder_ok open_ok es =
     (if \<not> fifo_ok \<or> \<not> fd_ok then Some (1, daemon_init)
      else case open_stream builder_ok open_ok daemon_init of
             (False, d) \<Rightarrow> Some (1, d)
           | (True, d) \<Rightarrow> map_option (\<lambda>d. (0, daemon_finish d)) (daemon_loop es d))"

section \<open>The invariant\<close>

text \<open>
  Less than a frame is left over, the buffer keeps its size, and the streams that were opened are the
  closed ones and the current one.
\<close>

definition sd_inv :: "stream_daemon \<Rightarrow> bool" where
  "sd_inv d \<longleftrightarrow> length (sd_buffer d) = daemon_buffer_bytes \<and> sd_residual d < kDaemonBytesPerFrame \<and>
     sd_opened d = sd_closed d @ (case sd_stream d of None \<Rightarrow> [] | Some s \<Rightarrow> [s])"

lemma frame_bytes [simp]: "kDaemonBytesPerFrame = 4" "daemon_buffer_bytes = 3840"
  by (simp_all add: kDaemonBytesPerFrame_def kDaemonChannels_def daemon_buffer_bytes_def kDaemonBufferFrames_def)

lemma sd_inv_init: "sd_inv daemon_init"
  by (simp add: sd_inv_def daemon_init_def)

lemma sd_inv_open: "sd_inv d \<Longrightarrow> sd_inv (snd (open_stream b o1 d))"
  by (auto simp: sd_inv_def open_stream_def Let_def split: option.splits)

lemma sd_inv_reconnect: "sd_inv d \<Longrightarrow> sd_inv (reconnect env d)"
  unfolding reconnect_def by (auto intro: sd_inv_open simp: sd_inv_def [of "sd_last_rebuild_ns_update f d" for f] sd_inv_def [of d])

lemma sd_inv_write: "sd_inv d \<Longrightarrow> sd_inv (write_stream env (restart_stream env d))"
  by (simp add: sd_inv_def write_stream_def restart_stream_def)

lemma sd_inv_keep: "sd_inv d \<Longrightarrow> sd_inv (keep_fraction n d)"
  by (auto simp: sd_inv_def keep_fraction_def slice_def)

lemma sd_inv_filled:
  "sd_inv d \<Longrightarrow> i + length xs \<le> length (sd_buffer d) \<Longrightarrow> m < 4 \<Longrightarrow> sd_inv (d\<lparr>sd_buffer := blit (sd_buffer d) i xs, sd_residual := m\<rparr>)"
  by (simp add: sd_inv_def)

lemma sd_inv_turn:
  assumes "sd_inv d" and "daemon_turn env d = Some (b, d')"
  shows "sd_inv d'"
proof (cases "de_poll env = PollReadable \<and> de_read env \<noteq> []")
  case False
  then show ?thesis using assms by (cases "de_poll env") (auto simp: daemon_turn_def)
next
  case True
  define t where "t = length (de_read env) + sd_residual d"
  define d1 where "d1 = d\<lparr>sd_buffer := blit (sd_buffer d) (sd_residual d) (de_read env), sd_residual := t mod 4\<rparr>"
  have "sd_inv d1" if "sd_residual d + length (de_read env) \<le> length (sd_buffer d)"
    unfolding d1_def using assms(1) that by (rule sd_inv_filled) simp
  moreover have "sd_residual d + length (de_read env) \<le> length (sd_buffer d) \<and>
      d' \<in> {reconnect env d1, keep_fraction (t div 4) (write_stream env (restart_stream env d1)), keep_fraction (t div 4) d1}"
    using assms(2) True unfolding daemon_turn_def Let_def d1_def t_def frame_bytes by (auto split: if_splits)
  ultimately show ?thesis using sd_inv_reconnect sd_inv_write sd_inv_keep by blast
qed

text \<open>A read gives at most the bytes it has room for: that is what \<^verbatim>\<open>read\<close> promises.\<close>

definition read_fits :: "daemon_env \<Rightarrow> stream_daemon \<Rightarrow> bool" where
  "read_fits env d \<longleftrightarrow> length (de_read env) \<le> daemon_buffer_bytes - sd_residual d"

lemma daemon_turn_defined:
  assumes "sd_inv d" and "read_fits env d"
  shows "daemon_turn env d \<noteq> None"
proof -
  have "sd_residual d + length (de_read env) \<le> length (sd_buffer d)" using assms by (auto simp: sd_inv_def read_fits_def)
  then show ?thesis unfolding daemon_turn_def Let_def by (auto split: poll_result.splits)
qed

lemma sd_inv_loop: "sd_inv d \<Longrightarrow> daemon_loop es d = Some d' \<Longrightarrow> sd_inv d'"
proof (induction es d rule: daemon_loop.induct)
  case (2 stop env es d)
  then show ?case by (auto dest: sd_inv_turn split: if_splits option.splits bool.splits)
qed simp

lemma read_fits_any: "sd_inv d \<Longrightarrow> length (de_read env) \<le> 3837 \<Longrightarrow> read_fits env d"
  by (auto simp: sd_inv_def read_fits_def)

lemma daemon_loop_defined:
  "sd_inv d \<Longrightarrow> \<forall>e \<in> set es. length (de_read (snd e)) \<le> 3837 \<Longrightarrow> \<exists>d'. daemon_loop es d = Some d'"
proof (induction es d rule: daemon_loop.induct)
  case (2 stop env es d)
  have "daemon_turn env d \<noteq> None" using 2(2,3) daemon_turn_defined read_fits_any by simp
  then obtain b d' where "daemon_turn env d = Some (b, d')" by auto
  then show ?case using 2 sd_inv_turn by (cases b) auto
qed simp

text \<open>
  The daemon closes every stream it opens, exactly once and in order, whatever the system answers, and
  when every read is at most 3837 bytes long (the room there always is) it never runs over its buffer.
\<close>

theorem daemon_closes_streams:
  assumes "\<forall>e \<in> set es. length (de_read (snd e)) \<le> 3837"
  shows "\<exists>rc d. daemon_main fifo_ok fd_ok builder_ok open_ok es = Some (rc, d) \<and> sd_closed d = sd_opened d \<and> sd_stream d = None"
proof -
  obtain ok d where o: "open_stream builder_ok open_ok daemon_init = (ok, d)" by (cases "open_stream builder_ok open_ok daemon_init")
  have i: "sd_inv d" using sd_inv_open [OF sd_inv_init, of builder_ok open_ok] o by simp
  obtain d' where l: "daemon_loop es d = Some d'" using daemon_loop_defined [OF i assms] by blast
  have "sd_closed (daemon_finish d') = sd_opened (daemon_finish d') \<and> sd_stream (daemon_finish d') = None"
    using sd_inv_loop [OF i l] by (auto simp: sd_inv_def daemon_finish_def split: option.splits)
  moreover have "\<not> ok \<longrightarrow> sd_closed d = sd_opened d \<and> sd_stream d = None"
    using o by (auto simp: open_stream_def daemon_init_def Let_def split: if_splits)
  ultimately show ?thesis using l o by (auto simp: daemon_main_def daemon_init_def split: bool.splits)
qed

section \<open>The order of the audio\<close>

text \<open>A turn in which the stream takes every whole frame.\<close>

definition healthy_turn :: "daemon_env \<Rightarrow> stream_daemon \<Rightarrow> bool" where
  "healthy_turn env d \<longleftrightarrow> de_poll env = PollReadable \<and> de_read env \<noteq> [] \<and> read_fits env d \<and>
     de_state env \<noteq> StreamDisconnected \<and>
     de_write env = int ((sd_residual d + length (de_read env)) div kDaemonBytesPerFrame)"

fun healthy_run :: "daemon_env list \<Rightarrow> stream_daemon \<Rightarrow> bool" where
  "healthy_run [] d \<longleftrightarrow> True"
| "healthy_run (env # es) d \<longleftrightarrow> healthy_turn env d \<and> healthy_run es (snd (the (daemon_turn env d)))"

text \<open>What has been read and not been played yet.\<close>

definition sd_fraction :: "stream_daemon \<Rightarrow> byte list" where
  "sd_fraction d = take (sd_residual d) (sd_buffer d)"

lemma daemon_healthy_step:
  assumes "sd_inv d" and "sd_stream d \<noteq> None" and "healthy_turn env d"
  shows "\<exists>d'. daemon_turn env d = Some (True, d') \<and> sd_inv d' \<and> sd_stream d' = sd_stream d \<and>
              sd_played d' @ sd_fraction d' = sd_played d @ sd_fraction d @ de_read env"
proof -
  define r n where "r = sd_residual d" and "n = length (de_read env)"
  define buf where "buf = blit (sd_buffer d) r (de_read env)"
  have fit: "r + n \<le> 3840" "length (sd_buffer d) = 3840" "r < 4"
    using assms(1,3) by (auto simp: sd_inv_def healthy_turn_def read_fits_def r_def n_def)
  have front: "take (r + n) buf = sd_fraction d @ de_read env"
    using fit by (simp add: buf_def blit_def sd_fraction_def r_def [symmetric] n_def [symmetric])
  have len: "length buf = 3840" using fit by (simp add: buf_def n_def)
  define f where "f = (r + n) div 4"
  have split: "take (f * 4) buf @ slice (f * 4) ((r + n) mod 4) buf = take (r + n) buf"
  proof -
    have "take (f * 4 + (r + n) mod 4) buf = take (f * 4) buf @ take ((r + n) mod 4) (drop (f * 4) buf)" by (simp add: take_add)
    then show ?thesis by (simp add: slice_def f_def)
  qed
  define d1 where "d1 = d\<lparr>sd_buffer := buf, sd_residual := (r + n) mod 4\<rparr>"
  define d2 where "d2 = (if f > 0 then write_stream env (restart_stream env d1) else d1)"
  have d2: "sd_buffer d2 = buf" "sd_residual d2 = (r + n) mod 4" "sd_stream d2 = sd_stream d"
    "sd_played d2 = sd_played d @ take (f * 4) buf"
    using assms(3) by (simp_all add: d2_def d1_def write_stream_def restart_stream_def healthy_turn_def f_def r_def n_def)
  have t: "daemon_turn env d = Some (True, keep_fraction f d2)"
    using assms(2,3) fit by (auto simp: daemon_turn_def healthy_turn_def Let_def d2_def d1_def f_def r_def n_def buf_def add.commute)
  have "(r + n) mod 4 \<le> 3840 - f * 4" using fit(1) unfolding f_def by presburger
  then have "sd_fraction (keep_fraction f d2) = slice (f * 4) ((r + n) mod 4) buf"
    using len fit by (auto simp: sd_fraction_def keep_fraction_def d2 blit_def slice_def)
  then have "sd_played (keep_fraction f d2) @ sd_fraction (keep_fraction f d2) = sd_played d @ sd_fraction d @ de_read env"
    unfolding front [symmetric] split [symmetric] by (simp add: keep_fraction_def d2)
  moreover have "sd_stream (keep_fraction f d2) = sd_stream d" by (simp add: keep_fraction_def d2)
  ultimately show ?thesis using t sd_inv_turn [OF assms(1) t] by blast
qed

text \<open>
  While the stream takes what it is given, every byte fed into the pipe is played, once and in order,
  however the reads cut frames apart: what was played, followed by the fraction of a frame that is
  left, is what was read.
\<close>

theorem daemon_in_order:
  assumes "sd_inv d" and "sd_stream d \<noteq> None" and "healthy_run es d"
  shows "\<exists>d'. daemon_loop (map (\<lambda>e. (False, e)) es) d = Some d' \<and>
              sd_played d' @ sd_fraction d' = sd_played d @ sd_fraction d @ concat (map de_read es)"
  using assms
proof (induction es arbitrary: d)
  case (Cons env es)
  from Cons.prems(3) have h: "healthy_turn env d" by simp
  from daemon_healthy_step [OF Cons.prems(1,2) h] obtain d1 where d1: "daemon_turn env d = Some (True, d1)" "sd_inv d1"
    "sd_stream d1 = sd_stream d" "sd_played d1 @ sd_fraction d1 = sd_played d @ sd_fraction d @ de_read env" by blast
  have "healthy_run es d1" "sd_stream d1 \<noteq> None" using Cons.prems(2,3) d1(1,3) by simp_all
  from Cons.IH [OF d1(2) this(2,1)] obtain d' where d': "daemon_loop (map (\<lambda>e. (False, e)) es) d1 = Some d'"
    "sd_played d' @ sd_fraction d' = sd_played d1 @ sd_fraction d1 @ concat (map de_read es)" by blast
  have "sd_played d' @ sd_fraction d' = (sd_played d1 @ sd_fraction d1) @ concat (map de_read es)" using d'(2) by simp
  then show ?case using d1(1) d'(1) unfolding d1(4) by simp
qed simp

text \<open>Two turns: seven bytes of two frames, and the byte that was missing.\<close>

definition good_turn :: "byte list \<Rightarrow> int \<Rightarrow> daemon_env" where
  "good_turn bs frames =
     \<lparr>de_poll = PollReadable, de_read = bs, de_state = StreamOther, de_now_ns = 0, de_builder_ok = True, de_open_ok = True,
      de_write = frames\<rparr>"

definition playing_daemon :: stream_daemon where
  "playing_daemon = snd (open_stream True True daemon_init)"

lemma playing_daemon_simps:
  "sd_inv playing_daemon" "sd_stream playing_daemon = Some 0" "sd_residual playing_daemon = 0" "sd_played playing_daemon = []"
  "length (sd_buffer playing_daemon) = 3840" "sd_last_rebuild_ns playing_daemon = 0" "sd_opened playing_daemon = [0]"
  using sd_inv_open [OF sd_inv_init, of True True] by (simp_all add: playing_daemon_def open_stream_def daemon_init_def)

theorem daemon_in_order_witness:
  "\<exists>d'. daemon_loop [(False, good_turn [1, 2, 3, 4, 5, 6, 7] 1)] playing_daemon = Some d' \<and>
        sd_played d' @ sd_fraction d' = [1, 2, 3, 4, 5, 6, 7]"
proof -
  have "healthy_run [good_turn [1, 2, 3, 4, 5, 6, 7] 1] playing_daemon"
    by (simp add: healthy_turn_def good_turn_def read_fits_def playing_daemon_simps)
  from daemon_in_order [OF _ _ this] show ?thesis by (simp add: playing_daemon_simps good_turn_def sd_fraction_def)
qed

theorem daemon_closes_streams_witness:
  "\<exists>rc d. daemon_main True True True True [(False, good_turn [1, 2, 3, 4, 5, 6, 7] 1)] = Some (rc, d) \<and> sd_closed d = sd_opened d"
  using daemon_closes_streams [of "[(False, good_turn [1, 2, 3, 4, 5, 6, 7] 1)]" True True True True] by (auto simp: good_turn_def)

section \<open>Reconnecting\<close>

text \<open>
  A turn makes a new stream only when a second has passed since the last attempt; then the clock of the
  attempt is kept, so that two attempts are never closer than a second.
\<close>

theorem reconnect_rate_limited:
  assumes "sd_last_rebuild_ns (reconnect env d) \<noteq> sd_last_rebuild_ns d \<or> sd_opened (reconnect env d) \<noteq> sd_opened d"
  shows "sd_last_rebuild_ns d + kMinRebuildIntervalNs \<le> de_now_ns env \<and> sd_last_rebuild_ns (reconnect env d) = de_now_ns env"
  using assms by (auto simp: reconnect_def open_stream_def Let_def split: if_splits option.splits)

theorem reconnect_rate_limited_witness:
  "sd_last_rebuild_ns playing_daemon + kMinRebuildIntervalNs \<le> 2000000000 \<and>
   sd_last_rebuild_ns (reconnect ((good_turn [] 0)\<lparr>de_now_ns := 2000000000\<rparr>) playing_daemon) = 2000000000"
  using reconnect_rate_limited [of "(good_turn [] 0)\<lparr>de_now_ns := 2000000000\<rparr>" playing_daemon]
  by (auto simp: reconnect_def open_stream_def kMinRebuildIntervalNs_def good_turn_def playing_daemon_simps Let_def split: option.splits)

text \<open>
  A turn that finds the stream disconnected ends before the left-over bytes are moved to the front: after
  five bytes of which the last begins a new frame, the frame that is played next begins with the first
  byte read instead of the fifth.
\<close>

theorem reconnect_corrupts_frame:
  assumes "sd_inv d" and "sd_stream d \<noteq> None" and "sd_residual d = 0" and "sd_played d = []"
    and "de_poll lost = PollReadable" and "de_read lost = [a, b, c, e, f]" and "de_state lost = StreamDisconnected"
    and "sd_last_rebuild_ns d + kMinRebuildIntervalNs \<le> de_now_ns lost" and "de_builder_ok lost" and "de_open_ok lost"
    and "de_poll nxt = PollReadable" and "de_read nxt = [x, y, z]" and "de_state nxt = StreamOther" and "de_write nxt = 1"
  shows "\<exists>d'. daemon_loop [(False, lost), (False, nxt)] d = Some d' \<and> sd_played d' = [a, x, y, z]"
proof -
  obtain q where q: "sd_buffer d = q" "length q = 3840" using assms(1) by (simp add: sd_inv_def)
  define d1 where "d1 = reconnect lost (d\<lparr>sd_buffer := blit q 0 [a, b, c, e, f], sd_residual := 1\<rparr>)"
  have t1: "daemon_turn lost d = Some (True, d1)"
    using assms(2,3,5,6,7) q by (simp add: daemon_turn_def d1_def Let_def)
  have d1: "sd_residual d1 = 1" "sd_buffer d1 = blit q 0 [a, b, c, e, f]" "sd_stream d1 \<noteq> None" "sd_played d1 = []"
    using assms(4,8,9,10) by (auto simp: d1_def reconnect_def open_stream_def Let_def split: option.splits)
  have "\<exists>d'. daemon_turn nxt d1 = Some (True, d') \<and> sd_played d' = [a, x, y, z]"
    using d1 q assms(11-14) by (auto simp: daemon_turn_def Let_def write_stream_def restart_stream_def keep_fraction_def blit_def)
  then show ?thesis using t1 by auto
qed

theorem reconnect_corrupts_frame_witness:
  "\<exists>d'. daemon_loop [(False, (good_turn [1, 2, 3, 4, 5] 0)\<lparr>de_now_ns := 2000000000, de_state := StreamDisconnected\<rparr>),
                     (False, good_turn [6, 7, 8] 1)] playing_daemon = Some d' \<and> sd_played d' = [1, 6, 7, 8]"
  by (rule reconnect_corrupts_frame) (simp_all add: playing_daemon_simps good_turn_def kMinRebuildIntervalNs_def)

end
