(* ===== verification/Spec2Isabelle.thy ===== *)
theory Spec2Isabelle
  imports Common_Compat Ring_Buffer Jitter_Playout End_To_End Aaudio Agm_Watcher Wasapi_Session Termux_Session
    Player_Open Program_Runs Stream_Daemon
begin

text \<open>
  AudioRouter sends the sound of a PC to a phone. A server on the PC captures the audio, mutes the
  PC's own speaker and sends the audio in UDP datagrams; a client on the phone puts the packets in
  order in a jitter buffer and plays them through one of several output backends. Over USB the
  datagrams travel as length-prefixed frames on a TCP tunnel. This library models the C++ sources
  under \<^verbatim>\<open>src/\<close> and proves what makes them correct, and in some places what they get wrong.

  \<^bold>\<open>How the model reads.\<close> A class is a \<^verbatim>\<open>record\<close> of its members, a member function a function on that
  record, an enumeration a \<^verbatim>\<open>datatype\<close>. Fixed-width integers are words (\<open>u8\<close> to \<open>u64\<close>, \<open>i16\<close> of \<open>Prelude\<close>) and
  wrap; \<^verbatim>\<open>size_t\<close> is \<^verbatim>\<open>nat\<close>, with \<open>size_sub\<close> where a difference can wrap. \<^verbatim>\<open>float\<close> and \<^verbatim>\<open>double\<close> are the values of
  \<open>Floating\<close>: rationals rounded to binary32 or binary64, infinities and NaN. \<^verbatim>\<open>audiorouter::expected\<close> is a sum.
  \<open>None\<close> of an operation is undefined behaviour (an access behind the end of a buffer, a float that does
  not fit its integer), an exception, or a loop that does not end; every theory says which. Code
  outside \<^verbatim>\<open>src/\<close> (the kernel, libasound, libpulse, libaaudio, the Termux:API app, Windows) is an argument: a
  function, a list of call results, or a record of both. A clock is an argument of the step that reads
  it. A mutex makes an operation one step, and so are the stops of server and client, which hold none; threads
  are interleavings of steps, and the inductive predicates \<open>server_reach\<close>, \<open>session_run\<close>, \<open>client_reach\<close>, \<open>open_reachable\<close>, \<open>jb_reachable\<close> and \<open>termux_reach\<close> contain every
  order of them.

  \<^bold>\<open>Shared theories.\<close> \<open>Prelude\<close> holds the integer types, the little-endian codecs and list lemmas;
  \<open>Text_Util\<close> what is used of \<^verbatim>\<open>std::string\<close> and the number parsers, with the round trip of decimal
  numbers; \<open>Floating\<close> the IEEE arithmetic with lemmas on exact and bounded results.

  \<^bold>\<open>Common code\<close> (\<^verbatim>\<open>src/common\<close>).
  \<^item> \<open>Audio_Types\<close>, \<open>Audio_Converter\<close> (\<^verbatim>\<open>audio_types.hpp\<close>): stream formats and their validation; conversion,
    volume and downmixing, defined for every float but NaN, and with bounded results.
  \<^item> \<open>Protocol\<close> (\<^verbatim>\<open>protocol.hpp\<close>): every message with its packed encoding; encoding and decoding are inverse,
    and an accepted header never points behind its datagram.
  \<^item> \<open>Ring_Buffer\<close> (\<^verbatim>\<open>ring_buffer.hpp\<close>): the circular array refines a bounded queue (locale \<open>bounded_fifo\<close>).
  \<^item> \<open>Usb_Tunnel\<close> (\<^verbatim>\<open>usb_tunnel.hpp\<close>): framing and reassembly; frames survive any fragmentation.
  \<^item> \<open>Socket_Util\<close> (\<^verbatim>\<open>socket_util.{hpp,cpp}\<close>): addresses, socket wrappers that own one handle (locale
    \<open>handle_owner\<close>), time-outs, the interfaces of both systems and the choice of one, the initialisation of Winsock.
  \<^item> \<open>Common_Compat\<close> (\<^verbatim>\<open>logger.hpp\<close>, \<^verbatim>\<open>time_util.hpp\<close>, \<^verbatim>\<open>expected_compat.hpp\<close>, \<^verbatim>\<open>span_compat.hpp\<close>): the log holds the whole
    lines of the chosen levels in order, the clocks do not go back, a part of a span is the slice it names.

  \<^bold>\<open>Server\<close> (\<^verbatim>\<open>src/server\<close>).
  \<^item> \<open>Endpoint_Control\<close>: muting and restoring the speaker, the Windows one with all its return paths and the
    one of other systems; the contract is the locale \<open>speaker_control\<close>. \<open>speaker\<close> is the object of either build, and
    what the server theories run on. On Windows a method restores only the controls it names.
  \<^item> \<open>Capture\<close>: the engines behind \<^verbatim>\<open>IAudioCapture\<close> (locale \<open>capture_engine\<close>), the tone generator, and the
    conversion of a WASAPI block. \<open>Wasapi_Session\<close> (\<^verbatim>\<open>wasapi_capture.cpp\<close> on Windows) makes the COM calls of a start one by one:
    sessions that start give everything back, the thread returns every buffer it is lent, a 16-bit stereo
    device is captured exactly; a start that fails leaks.
  \<^item> \<open>Server\<close> (\<^verbatim>\<open>server.{hpp,cpp}\<close>): every message handler, the watchdog, cutting captured audio into packets,
    start, stop and the relay. \<open>Server_Session\<close> proves, for all executions: it streams only to a valid client
    with a running engine; the mark that the speaker is silenced is set exactly then, the speaker is
    silent until the client commands otherwise, and each session gives back what its mute method
    changed; audio is cut without loss; every reply is one a client accepts. A client whose engine does
    not start is not served but can still command the speaker (\<open>refused_client_mutes\<close>).

  \<^bold>\<open>Client\<close> (\<^verbatim>\<open>src/client\<close>).
  \<^item> \<open>Jitter_Buffer\<close> (definitions, invariant) and \<open>Jitter_Playout\<close> (\<^verbatim>\<open>jitter_buffer.{hpp,cpp}\<close>): every operation
    is defined and keeps the invariant; packets come out in order across the wrap of the sequence
    number; playback equals a reference function on the packets from the playhead on, with one packet of
    silence for a gap; the scan for available frames equals its specification.
  \<^item> \<open>Device_Open\<close> (\<^verbatim>\<open>client.cpp\<close>, lines 26 to 412): the supervisor and its attempt threads. At most one device
    stays open, a live one is never displaced, every strategy but the legacy one has bounded attempts, and the
    supervisor ends, for the legacy one once it is told to. \<open>Player_Open\<close> is the bounded wait of \<open>start\<close> for it.
  \<^item> \<open>Client\<close>, \<open>Client_Session\<close>, \<open>Client_Stream\<close> (\<^verbatim>\<open>client.{hpp,cpp}\<close>): discovery, handshake, start, stop, the three
    threads, commands and the relay; the invariant of a running client, the outcome of a handshake, and
    what a playback turn does.
  \<^item> \<open>Player\<close> (\<^verbatim>\<open>audio_player.hpp\<close>, \<^verbatim>\<open>dummy_player\<close>): the contract of a backend as the locale \<open>audio_player\<close>: a
    write takes at most the frames it is given and keeps the invariant, a closed backend takes nothing, and
    closing closes. It is interpreted for the dummy sink, \<open>Pulse\<close>, \<open>Direct_Alsa\<close>, \<open>Aaudio\<close>, \<open>Agm\<close> and the
    Termux:API player; \<open>Alsa\<close> meets it when libasound never reports more frames than it was given.
  \<^item> \<open>Android_Helpers\<close>, \<open>Pulse\<close>, \<open>Direct_Alsa\<close>, \<open>Alsa\<close>, \<open>Aaudio\<close>, \<open>Agm\<close>: the file of the same name each; device
    syntax, opening with every fall back, the write loops with their recovery, and delays. \<open>Agm_Watcher\<close> adds the watcher
    thread and its child: what it opens and closes, how often it checks the speaker route, and that a
    lost route is repaired by the next write.
  \<^item> \<open>Termux_Api\<close>, \<open>Termux_Player\<close>, \<open>Termux_Session\<close> (\<^verbatim>\<open>termux_api_player.{hpp,cpp}\<close>): commands to the app with every
    descriptor they open and close; the ring of WAV files; the issuer and the watchdog. No command
    leaks a descriptor, the gate computed in doubles is the exact one, a segment file is the header, the
    recorded audio and silence, and it is kept until its slot comes round again or the app has confirmed
    another play.
  \<^item> \<open>Main_Programs\<close> (both \<^verbatim>\<open>main.cpp\<close>): from the command line to the configuration, for any list of options
    (locale \<open>option_parser\<close>). \<open>Program_Runs\<close>: signals, what is printed, and every way the programs end; a server that returns
    has restored the speaker if its engine always started, a client that returns has closed its socket and its player.
  \<^item> \<open>Stream_Daemon\<close> (\<^verbatim>\<open>src/tools/stream_daemon.cpp\<close>): the stand-alone copy of a pipe into AAudio; it closes every
    stream it opens, never runs over its buffer, and plays every byte in order while its stream takes them.

  \<^bold>\<open>Composition.\<close> \<open>End_To_End\<close> feeds what one side sends into the handlers of the other: the agreed format,
  captured audio into the jitter buffer, heartbeats, commands, the end of a session, and both relays on
  one tunnel.

  \<^bold>\<open>Loops and bounds.\<close> Loops that end are recursive functions with a measure, and need no fuel. Two loops
  of the jitter buffer and the packet loop of the server are \<^verbatim>\<open>partial_function (option)\<close>; \<open>pop_frames_total\<close> and
  \<open>audio_chunking_lossless\<close> show that they return. The boundary loop of \<open>Direct_Alsa\<close> is one too, and is proved not to
  return. A loop over system calls takes the list of their results; when the list ends before the loop does the result is
  \<open>None\<close>. The device supervisor is a step function; \<open>supervisor_terminates\<close> bounds its steps in every
  interleaving. The bound of 256 packets in \<open>captured_audio_reaches_playout\<close> is the number of slots of the jitter buffer.

  \<^bold>\<open>Not modelled.\<close> What Windows, the kernel and the libraries do inside a call, and what a child process does after \<^verbatim>\<open>fork\<close>: their
  results are arguments. The usage texts and the drawing of the logos, and the texts that are logged. The
  thread shim that no file uses, and the tests. The steps inside the stop of a server or a client are not interleaved with a running
  handler. Data races on members that the
  code reads without their mutex are visible only between the steps of the model.
\<close>

end
